(* ===== verification/Prelude.thy ===== *)
theory Prelude
  imports Main "HOL-Library.Word" "HOL-Library.AList" "HOL-Library.Signed_Division"
begin

text \<open>
  What every component shares: the machine integers of the Rust code, the standard library
  containers it uses (\<open>HashMap\<close> as an association list with distinct keys, \<open>BTreeMap\<close> as an
  association list with increasing keys), and the lemmas that carry the component proofs.

  An unsigned integer is a word. A signed \<open>i64\<close> is an \<open>int\<close> whose operations write the
  wrap-around of the release profile out (\<open>Cargo.toml\<close> sets no overflow checks): \<open>add64\<close>,
  \<open>sub64\<close>, \<open>mul64\<close>, \<open>neg64\<close> and \<open>abs64\<close> reduce their result into the range of \<open>i64\<close>.
  Division panics on a zero divisor and on \<open>MIN / -1\<close>, so it returns an option.
\<close>

section \<open>Machine integers\<close>

type_synonym u8 = "8 word"
type_synonym u16 = "16 word"
type_synonym u32 = "32 word"
type_synonym u64 = "64 word"
type_synonym i64 = int

named_theorems i64_simps "results of i64 operations that stay in range"

definition i64_min :: int where "i64_min = - (2 ^ 63)"

definition i64_max :: int where "i64_max = 2 ^ 63 - 1"

definition i64_ok :: "int \<Rightarrow> bool" where
  "i64_ok x \<longleftrightarrow> i64_min \<le> x \<and> x \<le> i64_max"

definition wrap64 :: "int \<Rightarrow> int" where
  "wrap64 x = (x + 2 ^ 63) mod 2 ^ 64 - 2 ^ 63"

definition add64 :: "i64 \<Rightarrow> i64 \<Rightarrow> i64" where "add64 a b = wrap64 (a + b)"

definition sub64 :: "i64 \<Rightarrow> i64 \<Rightarrow> i64" where "sub64 a b = wrap64 (a - b)"

definition mul64 :: "i64 \<Rightarrow> i64 \<Rightarrow> i64" where "mul64 a b = wrap64 (a * b)"

definition neg64 :: "i64 \<Rightarrow> i64" where "neg64 a = wrap64 (- a)"

definition abs64 :: "i64 \<Rightarrow> i64" where "abs64 a = (if a < 0 then neg64 a else a)"

definition div64 :: "i64 \<Rightarrow> i64 \<Rightarrow> i64 option" where
  "div64 a b = (if b = 0 \<or> (a = i64_min \<and> b = - 1) then None else Some (a sdiv b))"

text \<open>The sum of an iterator of \<open>i64\<close>: additions from 0, in order.\<close>

definition sum64 :: "i64 list \<Rightarrow> i64" where "sum64 xs = foldl add64 0 xs"

lemma i64_ok_wrap64: "i64_ok (wrap64 x)"
  using pos_mod_bound [of "2 ^ 64" "x + 2 ^ 63"] pos_mod_sign [of "2 ^ 64" "x + 2 ^ 63"]
  by (simp add: i64_ok_def i64_min_def i64_max_def wrap64_def)

lemma wrap64_id: "i64_ok x \<Longrightarrow> wrap64 x = x"
  by (simp add: i64_ok_def i64_min_def i64_max_def wrap64_def)

lemma i64_ok_0 [simp]: "i64_ok 0"
  by (simp add: i64_ok_def i64_min_def i64_max_def)

lemma wrap64_0 [simp]: "wrap64 0 = 0"
  by (simp add: wrap64_id)

lemma add64_id [i64_simps]: "i64_ok (a + b) \<Longrightarrow> add64 a b = a + b"
  by (simp add: add64_def wrap64_id)

lemma sub64_id [i64_simps]: "i64_ok (a - b) \<Longrightarrow> sub64 a b = a - b"
  by (simp add: sub64_def wrap64_id)

lemma mul64_id [i64_simps]: "i64_ok (a * b) \<Longrightarrow> mul64 a b = a * b"
  by (simp add: mul64_def wrap64_id)

lemma neg64_id [i64_simps]: "i64_ok (- a) \<Longrightarrow> neg64 a = - a"
  by (simp add: neg64_def wrap64_id)

lemma sub64_self [simp]: "sub64 a a = 0"
  by (simp add: sub64_def)

lemma i64_ok_add64 [simp]: "i64_ok (add64 a b)"
  by (simp add: add64_def i64_ok_wrap64)

lemma i64_ok_sub64 [simp]: "i64_ok (sub64 a b)"
  by (simp add: sub64_def i64_ok_wrap64)

lemma i64_ok_mul64 [simp]: "i64_ok (mul64 a b)"
  by (simp add: mul64_def i64_ok_wrap64)

lemma i64_ok_between: "0 \<le> x \<Longrightarrow> x \<le> y \<Longrightarrow> i64_ok y \<Longrightarrow> i64_ok x"
  by (simp add: i64_ok_def i64_min_def)

lemma sum64_exact:
  assumes "\<forall>x \<in> set xs. 0 \<le> x" and "i64_ok (a + sum_list xs)" and "0 \<le> a"
  shows "foldl add64 a xs = a + sum_list xs"
  using assms
proof (induction xs arbitrary: a)
  case (Cons x xs)
  have nn: "0 \<le> sum_list xs"
    using Cons.prems(1) by (intro sum_list_nonneg) auto
  have "i64_ok (a + x)"
    by (rule i64_ok_between [OF _ _ Cons.prems(2)]) (use Cons.prems(1,3) nn in simp_all)
  then have ax: "add64 a x = a + x" by (rule add64_id)
  have "foldl add64 (a + x) xs = a + x + sum_list xs"
    by (rule Cons.IH) (use Cons.prems in \<open>simp_all add: add.assoc\<close>)
  with ax show ?case by (simp add: add.assoc)
qed simp

section \<open>Hash maps as association lists\<close>

text \<open>
  A \<open>HashMap\<close> is an association list with distinct keys: \<open>map_of\<close> looks up,
  \<open>AList.update\<close> inserts or overwrites, \<open>AList.delete\<close> removes. The order of the list stands
  for the unspecified iteration order of the Rust map; no property depends on it.
\<close>

type_synonym ('k, 'v) hashmap = "('k \<times> 'v) list"

abbreviation keys_distinct :: "('k \<times> 'v) list \<Rightarrow> bool" where
  "keys_distinct m \<equiv> distinct (map fst m)"

definition get_or :: "'v \<Rightarrow> ('k \<times> 'v) list \<Rightarrow> 'k \<Rightarrow> 'v" where
  "get_or d m k = (case map_of m k of None \<Rightarrow> d | Some v \<Rightarrow> v)"

lemma map_of_update [simp]: "map_of (AList.update k v m) = (map_of m)(k \<mapsto> v)"
  by (rule update_conv')

lemma map_of_delete [simp]: "map_of (AList.delete k m) = (map_of m)(k := None)"
  by (rule delete_conv')

lemma get_or_update [simp]: "get_or d (AList.update k v m) k' = (if k' = k then v else get_or d m k')"
  by (simp add: get_or_def)

lemma set_delete: "set (AList.delete k m) = {p \<in> set m. fst p \<noteq> k}"
  by (auto simp: AList.delete_eq)

section \<open>Ordered maps as increasing association lists\<close>

text \<open>
  A \<open>BTreeMap\<close> is an association list with strictly increasing keys. \<open>keys().next()\<close> is the
  first entry, \<open>keys().next_back()\<close> the last; \<open>entry(k).or_insert_with\<close> followed by a write is
  \<open>bt_insert\<close>; a write through \<open>get_mut\<close> to a present key is \<open>AList.update\<close>.
\<close>

definition bt_ok :: "('k::linorder \<times> 'v) list \<Rightarrow> bool" where
  "bt_ok m \<longleftrightarrow> sorted_wrt (<) (map fst m)"

fun bt_insert :: "'k::linorder \<Rightarrow> 'v \<Rightarrow> ('k \<times> 'v) list \<Rightarrow> ('k \<times> 'v) list" where
  "bt_insert k v [] = [(k, v)]"
| "bt_insert k v (e # m) =
     (if k < fst e then (k, v) # e # m
      else if k = fst e then (k, v) # m
      else e # bt_insert k v m)"

definition bt_first :: "('k \<times> 'v) list \<Rightarrow> ('k \<times> 'v) option" where
  "bt_first m = (case m of [] \<Rightarrow> None | e # _ \<Rightarrow> Some e)"

definition bt_last :: "('k \<times> 'v) list \<Rightarrow> ('k \<times> 'v) option" where
  "bt_last m = (if m = [] then None else Some (last m))"

lemma bt_ok_Nil [simp]: "bt_ok []"
  by (simp add: bt_ok_def)

lemma bt_ok_Cons: "bt_ok (e # m) \<longleftrightarrow> (\<forall>x \<in> set m. fst e < fst x) \<and> bt_ok m"
  by (auto simp: bt_ok_def)

lemma bt_ok_append:
  "bt_ok (xs @ ys) \<longleftrightarrow> bt_ok xs \<and> bt_ok ys \<and> (\<forall>x \<in> set xs. \<forall>y \<in> set ys. fst x < fst y)"
  by (auto simp: bt_ok_def sorted_wrt_append)

lemma bt_ok_distinct: "bt_ok m \<Longrightarrow> keys_distinct m"
  by (simp add: bt_ok_def strict_sorted_iff)

lemma bt_ok_filter: "bt_ok m \<Longrightarrow> bt_ok (filter P m)"
  by (induction m) (auto simp: bt_ok_Cons)

lemma bt_ok_delete: "bt_ok m \<Longrightarrow> bt_ok (AList.delete k m)"
  by (simp add: AList.delete_eq bt_ok_filter)

lemma bt_first_Some: "bt_first m = Some e \<Longrightarrow> \<exists>m'. m = e # m'"
  by (cases m) (auto simp: bt_first_def)

lemma bt_last_Some: "bt_last m = Some e \<Longrightarrow> \<exists>m'. m = m' @ [e]"
  by (cases m rule: rev_cases) (auto simp: bt_last_def)

lemma bt_first_None [simp]: "bt_first m = None \<longleftrightarrow> m = []"
  by (simp add: bt_first_def split: list.splits)

lemma bt_last_None [simp]: "bt_last m = None \<longleftrightarrow> m = []"
  by (simp add: bt_last_def)

text \<open>
  A lookup splits the map around the entry; update, delete and insert then act on the split.
  Every proof about a price level goes through these four lemmas.
\<close>

lemma bt_lookup_split:
  assumes "bt_ok m" and "map_of m k = Some v"
  obtains ys zs where "m = ys @ (k, v) # zs"
    "\<forall>x \<in> set ys. fst x < k" "\<forall>x \<in> set zs. k < fst x"
proof -
  from assms(2) have "(k, v) \<in> set m" by (rule map_of_SomeD)
  then obtain ys zs where "m = ys @ (k, v) # zs" by (meson split_list)
  with assms(1) show thesis by (intro that [of ys zs]) (auto simp: bt_ok_append bt_ok_Cons)
qed

lemma bt_update_split:
  "\<forall>x \<in> set ys. fst x < k \<Longrightarrow> AList.update k w (ys @ (k, v) # zs) = ys @ (k, w) # zs"
  for k :: "'k::linorder"
  by (induction ys) auto

lemma bt_delete_split:
  "\<forall>x \<in> set ys. fst x < k \<Longrightarrow> \<forall>x \<in> set zs. k < fst x \<Longrightarrow>
   AList.delete k (ys @ (k, v) # zs) = ys @ zs"
  for k :: "'k::linorder"
  by (simp add: AList.delete_eq) (metis (mono_tags, lifting) case_prodI2 filter_True fst_conv less_irrefl)

lemma bt_insert_present:
  "\<forall>x \<in> set ys. fst x < k \<Longrightarrow> bt_insert k w (ys @ (k, v) # zs) = ys @ (k, w) # zs"
  by (induction ys) auto

lemma bt_insert_absent:
  assumes "bt_ok m" and "map_of m k = None"
  obtains ys zs where "m = ys @ zs" "bt_insert k v m = ys @ (k, v) # zs"
    "\<forall>x \<in> set ys. fst x < k" "\<forall>x \<in> set zs. k < fst x"
proof -
  have "\<exists>ys zs. m = ys @ zs \<and> bt_insert k v m = ys @ (k, v) # zs \<and>
      (\<forall>x \<in> set ys. fst x < k) \<and> (\<forall>x \<in> set zs. k < fst x)"
    using assms
  proof (induction m)
    case (Cons e m)
    show ?case
    proof (cases "k < fst e")
      case True
      then show ?thesis using Cons.prems
        by (intro exI [of _ "[]"] exI [of _ "e # m"]) (auto simp: bt_ok_Cons)
    next
      case False
      with Cons.prems have lt: "fst e < k" by (cases e) (auto split: if_splits)
      from Cons.prems have "bt_ok m" "map_of m k = None"
        by (cases e, auto simp: bt_ok_Cons split: if_splits)+
      then obtain ys zs where "m = ys @ zs" "bt_insert k v m = ys @ (k, v) # zs"
        "\<forall>x \<in> set ys. fst x < k" "\<forall>x \<in> set zs. k < fst x"
        using Cons.IH by blast
      with lt show ?thesis by (intro exI [of _ "e # ys"] exI [of _ zs]) auto
    qed
  qed simp
  then show thesis using that by blast
qed

lemma sum_list_update_present:
  fixes f :: "'k \<times> 'v \<Rightarrow> nat"
  assumes "map_of m k = Some v"
  shows "sum_list (map f (AList.update k w m)) + f (k, v) = sum_list (map f m) + f (k, w)"
  using assms by (induction m) (auto split: if_splits)

lemma sum_list_delete_present:
  fixes f :: "'k \<times> 'v \<Rightarrow> nat"
  assumes "map_of m k = Some v"
  shows "sum_list (map f (AList.delete k m)) + f (k, v) \<le> sum_list (map f m)"
  using assms
proof (induction m)
  case (Cons e m)
  have "sum_list (map f (AList.delete k m)) \<le> sum_list (map f m)" for m
    by (induction m) (auto simp: AList.delete_eq)
  with Cons show ?case by (cases e) (auto simp: AList.delete_eq split: if_splits)
qed simp

end
