(* ===== verification/CommonTypes.thy ===== *)
theory CommonTypes
  imports Prelude
begin

text \<open>
  The data that crosses component boundaries: \<open>crates/common/src/types.rs\<close> and
  \<open>crates/common/src/gateway_protocol.rs\<close>. A struct is a record whose field names carry the
  struct's initials (Isabelle's field names are global), an enum is a datatype with the
  source's variants. Identifiers and sequence numbers are words of the source's width; prices,
  quantities and amounts are \<open>i64\<close>. A Rust \<open>String\<close> is the list of its UTF-8 bytes.
\<close>

section \<open>Identifiers, sides, positions and limits\<close>

type_synonym order_id = u64
type_synonym account_id = u32
type_synonym symbol_id = u32
type_synonym price = i64
type_synonym qty = i64

datatype side = Buy | Sell

fun opposite :: "side \<Rightarrow> side" where
  "opposite Buy = Sell"
| "opposite Sell = Buy"

lemma opposite_opposite [simp]: "opposite (opposite s) = s"
  by (cases s) auto

lemma opposite_neq [simp]: "opposite s \<noteq> s" "s \<noteq> opposite s"
  by (cases s; simp)+

record position =
  net_position :: i64
  avg_price :: i64
  realized_pnl :: i64

definition default_position :: position where
  "default_position = \<lparr>net_position = 0, avg_price = 0, realized_pnl = 0\<rparr>"

record risk_limits =
  max_long_position :: i64
  max_short_position :: i64
  max_order_size :: i64

definition default_risk_limits :: risk_limits where
  "default_risk_limits =
     \<lparr>max_long_position = 10000, max_short_position = 10000, max_order_size = 1000\<rparr>"

datatype time_in_force = Gtc | Ioc

record order_flags =
  post_only :: bool

section \<open>Commands\<close>

record new_order =
  no_client_seq :: u64
  no_order_id :: order_id
  no_account_id :: account_id
  no_symbol_id :: symbol_id
  no_side :: side
  no_price :: price
  no_qty :: qty
  no_tif :: time_in_force
  no_flags :: order_flags

record cancel_cmd =
  ca_client_seq :: u64
  ca_order_id :: order_id
  ca_account_id :: account_id
  ca_symbol_id :: symbol_id

record replace_cmd =
  re_client_seq :: u64
  re_order_id :: order_id
  re_account_id :: account_id
  re_symbol_id :: symbol_id
  re_new_price :: price
  re_new_qty :: qty

record set_risk_limits =
  sr_client_seq :: u64
  sr_account_id :: account_id
  sr_symbol_id :: symbol_id
  sr_limits :: risk_limits

record query_account =
  qa_client_seq :: u64
  qa_account_id :: account_id
  qa_symbol_id :: symbol_id

record authenticate_cmd =
  au_api_key :: string

datatype command =
    NewOrder new_order
  | Cancel cancel_cmd
  | Replace replace_cmd
  | SetRiskLimits set_risk_limits
  | QueryAccount query_account
  | Authenticate authenticate_cmd

section \<open>Events\<close>

datatype reject_reason =
    Invalid
  | Risk
  | Overloaded
  | NotFound
  | PostOnlyWouldCross
  | RateLimitExceeded

record ack =
  ak_server_seq :: u64
  ak_client_seq :: u64
  ak_order_id :: order_id

record reject =
  rj_server_seq :: u64
  rj_client_seq :: u64
  rj_order_id :: "order_id option"
  rj_reason :: reject_reason

record fill =
  fi_server_seq :: u64
  fi_client_seq :: u64
  fi_symbol_id :: symbol_id
  fi_taker_order_id :: order_id
  fi_maker_order_id :: order_id
  fi_price :: price
  fi_qty :: qty

record book_top =
  bt_server_seq :: u64
  bt_symbol_id :: symbol_id
  bt_best_bid_px :: "price option"
  bt_best_bid_qty :: "qty option"
  bt_best_ask_px :: "price option"
  bt_best_ask_qty :: "qty option"

record account_state_ev =
  as_server_seq :: u64
  as_client_seq :: u64
  as_account_id :: account_id
  as_symbol_id :: symbol_id
  as_position :: position
  as_risk_limits :: risk_limits

record auth_success =
  ok_account_id :: account_id

record auth_failure =
  fa_reason :: string

datatype event =
    EvAck ack
  | EvReject reject
  | EvFill fill
  | EvBookTop book_top
  | EvAccountState account_state_ev
  | EvAuthSuccess auth_success
  | EvAuthFailure auth_failure

section \<open>Gateway and engine protocol\<close>

record risk_token =
  rt_account_id :: account_id
  rt_reserved_amount :: i64
  rt_gateway_seq :: u64

record execute_command =
  ex_command :: command
  ex_conn_id :: u64
  ex_risk_token :: risk_token

datatype gateway_to_engine =
    Execute execute_command
  | Ping
  | QueryAllOrders

record order_snapshot =
  os_order_id :: order_id
  os_account_id :: account_id
  os_symbol_id :: symbol_id
  os_side :: side
  os_price :: price
  os_qty_rem :: qty
  os_reserved_amount :: i64

datatype engine_to_gateway =
    ClientEvent u64 event "risk_token option"
  | Pong symbol_id nat
  | MarketData symbol_id event
  | AllOrders "order_snapshot list"
  | EngineReady symbol_id "order_snapshot list"

definition execute :: "command \<Rightarrow> u64 \<Rightarrow> risk_token \<Rightarrow> gateway_to_engine" where
  "execute cmd conn_id token =
     Execute \<lparr>ex_command = cmd, ex_conn_id = conn_id, ex_risk_token = token\<rparr>"

definition client_event :: "u64 \<Rightarrow> event \<Rightarrow> risk_token option \<Rightarrow> engine_to_gateway" where
  "client_event conn_id ev token = ClientEvent conn_id ev token"

definition market_data :: "symbol_id \<Rightarrow> event \<Rightarrow> engine_to_gateway" where
  "market_data symbol ev = MarketData symbol ev"

fun command_symbol_id :: "command \<Rightarrow> symbol_id option" where
  "command_symbol_id (NewOrder o') = Some (no_symbol_id o')"
| "command_symbol_id (Cancel c) = Some (ca_symbol_id c)"
| "command_symbol_id (Replace r) = Some (re_symbol_id r)"
| "command_symbol_id (SetRiskLimits s) = Some (sr_symbol_id s)"
| "command_symbol_id (QueryAccount q) = Some (qa_symbol_id q)"
| "command_symbol_id (Authenticate a) = None"

fun command_account_id :: "command \<Rightarrow> account_id option" where
  "command_account_id (NewOrder o') = Some (no_account_id o')"
| "command_account_id (Cancel c) = Some (ca_account_id c)"
| "command_account_id (Replace r) = Some (re_account_id r)"
| "command_account_id (SetRiskLimits s) = Some (sr_account_id s)"
| "command_account_id (QueryAccount q) = Some (qa_account_id q)"
| "command_account_id (Authenticate a) = None"

fun command_order_id :: "command \<Rightarrow> order_id option" where
  "command_order_id (NewOrder o') = Some (no_order_id o')"
| "command_order_id (Cancel c) = Some (ca_order_id c)"
| "command_order_id (Replace r) = Some (re_order_id r)"
| "command_order_id (SetRiskLimits s) = None"
| "command_order_id (QueryAccount q) = None"
| "command_order_id (Authenticate a) = None"

end
