(* ===== verification/SlabSpec.thy ===== *)
theory SlabSpec
  imports Prelude
begin

text \<open>
  The order storage of the book is \<open>slab::Slab\<close>, a third-party crate. It is a parameter of the
  model: \<open>slab_ops\<close> is the record of the operations the book calls, and the locale \<open>slab\<close>
  states what the crate documents about them. Which vacant key \<open>insert\<close> returns, and in which
  order \<open>iter\<close> yields the entries, is not fixed. A vector of slots that fills the first vacant
  one is an implementation that meets the contract; concrete runs are evaluated on it.
\<close>

record ('s, 'v) slab_ops =
  sl_new :: 's
  sl_insert :: "'v \<Rightarrow> 's \<Rightarrow> nat \<times> 's"
  sl_get :: "'s \<Rightarrow> nat \<Rightarrow> 'v option"
  sl_set :: "nat \<Rightarrow> 'v \<Rightarrow> 's \<Rightarrow> 's"
  sl_remove :: "nat \<Rightarrow> 's \<Rightarrow> 's"
  sl_iter :: "'s \<Rightarrow> (nat \<times> 'v) list"
  sl_clear :: "'s \<Rightarrow> 's"

text \<open>\<open>sl_set\<close> is a write through \<open>get_mut\<close>, so its law and that of \<open>sl_remove\<close> are about
  occupied keys only (\<open>remove\<close> panics on a vacant one).\<close>

locale slab =
  fixes S :: "('s, 'v) slab_ops"
  assumes get_new: "sl_get S (sl_new S) k = None"
    and insert_vacant: "sl_insert S v s = (k, s') \<Longrightarrow> sl_get S s k = None"
    and get_insert: "sl_insert S v s = (k, s') \<Longrightarrow> sl_get S s' = (sl_get S s)(k \<mapsto> v)"
    and get_set: "sl_get S s k = Some u \<Longrightarrow> sl_get S (sl_set S k v s) = (sl_get S s)(k \<mapsto> v)"
    and get_remove: "sl_get S s k = Some u \<Longrightarrow>
      sl_get S (sl_remove S k s) = (sl_get S s)(k := None)"
    and iter_entries: "set (sl_iter S s) = {(k, v). sl_get S s k = Some v}"
    and iter_distinct: "distinct (map fst (sl_iter S s))"
    and get_clear: "sl_get S (sl_clear S s) k = None"
begin

lemma get_clear_empty: "sl_get S (sl_clear S s) = Map.empty"
  by (auto simp: get_clear)

lemma get_new_empty: "sl_get S (sl_new S) = Map.empty"
  by (auto simp: get_new)

end

section \<open>A vector of slots\<close>

fun vs_insert :: "'v \<Rightarrow> 'v option list \<Rightarrow> nat \<times> 'v option list" where
  "vs_insert v [] = (0, [Some v])"
| "vs_insert v (None # xs) = (0, Some v # xs)"
| "vs_insert v (Some u # xs) = (case vs_insert v xs of (k, ys) \<Rightarrow> (Suc k, Some u # ys))"

definition vs_get :: "'v option list \<Rightarrow> nat \<Rightarrow> 'v option" where
  "vs_get xs k = (if k < length xs then xs ! k else None)"

fun vs_iter_from :: "nat \<Rightarrow> 'v option list \<Rightarrow> (nat \<times> 'v) list" where
  "vs_iter_from n [] = []"
| "vs_iter_from n (None # xs) = vs_iter_from (Suc n) xs"
| "vs_iter_from n (Some v # xs) = (n, v) # vs_iter_from (Suc n) xs"

definition vec_slab :: "('v option list, 'v) slab_ops" where
  "vec_slab = \<lparr>sl_new = [], sl_insert = vs_insert, sl_get = vs_get,
     sl_set = (\<lambda>k v xs. xs[k := Some v]), sl_remove = (\<lambda>k xs. xs[k := None]),
     sl_iter = vs_iter_from 0, sl_clear = (\<lambda>_. [])\<rparr>"

lemma vec_slab_sel [simp]:
  "sl_new vec_slab = []" "sl_insert vec_slab = vs_insert" "sl_get vec_slab = vs_get"
  "sl_set vec_slab k v xs = xs[k := Some v]" "sl_remove vec_slab k xs = xs[k := None]"
  "sl_iter vec_slab = vs_iter_from 0" "sl_clear vec_slab xs = []"
  by (simp_all add: vec_slab_def)

lemma vs_get_Cons: "vs_get (x # xs) k = (case k of 0 \<Rightarrow> x | Suc j \<Rightarrow> vs_get xs j)"
  by (simp add: vs_get_def split: nat.split)

lemma vs_get_Cons_0: "vs_get (x # xs) 0 = x"
  by (simp add: vs_get_Cons)

lemma vs_insert_vacant: "vs_insert v xs = (k, ys) \<Longrightarrow> vs_get xs k = None"
  by (induction v xs arbitrary: k ys rule: vs_insert.induct)
    (auto simp: vs_get_Cons split: prod.splits, auto simp: vs_get_def)

lemma vs_get_insert: "vs_insert v xs = (k, ys) \<Longrightarrow> vs_get ys j = (if j = k then Some v else vs_get xs j)"
proof (induction v xs arbitrary: k ys j rule: vs_insert.induct)
  case (3 v u xs)
  then show ?case by (cases j) (auto simp: vs_get_Cons split: prod.splits if_splits)
qed (auto simp: vs_get_Cons vs_get_def split: nat.splits)

lemma vs_get_Cons_shift:
  "n \<le> k \<Longrightarrow> vs_get (x # xs) (k - n) = (if k = n then x else vs_get xs (k - Suc n))"
  by (cases "k - n") (auto simp: vs_get_Cons diff_Suc)

lemma vs_iter_from_entries: "set (vs_iter_from n xs) = {(k, v). n \<le> k \<and> vs_get xs (k - n) = Some v}"
proof (induction n xs rule: vs_iter_from.induct)
  case (2 n xs)
  then show ?case by (auto simp: vs_get_Cons_shift split: if_splits)
next
  case (3 n u xs)
  then show ?case by (auto simp: vs_get_Cons_shift vs_get_Cons_0 split: if_splits)
qed (simp add: vs_get_def)

lemma vs_iter_from_distinct: "distinct (map fst (vs_iter_from n xs))"
  by (induction n xs rule: vs_iter_from.induct) (auto simp: vs_iter_from_entries)

interpretation vec: slab vec_slab
proof
  fix v :: 'a and u :: 'a and s s' :: "'a option list" and k :: nat
  show "sl_get vec_slab (sl_new vec_slab) k = (None :: 'a option)" by (simp add: vs_get_def)
  show "sl_get vec_slab (sl_clear vec_slab s) k = None" by (simp add: vs_get_def)
  show "sl_insert vec_slab v s = (k, s') \<Longrightarrow> sl_get vec_slab s k = None"
    by (simp add: vs_insert_vacant)
  show "sl_insert vec_slab v s = (k, s') \<Longrightarrow> sl_get vec_slab s' = (sl_get vec_slab s)(k \<mapsto> v)"
    by (auto simp: vs_get_insert)
  show "sl_get vec_slab s k = Some u \<Longrightarrow>
      sl_get vec_slab (sl_set vec_slab k v s) = (sl_get vec_slab s)(k \<mapsto> v)"
    by (auto simp: vs_get_def split: if_splits)
  show "sl_get vec_slab s k = Some u \<Longrightarrow>
      sl_get vec_slab (sl_remove vec_slab k s) = (sl_get vec_slab s)(k := None)"
    by (auto simp: vs_get_def split: if_splits)
  show "set (sl_iter vec_slab s) = {(k, v). sl_get vec_slab s k = Some v}"
    by (auto simp: vs_iter_from_entries)
  show "distinct (map fst (sl_iter vec_slab s))" by (simp add: vs_iter_from_distinct)
qed

end
