(* ===== verification/OrderBook.thy ===== *)
theory OrderBook
  imports CommonTypes SlabSpec
begin

text \<open>
  \<open>crates/engine/src/order_book.rs\<close>: the order book of one symbol. Its state is the two
  ladders of price levels (\<open>BTreeMap<Price, Level>\<close>), the slab of orders and the index from
  order id to slab key. Every operation takes the slab's operations as its first argument.
  \<open>None\<close> as the result of an operation is a panic (a failed \<open>expect\<close>).
\<close>

section \<open>State\<close>

record order =
  o_id :: order_id
  o_account :: account_id
  o_symbol :: symbol_id
  o_side :: side
  o_price :: price
  o_qty_rem :: qty
  o_tif :: time_in_force
  o_flags :: order_flags

record level =
  lv_queue :: "nat list"
  lv_total :: qty

definition new_level :: level where
  "new_level = \<lparr>lv_queue = [], lv_total = 0\<rparr>"

type_synonym ladder = "(price \<times> level) list"

record 's order_book =
  bk_symbol :: symbol_id
  bk_bids :: ladder
  bk_asks :: ladder
  bk_orders :: 's
  bk_index :: "(order_id, nat) hashmap"

record match_fill =
  mf_maker_order_id :: order_id
  mf_maker_account_id :: account_id
  mf_taker_order_id :: order_id
  mf_price :: price
  mf_qty :: qty

definition new_book :: "('s, order) slab_ops \<Rightarrow> symbol_id \<Rightarrow> 's order_book" where
  "new_book S symbol =
     \<lparr>bk_symbol = symbol, bk_bids = [], bk_asks = [], bk_orders = sl_new S, bk_index = []\<rparr>"

text \<open>The ladder of one side, read and written: the code's \<open>match side { Buy => bids, Sell => asks }\<close>.\<close>

fun ladder_of :: "side \<Rightarrow> 's order_book \<Rightarrow> ladder" where
  "ladder_of Buy b = bk_bids b"
| "ladder_of Sell b = bk_asks b"

fun set_ladder :: "side \<Rightarrow> ladder \<Rightarrow> 's order_book \<Rightarrow> 's order_book" where
  "set_ladder Buy m b = b\<lparr>bk_bids := m\<rparr>"
| "set_ladder Sell m b = b\<lparr>bk_asks := m\<rparr>"

section \<open>Queries\<close>

definition get_order :: "('s, order) slab_ops \<Rightarrow> 's order_book \<Rightarrow> order_id \<Rightarrow> order option" where
  "get_order S b oid =
     (case map_of (bk_index b) oid of
        None \<Rightarrow> None
      | Some key \<Rightarrow> sl_get S (bk_orders b) key)"

definition best_bid :: "'s order_book \<Rightarrow> (price \<times> qty) option" where
  "best_bid b = map_option (\<lambda>(px, lvl). (px, lv_total lvl)) (bt_last (bk_bids b))"

definition best_ask :: "'s order_book \<Rightarrow> (price \<times> qty) option" where
  "best_ask b = map_option (\<lambda>(px, lvl). (px, lv_total lvl)) (bt_first (bk_asks b))"

fun would_cross :: "'s order_book \<Rightarrow> side \<Rightarrow> price \<Rightarrow> bool" where
  "would_cross b Buy px = (case best_ask b of None \<Rightarrow> False | Some (ask, _) \<Rightarrow> ask \<le> px)"
| "would_cross b Sell px = (case best_bid b of None \<Rightarrow> False | Some (bid, _) \<Rightarrow> px \<le> bid)"

definition live_order_count :: "'s order_book \<Rightarrow> nat" where
  "live_order_count b = length (bk_index b)"

section \<open>Resting, cancelling, replacing\<close>

definition insert_resting ::
  "('s, order) slab_ops \<Rightarrow> order \<Rightarrow> 's order_book \<Rightarrow> 's order_book"
where
  "insert_resting S ord b =
     (let (key, slab') = sl_insert S ord (bk_orders b);
          b1 = b\<lparr>bk_orders := slab', bk_index := AList.update (o_id ord) key (bk_index b)\<rparr>;
          book = ladder_of (o_side ord) b1;
          lvl = get_or new_level book (o_price ord);
          lvl' = \<lparr>lv_queue = lv_queue lvl @ [key], lv_total = add64 (lv_total lvl) (o_qty_rem ord)\<rparr>
      in set_ladder (o_side ord) (bt_insert (o_price ord) lvl' book) b1)"

text \<open>Writing a level back after its total went down: a level with nothing left is removed eagerly
  (\<open>if lvl.total_qty <= 0 { book.remove(&price) }\<close>).\<close>

definition write_level :: "price \<Rightarrow> level \<Rightarrow> ladder \<Rightarrow> ladder" where
  "write_level px lvl book =
     (if lv_total lvl \<le> 0 then AList.delete px book else AList.update px lvl book)"

definition cancel ::
  "('s, order) slab_ops \<Rightarrow> order_id \<Rightarrow> account_id \<Rightarrow> 's order_book \<Rightarrow> bool \<times> 's order_book"
where
  "cancel S oid acc b =
     (case map_of (bk_index b) oid of
        None \<Rightarrow> (False, b)
      | Some key \<Rightarrow>
          (case sl_get S (bk_orders b) key of
             None \<Rightarrow> (False, b)
           | Some ord \<Rightarrow>
               if o_account ord \<noteq> acc then (False, b)
               else
                 let b1 = b\<lparr>bk_index := AList.delete oid (bk_index b),
                            bk_orders := sl_set S key (ord\<lparr>o_qty_rem := 0\<rparr>) (bk_orders b)\<rparr>;
                     book = ladder_of (o_side ord) b1
                 in (True,
                     case map_of book (o_price ord) of
                       None \<Rightarrow> b1
                     | Some lvl \<Rightarrow>
                         set_ladder (o_side ord)
                           (write_level (o_price ord)
                              (lvl\<lparr>lv_total := sub64 (lv_total lvl) (o_qty_rem ord)\<rparr>) book)
                           b1)))"

definition replace ::
  "('s, order) slab_ops \<Rightarrow> order_id \<Rightarrow> account_id \<Rightarrow> price \<Rightarrow> qty \<Rightarrow> 's order_book \<Rightarrow>
   bool \<times> 's order_book"
where
  "replace S oid acc new_price new_qty b =
     (case map_of (bk_index b) oid of
        None \<Rightarrow> (False, b)
      | Some key \<Rightarrow>
          (case sl_get S (bk_orders b) key of
             None \<Rightarrow> (False, b)
           | Some existing \<Rightarrow>
               if o_account existing \<noteq> acc then (False, b)
               else
                 let (_, b1) = cancel S oid acc b
                 in (True, insert_resting S
                       (existing\<lparr>o_price := new_price, o_qty_rem := new_qty\<rparr>) b1)))"

section \<open>Matching\<close>

text \<open>\<open>pop_live_front\<close> pops keys until one has quantity left; it returns the key and the rest of
  the queue.\<close>

fun pop_live_front ::
  "('s, order) slab_ops \<Rightarrow> 's \<Rightarrow> nat list \<Rightarrow> nat option \<times> nat list"
where
  "pop_live_front S orders [] = (None, [])"
| "pop_live_front S orders (k # queue) =
     (let qty_rem = (case sl_get S orders k of None \<Rightarrow> 0 | Some ord \<Rightarrow> o_qty_rem ord)
      in if 0 < qty_rem then (Some k, queue) else pop_live_front S orders queue)"

text \<open>
  One trade against the maker \<open>maker_key\<close>, popped off the level \<open>lvl\<close> whose remaining queue is
  \<open>queue\<close>: the body of the loop's \<open>Some(maker_key)\<close> arm, which the code writes once per side.
  It returns the book (with the level written back or removed), the taker's remaining quantity
  and the fill.
\<close>

definition trade ::
  "('s, order) slab_ops \<Rightarrow> order_id \<Rightarrow> side \<Rightarrow> price \<Rightarrow> level \<Rightarrow> nat list \<Rightarrow> nat \<Rightarrow> order \<Rightarrow> qty \<Rightarrow>
   's order_book \<Rightarrow> 's order_book \<times> qty \<times> match_fill"
where
  "trade S taker_id maker_side px lvl queue maker_key maker taker_qty b =
     (let trade_qty = min taker_qty (o_qty_rem maker);
          maker_rem = sub64 (o_qty_rem maker) trade_qty;
          total = sub64 (lv_total lvl) trade_qty;
          orders1 = sl_set S maker_key (maker\<lparr>o_qty_rem := maker_rem\<rparr>) (bk_orders b);
          maker_done = (maker_rem = 0);
          orders2 = (if maker_done then sl_remove S maker_key orders1 else orders1);
          index2 = (if maker_done then AList.delete (o_id maker) (bk_index b) else bk_index b);
          queue2 = (if maker_done then queue else maker_key # queue);
          book2 = write_level px \<lparr>lv_queue = queue2, lv_total = total\<rparr> (ladder_of maker_side b)
      in (set_ladder maker_side book2 (b\<lparr>bk_orders := orders2, bk_index := index2\<rparr>),
          sub64 taker_qty trade_qty,
          \<lparr>mf_maker_order_id = o_id maker, mf_maker_account_id = o_account maker,
           mf_taker_order_id = taker_id, mf_price = px, mf_qty = trade_qty\<rparr>))"

text \<open>The best price of the side a taker matches against, and the price test that ends the loop.\<close>

fun best_opposite :: "side \<Rightarrow> 's order_book \<Rightarrow> price option" where
  "best_opposite Buy b = map_option fst (bt_first (bk_asks b))"
| "best_opposite Sell b = map_option fst (bt_last (bk_bids b))"

fun price_blocks :: "side \<Rightarrow> price \<Rightarrow> price \<Rightarrow> bool" where
  "price_blocks Buy best taker_price = (best > taker_price)"
| "price_blocks Sell best taker_price = (best < taker_price)"

text \<open>One iteration of the matching loop: it stops, drops an exhausted level, or trades.\<close>

datatype 's match_outcome =
    Stop
  | Panic
  | DropLevel "'s order_book"
  | Traded "'s order_book" qty match_fill

definition match_step ::
  "('s, order) slab_ops \<Rightarrow> order_id \<Rightarrow> side \<Rightarrow> price \<Rightarrow> qty \<Rightarrow> 's order_book \<Rightarrow> 's match_outcome"
where
  "match_step S taker_id taker_side taker_price taker_qty b =
     (if taker_qty \<le> 0 then Stop
      else
        case best_opposite taker_side b of
          None \<Rightarrow> Stop
        | Some px \<Rightarrow>
            if price_blocks taker_side px taker_price then Stop
            else
              let maker_side = opposite taker_side; book = ladder_of maker_side b
              in case map_of book px of
                   None \<Rightarrow> Panic
                 | Some lvl \<Rightarrow>
                     (case pop_live_front S (bk_orders b) (lv_queue lvl) of
                        (None, queue) \<Rightarrow> DropLevel (set_ladder maker_side (AList.delete px book) b)
                      | (Some key, queue) \<Rightarrow>
                          (case sl_get S (bk_orders b) key of
                             None \<Rightarrow> Panic
                           | Some maker \<Rightarrow>
                               (case trade S taker_id maker_side px lvl queue key maker taker_qty b of
                                  (b', rem, f) \<Rightarrow> Traded b' rem f))))"

text \<open>What shrinks in every iteration: the levels and queue entries left on the other side, and
  whether the taker still has quantity.\<close>

definition ladder_size :: "ladder \<Rightarrow> nat" where
  "ladder_size m = sum_list (map (\<lambda>e. Suc (length (lv_queue (snd e)))) m)"

definition match_measure :: "side \<Rightarrow> 's order_book \<Rightarrow> qty \<Rightarrow> nat" where
  "match_measure taker_side b taker_qty =
     ladder_size (ladder_of (opposite taker_side) b) + (if 0 < taker_qty then 1 else 0)"

lemma ladder_of_set [simp]:
  "ladder_of s (set_ladder t m b) = (if s = t then m else ladder_of s b)"
  by (cases s; cases t) auto

lemma ladder_of_updates [simp]:
  "ladder_of s (b\<lparr>bk_orders := x\<rparr>) = ladder_of s b" "ladder_of s (b\<lparr>bk_index := i\<rparr>) = ladder_of s b"
  by (cases s; simp)+

lemma ladder_size_delete:
  assumes "map_of m px = Some lvl"
  shows "ladder_size (AList.delete px m) + Suc (length (lv_queue lvl)) \<le> ladder_size m"
  using sum_list_delete_present [OF assms, of "\<lambda>e. Suc (length (lv_queue (snd e)))"]
  by (simp add: ladder_size_def)

lemma ladder_size_update:
  assumes "map_of m px = Some lvl"
  shows "ladder_size (AList.update px lvl' m) + length (lv_queue lvl) =
    ladder_size m + length (lv_queue lvl')"
  using sum_list_update_present [OF assms, of "\<lambda>e. Suc (length (lv_queue (snd e)))" lvl']
  by (simp add: ladder_size_def)

lemma pop_live_front_Some:
  "pop_live_front S orders queue = (Some k, queue') \<Longrightarrow>
   (\<exists>ord. sl_get S orders k = Some ord \<and> 0 < o_qty_rem ord) \<and> length queue' < length queue"
  by (induction queue) (auto simp: Let_def split: if_splits option.splits)

text \<open>Every iteration that goes on makes the measure smaller: a level is dropped, or the maker is
  filled and leaves the queue, or the taker is filled.\<close>

lemma match_step_DropLevel_measure:
  "match_step S tid side px tq b = DropLevel b' \<Longrightarrow>
   0 < tq \<and> match_measure side b' tq < match_measure side b tq"
  by (auto simp: match_step_def Let_def match_measure_def dest: ladder_size_delete
      split: if_splits option.splits prod.splits)

lemma trade_measure:
  assumes "map_of (ladder_of (opposite side) b) px = Some lvl"
    and "length queue < length (lv_queue lvl)" and "0 < tq" and "0 < o_qty_rem maker"
    and "trade S tid (opposite side) px lvl queue key maker tq b = (b', rem, f)"
  shows "match_measure side b' rem < match_measure side b tq"
proof -
  define total where "total = sub64 (lv_total lvl) (min tq (o_qty_rem maker))"
  define book where "book = ladder_of (opposite side) b"
  define filled where "filled = (sub64 (o_qty_rem maker) (min tq (o_qty_rem maker)) = 0)"
  define lvl' where "lvl' = \<lparr>lv_queue = (if filled then queue else key # queue), lv_total = total\<rparr>"
  have book': "ladder_of (opposite side) b' =
      (if total \<le> 0 then AList.delete px book else AList.update px lvl' book)"
    and rem: "rem = sub64 tq (min tq (o_qty_rem maker))"
    using assms(5)
    by (auto simp: trade_def write_level_def Let_def total_def book_def filled_def lvl'_def)
  have "ladder_size (ladder_of (opposite side) b') \<le> ladder_size book - (if filled then 1 else 0)"
    and "filled \<Longrightarrow> 0 < ladder_size book"
    using ladder_size_delete [OF assms(1)] ladder_size_update [OF assms(1), of lvl'] assms(2)
    by (auto simp: book' book_def lvl'_def)
  moreover have "\<not> filled \<Longrightarrow> rem = 0"
    by (cases "tq \<le> o_qty_rem maker") (auto simp: filled_def rem min_def)
  ultimately show ?thesis
    using assms(3) by (cases filled) (auto simp: match_measure_def book_def)
qed

lemma match_step_Traded_measure:
  "match_step S tid side px tq b = Traded b' rem f \<Longrightarrow>
   match_measure side b' rem < match_measure side b tq"
  by (auto simp: match_step_def Let_def elim!: trade_measure [rotated 4] dest: pop_live_front_Some
      split: if_splits option.splits prod.splits)

function match_loop ::
  "('s, order) slab_ops \<Rightarrow> order_id \<Rightarrow> side \<Rightarrow> price \<Rightarrow> qty \<Rightarrow> 's order_book \<Rightarrow>
   ('s order_book \<times> match_fill list) option"
where
  "match_loop S taker_id taker_side taker_price taker_qty b =
     (case match_step S taker_id taker_side taker_price taker_qty b of
        Stop \<Rightarrow> Some (b, [])
      | Panic \<Rightarrow> None
      | DropLevel b' \<Rightarrow> match_loop S taker_id taker_side taker_price taker_qty b'
      | Traded b' rem f \<Rightarrow>
          map_option (\<lambda>(b'', fills). (b'', f # fills))
            (match_loop S taker_id taker_side taker_price rem b'))"
  by pat_completeness auto
termination
  by (relation "measure (\<lambda>(S, tid, side, px, tq, b). match_measure side b tq)")
    (auto dest: match_step_DropLevel_measure match_step_Traded_measure)

declare match_loop.simps [simp del]

definition match_taker ::
  "('s, order) slab_ops \<Rightarrow> order_id \<Rightarrow> side \<Rightarrow> price \<Rightarrow> qty \<Rightarrow> 's order_book \<Rightarrow>
   ('s order_book \<times> match_fill list) option"
where
  "match_taker S taker_id taker_side taker_price taker_qty b =
     match_loop S taker_id taker_side taker_price taker_qty b"

section \<open>Snapshots\<close>

text \<open>The orders \<open>serialize_snapshot\<close> hands to the serializer, and the book that
  \<open>restore_from_snapshot\<close> builds from the orders the deserializer returns.\<close>

definition snapshot_orders :: "('s, order) slab_ops \<Rightarrow> 's order_book \<Rightarrow> order list" where
  "snapshot_orders S b =
     map snd (filter (\<lambda>(_, ord). 0 < o_qty_rem ord) (sl_iter S (bk_orders b)))"

definition restore_orders ::
  "('s, order) slab_ops \<Rightarrow> order list \<Rightarrow> 's order_book \<Rightarrow> 's order_book"
where
  "restore_orders S ords b =
     foldl (\<lambda>b' ord. insert_resting S ord b')
       (b\<lparr>bk_bids := [], bk_asks := [], bk_orders := sl_clear S (bk_orders b), bk_index := []\<rparr>) ords"

definition serialize_snapshot ::
  "('s, order) slab_ops \<Rightarrow> (order list \<Rightarrow> u8 list option) \<Rightarrow> 's order_book \<Rightarrow> u8 list option"
where
  "serialize_snapshot S to_stdvec b = to_stdvec (snapshot_orders S b)"

definition restore_from_snapshot ::
  "('s, order) slab_ops \<Rightarrow> (u8 list \<Rightarrow> order list option) \<Rightarrow> u8 list \<Rightarrow> 's order_book \<Rightarrow>
   's order_book option"
where
  "restore_from_snapshot S from_bytes data b =
     map_option (\<lambda>ords. restore_orders S ords b) (from_bytes data)"

definition get_all_order_snapshots :: "('s, order) slab_ops \<Rightarrow> 's order_book \<Rightarrow> order_snapshot list" where
  "get_all_order_snapshots S b =
     List.map_filter (\<lambda>(oid, key).
       map_option (\<lambda>ord.
         \<lparr>os_order_id = oid, os_account_id = o_account ord, os_symbol_id = o_symbol ord,
          os_side = o_side ord, os_price = o_price ord, os_qty_rem = o_qty_rem ord,
          os_reserved_amount = (if o_side ord = Buy then mul64 (o_price ord) (o_qty_rem ord) else 0)\<rparr>)
         (sl_get S (bk_orders b) key))
       (bk_index b)"

end
