(* ===== verification/BookInv.thy ===== *)
theory BookInv
  imports OrderBook
begin

text \<open>
  The well-formedness of a book and its abstraction. A slab is seen through its lookup map
  \<open>g = sl_get S (bk_orders b)\<close>. A book is well formed when each ladder has increasing prices,
  each level's queue holds distinct keys of orders of its side and price, its total is exactly
  the quantity of its live orders (and positive), every live order is queued at its price, and
  the index maps exactly the ids of the live orders to their keys. The abstraction of a side is
  the list of its live orders in priority order: best price first, first come first served.
\<close>

named_theorems book_simps "projections of book operations"

section \<open>Live orders\<close>

definition live :: "(nat \<Rightarrow> order option) \<Rightarrow> nat \<Rightarrow> order option" where
  "live g k = (case g k of None \<Rightarrow> None | Some ord \<Rightarrow> if 0 < o_qty_rem ord then Some ord else None)"

fun live_orders :: "(nat \<Rightarrow> order option) \<Rightarrow> nat list \<Rightarrow> order list" where
  "live_orders g [] = []"
| "live_orders g (k # ks) =
     (case live g k of None \<Rightarrow> live_orders g ks | Some ord \<Rightarrow> ord # live_orders g ks)"

definition qty_sum :: "order list \<Rightarrow> int" where
  "qty_sum ords = sum_list (map o_qty_rem ords)"

definition ladder_orders :: "(nat \<Rightarrow> order option) \<Rightarrow> ladder \<Rightarrow> order list" where
  "ladder_orders g m = concat (map (\<lambda>e. live_orders g (lv_queue (snd e))) m)"

fun priority :: "side \<Rightarrow> ladder \<Rightarrow> ladder" where
  "priority Buy m = rev m"
| "priority Sell m = m"

definition side_orders :: "('s, order) slab_ops \<Rightarrow> 's order_book \<Rightarrow> side \<Rightarrow> order list" where
  "side_orders S b s = ladder_orders (sl_get S (bk_orders b)) (priority s (ladder_of s b))"

lemma live_Some: "live g k = Some ord \<longleftrightarrow> g k = Some ord \<and> 0 < o_qty_rem ord"
  by (auto simp: live_def split: option.splits if_splits)

lemma live_upd [simp]: "k \<noteq> j \<Longrightarrow> live (g(k := v)) j = live g j"
  by (simp add: live_def)

lemma live_orders_append [simp]: "live_orders g (ks @ js) = live_orders g ks @ live_orders g js"
  by (induction ks) (auto split: option.splits)

lemma set_live_orders: "set (live_orders g ks) = {ord. \<exists>k \<in> set ks. live g k = Some ord}"
  by (induction ks) (auto split: option.splits)

lemma live_orders_frame [simp]: "k \<notin> set ks \<Longrightarrow> live_orders (g(k := v)) ks = live_orders g ks"
  by (induction ks) (auto split: option.splits)

lemma qty_sum_simps [simp]:
  "qty_sum [] = 0" "qty_sum (ord # ords) = o_qty_rem ord + qty_sum ords"
  "qty_sum (xs @ ys) = qty_sum xs + qty_sum ys"
  by (simp_all add: qty_sum_def)

lemma qty_sum_live_nonneg: "0 \<le> qty_sum (live_orders g ks)"
  by (induction ks) (auto simp: live_Some split: option.splits)

lemma qty_sum_live_pos: "0 < qty_sum (live_orders g ks) \<longleftrightarrow> live_orders g ks \<noteq> []"
  using qty_sum_live_nonneg [of g]
  by (induction ks) (auto simp: live_Some add_pos_nonneg split: option.splits)

lemma ladder_orders_simps [simp]:
  "ladder_orders g [] = []"
  "ladder_orders g (e # m) = live_orders g (lv_queue (snd e)) @ ladder_orders g m"
  "ladder_orders g (m @ m') = ladder_orders g m @ ladder_orders g m'"
  by (simp_all add: ladder_orders_def)

lemma set_ladder_orders:
  "set (ladder_orders g m) = {ord. \<exists>e \<in> set m. ord \<in> set (live_orders g (lv_queue (snd e)))}"
  by (auto simp: ladder_orders_def)

section \<open>Well-formed levels, ladders and books\<close>

definition queue_ok :: "(nat \<Rightarrow> order option) \<Rightarrow> side \<Rightarrow> price \<Rightarrow> nat list \<Rightarrow> bool" where
  "queue_ok g s px ks \<longleftrightarrow> distinct ks \<and>
     (\<forall>k \<in> set ks. \<exists>ord. g k = Some ord \<and> o_side ord = s \<and> o_price ord = px \<and> 0 \<le> o_qty_rem ord)"

definition level_ok :: "(nat \<Rightarrow> order option) \<Rightarrow> side \<Rightarrow> price \<Rightarrow> level \<Rightarrow> bool" where
  "level_ok g s px lvl \<longleftrightarrow> queue_ok g s px (lv_queue lvl) \<and>
     lv_total lvl = qty_sum (live_orders g (lv_queue lvl)) \<and> 0 < lv_total lvl \<and> lv_total lvl \<le> i64_max"

definition ladder_ok :: "(nat \<Rightarrow> order option) \<Rightarrow> side \<Rightarrow> ladder \<Rightarrow> bool" where
  "ladder_ok g s m \<longleftrightarrow> bt_ok m \<and> (\<forall>e \<in> set m. level_ok g s (fst e) (snd e))"

definition index_ok :: "(nat \<Rightarrow> order option) \<Rightarrow> (order_id, nat) hashmap \<Rightarrow> bool" where
  "index_ok g idx \<longleftrightarrow> keys_distinct idx \<and>
     (\<forall>oid k. map_of idx oid = Some k \<longleftrightarrow> (\<exists>ord. live g k = Some ord \<and> o_id ord = oid))"

definition queued :: "(nat \<Rightarrow> order option) \<Rightarrow> 's order_book \<Rightarrow> bool" where
  "queued g b \<longleftrightarrow> (\<forall>k ord. live g k = Some ord \<longrightarrow>
     (\<exists>lvl. map_of (ladder_of (o_side ord) b) (o_price ord) = Some lvl \<and> k \<in> set (lv_queue lvl)))"

definition book_ok :: "('s, order) slab_ops \<Rightarrow> 's order_book \<Rightarrow> bool" where
  "book_ok S b \<longleftrightarrow>
     (let g = sl_get S (bk_orders b)
      in (\<forall>s. ladder_ok g s (ladder_of s b)) \<and> index_ok g (bk_index b) \<and> queued g b)"

text \<open>What the four facts of a well-formed book are used for.\<close>

lemma book_okD:
  assumes "book_ok S b"
  shows "ladder_ok (sl_get S (bk_orders b)) s (ladder_of s b)"
    and "index_ok (sl_get S (bk_orders b)) (bk_index b)" and "queued (sl_get S (bk_orders b)) b"
  using assms by (auto simp: book_ok_def Let_def)

lemma book_okI:
  assumes "\<And>s. ladder_ok g s (ladder_of s b)" "index_ok g (bk_index b)" "queued g b"
    and "g = sl_get S (bk_orders b)"
  shows "book_ok S b"
  using assms by (simp add: book_ok_def Let_def)

lemma ladder_ok_bt: "ladder_ok g s m \<Longrightarrow> bt_ok m"
  by (simp add: ladder_ok_def)

lemma ladder_ok_lookup: "ladder_ok g s m \<Longrightarrow> map_of m px = Some lvl \<Longrightarrow> level_ok g s px lvl"
  by (auto simp: ladder_ok_def dest!: map_of_SomeD)

lemma level_ok_keyD:
  "level_ok g s px lvl \<Longrightarrow> k \<in> set (lv_queue lvl) \<Longrightarrow>
   \<exists>ord. g k = Some ord \<and> o_side ord = s \<and> o_price ord = px"
  by (auto simp: level_ok_def queue_ok_def)

lemma queue_ok_frame: "k \<notin> set ks \<Longrightarrow> queue_ok (g(k := v)) s px ks \<longleftrightarrow> queue_ok g s px ks"
  by (auto simp: queue_ok_def)

lemma level_ok_frame:
  "k \<notin> set (lv_queue lvl) \<Longrightarrow> level_ok (g(k := v)) s px lvl \<longleftrightarrow> level_ok g s px lvl"
  by (simp add: level_ok_def queue_ok_frame)

lemma queued_lookup:
  assumes "queued g b" and "live g k = Some ord"
  obtains lvl where "map_of (ladder_of (o_side ord) b) (o_price ord) = Some lvl" "k \<in> set (lv_queue lvl)"
  using assms by (auto simp: queued_def)

lemma live_ids_unique:
  "index_ok g idx \<Longrightarrow> live g k = Some x \<Longrightarrow> live g j = Some y \<Longrightarrow> o_id x = o_id y \<Longrightarrow> k = j"
  unfolding index_ok_def by (metis option.inject)

text \<open>The orders of a side of a well-formed book have that side and positive quantity.\<close>

lemma ladder_orders_ok:
  assumes "ladder_ok g s m" and "ord \<in> set (ladder_orders g m)"
  shows "o_side ord = s \<and> 0 < o_qty_rem ord \<and> (\<exists>k. live g k = Some ord)"
proof -
  from assms(2) obtain e k where e: "e \<in> set m" "k \<in> set (lv_queue (snd e))" "live g k = Some ord"
    by (auto simp: set_ladder_orders set_live_orders)
  with assms(1) show ?thesis
    by (auto simp: ladder_ok_def live_Some dest!: level_ok_keyD bspec)
qed

section \<open>Changing one level\<close>

text \<open>
  Every operation changes one slab entry \<open>k\<close> and one level \<open>px\<close> of one ladder. The other levels
  do not hold \<open>k\<close>: an occupied key is queued only at the side and price of its order, and a
  vacant key is queued nowhere.
\<close>

lemma set_priority [simp]: "set (priority s m) = set m"
  by (cases s) auto

lemma ladder_orders_frame:
  "\<forall>e \<in> set m. k \<notin> set (lv_queue (snd e)) \<Longrightarrow> ladder_orders (g(k := v)) m = ladder_orders g m"
  by (induction m) auto

lemma ladder_ok_other:
  assumes "ladder_ok g s m" and "\<forall>ord. g k = Some ord \<longrightarrow> o_side ord \<noteq> s \<or> o_price ord \<notin> fst ` set m"
  shows "ladder_ok (g(k := v)) s m"
    and "ladder_orders (g(k := v)) (priority t m) = ladder_orders g (priority t m)"
proof -
  have *: "k \<notin> set (lv_queue (snd e))" if e: "e \<in> set m" for e
    using assms e by (fastforce simp: ladder_ok_def dest!: level_ok_keyD)
  then show "ladder_orders (g(k := v)) (priority t m) = ladder_orders g (priority t m)"
    by (auto intro!: ladder_orders_frame)
  from * assms(1) show "ladder_ok (g(k := v)) s m" by (auto simp: ladder_ok_def level_ok_frame)
qed

lemma priority_split:
  assumes "bt_ok m" and "map_of m px = Some lvl"
  obtains P Q where "priority s m = P @ (px, lvl) # Q"
  using split_list [of "(px, lvl)" "priority s m"] map_of_SomeD [OF assms(2)] by auto

lemma priority_split_keys:
  assumes "bt_ok m" and "priority s m = P @ (px, lvl) # Q"
  shows "px \<notin> fst ` set P" and "px \<notin> fst ` set Q"
proof -
  have "distinct (map fst (priority s m))"
    using bt_ok_distinct [OF assms(1)] by (cases s) (simp_all add: rev_map [symmetric])
  with assms(2) show "px \<notin> fst ` set P" "px \<notin> fst ` set Q" by auto
qed

lemma priority_lookup:
  assumes "bt_ok m" and "priority s m = P @ (px, lvl) # Q"
  shows "map_of m px = Some lvl"
proof -
  have "(px, lvl) \<in> set m" using assms(2) by (metis set_priority in_set_conv_decomp)
  then show ?thesis using bt_ok_distinct [OF assms(1)] by simp
qed

lemma write_level_priority:
  assumes "bt_ok m" and "priority s m = P @ (px, lvl) # Q"
  shows "priority s (write_level px lvl' m) =
      P @ (if lv_total lvl' \<le> 0 then [] else [(px, lvl')]) @ Q"
    and "bt_ok (write_level px lvl' m)"
proof -
  obtain ys zs where m: "m = ys @ (px, lvl) # zs" "priority s (ys @ zs) = P @ Q"
    "priority s (ys @ (px, lvl') # zs) = P @ (px, lvl') # Q"
  proof (cases s)
    case Buy
    with assms(2) have "m = rev Q @ (px, lvl) # rev P" by (simp add: rev_swap)
    with Buy show thesis by (intro that [of "rev Q" "rev P"]) auto
  next
    case Sell
    with assms(2) show thesis by (intro that [of P Q]) auto
  qed
  from assms(1) m have lt: "\<forall>x \<in> set ys. fst x < px" "\<forall>x \<in> set zs. px < fst x"
    by (auto simp: bt_ok_append bt_ok_Cons)
  show "priority s (write_level px lvl' m) =
      P @ (if lv_total lvl' \<le> 0 then [] else [(px, lvl')]) @ Q"
    using m lt by (simp add: write_level_def bt_update_split bt_delete_split)
  show "bt_ok (write_level px lvl' m)"
    using assms(1) m lt
    by (auto simp: write_level_def bt_update_split bt_delete_split bt_ok_append bt_ok_Cons)
qed

lemma write_level_lookup:
  "map_of (write_level px lvl' m) px' =
     (if px' = px then if lv_total lvl' \<le> 0 then None else Some lvl' else map_of m px')"
  by (simp add: write_level_def)

lemma write_level_ok:
  assumes ok: "ladder_ok g s m" and pr: "priority s m = P @ (px, lvl) # Q"
    and k: "\<forall>ord. g k = Some ord \<longrightarrow> o_price ord = px"
    and lvl': "queue_ok (g(k := v)) s px (lv_queue lvl')"
      "lv_total lvl' = qty_sum (live_orders (g(k := v)) (lv_queue lvl'))" "lv_total lvl' \<le> i64_max"
  shows "ladder_ok (g(k := v)) s (write_level px lvl' m)"
    and "ladder_orders (g(k := v)) (priority s (write_level px lvl' m)) =
      ladder_orders g P @ live_orders (g(k := v)) (lv_queue lvl') @ ladder_orders g Q"
    and "ladder_orders (g(k := v)) P = ladder_orders g P"
    and "ladder_orders (g(k := v)) Q = ladder_orders g Q"
proof -
  have bt: "bt_ok m" using ok by (rule ladder_ok_bt)
  note keys = priority_split_keys [OF bt pr]
  note wl = write_level_priority [OF bt pr, of lvl']
  have mem: "set m = set (P @ (px, lvl) # Q)"
    by (simp only: set_priority [of s m, symmetric] pr)
  have mem': "set (write_level px lvl' m) =
      set (P @ (if lv_total lvl' \<le> 0 then [] else [(px, lvl')]) @ Q)"
    by (simp only: set_priority [of s "write_level px lvl' m", symmetric] wl(1))
  have old: "level_ok g s (fst e) (snd e)" if "e \<in> set P \<union> set Q" for e
    using ok that unfolding ladder_ok_def mem by auto
  have free: "k \<notin> set (lv_queue (snd e))" if e: "e \<in> set P \<union> set Q" for e
  proof
    assume "k \<in> set (lv_queue (snd e))"
    with old [OF e] have "fst e = px" using k by (auto dest: level_ok_keyD)
    with e keys show False by auto
  qed
  show PQ: "ladder_orders (g(k := v)) P = ladder_orders g P"
    "ladder_orders (g(k := v)) Q = ladder_orders g Q"
    using free by (auto intro!: ladder_orders_frame)
  have "lv_total lvl' \<le> 0 \<Longrightarrow> live_orders (g(k := v)) (lv_queue lvl') = []"
    using lvl'(2) qty_sum_live_pos [of "g(k := v)" "lv_queue lvl'"] by force
  then show "ladder_orders (g(k := v)) (priority s (write_level px lvl' m)) =
      ladder_orders g P @ live_orders (g(k := v)) (lv_queue lvl') @ ladder_orders g Q"
    by (simp add: wl PQ)
  have "level_ok (g(k := v)) s (fst e) (snd e)" if "e \<in> set (write_level px lvl' m)" for e
  proof (cases "e \<in> set P \<union> set Q")
    case True
    then show ?thesis using old free by (simp add: level_ok_frame)
  next
    case False
    with that mem' have "e = (px, lvl')" "0 < lv_total lvl'" by (auto split: if_splits)
    with lvl' show ?thesis by (simp add: level_ok_def)
  qed
  with wl(2) show "ladder_ok (g(k := v)) s (write_level px lvl' m)"
    by (simp add: ladder_ok_def)
qed

end
