(* ===== verification/BookSpec.thy ===== *)
theory BookSpec
  imports BookInv
begin

text \<open>
  The abstract order book: each side is one list of orders in priority order. Resting places an
  order behind every order that is at least as good, cancelling removes an id, matching consumes
  the list from its head for as long as the price test allows. There are no levels, keys,
  tombstones or totals.
\<close>

fun better :: "side \<Rightarrow> price \<Rightarrow> price \<Rightarrow> bool" where
  "better Buy p q = (p > q)"
| "better Sell p q = (p < q)"

fun place :: "side \<Rightarrow> order \<Rightarrow> order list \<Rightarrow> order list" where
  "place s ord [] = [ord]"
| "place s ord (x # xs) =
     (if better s (o_price ord) (o_price x) then ord # x # xs else x # place s ord xs)"

definition without :: "order_id \<Rightarrow> order list \<Rightarrow> order list" where
  "without oid = filter (\<lambda>ord. o_id ord \<noteq> oid)"

definition fill_of :: "order_id \<Rightarrow> order \<Rightarrow> qty \<Rightarrow> match_fill" where
  "fill_of taker_id maker q =
     \<lparr>mf_maker_order_id = o_id maker, mf_maker_account_id = o_account maker,
      mf_taker_order_id = taker_id, mf_price = o_price maker, mf_qty = q\<rparr>"

fun spec_match :: "order_id \<Rightarrow> side \<Rightarrow> price \<Rightarrow> qty \<Rightarrow> order list \<Rightarrow> order list \<times> match_fill list" where
  "spec_match taker_id s px q [] = ([], [])"
| "spec_match taker_id s px q (m # ms) =
     (if q \<le> 0 \<or> better (opposite s) px (o_price m) then (m # ms, [])
      else if q < o_qty_rem m then
        (m\<lparr>o_qty_rem := o_qty_rem m - q\<rparr> # ms, [fill_of taker_id m q])
      else
        (case spec_match taker_id s px (q - o_qty_rem m) ms of
           (rest, fills) \<Rightarrow> (rest, fill_of taker_id m (o_qty_rem m) # fills)))"

definition filled :: "match_fill list \<Rightarrow> qty" where
  "filled fills = sum_list (map mf_qty fills)"

text \<open>Priority order: every order is at least as good as those behind it.\<close>

definition prioritized :: "side \<Rightarrow> order list \<Rightarrow> bool" where
  "prioritized s ords \<longleftrightarrow> sorted_wrt (\<lambda>x y. \<not> better s (o_price y) (o_price x)) ords"

lemma better_irrefl [simp]: "\<not> better s p p"
  by (cases s) auto

lemma better_trans: "better s p q \<Longrightarrow> better s q r \<Longrightarrow> better s p r"
  by (cases s) auto

lemma better_asym: "better s p q \<Longrightarrow> \<not> better s q p"
  by (cases s) auto

lemma price_blocks_better: "price_blocks s best px \<longleftrightarrow> better (opposite s) px best"
  by (cases s) auto

lemma filled_simps [simp]: "filled [] = 0" "filled (f # fs) = mf_qty f + filled fs"
  by (simp_all add: filled_def)

lemma fill_of_sel [simp]:
  "mf_qty (fill_of t m q) = q" "mf_price (fill_of t m q) = o_price m"
  "mf_maker_order_id (fill_of t m q) = o_id m" "mf_taker_order_id (fill_of t m q) = t"
  "mf_maker_account_id (fill_of t m q) = o_account m"
  by (simp_all add: fill_of_def)

lemma place_split:
  assumes "\<forall>x \<in> set xs. \<not> better s (o_price ord) (o_price x)"
    and "\<forall>x \<in> set ys. better s (o_price ord) (o_price x)"
  shows "place s ord (xs @ ys) = xs @ ord # ys"
  using assms by (induction xs) (auto, cases ys, auto)

lemma set_place [simp]: "set (place s ord xs) = insert ord (set xs)"
  by (induction xs) auto

lemma without_append [simp]: "without oid (xs @ ys) = without oid xs @ without oid ys"
  by (simp add: without_def)

lemma without_id: "oid \<notin> o_id ` set ords \<Longrightarrow> without oid ords = ords"
  by (auto simp: without_def intro!: filter_True)

section \<open>Facts about the abstract matching\<close>

text \<open>The fills never exceed the taker's quantity, every fill is positive, and quantity is
  conserved: what the makers lose is what the fills report.\<close>

lemma spec_match_bounds:
  assumes "\<forall>m \<in> set ms. 0 < o_qty_rem m" and "0 \<le> q"
  shows "0 \<le> filled (snd (spec_match t s px q ms)) \<and> filled (snd (spec_match t s px q ms)) \<le> q"
  using assms
proof (induction t s px q ms rule: spec_match.induct)
  case (2 t s px q m ms)
  show ?case
  proof (cases "q \<le> 0 \<or> better (opposite s) px (o_price m) \<or> q < o_qty_rem m")
    case True
    with 2 show ?thesis by auto
  next
    case False
    with 2 have "0 \<le> filled (snd (spec_match t s px (q - o_qty_rem m) ms)) \<and>
        filled (snd (spec_match t s px (q - o_qty_rem m) ms)) \<le> q - o_qty_rem m"
      by auto
    with False 2(2) show ?thesis by (auto split: prod.splits)
  qed
qed simp

lemma spec_match_fills:
  assumes "\<forall>m \<in> set ms. 0 < o_qty_rem m"
  shows "\<forall>f \<in> set (snd (spec_match t s px q ms)).
    0 < mf_qty f \<and> mf_taker_order_id f = t \<and> \<not> better (opposite s) px (mf_price f) \<and>
    (\<exists>m \<in> set ms. mf_maker_order_id f = o_id m \<and> mf_maker_account_id f = o_account m \<and>
       mf_price f = o_price m \<and> mf_qty f \<le> o_qty_rem m)"
  using assms
  by (induction t s px q ms rule: spec_match.induct) (auto split: prod.splits if_splits)

lemma spec_match_conserves:
  "qty_sum (fst (spec_match t s px q ms)) + filled (snd (spec_match t s px q ms)) = qty_sum ms"
  by (induction t s px q ms rule: spec_match.induct) (auto split: prod.splits)

text \<open>Matching stops only when the taker is filled or the best remaining maker is out of reach.\<close>

lemma spec_match_exhausts:
  assumes "\<forall>m \<in> set ms. 0 < o_qty_rem m" and "0 \<le> q"
  shows "filled (snd (spec_match t s px q ms)) = q \<or>
    (case fst (spec_match t s px q ms) of [] \<Rightarrow> True | m # _ \<Rightarrow> better (opposite s) px (o_price m))"
  using assms
proof (induction t s px q ms rule: spec_match.induct)
  case (2 t s px q m ms)
  then show ?case by (auto split: prod.splits)
qed simp

text \<open>Orders that survive are unchanged, but for one partly filled order at the head.\<close>

definition partly_filled :: "order \<Rightarrow> order \<Rightarrow> bool" where
  "partly_filled m m' \<longleftrightarrow> (\<exists>q. 0 < q \<and> q < o_qty_rem m \<and> m' = m\<lparr>o_qty_rem := o_qty_rem m - q\<rparr>)"

lemma spec_match_rest:
  "\<exists>xs ys. ms = xs @ ys \<and> (fst (spec_match t s px q ms) = ys \<or>
     (\<exists>x x' zs. ys = x # zs \<and> partly_filled x x' \<and> fst (spec_match t s px q ms) = x' # zs))"
proof (induction t s px q ms rule: spec_match.induct)
  case (2 t s px q m ms)
  consider "q \<le> 0 \<or> better (opposite s) px (o_price m)"
    | "0 < q" "\<not> better (opposite s) px (o_price m)" "q < o_qty_rem m"
    | "\<not> (q \<le> 0 \<or> better (opposite s) px (o_price m))" "\<not> q < o_qty_rem m"
    by linarith
  then show ?case
  proof cases
    case 1
    then show ?thesis by (intro exI [of _ "[]"] exI [of _ "m # ms"]) auto
  next
    case two: 2
    then have "partly_filled m (m\<lparr>o_qty_rem := o_qty_rem m - q\<rparr>)"
      by (auto simp: partly_filled_def)
    with two show ?thesis by (intro exI [of _ "[]"] exI [of _ "m # ms"]) auto
  next
    case 3
    have eq: "fst (spec_match t s px q (m # ms)) = fst (spec_match t s px (q - o_qty_rem m) ms)"
      using 3 by (simp split: prod.splits)
    from 2 [OF 3] obtain xs ys where "ms = xs @ ys"
      and rest: "fst (spec_match t s px (q - o_qty_rem m) ms) = ys \<or>
        (\<exists>x x' zs. ys = x # zs \<and> partly_filled x x' \<and>
           fst (spec_match t s px (q - o_qty_rem m) ms) = x' # zs)"
      by blast
    then show ?thesis unfolding eq by (intro exI [of _ "m # xs"] exI [of _ ys]) simp
  qed
qed simp

end
