(* ===== verification/BookOps.thy ===== *)
theory BookOps
  imports BookSpec
begin

text \<open>
  Every operation of the order book keeps it well formed and does to the two priority lists
  what the abstract book says: a functional refinement, operation by operation. The lemmas live
  in the context of the slab contract, so they hold for every slab that meets it.
\<close>

section \<open>Ladders in priority order\<close>

lemma priority_strict:
  assumes "bt_ok m" and "priority s m = P @ Q"
  shows "\<forall>e \<in> set P. \<forall>e' \<in> set Q. better s (fst e) (fst e')"
proof (cases s)
  case Buy
  with assms(2) have "m = rev Q @ rev P" by (simp add: rev_swap)
  with assms(1) Buy show ?thesis by (auto simp: bt_ok_append)
next
  case Sell
  with assms show ?thesis by (auto simp: bt_ok_append)
qed

lemma ladder_orders_price:
  "ladder_ok g s m \<Longrightarrow> e \<in> set m \<Longrightarrow> ord \<in> set (live_orders g (lv_queue (snd e))) \<Longrightarrow>
   o_price ord = fst e"
  by (auto simp: ladder_ok_def set_live_orders live_Some dest!: level_ok_keyD bspec)

text \<open>Placing an order behind the level of its price, in a ladder split around that price.\<close>

lemma place_ladder:
  assumes ok: "ladder_ok g s m" and pr: "priority s m = P @ L @ Q"
    and "\<forall>e \<in> set P \<union> set L. \<not> better s (o_price ord) (fst e)"
    and "\<forall>e \<in> set Q. better s (o_price ord) (fst e)"
  shows "place s ord (ladder_orders g P @ ladder_orders g L @ ladder_orders g Q) =
    ladder_orders g P @ ladder_orders g L @ ord # ladder_orders g Q"
proof -
  have mem: "set m = set (P @ L @ Q)"
    by (simp only: set_priority [of s m, symmetric] pr)
  have price: "\<exists>e \<in> set E. o_price x = fst e"
    if x: "x \<in> set (ladder_orders g E)" and E: "set E \<subseteq> set m" for x E
  proof -
    from x obtain e where "e \<in> set E" "x \<in> set (live_orders g (lv_queue (snd e)))"
      by (auto simp: set_ladder_orders)
    with E show ?thesis using ladder_orders_price [OF ok] by blast
  qed
  have "place s ord ((ladder_orders g P @ ladder_orders g L) @ ladder_orders g Q) =
      (ladder_orders g P @ ladder_orders g L) @ ord # ladder_orders g Q"
  proof (rule place_split)
    show "\<forall>x \<in> set (ladder_orders g P @ ladder_orders g L). \<not> better s (o_price ord) (o_price x)"
      using assms(3) price [of _ P] price [of _ L] mem by force
    show "\<forall>x \<in> set (ladder_orders g Q). better s (o_price ord) (o_price x)"
      using assms(4) price [of _ Q] mem by force
  qed
  then show ?thesis by simp
qed

text \<open>Inserting or replacing the level of a price, in priority order.\<close>

lemma bt_insert_priority:
  assumes bt: "bt_ok m"
  obtains P Q where
    "priority s m = P @ (case map_of m px of None \<Rightarrow> [] | Some lvl \<Rightarrow> [(px, lvl)]) @ Q"
    "priority s (bt_insert px lvl' m) = P @ (px, lvl') # Q"
    "\<forall>e \<in> set P. better s (fst e) px" "\<forall>e \<in> set Q. better s px (fst e)"
    "bt_ok (bt_insert px lvl' m)"
proof -
  obtain ys zs where m: "m = ys @ (case map_of m px of None \<Rightarrow> [] | Some lvl \<Rightarrow> [(px, lvl)]) @ zs"
    and ins: "bt_insert px lvl' m = ys @ (px, lvl') # zs"
    and lt: "\<forall>e \<in> set ys. fst e < px" "\<forall>e \<in> set zs. px < fst e"
  proof (cases "map_of m px")
    case None
    show thesis
    proof (rule bt_insert_absent [OF bt None, of lvl'])
      fix ys zs
      assume split: "m = ys @ zs" "bt_insert px lvl' m = ys @ (px, lvl') # zs"
        "\<forall>e \<in> set ys. fst e < px" "\<forall>e \<in> set zs. px < fst e"
      show thesis
      proof (rule that [of ys zs])
        show "m = ys @ (case map_of m px of None \<Rightarrow> [] | Some lvl \<Rightarrow> [(px, lvl)]) @ zs"
          unfolding None by (simp add: split(1))
      qed (use split in auto)
    qed
  next
    case (Some lvl)
    show thesis
    proof (rule bt_lookup_split [OF bt Some])
      fix ys zs
      assume split: "m = ys @ (px, lvl) # zs" "\<forall>e \<in> set ys. fst e < px" "\<forall>e \<in> set zs. px < fst e"
      show thesis
      proof (rule that [of ys zs])
        show "m = ys @ (case map_of m px of None \<Rightarrow> [] | Some lvl \<Rightarrow> [(px, lvl)]) @ zs"
          unfolding Some by (simp add: split(1))
        show "bt_insert px lvl' m = ys @ (px, lvl') # zs"
          unfolding split(1) using split(2) by (rule bt_insert_present)
      qed (use split in auto)
    qed
  qed
  have btm: "bt_ok (ys @ zs)"
    using bt by (subst (asm) m) (auto simp: bt_ok_append bt_ok_Cons split: option.splits)
  have ok: "bt_ok (bt_insert px lvl' m)"
    using btm lt by (auto simp: ins bt_ok_append bt_ok_Cons)
  show thesis
  proof (cases s)
    case Buy
    show thesis
    proof (rule that [of "rev zs" "rev ys"])
      show "priority s m = rev zs @ (case map_of m px of None \<Rightarrow> [] | Some lvl \<Rightarrow> [(px, lvl)]) @ rev ys"
        using Buy by (subst m) (auto split: option.splits)
    qed (use Buy ins lt ok in auto)
  next
    case Sell
    show thesis
      by (rule that [of ys zs]) (use Sell m ins lt ok in auto)
  qed
qed

section \<open>The slab behind the book\<close>

lemma set_ladder_sel [simp]:
  "bk_orders (set_ladder s m b) = bk_orders b" "bk_index (set_ladder s m b) = bk_index b"
  "bk_symbol (set_ladder s m b) = bk_symbol b"
  by (cases s; simp)+

lemma book_upd_commute: "b\<lparr>bk_index := i, bk_orders := x\<rparr> = b\<lparr>bk_orders := x, bk_index := i\<rparr>"
  by simp

lemma index_ok_insert:
  assumes "index_ok g idx" and "map_of idx (o_id ord) = None" and "g k = None" and "0 < o_qty_rem ord"
  shows "index_ok (g(k \<mapsto> ord)) (AList.update (o_id ord) k idx)"
proof -
  have "live (g(k \<mapsto> ord)) j = (if j = k then Some ord else live g j)" for j
    using assms(4) by (simp add: live_def)
  moreover have "live g k = None" using assms(3) by (simp add: live_def)
  moreover have "live g j = Some x \<Longrightarrow> o_id x \<noteq> o_id ord" for j x
    using assms(1,2) unfolding index_ok_def by (metis option.distinct(1))
  ultimately show ?thesis
    using assms(1) unfolding index_ok_def
    by (auto simp: distinct_update split: if_splits)
qed

lemma index_ok_remove:
  assumes "index_ok g idx" and "live g k = Some ord" and "live (g(k := v)) k = None"
  shows "index_ok (g(k := v)) (AList.delete (o_id ord) idx)"
proof -
  have eq: "live (g(k := v)) j = (if j = k then None else live g j)" for j
    using assms(3) by simp
  have "j \<noteq> k \<Longrightarrow> live g j = Some x \<Longrightarrow> o_id x \<noteq> o_id ord" for j x
    using live_ids_unique [OF assms(1) _ assms(2)] by blast
  then show ?thesis
    using assms(1,2) unfolding index_ok_def eq
    by (auto simp: distinct_delete split: if_splits)
qed

lemma index_ok_change:
  assumes "index_ok g idx" and "live g k = Some ord" and "o_id ord' = o_id ord" and "0 < o_qty_rem ord'"
  shows "index_ok (g(k \<mapsto> ord')) idx"
proof -
  have eq: "live (g(k \<mapsto> ord')) j = (if j = k then Some ord' else live g j)" for j
    using assms(4) by (simp add: live_def)
  show ?thesis
    using assms(1-3) unfolding index_ok_def eq by auto
qed

lemma map_of_bt_insert [simp]: "map_of (bt_insert k v m) = (map_of m)(k \<mapsto> v)"
  by (induction m) auto

section \<open>Resting an order\<close>

text \<open>Resting an order needs room: the level's total plus the order's quantity must fit \<open>i64\<close>.\<close>

definition room :: "'s order_book \<Rightarrow> order \<Rightarrow> bool" where
  "room b ord \<longleftrightarrow>
     lv_total (get_or new_level (ladder_of (o_side ord) b) (o_price ord)) + o_qty_rem ord \<le> i64_max"

text \<open>The level an order joins, seen with the slab entry already written.\<close>

lemma level_join_ok:
  assumes old: "lvl = new_level \<or> level_ok g (o_side ord) (o_price ord) lvl"
    and vac: "g k = None" and pos: "0 < o_qty_rem ord"
    and fits: "lv_total lvl + o_qty_rem ord \<le> i64_max"
  shows "level_ok (g(k \<mapsto> ord)) (o_side ord) (o_price ord)
      \<lparr>lv_queue = lv_queue lvl @ [k], lv_total = add64 (lv_total lvl) (o_qty_rem ord)\<rparr>"
    and "live_orders (g(k \<mapsto> ord)) (lv_queue lvl @ [k]) = live_orders g (lv_queue lvl) @ [ord]"
proof -
  have k: "k \<notin> set (lv_queue lvl)"
    using old vac by (auto simp: new_level_def dest: level_ok_keyD)
  have total: "lv_total lvl = qty_sum (live_orders g (lv_queue lvl))"
    and queue: "queue_ok g (o_side ord) (o_price ord) (lv_queue lvl)"
    using old by (auto simp: new_level_def level_ok_def queue_ok_def)
  have nonneg: "0 \<le> lv_total lvl"
    unfolding total by (rule qty_sum_live_nonneg)
  have "i64_ok (lv_total lvl + o_qty_rem ord)"
    using nonneg pos fits by (simp add: i64_ok_def i64_min_def)
  then have add: "add64 (lv_total lvl) (o_qty_rem ord) = lv_total lvl + o_qty_rem ord"
    by (rule add64_id)
  show lv: "live_orders (g(k \<mapsto> ord)) (lv_queue lvl @ [k]) = live_orders g (lv_queue lvl) @ [ord]"
    using k pos by (simp add: live_def)
  have "queue_ok (g(k \<mapsto> ord)) (o_side ord) (o_price ord) (lv_queue lvl @ [k])"
    using queue k pos by (auto simp: queue_ok_def)
  with nonneg pos fits show "level_ok (g(k \<mapsto> ord)) (o_side ord) (o_price ord)
      \<lparr>lv_queue = lv_queue lvl @ [k], lv_total = add64 (lv_total lvl) (o_qty_rem ord)\<rparr>"
    unfolding level_ok_def by (simp add: lv add total [symmetric] del: live_orders_append)
qed

lemma ladder_insert_ok:
  assumes ok: "ladder_ok g (o_side ord) m"
    and vac: "g k = None" and pos: "0 < o_qty_rem ord"
    and fits: "lv_total (get_or new_level m (o_price ord)) + o_qty_rem ord \<le> i64_max"
    and lvl': "lvl' = \<lparr>lv_queue = lv_queue (get_or new_level m (o_price ord)) @ [k],
      lv_total = add64 (lv_total (get_or new_level m (o_price ord))) (o_qty_rem ord)\<rparr>"
  shows "ladder_ok (g(k \<mapsto> ord)) (o_side ord) (bt_insert (o_price ord) lvl' m)"
    and "ladder_orders (g(k \<mapsto> ord)) (priority (o_side ord) (bt_insert (o_price ord) lvl' m)) =
      place (o_side ord) ord (ladder_orders g (priority (o_side ord) m))"
proof -
  let ?px = "o_price ord" and ?s = "o_side ord"
  let ?lvl = "get_or new_level m ?px"
  let ?L = "case map_of m ?px of None \<Rightarrow> [] | Some lvl \<Rightarrow> [(?px, lvl)]"
  obtain P Q where pr: "priority ?s m = P @ ?L @ Q"
    and pr': "priority ?s (bt_insert ?px lvl' m) = P @ (?px, lvl') # Q"
    and PQ: "\<forall>e \<in> set P. better ?s (fst e) ?px" "\<forall>e \<in> set Q. better ?s ?px (fst e)"
    and bt: "bt_ok (bt_insert ?px lvl' m)"
    using bt_insert_priority [OF ladder_ok_bt [OF ok], of ?s ?px lvl'] by blast
  have old: "?lvl = new_level \<or> level_ok g ?s ?px ?lvl"
    using ladder_ok_lookup [OF ok] by (auto simp: get_or_def split: option.splits)
  note join = level_join_ok [OF old vac pos fits, folded lvl']
  have mem: "set m = set (P @ ?L @ Q)"
    by (simp only: set_priority [of ?s m, symmetric] pr)
  have mem': "set (bt_insert ?px lvl' m) = set (P @ (?px, lvl') # Q)"
    by (simp only: set_priority [of ?s "bt_insert ?px lvl' m", symmetric] pr')
  have oldPQ: "level_ok g ?s (fst e) (snd e)" if "e \<in> set P \<union> set Q" for e
    using ok that unfolding ladder_ok_def mem by auto
  then have free: "k \<notin> set (lv_queue (snd e))" if "e \<in> set P \<union> set Q" for e
    using that vac by (fastforce dest: level_ok_keyD)
  show "ladder_ok (g(k \<mapsto> ord)) ?s (bt_insert ?px lvl' m)"
    unfolding ladder_ok_def mem' using bt join(1) oldPQ free by (auto simp: level_ok_frame)
  have L: "ladder_orders g ?L = live_orders g (lv_queue ?lvl)"
    by (simp add: get_or_def new_level_def split: option.splits)
  have "ladder_orders (g(k \<mapsto> ord)) (P @ (?px, lvl') # Q) =
      ladder_orders g P @ ladder_orders g ?L @ ord # ladder_orders g Q"
    using free join(2) by (simp add: ladder_orders_frame L lvl')
  also have "\<dots> = place ?s ord (ladder_orders g P @ ladder_orders g ?L @ ladder_orders g Q)"
    by (rule place_ladder [OF ok pr, symmetric])
      (use PQ in \<open>auto simp: better_asym split: option.splits\<close>)
  finally show "ladder_orders (g(k \<mapsto> ord)) (priority ?s (bt_insert ?px lvl' m)) =
      place ?s ord (ladder_orders g (priority ?s m))"
    by (simp only: pr pr' ladder_orders_simps)
qed

text \<open>The slab contract at the type of the book's orders.\<close>

locale order_slab = slab S for S :: "('s, order) slab_ops"

interpretation vec_orders: order_slab vec_slab
  by unfold_locales

context order_slab begin

lemma insert_resting_ok:
  assumes ok: "book_ok S b" and fresh: "map_of (bk_index b) (o_id ord) = None"
    and pos: "0 < o_qty_rem ord" and fits: "room b ord"
  shows "book_ok S (insert_resting S ord b)"
    and "side_orders S (insert_resting S ord b) s =
      (if s = o_side ord then place s ord (side_orders S b s) else side_orders S b s)"
proof -
  let ?s = "o_side ord" and ?px = "o_price ord"
  define g where "g = sl_get S (bk_orders b)"
  obtain k sl where ins: "sl_insert S ord (bk_orders b) = (k, sl)" by (cases "sl_insert S ord (bk_orders b)")
  have vac: "g k = None" and g': "sl_get S sl = g(k \<mapsto> ord)"
    using insert_vacant [OF ins] get_insert [OF ins] by (simp_all add: g_def)
  define m where "m = ladder_of ?s b"
  define lvl' where "lvl' = \<lparr>lv_queue = lv_queue (get_or new_level m ?px) @ [k],
      lv_total = add64 (lv_total (get_or new_level m ?px)) (o_qty_rem ord)\<rparr>"
  let ?idx = "AList.update (o_id ord) k (bk_index b)"
  have b': "insert_resting S ord b =
      set_ladder ?s (bt_insert ?px lvl' m) (b\<lparr>bk_orders := sl, bk_index := ?idx\<rparr>)"
    by (simp add: insert_resting_def ins Let_def m_def lvl'_def)
  note okD = book_okD [OF ok, folded g_def]
  have fit: "lv_total (get_or new_level m ?px) + o_qty_rem ord \<le> i64_max"
    using fits by (simp add: room_def m_def)
  note own = ladder_insert_ok [OF okD(1) [of ?s, folded m_def] vac pos fit lvl'_def]
  note other = ladder_ok_other [OF okD(1), of k, unfolded vac, simplified]
  have "queued (g(k \<mapsto> ord)) (insert_resting S ord b)"
    unfolding queued_def
  proof (intro allI impI)
    fix j x assume x: "live (g(k \<mapsto> ord)) j = Some x"
    show "\<exists>lvl. map_of (ladder_of (o_side x) (insert_resting S ord b)) (o_price x) = Some lvl \<and>
        j \<in> set (lv_queue lvl)"
    proof (cases "j = k")
      case True
      with x have "x = ord" by (simp add: live_Some)
      with True show ?thesis by (simp add: b' lvl'_def)
    next
      case False
      with x okD(3) obtain lvl where
        "map_of (ladder_of (o_side x) b) (o_price x) = Some lvl" "j \<in> set (lv_queue lvl)"
        by (auto elim: queued_lookup)
      then show ?thesis by (auto simp: b' lvl'_def m_def get_or_def)
    qed
  qed
  then show "book_ok S (insert_resting S ord b)"
    by (rule book_okI [rotated 2])
      (auto simp: b' g' m_def [symmetric] own other index_ok_insert [OF okD(2) fresh vac pos])
  show "side_orders S (insert_resting S ord b) s =
      (if s = ?s then place s ord (side_orders S b s) else side_orders S b s)"
    using own(2) other(2)
    by (simp add: side_orders_def b' g' g_def [symmetric] m_def)
qed

end

section \<open>Taking a live order off the book\<close>

text \<open>\<open>h\<close> is \<open>g\<close> with the live order \<open>ord\<close> at key \<open>k\<close> gone.\<close>

definition kills :: "(nat \<Rightarrow> order option) \<Rightarrow> nat \<Rightarrow> order \<Rightarrow> (nat \<Rightarrow> order option) \<Rightarrow> bool" where
  "kills g k ord h \<longleftrightarrow>
     live g k = Some ord \<and> live h k = None \<and> (\<forall>j. j \<noteq> k \<longrightarrow> live h j = live g j)"

lemma kills_upd: "live g k = Some ord \<Longrightarrow> live (g(k := v)) k = None \<Longrightarrow> kills g k ord (g(k := v))"
  by (simp add: kills_def)

lemma live_orders_kill:
  assumes idx: "index_ok g idx" and h: "kills g k ord h"
  shows "live_orders h ks = without (o_id ord) (live_orders g ks)"
proof (induction ks)
  case (Cons j ks)
  show ?case
  proof (cases "j = k")
    case True
    with Cons h show ?thesis by (simp add: kills_def without_def)
  next
    case False
    with h have "live g j = Some x \<Longrightarrow> o_id x \<noteq> o_id ord" for x
      using live_ids_unique [OF idx] unfolding kills_def by blast
    with Cons False h show ?thesis by (auto simp: kills_def without_def split: option.splits)
  qed
qed (simp add: without_def)

lemma ladder_orders_kill:
  assumes "index_ok g idx" and "kills g k ord h"
  shows "ladder_orders h m = without (o_id ord) (ladder_orders g m)"
  by (induction m) (simp_all add: live_orders_kill [OF assms], simp add: without_def)

lemma live_orders_cong:
  "\<forall>j \<in> set ks. live h j = live g j \<Longrightarrow> live_orders h ks = live_orders g ks"
  by (induction ks) (auto split: option.splits)

lemma qty_sum_kill:
  assumes "distinct ks" and "k \<in> set ks" and "kills g k ord h"
  shows "qty_sum (live_orders h ks) = qty_sum (live_orders g ks) - o_qty_rem ord"
proof -
  from assms(2) obtain xs ys where ks: "ks = xs @ k # ys" by (meson split_list)
  with assms(1,3) have "live_orders h xs = live_orders g xs" "live_orders h ys = live_orders g ys"
    by (auto simp: kills_def intro!: live_orders_cong)
  with assms(3) show ?thesis by (simp add: ks kills_def)
qed

lemma queued_update:
  assumes q: "queued g b"
    and old: "\<And>ord. live g k = Some ord \<Longrightarrow> o_side ord = s \<and> o_price ord = px"
    and new: "\<And>ord. live (g(k := v)) k = Some ord \<Longrightarrow>
      o_side ord = s \<and> o_price ord = px \<and> k \<in> set (lv_queue lvl') \<and> 0 < lv_total lvl'"
    and lvl: "map_of (ladder_of s b) px = Some lvl"
    and keep: "\<And>j ord. j \<noteq> k \<Longrightarrow> j \<in> set (lv_queue lvl) \<Longrightarrow> live g j = Some ord \<Longrightarrow>
      j \<in> set (lv_queue lvl') \<and> 0 < lv_total lvl'"
    and b': "\<And>t. ladder_of t b' = (if t = s then write_level px lvl' (ladder_of s b) else ladder_of t b)"
  shows "queued (g(k := v)) b'"
  unfolding queued_def
proof (intro allI impI)
  fix j x assume x: "live (g(k := v)) j = Some x"
  show "\<exists>lvl. map_of (ladder_of (o_side x) b') (o_price x) = Some lvl \<and> j \<in> set (lv_queue lvl)"
  proof (cases "j = k")
    case True
    with x new have "o_side x = s" "o_price x = px" "k \<in> set (lv_queue lvl')" "0 < lv_total lvl'"
      by auto
    with True show ?thesis by (simp add: b' write_level_lookup)
  next
    case False
    with x have "live g j = Some x" by simp
    with q obtain l where l: "map_of (ladder_of (o_side x) b) (o_price x) = Some l" "j \<in> set (lv_queue l)"
      by (rule queued_lookup)
    show ?thesis
    proof (cases "o_side x = s \<and> o_price x = px")
      case True
      with l lvl have "j \<in> set (lv_queue lvl)" by simp
      with keep [OF False _ \<open>live g j = Some x\<close>] True show ?thesis
        by (simp add: b' write_level_lookup)
    next
      case other: False
      with l show ?thesis by (auto simp: b' write_level_lookup)
    qed
  qed
qed

text \<open>One slab entry \<open>k\<close> and the level of its order change: what is left to show for each
  operation is the new queue, its total and the new index.\<close>

lemma book_change_ok:
  assumes ok: "book_ok S b" and g: "g = sl_get S (bk_orders b)"
    and pr: "priority s (ladder_of s b) = P @ (px, lvl) # Q"
    and old: "g k = Some ord" "o_side ord = s" "o_price ord = px"
    and sl': "sl_get S sl' = g(k := v)" and idx: "index_ok (g(k := v)) idx'"
    and queue: "queue_ok (g(k := v)) s px (lv_queue lvl')"
    and total: "lv_total lvl' = qty_sum (live_orders (g(k := v)) (lv_queue lvl'))" "lv_total lvl' \<le> i64_max"
    and keep: "\<And>j. j \<in> set (lv_queue lvl) \<Longrightarrow> j \<noteq> k \<Longrightarrow> live g j \<noteq> None \<Longrightarrow> j \<in> set (lv_queue lvl')"
    and new: "live (g(k := v)) k \<noteq> None \<Longrightarrow> k \<in> set (lv_queue lvl')"
    and b': "b' = set_ladder s (write_level px lvl' (ladder_of s b)) (b\<lparr>bk_orders := sl', bk_index := idx'\<rparr>)"
  shows "book_ok S b'"
    and "side_orders S b' s =
      ladder_orders g P @ live_orders (g(k := v)) (lv_queue lvl') @ ladder_orders g Q"
    and "t \<noteq> s \<Longrightarrow> side_orders S b' t = side_orders S b t"
    and "side_orders S b' t = ladder_orders (g(k := v)) (priority t (ladder_of t b'))"
    and "ladder_orders (g(k := v)) P = ladder_orders g P"
    and "ladder_orders (g(k := v)) Q = ladder_orders g Q"
proof -
  note okD = book_okD [OF ok, folded g]
  note w = write_level_ok [OF okD(1) pr _ queue total]
  have other: "\<forall>x. g k = Some x \<longrightarrow> o_side x \<noteq> u \<or> o_price x \<notin> fst ` set (ladder_of u b)"
    if "u \<noteq> s" for u using old that by auto
  note o = ladder_ok_other [OF okD(1) other]
  have pos: "0 < lv_total lvl'" if "live (g(k := v)) j = Some x" "j \<in> set (lv_queue lvl')" for j x
  proof -
    have "x \<in> set (live_orders (g(k := v)) (lv_queue lvl'))"
      using that by (auto simp: set_live_orders)
    then show ?thesis unfolding total(1) qty_sum_live_pos by auto
  qed
  have "queued (g(k := v)) b'"
  proof (rule queued_update [OF okD(3)])
    show "map_of (ladder_of s b) px = Some lvl"
      by (rule priority_lookup [OF ladder_ok_bt [OF okD(1)] pr])
    show "o_side x = s \<and> o_price x = px" if "live g k = Some x" for x
      using that old by (simp add: live_Some)
    show "o_side x = s \<and> o_price x = px \<and> k \<in> set (lv_queue lvl') \<and> 0 < lv_total lvl'"
      if x: "live (g(k := v)) k = Some x" for x
    proof -
      have "k \<in> set (lv_queue lvl')" using new x by simp
      with queue x pos [OF x] show ?thesis by (auto simp: queue_ok_def live_Some)
    qed
    show "j \<in> set (lv_queue lvl') \<and> 0 < lv_total lvl'"
      if j: "j \<noteq> k" "j \<in> set (lv_queue lvl)" "live g j = Some x" for j x
    proof -
      have "j \<in> set (lv_queue lvl')" using keep j by simp
      with j pos [of j x] show ?thesis by simp
    qed
    show "ladder_of u b' = (if u = s then write_level px lvl' (ladder_of s b) else ladder_of u b)" for u
      by (simp add: b')
  qed
  then show "book_ok S b'"
    by (rule book_okI [rotated 2]) (use w(1) o(1) old idx in \<open>auto simp: b' sl'\<close>)
  show "side_orders S b' s =
      ladder_orders g P @ live_orders (g(k := v)) (lv_queue lvl') @ ladder_orders g Q"
    using w(2) old by (simp add: side_orders_def b' sl')
  show "t \<noteq> s \<Longrightarrow> side_orders S b' t = side_orders S b t"
    using o(2) by (simp add: side_orders_def b' sl' g)
  show "side_orders S b' t = ladder_orders (g(k := v)) (priority t (ladder_of t b'))"
    by (simp add: side_orders_def b' sl')
  show "ladder_orders (g(k := v)) P = ladder_orders g P" "ladder_orders (g(k := v)) Q = ladder_orders g Q"
    using w(3,4) old by simp_all
qed

text \<open>A live order stands in the level of its side and price, whose total covers it.\<close>

lemma live_level:
  assumes ok: "book_ok S b" and g: "g = sl_get S (bk_orders b)" and k: "live g k = Some ord"
  obtains P lvl Q where
    "priority (o_side ord) (ladder_of (o_side ord) b) = P @ (o_price ord, lvl) # Q"
    "map_of (ladder_of (o_side ord) b) (o_price ord) = Some lvl"
    "k \<in> set (lv_queue lvl)" "level_ok g (o_side ord) (o_price ord) lvl"
proof -
  note okD = book_okD [OF ok, folded g]
  obtain lvl where lvl: "map_of (ladder_of (o_side ord) b) (o_price ord) = Some lvl"
    "k \<in> set (lv_queue lvl)"
    using okD(3) k by (rule queued_lookup)
  obtain P Q where pr: "priority (o_side ord) (ladder_of (o_side ord) b) = P @ (o_price ord, lvl) # Q"
    using priority_split [OF ladder_ok_bt [OF okD(1)] lvl(1)] .
  show thesis by (rule that [OF pr lvl ladder_ok_lookup [OF okD(1) lvl(1)]])
qed

lemma live_qty_le:
  assumes "live g k = Some ord" and "k \<in> set ks"
  shows "o_qty_rem ord \<le> qty_sum (live_orders g ks)"
proof -
  from assms(2) obtain xs ys where "ks = xs @ k # ys" by (meson split_list)
  with assms(1) show ?thesis
    using qty_sum_live_nonneg [of g xs] qty_sum_live_nonneg [of g ys] by simp
qed

context order_slab begin

lemma get_order_live:
  assumes "book_ok S b" and "map_of (bk_index b) oid = Some k"
  obtains ord where "sl_get S (bk_orders b) k = Some ord" "live (sl_get S (bk_orders b)) k = Some ord"
    "o_id ord = oid"
proof -
  from assms obtain ord where "live (sl_get S (bk_orders b)) k = Some ord" "o_id ord = oid"
    using book_okD(2) [OF assms(1)] unfolding index_ok_def by blast
  then show thesis by (intro that) (auto simp: live_Some)
qed

lemma cancel_found:
  assumes ok: "book_ok S b" and c: "cancel S oid acc b = (True, b')"
  obtains k ord where "map_of (bk_index b) oid = Some k" "sl_get S (bk_orders b) k = Some ord"
    "live (sl_get S (bk_orders b)) k = Some ord" "o_id ord = oid" "o_account ord = acc"
proof -
  from c obtain k where k: "map_of (bk_index b) oid = Some k"
    by (auto simp: cancel_def split: option.splits)
  obtain ord where ord: "sl_get S (bk_orders b) k = Some ord"
    "live (sl_get S (bk_orders b)) k = Some ord" "o_id ord = oid"
    using get_order_live [OF ok k] .
  have "o_account ord = acc" using c k ord(1) by (simp add: cancel_def split: if_splits)
  with k ord show thesis by (rule that)
qed

lemma cancel_ok:
  assumes ok: "book_ok S b" and c: "cancel S oid acc b = (True, b')"
  shows "book_ok S b'" and "side_orders S b' s = without oid (side_orders S b s)"
    and "map_of (bk_index b') oid = None" and "bk_symbol b' = bk_symbol b"
    and "\<exists>ord. get_order S b oid = Some ord \<and> o_account ord = acc"
proof -
  define g where "g = sl_get S (bk_orders b)"
  obtain k ord where k: "map_of (bk_index b) oid = Some k"
    and ord: "g k = Some ord" "live g k = Some ord" "o_id ord = oid" "o_account ord = acc"
    using cancel_found [OF ok c] unfolding g_def .
  then show "\<exists>ord. get_order S b oid = Some ord \<and> o_account ord = acc"
    by (simp add: get_order_def g_def)
  let ?s = "o_side ord" and ?px = "o_price ord" and ?dead = "ord\<lparr>o_qty_rem := 0\<rparr>"
  obtain P lvl Q where pr: "priority ?s (ladder_of ?s b) = P @ (?px, lvl) # Q"
    and lvl: "map_of (ladder_of ?s b) ?px = Some lvl" "k \<in> set (lv_queue lvl)"
    and lok: "level_ok g ?s ?px lvl"
    using live_level [OF ok g_def ord(2)] .
  define lvl' where "lvl' = lvl\<lparr>lv_total := sub64 (lv_total lvl) (o_qty_rem ord)\<rparr>"
  have b': "b' = set_ladder ?s (write_level ?px lvl' (ladder_of ?s b))
      (b\<lparr>bk_orders := sl_set S k ?dead (bk_orders b), bk_index := AList.delete oid (bk_index b)\<rparr>)"
    using c k ord(1,4) lvl(1) by (simp add: cancel_def g_def lvl'_def Let_def book_upd_commute)
  then show "map_of (bk_index b') oid = None" "bk_symbol b' = bk_symbol b" by simp_all
  have g': "sl_get S (sl_set S k ?dead (bk_orders b)) = g(k \<mapsto> ?dead)"
    unfolding g_def by (rule get_set) (use ord(1) in \<open>simp add: g_def\<close>)
  have killed: "live (g(k \<mapsto> ?dead)) k = None" by (simp add: live_def)
  have kills: "kills g k ord (g(k \<mapsto> ?dead))" by (rule kills_upd [OF ord(2) killed])
  have idx: "index_ok (g(k \<mapsto> ?dead)) (AList.delete oid (bk_index b))"
    using index_ok_remove [OF book_okD(2) [OF ok, folded g_def] ord(2) killed] ord(3) by simp
  have sum: "qty_sum (live_orders (g(k \<mapsto> ?dead)) (lv_queue lvl)) = lv_total lvl - o_qty_rem ord"
    using qty_sum_kill [OF _ lvl(2) kills] lok by (simp add: level_ok_def queue_ok_def)
  have total: "lv_total lvl' = qty_sum (live_orders (g(k \<mapsto> ?dead)) (lv_queue lvl'))"
    "lv_total lvl' \<le> i64_max"
    using qty_sum_live_nonneg [of "g(k \<mapsto> ?dead)" "lv_queue lvl"] lok ord(2) unfolding sum
    by (simp_all add: lvl'_def sum sub64_id i64_ok_def i64_min_def level_ok_def live_Some)
  have queue: "queue_ok (g(k \<mapsto> ?dead)) ?s ?px (lv_queue lvl')"
    using lok ord(1) by (auto simp: level_ok_def queue_ok_def lvl'_def)
  note ch = book_change_ok [OF ok g_def pr ord(1) refl refl g' idx queue total _ _ b']
  show "book_ok S b'" by (rule ch(1)) (simp_all add: lvl'_def lvl(2))
  have kill: "ladder_orders (g(k \<mapsto> ?dead)) m = without oid (ladder_orders g m)" for m
    using ladder_orders_kill [OF book_okD(2) [OF ok, folded g_def] kills] ord(3) by simp
  show "side_orders S b' s = without oid (side_orders S b s)"
  proof (cases "s = ?s")
    case True
    have "side_orders S b' ?s = ladder_orders (g(k \<mapsto> ?dead)) (P @ (?px, lvl) # Q)"
      using ch(2,5,6) by (simp add: lvl'_def lvl(2))
    also have "\<dots> = without oid (side_orders S b ?s)"
      unfolding kill by (simp only: side_orders_def pr g_def)
    finally show ?thesis using True by simp
  next
    case False
    then have "ladder_of s b' = ladder_of s b" by (simp add: b')
    moreover have "side_orders S b' s = ladder_orders (g(k \<mapsto> ?dead)) (priority s (ladder_of s b'))"
      by (rule ch(4)) (simp_all add: lvl'_def lvl(2))
    ultimately show ?thesis unfolding kill by (simp add: side_orders_def g_def)
  qed
qed

lemma cancel_False: "cancel S oid acc b = (False, b') \<Longrightarrow> b' = b"
  by (auto simp: cancel_def Let_def split: option.splits if_splits)

end

end
