(* ===== verification/BookMatch.thy ===== *)
theory BookMatch
  imports BookOps
begin

text \<open>
  The matching loop against a well-formed book. One trade takes the head of the opposite
  priority list and leaves the book well formed; the loop therefore computes exactly the fills
  and the remaining list of the abstract matching, never panics and stops only when the taker is
  filled or no maker is in reach.
\<close>

lemma side_orders_ok:
  assumes "book_ok S b" and "ord \<in> set (side_orders S b s)"
  shows "o_side ord = s" "0 < o_qty_rem ord" "\<exists>k. live (sl_get S (bk_orders b)) k = Some ord"
  using ladder_orders_ok [OF book_okD(1) [OF assms(1)], of ord s] assms(2)
  by (simp_all add: side_orders_def set_ladder_orders)

lemma pop_live_front_spec:
  assumes "pop_live_front S orders ks = (Some k, queue)"
  obtains dead ord where "ks = dead @ k # queue" "live_orders (sl_get S orders) dead = []"
    "live (sl_get S orders) k = Some ord"
proof -
  have "\<exists>dead ord. ks = dead @ k # queue \<and> live_orders (sl_get S orders) dead = [] \<and>
      live (sl_get S orders) k = Some ord"
    using assms
  proof (induction ks)
    case (Cons j ks)
    show ?case
    proof (cases "live (sl_get S orders) j")
      case None
      with Cons obtain dead ord where "ks = dead @ k # queue"
        "live_orders (sl_get S orders) dead = []" "live (sl_get S orders) k = Some ord"
        by (auto simp: live_def Let_def split: option.splits if_splits)
      with None show ?thesis by (intro exI [of _ "j # dead"]) auto
    next
      case (Some ord)
      with Cons.prems have "j = k" "ks = queue" by (auto simp: live_Some Let_def)
      with Some show ?thesis by (intro exI [of _ "[]"]) auto
    qed
  qed simp
  then show thesis using that by blast
qed

lemma pop_live_front_None:
  "pop_live_front S orders ks = (None, queue) \<Longrightarrow> live_orders (sl_get S orders) ks = []"
  by (induction ks) (auto simp: live_def Let_def split: option.splits if_splits)

lemma best_opposite_Some:
  assumes "best_opposite t b = Some px"
  obtains lvl Q where "priority (opposite t) (ladder_of (opposite t) b) = (px, lvl) # Q"
proof (cases t)
  case Buy
  with assms obtain e where "bt_first (bk_asks b) = Some e" "fst e = px" by auto
  with Buy show thesis by (cases e) (auto dest!: bt_first_Some intro: that)
next
  case Sell
  with assms obtain e where "bt_last (bk_bids b) = Some e" "fst e = px" by auto
  with Sell show thesis by (cases e) (auto dest!: bt_last_Some intro: that)
qed

lemma best_opposite_None: "best_opposite t b = None \<Longrightarrow> ladder_of (opposite t) b = []"
  by (cases t) auto

section \<open>One trade\<close>

text \<open>The quantities of a trade are exact: nothing wraps.\<close>

lemma trade_arith:
  assumes "0 < tq" "i64_ok tq" "0 < q" "q \<le> tot" "tot \<le> i64_max"
  shows "sub64 q (min tq q) = q - min tq q" "sub64 tot (min tq q) = tot - min tq q"
    "sub64 tq (min tq q) = tq - min tq q" "q - min tq q = 0 \<longleftrightarrow> q \<le> tq"
proof -
  have "i64_ok (q - min tq q)" "i64_ok (tot - min tq q)" "i64_ok (tq - min tq q)"
    using assms by (auto simp: i64_ok_def i64_min_def)
  then show "sub64 q (min tq q) = q - min tq q" "sub64 tot (min tq q) = tot - min tq q"
    "sub64 tq (min tq q) = tq - min tq q" "q - min tq q = 0 \<longleftrightarrow> q \<le> tq"
    by (auto simp: sub64_id)
qed

text \<open>The maker at the head of a side: the first live key of the best level's queue.\<close>

definition head_maker ::
  "(nat \<Rightarrow> order option) \<Rightarrow> 's order_book \<Rightarrow> side \<Rightarrow> price \<Rightarrow> level \<Rightarrow> ladder \<Rightarrow> nat list \<Rightarrow> nat \<Rightarrow> order \<Rightarrow> bool"
where
  "head_maker g b s px lvl Q queue k maker \<longleftrightarrow>
     priority s (ladder_of s b) = (px, lvl) # Q \<and> live g k = Some maker \<and>
     (\<exists>dead. lv_queue lvl = dead @ k # queue \<and> live_orders g dead = [])"

lemma live_orders_Nil: "live_orders g ks = [] \<longleftrightarrow> (\<forall>j \<in> set ks. live g j = None)"
  by (induction ks) (auto split: option.splits)

lemma head_maker_facts:
  assumes ok: "book_ok S b" and g: "g = sl_get S (bk_orders b)"
    and head: "head_maker g b s px lvl Q queue k maker"
  shows "g k = Some maker" "o_side maker = s" "o_price maker = px" "0 < o_qty_rem maker"
    and "queue_ok g s px (k # queue)" "lv_total lvl \<le> i64_max"
    and "lv_total lvl = o_qty_rem maker + qty_sum (live_orders g queue)"
    and "side_orders S b s = maker # live_orders g queue @ ladder_orders g Q"
    and "\<And>j. j \<in> set (lv_queue lvl) \<Longrightarrow> j \<noteq> k \<Longrightarrow> live g j \<noteq> None \<Longrightarrow> j \<in> set queue"
proof -
  obtain dead where pr: "priority s (ladder_of s b) = (px, lvl) # Q"
    and queue: "lv_queue lvl = dead @ k # queue" and dead: "live_orders g dead = []"
    and live: "live g k = Some maker"
    using head by (auto simp: head_maker_def)
  note okD = book_okD [OF ok, folded g]
  have "map_of (ladder_of s b) px = Some lvl"
    by (rule priority_lookup [OF ladder_ok_bt [OF okD(1)], where s = s and P = "[]" and Q = Q])
      (simp add: pr)
  then have lok: "level_ok g s px lvl" by (rule ladder_ok_lookup [OF okD(1)])
  show "g k = Some maker" "0 < o_qty_rem maker" using live by (simp_all add: live_Some)
  with lok queue show "o_side maker = s" "o_price maker = px" "queue_ok g s px (k # queue)"
    "lv_total lvl \<le> i64_max"
    by (auto simp: level_ok_def queue_ok_def)
  show "lv_total lvl = o_qty_rem maker + qty_sum (live_orders g queue)"
    using lok live dead by (simp add: level_ok_def queue)
  show "side_orders S b s = maker # live_orders g queue @ ladder_orders g Q"
    using dead live by (simp add: side_orders_def pr queue flip: g)
  have "\<forall>j \<in> set dead. live g j = None"
    using dead by (simp add: live_orders_Nil)
  then show "\<And>j. j \<in> set (lv_queue lvl) \<Longrightarrow> j \<noteq> k \<Longrightarrow> live g j \<noteq> None \<Longrightarrow> j \<in> set queue"
    by (auto simp: queue)
qed

text \<open>The head is filled and leaves the book.\<close>

lemma head_filled:
  assumes ok: "book_ok S b" and g: "g = sl_get S (bk_orders b)"
    and head: "head_maker g b s px lvl Q queue k maker"
    and sl': "sl_get S sl' = g(k := None)"
    and b': "b' = set_ladder s
        (write_level px \<lparr>lv_queue = queue, lv_total = lv_total lvl - o_qty_rem maker\<rparr> (ladder_of s b))
        (b\<lparr>bk_orders := sl', bk_index := AList.delete (o_id maker) (bk_index b)\<rparr>)"
  shows "book_ok S b'" and "side_orders S b' s = tl (side_orders S b s)"
    and "t \<noteq> s \<Longrightarrow> side_orders S b' t = side_orders S b t"
proof -
  note h = head_maker_facts [OF ok g head]
  have live: "live g k = Some maker" and pr: "priority s (ladder_of s b) = [] @ (px, lvl) # Q"
    using head by (simp_all add: head_maker_def)
  have fresh: "k \<notin> set queue" using h(5) by (simp add: queue_ok_def)
  have idx: "index_ok (g(k := None)) (AList.delete (o_id maker) (bk_index b))"
    by (rule index_ok_remove [OF book_okD(2) [OF ok, folded g] live]) (simp add: live_def)
  define lvl' where "lvl' = \<lparr>lv_queue = queue, lv_total = lv_total lvl - o_qty_rem maker\<rparr>"
  have queue: "queue_ok (g(k := None)) s px (lv_queue lvl')"
    using h(5) fresh by (auto simp: queue_ok_def lvl'_def)
  have tot: "lv_total lvl' = qty_sum (live_orders (g(k := None)) (lv_queue lvl'))"
    "lv_total lvl' \<le> i64_max"
    using h(4,6,7) fresh by (simp_all add: lvl'_def)
  have keep: "\<And>j. j \<in> set (lv_queue lvl) \<Longrightarrow> j \<noteq> k \<Longrightarrow> live g j \<noteq> None \<Longrightarrow> j \<in> set (lv_queue lvl')"
    using h(9) by (simp add: lvl'_def)
  note ch = book_change_ok [OF ok g pr h(1-3) sl' idx queue tot keep _ b' [folded lvl'_def]]
  have no: "live (g(k := None)) k = None" by (simp add: live_def)
  show "book_ok S b'" by (rule ch(1)) (simp_all add: no)
  show "side_orders S b' s = tl (side_orders S b s)"
    using ch(2) h(8) fresh no by (simp add: lvl'_def)
  show "t \<noteq> s \<Longrightarrow> side_orders S b' t = side_orders S b t"
    by (rule ch(3)) (simp_all add: no)
qed

text \<open>The head is partly filled, keeps its place and its id.\<close>

lemma head_reduced:
  assumes ok: "book_ok S b" and g: "g = sl_get S (bk_orders b)"
    and head: "head_maker g b s px lvl Q queue k maker"
    and q: "0 < q" "q < o_qty_rem maker" and maker': "maker' = maker\<lparr>o_qty_rem := o_qty_rem maker - q\<rparr>"
    and sl': "sl_get S sl' = g(k \<mapsto> maker')"
    and b': "b' = set_ladder s
        (write_level px \<lparr>lv_queue = k # queue, lv_total = lv_total lvl - q\<rparr> (ladder_of s b))
        (b\<lparr>bk_orders := sl', bk_index := bk_index b\<rparr>)"
  shows "book_ok S b'" and "side_orders S b' s = maker' # tl (side_orders S b s)"
    and "t \<noteq> s \<Longrightarrow> side_orders S b' t = side_orders S b t"
proof -
  note h = head_maker_facts [OF ok g head]
  have live: "live g k = Some maker" and pr: "priority s (ladder_of s b) = [] @ (px, lvl) # Q"
    using head by (simp_all add: head_maker_def)
  have fresh: "k \<notin> set queue" using h(5) by (simp add: queue_ok_def)
  have live': "live (g(k \<mapsto> maker')) k = Some maker'" using q maker' by (simp add: live_def)
  have idx: "index_ok (g(k \<mapsto> maker')) (bk_index b)"
    by (rule index_ok_change [OF book_okD(2) [OF ok, folded g] live]) (use q maker' in simp_all)
  define lvl' where "lvl' = \<lparr>lv_queue = k # queue, lv_total = lv_total lvl - q\<rparr>"
  have queue: "queue_ok (g(k \<mapsto> maker')) s px (lv_queue lvl')"
    using h(2,3,5) q maker' by (auto simp: queue_ok_def lvl'_def)
  have tot: "lv_total lvl' = qty_sum (live_orders (g(k \<mapsto> maker')) (lv_queue lvl'))"
    "lv_total lvl' \<le> i64_max"
    using h(6,7) fresh live' q maker' by (simp_all add: lvl'_def)
  have keep: "\<And>j. j \<in> set (lv_queue lvl) \<Longrightarrow> j \<noteq> k \<Longrightarrow> live g j \<noteq> None \<Longrightarrow> j \<in> set (lv_queue lvl')"
    using h(9) by (simp add: lvl'_def)
  have new: "k \<in> set (lv_queue lvl')" by (simp add: lvl'_def)
  note ch = book_change_ok [OF ok g pr h(1-3) sl' idx queue tot keep new b' [folded lvl'_def]]
  show "book_ok S b'" by (rule ch(1))
  show "side_orders S b' s = maker' # tl (side_orders S b s)"
    using ch(2) h(8) fresh live' by (simp add: lvl'_def)
  show "t \<noteq> s \<Longrightarrow> side_orders S b' t = side_orders S b t"
    by (rule ch(3))
qed

context order_slab begin

lemma trade_ok:
  assumes ok: "book_ok S b" and g: "g = sl_get S (bk_orders b)"
    and head: "head_maker g b s px lvl Q queue k maker" and tq: "0 < tq" "i64_ok tq"
    and tr: "trade S tid s px lvl queue k maker tq b = (b', rem, f)"
  shows "book_ok S b'" and "rem = tq - min tq (o_qty_rem maker)"
    and "f = fill_of tid maker (min tq (o_qty_rem maker))" and "bk_symbol b' = bk_symbol b"
    and "side_orders S b' s = (if tq < o_qty_rem maker
        then maker\<lparr>o_qty_rem := o_qty_rem maker - tq\<rparr> # tl (side_orders S b s)
        else tl (side_orders S b s))"
    and "t \<noteq> s \<Longrightarrow> side_orders S b' t = side_orders S b t"
    and "\<forall>oid. map_of (bk_index b) oid = None \<longrightarrow> map_of (bk_index b') oid = None"
proof -
  note h = head_maker_facts [OF ok g head]
  let ?q = "min tq (o_qty_rem maker)" and ?maker = "\<lambda>q. maker\<lparr>o_qty_rem := o_qty_rem maker - q\<rparr>"
  have "o_qty_rem maker \<le> lv_total lvl"
    using h(7) qty_sum_live_nonneg [of g queue] by simp
  note ar = trade_arith [OF tq h(4) this h(6)]
  define orders1 where "orders1 = sl_set S k (?maker ?q) (bk_orders b)"
  have g1: "sl_get S orders1 = g(k \<mapsto> ?maker ?q)"
    unfolding orders1_def g by (rule get_set) (use h(1) g in simp)
  show "rem = tq - ?q" "f = fill_of tid maker ?q" "bk_symbol b' = bk_symbol b"
    "\<forall>oid. map_of (bk_index b) oid = None \<longrightarrow> map_of (bk_index b') oid = None"
    using tr h(3) by (auto simp: trade_def ar Let_def fill_of_def)
  have "book_ok S b' \<and> side_orders S b' s = (if tq < o_qty_rem maker
        then ?maker tq # tl (side_orders S b s) else tl (side_orders S b s)) \<and>
      (\<forall>t. t \<noteq> s \<longrightarrow> side_orders S b' t = side_orders S b t)"
  proof (cases "o_qty_rem maker \<le> tq")
    case True
    then have q: "?q = o_qty_rem maker" by simp
    have sl': "sl_get S (sl_remove S k orders1) = g(k := None)"
      using get_remove [of orders1 k] by (simp add: g1)
    have "b' = set_ladder s
        (write_level px \<lparr>lv_queue = queue, lv_total = lv_total lvl - o_qty_rem maker\<rparr> (ladder_of s b))
        (b\<lparr>bk_orders := sl_remove S k orders1, bk_index := AList.delete (o_id maker) (bk_index b)\<rparr>)"
      using tr by (simp add: trade_def ar [unfolded q] q Let_def orders1_def)
    note hf = head_filled [OF ok g head sl' this]
    show ?thesis using hf(1,2) hf(3) True by auto
  next
    case False
    then have q: "?q = tq" and lt: "tq < o_qty_rem maker" by simp_all
    have "b' = set_ladder s
        (write_level px \<lparr>lv_queue = k # queue, lv_total = lv_total lvl - tq\<rparr> (ladder_of s b))
        (b\<lparr>bk_orders := orders1, bk_index := bk_index b\<rparr>)"
      using tr lt by (simp add: trade_def ar [unfolded q] q Let_def orders1_def)
    note hr = head_reduced [OF ok g head tq(1) lt refl g1 [unfolded q] this]
    show ?thesis using hr(1,2) hr(3) lt by auto
  qed
  then show "book_ok S b'" "side_orders S b' s = (if tq < o_qty_rem maker
        then ?maker tq # tl (side_orders S b s) else tl (side_orders S b s))"
    "t \<noteq> s \<Longrightarrow> side_orders S b' t = side_orders S b t"
    by blast+
qed

section \<open>The matching loop\<close>

text \<open>If the other side has a level, its best level has a live maker at its head.\<close>

lemma head_exists:
  assumes ok: "book_ok S b" and g: "g = sl_get S (bk_orders b)" and best: "best_opposite t b = Some best"
  obtains lvl Q queue k maker where "map_of (ladder_of (opposite t) b) best = Some lvl"
    "pop_live_front S (bk_orders b) (lv_queue lvl) = (Some k, queue)"
    "head_maker g b (opposite t) best lvl Q queue k maker"
proof -
  note okD = book_okD [OF ok, folded g]
  obtain lvl Q where pr: "priority (opposite t) (ladder_of (opposite t) b) = (best, lvl) # Q"
    using best by (rule best_opposite_Some)
  have lvl: "map_of (ladder_of (opposite t) b) best = Some lvl"
    by (rule priority_lookup [OF ladder_ok_bt [OF okD(1)], where P = "[]" and s = "opposite t" and Q = Q])
      (simp add: pr)
  then have "level_ok g (opposite t) best lvl" by (rule ladder_ok_lookup [OF okD(1)])
  then have "live_orders g (lv_queue lvl) \<noteq> []" by (auto simp: level_ok_def)
  then obtain k queue where pop: "pop_live_front S (bk_orders b) (lv_queue lvl) = (Some k, queue)"
    using pop_live_front_None [of S "bk_orders b" "lv_queue lvl"] unfolding g
    by (cases "pop_live_front S (bk_orders b) (lv_queue lvl)"; cases "fst (pop_live_front S (bk_orders b) (lv_queue lvl))")
      auto
  from pop_live_front_spec [OF pop, folded g] obtain dead maker where
    "lv_queue lvl = dead @ k # queue" "live_orders g dead = []" "live g k = Some maker" .
  then have "head_maker g b (opposite t) best lvl Q queue k maker"
    using pr by (auto simp: head_maker_def)
  with lvl pop show thesis by (rule that)
qed

lemma match_step_ok:
  assumes ok: "book_ok S b" and tq: "i64_ok tq" and ms: "ms = side_orders S b (opposite t)"
  shows "tq \<le> 0 \<or> ms = [] \<or> better (opposite t) px (o_price (hd ms)) \<Longrightarrow>
      match_step S tid t px tq b = Stop"
    and "0 < tq \<Longrightarrow> ms = m # ms' \<Longrightarrow> \<not> better (opposite t) px (o_price m) \<Longrightarrow>
      \<exists>b'. match_step S tid t px tq b =
          Traded b' (tq - min tq (o_qty_rem m)) (fill_of tid m (min tq (o_qty_rem m))) \<and>
        book_ok S b' \<and> bk_symbol b' = bk_symbol b \<and> side_orders S b' t = side_orders S b t \<and>
        side_orders S b' (opposite t) =
          (if tq < o_qty_rem m then m\<lparr>o_qty_rem := o_qty_rem m - tq\<rparr> # ms' else ms') \<and>
        (\<forall>oid. map_of (bk_index b) oid = None \<longrightarrow> map_of (bk_index b') oid = None)"
proof -
  define g where "g = sl_get S (bk_orders b)"
  let ?s = "opposite t"
  have stop: "ms = []" if "best_opposite t b = None"
    using best_opposite_None [OF that] by (cases ?s) (simp_all add: ms side_orders_def)
  have headm: "\<exists>rest. ms = maker # rest \<and> o_price maker = best \<and> g k = Some maker"
    if "head_maker g b ?s best lvl Q queue k maker" for best lvl Q queue k maker
    using head_maker_facts(1,3,8) [OF ok g_def that] ms by simp
  show "match_step S tid t px tq b = Stop"
    if halt: "tq \<le> 0 \<or> ms = [] \<or> better ?s px (o_price (hd ms))"
  proof (cases "best_opposite t b")
    case None
    then show ?thesis by (simp add: match_step_def)
  next
    case (Some best)
    from head_exists [OF ok g_def Some] headm obtain m rest where "ms = m # rest" "o_price m = best"
      by metis
    with Some halt show ?thesis by (auto simp: match_step_def price_blocks_better)
  qed
  show "\<exists>b'. match_step S tid t px tq b =
          Traded b' (tq - min tq (o_qty_rem m)) (fill_of tid m (min tq (o_qty_rem m))) \<and>
        book_ok S b' \<and> bk_symbol b' = bk_symbol b \<and> side_orders S b' t = side_orders S b t \<and>
        side_orders S b' ?s =
          (if tq < o_qty_rem m then m\<lparr>o_qty_rem := o_qty_rem m - tq\<rparr> # ms' else ms') \<and>
        (\<forall>oid. map_of (bk_index b) oid = None \<longrightarrow> map_of (bk_index b') oid = None)"
    if pos: "0 < tq" and mm: "ms = m # ms'" and reach: "\<not> better ?s px (o_price m)"
  proof -
    obtain best where best: "best_opposite t b = Some best"
      using stop mm by (cases "best_opposite t b") auto
    obtain lvl Q queue k maker where lvl: "map_of (ladder_of ?s b) best = Some lvl"
      "pop_live_front S (bk_orders b) (lv_queue lvl) = (Some k, queue)"
      and hm: "head_maker g b ?s best lvl Q queue k maker"
      using head_exists [OF ok g_def best] .
    have m: "maker = m" "o_price m = best" "g k = Some m" using headm [OF hm] mm by auto
    obtain b' rem f where tr: "trade S tid ?s best lvl queue k maker tq b = (b', rem, f)"
      by (metis prod_cases3)
    note t = trade_ok [OF ok g_def hm pos tq tr]
    have "match_step S tid t px tq b = Traded b' rem f"
      using best lvl pos reach m tr by (simp add: match_step_def price_blocks_better Let_def g_def)
    then show ?thesis using t(1-5,7) t(6) [of t] m mm ms by auto
  qed
qed

lemma match_loop_ok:
  assumes "book_ok S b" and "i64_ok tq"
  shows "\<exists>b'. match_loop S tid t px tq b =
      Some (b', snd (spec_match tid t px tq (side_orders S b (opposite t)))) \<and>
    book_ok S b' \<and> bk_symbol b' = bk_symbol b \<and> side_orders S b' t = side_orders S b t \<and>
    side_orders S b' (opposite t) = fst (spec_match tid t px tq (side_orders S b (opposite t))) \<and>
    (\<forall>oid. map_of (bk_index b) oid = None \<longrightarrow> map_of (bk_index b') oid = None)"
  using assms
proof (induction "match_measure t b tq" arbitrary: b tq rule: less_induct)
  case less
  define ms where "ms = side_orders S b (opposite t)"
  note st = match_step_ok [OF less.prems ms_def, where px = px]
  show ?case
  proof (cases "tq \<le> 0 \<or> ms = [] \<or> better (opposite t) px (o_price (hd ms))")
    case True
    with st(1) have "match_loop S tid t px tq b = Some (b, [])"
      by (simp add: match_loop.simps [of S tid t px tq b])
    moreover from True have "spec_match tid t px tq ms = (ms, [])"
      by (cases ms) auto
    ultimately show ?thesis using less.prems by (simp add: ms_def)
  next
    case False
    then obtain m ms' where mm: "ms = m # ms'" and pos: "0 < tq"
      and reach: "\<not> better (opposite t) px (o_price m)" by (cases ms) auto
    let ?q = "min tq (o_qty_rem m)"
    obtain b1 where step: "match_step S tid t px tq b = Traded b1 (tq - ?q) (fill_of tid m ?q)"
      and b1: "book_ok S b1" "bk_symbol b1 = bk_symbol b" "side_orders S b1 t = side_orders S b t"
        "\<forall>oid. map_of (bk_index b) oid = None \<longrightarrow> map_of (bk_index b1) oid = None"
      and opp: "side_orders S b1 (opposite t) =
        (if tq < o_qty_rem m then m\<lparr>o_qty_rem := o_qty_rem m - tq\<rparr> # ms' else ms')"
      using st(2) [OF pos mm reach] by blast
    have mpos: "0 < o_qty_rem m"
      using side_orders_ok(2) [OF less.prems(1), of m "opposite t"] mm by (simp add: ms_def)
    have "match_measure t b1 (tq - ?q) < match_measure t b tq"
      by (rule match_step_Traded_measure [OF step])
    moreover have "i64_ok (tq - ?q)"
      by (rule i64_ok_between [OF _ _ less.prems(2)]) (use pos mpos in auto)
    ultimately obtain b2 where b2: "match_loop S tid t px (tq - ?q) b1 =
        Some (b2, snd (spec_match tid t px (tq - ?q) (side_orders S b1 (opposite t))))"
      "book_ok S b2" "bk_symbol b2 = bk_symbol b1" "side_orders S b2 t = side_orders S b1 t"
      "side_orders S b2 (opposite t) = fst (spec_match tid t px (tq - ?q) (side_orders S b1 (opposite t)))"
      "\<forall>oid. map_of (bk_index b1) oid = None \<longrightarrow> map_of (bk_index b2) oid = None"
      using less.hyps b1(1) by blast
    have loop: "match_loop S tid t px tq b = Some (b2, fill_of tid m ?q #
        snd (spec_match tid t px (tq - ?q) (side_orders S b1 (opposite t))))"
      by (simp add: match_loop.simps [of S tid t px tq b] step b2(1))
    have "spec_match tid t px tq ms = (side_orders S b2 (opposite t), fill_of tid m ?q #
        snd (spec_match tid t px (tq - ?q) (side_orders S b1 (opposite t))))"
      using pos reach by (auto simp: mm opp b2(5) min_def split: prod.splits)
    then show ?thesis using loop b1 b2(2-4,6) by (simp add: ms_def)
  qed
qed

end

end
