(* ===== verification/BookFacts.thy ===== *)
theory BookFacts
  imports BookMatch "HOL-Library.Multiset"
begin

text \<open>
  What the queries of a well-formed book return, in terms of its priority lists, and what a
  snapshot followed by a restore keeps.
\<close>

section \<open>Membership, identifiers and lookup\<close>

lemma side_orders_iff:
  assumes ok: "book_ok S b"
  shows "ord \<in> set (side_orders S b s) \<longleftrightarrow>
    o_side ord = s \<and> (\<exists>k. live (sl_get S (bk_orders b)) k = Some ord)"
proof
  assume "ord \<in> set (side_orders S b s)"
  then show "o_side ord = s \<and> (\<exists>k. live (sl_get S (bk_orders b)) k = Some ord)"
    using side_orders_ok [OF ok] by blast
next
  assume "o_side ord = s \<and> (\<exists>k. live (sl_get S (bk_orders b)) k = Some ord)"
  then obtain k where s: "o_side ord = s" and k: "live (sl_get S (bk_orders b)) k = Some ord" by blast
  obtain P lvl Q where "priority s (ladder_of s b) = P @ (o_price ord, lvl) # Q" "k \<in> set (lv_queue lvl)"
    using live_level [OF ok refl k] unfolding s .
  with k show "ord \<in> set (side_orders S b s)"
    by (auto simp: side_orders_def set_live_orders)
qed

lemma distinct_ids_live:
  assumes "index_ok g idx" and "distinct ks"
  shows "distinct (map o_id (live_orders g ks))"
  using assms(2)
proof (induction ks)
  case (Cons k ks)
  have ids: "o_id x \<noteq> o_id y" if x: "live g k = Some x" and y: "y \<in> set (live_orders g ks)" for x y
  proof
    assume "o_id x = o_id y"
    obtain j where "j \<in> set ks" "live g j = Some y" using y by (auto simp: set_live_orders)
    with live_ids_unique [OF assms(1) x _ \<open>o_id x = o_id y\<close>] have "k \<in> set ks" by metis
    with Cons.prems show False by simp
  qed
  have rest: "distinct (map o_id (live_orders g ks))" using Cons by simp
  show ?case
  proof (cases "live g k")
    case None
    with rest show ?thesis by simp
  next
    case (Some x)
    have "o_id x \<notin> o_id ` set (live_orders g ks)" using ids [OF Some] by blast
    with Some rest show ?thesis by simp
  qed
qed simp

lemma distinct_ids_ladder:
  assumes idx: "index_ok g idx" and "ladder_ok g s m"
  shows "distinct (map o_id (ladder_orders g m))"
  using assms(2)
proof (induction m)
  case (Cons e m)
  have m: "ladder_ok g s m" and e: "queue_ok g s (fst e) (lv_queue (snd e))"
    using Cons.prems by (auto simp: ladder_ok_def bt_ok_Cons level_ok_def)
  have "o_id x \<noteq> o_id y" if x: "x \<in> set (live_orders g (lv_queue (snd e)))"
    and y: "y \<in> set (ladder_orders g m)" for x y
  proof
    assume "o_id x = o_id y"
    moreover obtain k j where "live g k = Some x" "live g j = Some y"
      using x ladder_orders_ok [OF m y] by (auto simp: set_live_orders)
    ultimately have "x = y" using live_ids_unique [OF idx] by (metis option.inject)
    moreover have "o_price x = fst e"
      using ladder_orders_price [OF Cons.prems, of e x] x by simp
    moreover obtain e' where "e' \<in> set m" "o_price y = fst e'"
      using y ladder_orders_price [OF m] by (auto simp: set_ladder_orders)
    ultimately show False using Cons.prems by (auto simp: ladder_ok_def bt_ok_Cons)
  qed
  with Cons.IH [OF m] distinct_ids_live [OF idx, of "lv_queue (snd e)"] e show ?case
    by (auto simp: queue_ok_def)
qed simp

lemma ladder_orders_rev_mset: "mset (ladder_orders g (priority s m)) = mset (ladder_orders g m)"
  for m :: ladder
proof -
  have "mset (ladder_orders g (rev m)) = mset (ladder_orders g m)"
    by (induction m) simp_all
  then show ?thesis by (cases s) simp_all
qed

text \<open>The ids of the live orders of both sides are pairwise different.\<close>

definition all_orders :: "('s, order) slab_ops \<Rightarrow> 's order_book \<Rightarrow> order list" where
  "all_orders S b = side_orders S b Buy @ side_orders S b Sell"

lemma distinct_ids_side:
  assumes ok: "book_ok S b"
  shows "distinct (map o_id (side_orders S b s))"
proof -
  have "mset (map o_id (side_orders S b s)) =
      mset (map o_id (ladder_orders (sl_get S (bk_orders b)) (ladder_of s b)))"
    by (simp add: side_orders_def ladder_orders_rev_mset)
  then show ?thesis
    using distinct_ids_ladder [OF book_okD(2,1) [OF ok], of s] mset_eq_imp_distinct_iff by blast
qed

lemma same_id_same_order:
  assumes ok: "book_ok S b" and "x \<in> set (side_orders S b s)" "y \<in> set (side_orders S b t)" "o_id x = o_id y"
  shows "x = y"
proof -
  obtain k j where "live (sl_get S (bk_orders b)) k = Some x" "live (sl_get S (bk_orders b)) j = Some y"
    using assms by (auto simp: side_orders_iff [OF ok])
  then show ?thesis using live_ids_unique [OF book_okD(2) [OF ok]] assms(4) by (metis option.inject)
qed

lemma distinct_ids:
  assumes ok: "book_ok S b"
  shows "distinct (map o_id (all_orders S b))"
proof -
  have "o_id x \<noteq> o_id y" if "x \<in> set (side_orders S b Buy)" "y \<in> set (side_orders S b Sell)" for x y
  proof
    assume "o_id x = o_id y"
    with same_id_same_order [OF ok that] have "x = y" by simp
    with side_orders_ok(1) [OF ok that(1)] side_orders_ok(1) [OF ok that(2)] show False by simp
  qed
  then show ?thesis using distinct_ids_side [OF ok] by (auto simp: all_orders_def)
qed

text \<open>The index finds exactly the live orders, so an id is found if and only if it is live.\<close>

lemma get_order_iff:
  assumes ok: "book_ok S b"
  shows "get_order S b oid = Some ord \<longleftrightarrow> ord \<in> set (all_orders S b) \<and> o_id ord = oid"
proof -
  have idx: "map_of (bk_index b) oid = Some k \<longleftrightarrow>
      (\<exists>ord. live (sl_get S (bk_orders b)) k = Some ord \<and> o_id ord = oid)" for k
    using book_okD(2) [OF ok] by (simp add: index_ok_def)
  have "ord \<in> set (all_orders S b) \<longleftrightarrow> (\<exists>k. live (sl_get S (bk_orders b)) k = Some ord)"
    using side_orders_iff [OF ok] by (cases "o_side ord") (auto simp: all_orders_def)
  moreover have "get_order S b oid = Some ord \<longleftrightarrow>
      (\<exists>k. live (sl_get S (bk_orders b)) k = Some ord \<and> o_id ord = oid)"
  proof (cases "map_of (bk_index b) oid")
    case None
    with idx show ?thesis by (auto simp: get_order_def)
  next
    case (Some j)
    with idx obtain x where x: "live (sl_get S (bk_orders b)) j = Some x" "o_id x = oid" by blast
    have "k = j" if "live (sl_get S (bk_orders b)) k = Some ord" "o_id ord = oid" for k
      using idx that Some by (metis option.inject)
    with Some x show ?thesis by (auto simp: get_order_def live_Some)
  qed
  ultimately show ?thesis by auto
qed

lemma index_None_iff:
  assumes ok: "book_ok S b"
  shows "map_of (bk_index b) oid = None \<longleftrightarrow> oid \<notin> o_id ` set (all_orders S b)"
proof -
  have "map_of (bk_index b) oid = None \<longleftrightarrow> get_order S b oid = None"
  proof (cases "map_of (bk_index b) oid")
    case (Some k)
    then obtain ord where "live (sl_get S (bk_orders b)) k = Some ord"
      using book_okD(2) [OF ok] by (auto simp: index_ok_def)
    with Some show ?thesis by (simp add: get_order_def live_Some)
  qed (simp add: get_order_def)
  moreover have "get_order S b oid = None \<longleftrightarrow> oid \<notin> o_id ` set (all_orders S b)"
    using get_order_iff [OF ok, of oid] by (cases "get_order S b oid") fastforce+
  ultimately show ?thesis by simp
qed

lemma live_order_count_ok:
  assumes ok: "book_ok S b"
  shows "live_order_count b = length (all_orders S b)"
proof -
  have d: "distinct (map fst (bk_index b))" using book_okD(2) [OF ok] by (simp add: index_ok_def)
  have "set (map fst (bk_index b)) = set (map o_id (all_orders S b))"
    using index_None_iff [OF ok] by (auto simp: map_of_eq_None_iff)
  then show ?thesis
    using d distinct_ids [OF ok] unfolding live_order_count_def
    by (metis distinct_card length_map)
qed

section \<open>Prices and totals\<close>

lemma better_eq_total: "\<not> better s p q \<Longrightarrow> \<not> better s q p \<Longrightarrow> p = q"
  by (cases s) auto

lemma prioritized_ladder:
  assumes ok: "ladder_ok g s m" and sub: "set m' \<subseteq> set m"
    and srt: "sorted_wrt (\<lambda>x y. better s (fst x) (fst y)) m'"
  shows "prioritized s (ladder_orders g m')"
  using sub srt
proof (induction m')
  case (Cons e m')
  have price: "o_price x = fst e" if "x \<in> set (live_orders g (lv_queue (snd e)))" for x
    using ladder_orders_price [OF ok _ that] Cons.prems(1) by simp
  have "\<not> better s (o_price y) (o_price x)" if "x \<in> set (live_orders g (lv_queue (snd e)))"
    and y: "y \<in> set (ladder_orders g m')" for x y
  proof -
    obtain e' where "e' \<in> set m'" "o_price y = fst e'"
      using y ladder_orders_price [OF ok] Cons.prems(1) by (auto simp: set_ladder_orders)
    then show ?thesis using Cons.prems(2) price [OF that(1)] by (simp add: better_asym)
  qed
  moreover have "sorted_wrt (\<lambda>x y. \<not> better s (o_price y) (o_price x)) (live_orders g (lv_queue (snd e)))"
    by (rule sorted_wrt_mono_rel [OF _ sorted_wrt_true]) (simp add: price)
  ultimately show ?case using Cons by (auto simp: prioritized_def sorted_wrt_append)
qed (simp add: prioritized_def)

lemma side_orders_prioritized:
  assumes ok: "book_ok S b"
  shows "prioritized s (side_orders S b s)"
proof -
  note l = book_okD(1) [OF ok, of s]
  have "sorted_wrt (\<lambda>x y. better s (fst x) (fst y)) (priority s (ladder_of s b))"
    using ladder_ok_bt [OF l]
    by (cases s) (auto simp: bt_ok_def sorted_wrt_map sorted_wrt_rev)
  then show ?thesis
    unfolding side_orders_def by (intro prioritized_ladder [OF l]) simp_all
qed

text \<open>The total of the level at a price is the quantity of the side's orders at that price.\<close>

lemma qty_sum_filter_append [simp]: "qty_sum (filter P (xs @ ys)) = qty_sum (filter P xs) + qty_sum (filter P ys)"
  by (simp add: qty_sum_def)

lemma ladder_orders_no_price:
  assumes "ladder_ok g s m" and "set m' \<subseteq> set m" and "px \<notin> fst ` set m'"
  shows "filter (\<lambda>x. o_price x = px) (ladder_orders g m') = []"
proof -
  have "o_price x \<noteq> px" if x: "x \<in> set (ladder_orders g m')" for x
  proof -
    obtain e where e: "e \<in> set m'" "x \<in> set (live_orders g (lv_queue (snd e)))"
      using x by (auto simp: set_ladder_orders)
    then have "o_price x = fst e" using ladder_orders_price [OF assms(1)] assms(2) by blast
    with e(1) assms(3) show ?thesis by (metis image_eqI)
  qed
  then show ?thesis by (simp add: filter_empty_conv)
qed

lemma level_total:
  assumes ok: "book_ok S b"
  shows "lv_total (get_or new_level (ladder_of s b) px) =
    qty_sum (filter (\<lambda>x. o_price x = px) (side_orders S b s))"
proof -
  define g where "g = sl_get S (bk_orders b)"
  note l = book_okD(1) [OF ok, of s, folded g_def]
  show ?thesis
  proof (cases "map_of (ladder_of s b) px")
    case None
    then have "filter (\<lambda>x. o_price x = px) (ladder_orders g (priority s (ladder_of s b))) = []"
      by (intro ladder_orders_no_price [OF l]) (auto simp: map_of_eq_None_iff)
    with None show ?thesis by (simp add: side_orders_def g_def get_or_def new_level_def)
  next
    case (Some lvl)
    obtain P Q where pr: "priority s (ladder_of s b) = P @ (px, lvl) # Q"
      using priority_split [OF ladder_ok_bt [OF l] Some] .
    note keys = priority_split_keys [OF ladder_ok_bt [OF l] pr]
    have mem: "set (ladder_of s b) = set (P @ (px, lvl) # Q)"
      by (simp only: set_priority [of s "ladder_of s b", symmetric] pr)
    have in_m: "(px, lvl) \<in> set (ladder_of s b)" by (simp add: mem)
    have "filter (\<lambda>x. o_price x = px) (live_orders g (lv_queue lvl)) = live_orders g (lv_queue lvl)"
      by (intro filter_True ballI) (use ladder_orders_price [OF l in_m] in simp)
    moreover have "filter (\<lambda>x. o_price x = px) (ladder_orders g P) = []"
      "filter (\<lambda>x. o_price x = px) (ladder_orders g Q) = []"
      using ladder_orders_no_price [OF l _ keys(1)] ladder_orders_no_price [OF l _ keys(2)] mem by auto
    moreover have "lv_total lvl = qty_sum (live_orders g (lv_queue lvl))"
      using ladder_ok_lookup [OF l Some] by (simp add: level_ok_def)
    ultimately show ?thesis
      using Some by (simp add: side_orders_def g_def [symmetric] pr get_or_def)
  qed
qed

definition qty_at :: "order list \<Rightarrow> price \<Rightarrow> int" where
  "qty_at ords px = qty_sum (filter (\<lambda>x. o_price x = px) ords)"

lemma room_iff:
  "book_ok S b \<Longrightarrow>
   room b ord \<longleftrightarrow> qty_at (side_orders S b (o_side ord)) (o_price ord) + o_qty_rem ord \<le> i64_max"
  by (simp add: room_def level_total qty_at_def)

text \<open>The best level of a side: its price is the price of the first order in priority order.\<close>

definition best_level :: "side \<Rightarrow> 's order_book \<Rightarrow> (price \<times> qty) option" where
  "best_level s b = (case s of Buy \<Rightarrow> best_bid b | Sell \<Rightarrow> best_ask b)"

lemma best_level_priority:
  "best_level s b = (case priority s (ladder_of s b) of [] \<Rightarrow> None | (px, lvl) # _ \<Rightarrow> Some (px, lv_total lvl))"
proof (cases s)
  case Buy
  then show ?thesis
    by (cases "bk_bids b" rule: rev_cases) (auto simp: best_level_def best_bid_def bt_last_def)
next
  case Sell
  then show ?thesis
    by (cases "bk_asks b") (auto simp: best_level_def best_ask_def bt_first_def)
qed

lemma best_level_spec:
  assumes ok: "book_ok S b"
  shows "best_level s b = (case side_orders S b s of [] \<Rightarrow> None
    | m # _ \<Rightarrow> Some (o_price m, qty_at (side_orders S b s) (o_price m)))"
proof -
  define g where "g = sl_get S (bk_orders b)"
  note l = book_okD(1) [OF ok, of s, folded g_def]
  show ?thesis
  proof (cases "priority s (ladder_of s b)")
    case Nil
    then show ?thesis by (simp add: best_level_priority side_orders_def)
  next
    case (Cons e Q)
    obtain px lvl where e: "e = (px, lvl)" by (cases e)
    have look: "map_of (ladder_of s b) px = Some lvl"
      by (rule priority_lookup [OF ladder_ok_bt [OF l], where P = "[]" and s = s and Q = Q]) (simp add: Cons e)
    have "live_orders g (lv_queue lvl) \<noteq> []"
      using ladder_ok_lookup [OF l look] qty_sum_live_pos [of g "lv_queue lvl"] by (simp add: level_ok_def)
    then obtain m ms where mm: "live_orders g (lv_queue lvl) = m # ms" by (cases "live_orders g (lv_queue lvl)") auto
    have "e \<in> set (ladder_of s b)" by (simp only: set_priority [of s "ladder_of s b", symmetric] Cons list.set_intros)
    then have "o_price m = px" using ladder_orders_price [OF l, of e m] e mm by simp
    moreover have "side_orders S b s = m # ms @ ladder_orders g Q"
      using mm by (simp add: side_orders_def g_def Cons e)
    moreover have "lv_total lvl = qty_at (side_orders S b s) px"
      using level_total [OF ok, of s px] look by (simp add: get_or_def qty_at_def)
    ultimately show ?thesis by (simp add: best_level_priority Cons e)
  qed
qed

lemma would_cross_iff:
  assumes ok: "book_ok S b"
  shows "would_cross b s px \<longleftrightarrow>
    (case side_orders S b (opposite s) of [] \<Rightarrow> False | m # _ \<Rightarrow> \<not> better (opposite s) px (o_price m))"
  using best_level_spec [OF ok, of "opposite s"]
  by (cases s) (auto simp: best_level_def not_less split: list.splits)

section \<open>Placing orders one after the other\<close>

lemma mset_place [simp]: "mset (place s ord xs) = add_mset ord (mset xs)"
  by (induction xs) auto

lemma not_better_trans: "\<not> better s p q \<Longrightarrow> \<not> better s q r \<Longrightarrow> \<not> better s p r"
  by (cases s) auto

lemma prioritized_Cons:
  "prioritized s (x # xs) \<longleftrightarrow>
   (\<forall>y \<in> set xs. \<not> better s (o_price y) (o_price x)) \<and> prioritized s xs"
  by (simp add: prioritized_def)

lemma prioritized_place: "prioritized s xs \<Longrightarrow> prioritized s (place s ord xs)"
proof (induction xs)
  case (Cons x xs)
  show ?case
  proof (cases "better s (o_price ord) (o_price x)")
    case True
    then have "\<not> better s (o_price y) (o_price ord)" if "y \<in> set (x # xs)" for y
      using that Cons.prems better_asym better_trans unfolding prioritized_Cons by (metis set_ConsD)
    with True Cons.prems show ?thesis by (simp add: prioritized_Cons [of s ord])
  next
    case False
    with Cons show ?thesis by (auto simp: prioritized_Cons)
  qed
qed (simp add: prioritized_def)

text \<open>An order is placed last among the orders of its price, and moves no others.\<close>

lemma filter_place:
  assumes "prioritized s xs"
  shows "filter (\<lambda>x. o_price x = px) (place s ord xs) =
    filter (\<lambda>x. o_price x = px) xs @ (if o_price ord = px then [ord] else [])"
  using assms
proof (induction xs)
  case (Cons x xs)
  show ?case
  proof (cases "better s (o_price ord) (o_price x)")
    case True
    have "o_price y \<noteq> o_price ord" if "y \<in> set (x # xs)" for y
      using that True Cons.prems unfolding prioritized_Cons by (metis better_irrefl set_ConsD)
    then have "filter (\<lambda>y. o_price y = o_price ord) (x # xs) = []"
      by (simp add: filter_empty_conv)
    with True show ?thesis by auto
  next
    case False
    with Cons show ?thesis by (auto simp: prioritized_Cons)
  qed
qed simp

section \<open>Snapshot and restore\<close>

definition side_at :: "order list \<Rightarrow> side \<Rightarrow> price \<Rightarrow> order list" where
  "side_at ords s px = filter (\<lambda>x. o_side x = s \<and> o_price x = px) ords"

text \<open>What a list of orders needs to be restored exactly.\<close>

definition restorable :: "order list \<Rightarrow> bool" where
  "restorable ords \<longleftrightarrow> (\<forall>x \<in> set ords. 0 < o_qty_rem x) \<and> distinct (map o_id ords) \<and>
     (\<forall>s px. qty_sum (side_at ords s px) \<le> i64_max)"

lemma side_at_append [simp]: "side_at (xs @ ys) s px = side_at xs s px @ side_at ys s px"
  by (simp add: side_at_def)

lemma qty_sum_nonneg: "\<forall>x \<in> set ords. 0 < o_qty_rem x \<Longrightarrow> 0 \<le> qty_sum ords"
  unfolding qty_sum_def by (intro sum_list_nonneg) auto

lemma restorable_room:
  assumes "restorable (old @ ord # ords)"
  shows "qty_sum (side_at old (o_side ord) (o_price ord)) + o_qty_rem ord \<le> i64_max"
    and "0 < o_qty_rem ord" and "o_id ord \<notin> o_id ` set old"
proof -
  let ?at = "\<lambda>xs. side_at xs (o_side ord) (o_price ord)"
  have le: "qty_sum (?at (old @ ord # ords)) \<le> i64_max" and pos: "\<forall>x \<in> set ords. 0 < o_qty_rem x"
    using assms by (auto simp: restorable_def)
  have "0 \<le> qty_sum (?at ords)" by (rule qty_sum_nonneg) (use pos in \<open>simp add: side_at_def\<close>)
  moreover have "?at (ord # ords) = ord # ?at ords" by (simp add: side_at_def)
  ultimately show "qty_sum (?at old) + o_qty_rem ord \<le> i64_max" using le by simp
qed (use assms in \<open>auto simp: restorable_def\<close>)

text \<open>A book whose sides hold, price by price, exactly the orders of a list, in its order.\<close>

definition holds_orders :: "('s, order) slab_ops \<Rightarrow> 's order_book \<Rightarrow> order list \<Rightarrow> bool" where
  "holds_orders S b ords \<longleftrightarrow> book_ok S b \<and>
     (\<forall>s px. filter (\<lambda>x. o_price x = px) (side_orders S b s) = side_at ords s px)"

lemma holds_orders_ids:
  assumes "holds_orders S b ords" and "oid \<notin> o_id ` set ords"
  shows "map_of (bk_index b) oid = None"
proof -
  have ok: "book_ok S b" using assms(1) by (simp add: holds_orders_def)
  have "x \<in> set ords" if "x \<in> set (side_orders S b s)" for x s
  proof -
    have "x \<in> set (filter (\<lambda>y. o_price y = o_price x) (side_orders S b s))" using that by simp
    then have "x \<in> set (side_at ords s (o_price x))"
      using assms(1) unfolding holds_orders_def by metis
    then show ?thesis by (simp add: side_at_def)
  qed
  with assms(2) show ?thesis by (auto simp: index_None_iff [OF ok] all_orders_def)
qed

context order_slab begin

lemma restore_step:
  assumes h: "holds_orders S b old" and r: "restorable (old @ ord # ords)"
  shows "holds_orders S (insert_resting S ord b) (old @ [ord])"
proof -
  have ok: "book_ok S b"
    and at: "\<And>s px. filter (\<lambda>x. o_price x = px) (side_orders S b s) = side_at old s px"
    using h by (simp_all add: holds_orders_def)
  note r = restorable_room [OF r]
  have "room b ord" using r(1) by (simp add: room_iff [OF ok] qty_at_def at)
  note ins = insert_resting_ok [OF ok holds_orders_ids [OF h r(3)] r(2) this]
  have "filter (\<lambda>x. o_price x = px) (side_orders S (insert_resting S ord b) s) = side_at (old @ [ord]) s px"
    for s px
    using filter_place [OF side_orders_prioritized [OF ok], of px s ord]
    by (cases "s = o_side ord") (auto simp: ins(2) at side_at_def)
  with ins(1) show ?thesis by (simp add: holds_orders_def)
qed

lemma restore_fold:
  "holds_orders S b old \<Longrightarrow> restorable (old @ ords) \<Longrightarrow>
   holds_orders S (foldl (\<lambda>b' ord. insert_resting S ord b') b ords) (old @ ords)"
proof (induction ords arbitrary: b old)
  case (Cons ord ords)
  from Cons.IH [OF restore_step [OF Cons.prems]] Cons.prems(2) show ?case by simp
qed simp

lemma empty_book_holds:
  assumes "sl_get S (bk_orders b) = Map.empty" "bk_bids b = []" "bk_asks b = []" "bk_index b = []"
  shows "holds_orders S b []"
proof -
  have l: "ladder_of s b = []" for s using assms by (cases s) auto
  have "priority s [] = []" for s :: side by (cases s) auto
  with assms l show ?thesis
    by (auto simp: holds_orders_def book_ok_def Let_def ladder_ok_def index_ok_def queued_def live_def
        side_orders_def side_at_def)
qed

lemma restore_holds: "restorable ords \<Longrightarrow> holds_orders S (restore_orders S ords b) ords"
  using restore_fold [OF empty_book_holds, of "b\<lparr>bk_bids := [], bk_asks := [],
      bk_orders := sl_clear S (bk_orders b), bk_index := []\<rparr>" ords]
  by (simp add: restore_orders_def get_clear_empty)

lemma new_book_ok: "book_ok S (new_book S sym')" "side_orders S (new_book S sym') s = []"
proof -
  show "book_ok S (new_book S sym')"
    using empty_book_holds [of "new_book S sym'"]
    by (simp add: new_book_def get_new_empty holds_orders_def)
  show "side_orders S (new_book S sym') s = []"
    by (cases s) (simp_all add: side_orders_def new_book_def)
qed

lemma snapshot_orders_spec:
  assumes ok: "book_ok S b"
  shows "mset (snapshot_orders S b) = mset (all_orders S b)"
proof -
  define g where "g = sl_get S (bk_orders b)"
  let ?it = "filter (\<lambda>(_, ord). 0 < o_qty_rem ord) (sl_iter S (bk_orders b))"
  have it: "(k, x) \<in> set ?it \<longleftrightarrow> live g k = Some x" for k x
    by (simp add: iter_entries g_def live_Some)
  have dk: "distinct (map fst ?it)" by (rule distinct_map_filter [OF iter_distinct])
  have "inj_on (\<lambda>e. o_id (snd e)) (set ?it)"
  proof (rule inj_onI)
    fix e e' assume "e \<in> set ?it" "e' \<in> set ?it" "o_id (snd e) = o_id (snd e')"
    then have "live g (fst e) = Some (snd e)" "live g (fst e') = Some (snd e')" "o_id (snd e) = o_id (snd e')"
      using it [of "fst e" "snd e"] it [of "fst e'" "snd e'"] by simp_all
    then have "fst e = fst e'" using live_ids_unique [OF book_okD(2) [OF ok, folded g_def]] by metis
    with \<open>live g (fst e) = _\<close> \<open>live g (fst e') = _\<close> show "e = e'" by (simp add: prod_eq_iff)
  qed
  then have d: "distinct (map o_id (snapshot_orders S b))"
    using dk by (simp add: snapshot_orders_def distinct_map comp_def)
  have "x \<in> set (snapshot_orders S b) \<longleftrightarrow> (\<exists>k. live g k = Some x)" for x
    unfolding it [symmetric] by (force simp: snapshot_orders_def)
  moreover have "x \<in> set (all_orders S b) \<longleftrightarrow> (\<exists>k. live g k = Some x)" for x
    using side_orders_iff [OF ok] by (cases "o_side x") (auto simp: all_orders_def g_def)
  ultimately have "set (snapshot_orders S b) = set (all_orders S b)" by blast
  moreover have "distinct (all_orders S b)" using distinct_ids [OF ok] by (simp add: distinct_map)
  ultimately show ?thesis using d by (simp add: distinct_map set_eq_iff_mset_eq_distinct [symmetric])
qed

end

lemma side_at_all_orders:
  assumes ok: "book_ok S b"
  shows "side_at (all_orders S b) s px = filter (\<lambda>x. o_price x = px) (side_orders S b s)"
proof -
  have "filter (\<lambda>x. o_side x = s \<and> o_price x = px) (side_orders S b t) =
      (if t = s then filter (\<lambda>x. o_price x = px) (side_orders S b s) else [])" for t
    using side_orders_ok(1) [OF ok] by (auto simp: filter_empty_conv intro!: filter_cong)
  then show ?thesis by (cases s) (simp_all add: side_at_def all_orders_def)
qed

lemma qty_at_le:
  assumes ok: "book_ok S b"
  shows "qty_at (side_orders S b s) px \<le> i64_max"
proof -
  have "lv_total (get_or new_level (ladder_of s b) px) \<le> i64_max"
  proof (cases "map_of (ladder_of s b) px")
    case None
    then show ?thesis by (simp add: get_or_def new_level_def i64_max_def)
  next
    case (Some lvl)
    then show ?thesis using ladder_ok_lookup [OF book_okD(1) [OF ok] Some]
      by (simp add: get_or_def level_ok_def)
  qed
  then show ?thesis by (simp add: level_total [OF ok] qty_at_def)
qed

lemma restorable_perm:
  assumes ok: "book_ok S b" and "mset ords = mset (all_orders S b)"
  shows "restorable ords"
proof -
  have "mset (side_at ords s px) = mset (side_at (all_orders S b) s px)" for s px
    using assms(2) by (simp add: side_at_def)
  then have "qty_sum (side_at ords s px) = qty_at (side_orders S b s) px" for s px
    unfolding qty_sum_def qty_at_def side_at_all_orders [OF ok, symmetric]
    by (metis mset_map sum_mset_sum_list)
  moreover have "distinct (map o_id ords)"
    using distinct_ids [OF ok] assms(2) mset_eq_imp_distinct_iff by (metis mset_map)
  moreover have "\<forall>x \<in> set ords. 0 < o_qty_rem x"
    using side_orders_ok(2) [OF ok] mset_eq_setD [OF assms(2)] by (auto simp: all_orders_def)
  ultimately show ?thesis using qty_at_le [OF ok] by (simp add: restorable_def)
qed

end
