(* ===== verification/Decimal.thy ===== *)
theory Decimal
  imports Prelude "HOL-Library.List_Lexorder" "HOL-Library.Char_ord"
begin

text \<open>
  Decimal text as \<open>format!\<close> writes it: \<open>{}\<close> of an integer, and \<open>{:012}\<close>, which pads with
  zeros on the left. Padded numbers of equal length compare as texts the way they compare as
  numbers; that is what makes the newest snapshot the last one in the order of file names.
\<close>

definition digit :: "nat \<Rightarrow> char" where
  "digit d = char_of (48 + d)"

fun show_nat :: "nat \<Rightarrow> string" where
  "show_nat n = (if n < 10 then [digit n] else show_nat (n div 10) @ [digit (n mod 10)])"

declare show_nat.simps [simp del]

definition show_int :: "int \<Rightarrow> string" where
  "show_int i = (if i < 0 then CHR ''-'' # show_nat (nat (- i)) else show_nat (nat i))"

definition pad0 :: "nat \<Rightarrow> nat \<Rightarrow> string" where
  "pad0 w n = replicate (w - length (show_nat n)) (digit 0) @ show_nat n"

text \<open>The last \<open>w\<close> digits of a number.\<close>

fun digits :: "nat \<Rightarrow> nat \<Rightarrow> string" where
  "digits 0 n = []"
| "digits (Suc w) n = digits w (n div 10) @ [digit (n mod 10)]"

lemma length_digits [simp]: "length (digits w n) = w"
  by (induction w arbitrary: n) auto

lemma digits_zero: "digits w 0 = replicate w (digit 0)"
  by (induction w) (simp_all add: replicate_append_same)

lemma show_nat_digits: "n < 10 ^ w \<Longrightarrow> 0 < w \<Longrightarrow> length (show_nat n) \<le> w \<and>
    digits w n = replicate (w - length (show_nat n)) (digit 0) @ show_nat n"
proof (induction w arbitrary: n)
  case (Suc w)
  show ?case
  proof (cases "n < 10")
    case True
    then show ?thesis by (simp add: show_nat.simps [of n] digits_zero)
  next
    case False
    have "n div 10 < 10 ^ w" using Suc.prems by (simp add: less_mult_imp_div_less)
    moreover from this False have "0 < w" by (cases w) auto
    ultimately have "length (show_nat (n div 10)) \<le> w"
      "digits w (n div 10) = replicate (w - length (show_nat (n div 10))) (digit 0) @ show_nat (n div 10)"
      using Suc.IH by auto
    with False show ?thesis by (simp add: show_nat.simps [of n])
  qed
qed simp

lemma pad0_digits: "n < 10 ^ w \<Longrightarrow> 0 < w \<Longrightarrow> pad0 w n = digits w n"
  using show_nat_digits [of n w] by (simp add: pad0_def)

lemma digit_less: "a < 10 \<Longrightarrow> b < 10 \<Longrightarrow> digit a < digit b \<longleftrightarrow> a < b"
  by (simp add: digit_def less_char_def)

lemma digit_inject: "a < 10 \<Longrightarrow> b < 10 \<Longrightarrow> digit a = digit b \<longleftrightarrow> a = b"
  using digit_less [of a b] digit_less [of b a] by (metis less_irrefl linorder_neqE_nat)

lemma lex_append_single:
  fixes x y :: "'a::linorder"
  assumes "length xs = length ys"
  shows "xs @ [x] < ys @ [y] \<longleftrightarrow> xs < ys \<or> xs = ys \<and> x < y"
  using assms by (induction xs ys rule: list_induct2) auto

lemma lex_append_same: "zs @ xs < zs @ ys \<longleftrightarrow> xs < ys" for xs ys zs :: "'a::linorder list"
  by (induction zs) auto

lemma lex_append_right:
  fixes xs ys zs :: "'a::linorder list"
  assumes "length xs = length ys"
  shows "xs @ zs < ys @ zs \<longleftrightarrow> xs < ys"
  using assms by (induction xs ys rule: list_induct2) auto

lemma lex_div_mod:
  fixes a b c d :: nat
  shows "b < 10 \<Longrightarrow> d < 10 \<Longrightarrow> 10 * a + b < 10 * c + d \<longleftrightarrow> a < c \<or> a = c \<and> b < d"
  by arith

text \<open>Texts of \<open>w\<close> digits compare as numbers below \<open>10 ^ w\<close>.\<close>

lemma digits_less:
  "m < 10 ^ w \<Longrightarrow> n < 10 ^ w \<Longrightarrow> digits w m < digits w n \<longleftrightarrow> m < n"
proof (induction w arbitrary: m n)
  case (Suc w)
  have d: "m div 10 < 10 ^ w" "n div 10 < 10 ^ w"
    using Suc.prems by (simp_all add: less_mult_imp_div_less)
  have eq: "digits w (m div 10) = digits w (n div 10) \<longleftrightarrow> m div 10 = n div 10"
    using Suc.IH [OF d] Suc.IH [OF d(2) d(1)] by (metis less_irrefl linorder_neqE_nat)
  have "m < n \<longleftrightarrow> m div 10 < n div 10 \<or> m div 10 = n div 10 \<and> m mod 10 < n mod 10"
    using lex_div_mod [of "m mod 10" "n mod 10" "m div 10" "n div 10"] by simp
  then show ?case
    by (simp add: lex_append_single Suc.IH [OF d] eq digit_less)
qed simp

lemma show_nat_inject [simp]: "show_nat m = show_nat n \<longleftrightarrow> m = n"
proof
  assume eq: "show_nat m = show_nat n"
  define w where "w = Suc (max m n)"
  have "k < 10 ^ k" for k :: nat by (induction k) auto
  moreover have "(10::nat) ^ m \<le> 10 ^ w" "(10::nat) ^ n \<le> 10 ^ w"
    by (rule power_increasing; simp add: w_def)+
  ultimately have b: "m < 10 ^ w" "n < 10 ^ w" by (meson less_le_trans)+
  moreover have "0 < w" by (simp add: w_def)
  ultimately have "digits w m = digits w n" using show_nat_digits [of m w] show_nat_digits [of n w] eq by simp
  with digits_less [OF b] digits_less [OF b(2,1)] show "m = n" by (metis less_irrefl linorder_neqE_nat)
qed simp

end
