(* ===== verification/Metrics.thy ===== *)
theory Metrics
  imports Decimal
begin

text \<open>
  \<open>crates/common/src/metrics.rs\<close>: the counters all components share. Counters are \<open>AtomicU64\<close>
  and wrap; the queue gauge is an \<open>AtomicI64\<close>. Each operation is one relaxed atomic
  read-modify-write, so an execution is a sequence of these operations.
\<close>

record metrics =
  connections :: u64
  frames_in :: u64
  frames_out :: u64
  fills_total :: u64
  rejects_total :: u64
  engine_in_queue_depth :: i64
  journal_appends_total :: u64
  journal_flushes_total :: u64
  journal_errors_total :: u64
  snapshots_total :: u64
  journal_rotations_total :: u64

definition default_metrics :: metrics where
  "default_metrics =
     \<lparr>connections = 0, frames_in = 0, frames_out = 0, fills_total = 0, rejects_total = 0,
      engine_in_queue_depth = 0, journal_appends_total = 0, journal_flushes_total = 0,
      journal_errors_total = 0, snapshots_total = 0, journal_rotations_total = 0\<rparr>"

definition inc_connections :: "metrics \<Rightarrow> metrics" where
  "inc_connections m = m\<lparr>connections := connections m + 1\<rparr>"

definition inc_frames_in :: "metrics \<Rightarrow> metrics" where
  "inc_frames_in m = m\<lparr>frames_in := frames_in m + 1\<rparr>"

definition inc_frames_out :: "metrics \<Rightarrow> metrics" where
  "inc_frames_out m = m\<lparr>frames_out := frames_out m + 1\<rparr>"

definition inc_fills :: "metrics \<Rightarrow> metrics" where
  "inc_fills m = m\<lparr>fills_total := fills_total m + 1\<rparr>"

definition inc_rejects :: "metrics \<Rightarrow> metrics" where
  "inc_rejects m = m\<lparr>rejects_total := rejects_total m + 1\<rparr>"

definition queue_inc :: "metrics \<Rightarrow> metrics" where
  "queue_inc m = m\<lparr>engine_in_queue_depth := add64 (engine_in_queue_depth m) 1\<rparr>"

definition queue_dec :: "metrics \<Rightarrow> metrics" where
  "queue_dec m = m\<lparr>engine_in_queue_depth := sub64 (engine_in_queue_depth m) 1\<rparr>"

definition inc_journal_appends :: "metrics \<Rightarrow> metrics" where
  "inc_journal_appends m = m\<lparr>journal_appends_total := journal_appends_total m + 1\<rparr>"

definition inc_journal_flushes :: "metrics \<Rightarrow> metrics" where
  "inc_journal_flushes m = m\<lparr>journal_flushes_total := journal_flushes_total m + 1\<rparr>"

definition inc_journal_errors :: "metrics \<Rightarrow> metrics" where
  "inc_journal_errors m = m\<lparr>journal_errors_total := journal_errors_total m + 1\<rparr>"

definition inc_snapshots :: "metrics \<Rightarrow> metrics" where
  "inc_snapshots m = m\<lparr>snapshots_total := snapshots_total m + 1\<rparr>"

definition inc_journal_rotations :: "metrics \<Rightarrow> metrics" where
  "inc_journal_rotations m = m\<lparr>journal_rotations_total := journal_rotations_total m + 1\<rparr>"

text \<open>The text for Prometheus. The string literal's first line break is escaped; every later line
  keeps the twelve blanks of the source's indentation, the closing line too.\<close>

definition prom_lines :: "metrics \<Rightarrow> string list" where
  "prom_lines m =
     [''exchange_connections '' @ show_nat (unat (connections m)),
      ''exchange_frames_in '' @ show_nat (unat (frames_in m)),
      ''exchange_frames_out '' @ show_nat (unat (frames_out m)),
      ''exchange_fills_total '' @ show_nat (unat (fills_total m)),
      ''exchange_rejects_total '' @ show_nat (unat (rejects_total m)),
      ''exchange_engine_in_queue_depth '' @ show_int (engine_in_queue_depth m),
      ''exchange_journal_appends_total '' @ show_nat (unat (journal_appends_total m)),
      ''exchange_journal_flushes_total '' @ show_nat (unat (journal_flushes_total m)),
      ''exchange_journal_errors_total '' @ show_nat (unat (journal_errors_total m)),
      ''exchange_snapshots_total '' @ show_nat (unat (snapshots_total m)),
      ''exchange_journal_rotations_total '' @ show_nat (unat (journal_rotations_total m))]"

definition render_prom_text :: "metrics \<Rightarrow> string" where
  "render_prom_text m =
     concat (map (\<lambda>l. l @ [char_of (10 :: nat)] @ replicate 12 (CHR '' '')) (prom_lines m))"

lemma metrics_book_sel [simp]:
  "fills_total (inc_rejects m) = fills_total m" "rejects_total (inc_fills m) = rejects_total m"
  "fills_total (inc_fills m) = fills_total m + 1" "rejects_total (inc_rejects m) = rejects_total m + 1"
  "fills_total (queue_dec m) = fills_total m" "rejects_total (queue_dec m) = rejects_total m"
  by (simp_all add: inc_rejects_def inc_fills_def queue_dec_def)

end
