(* ===== verification/EngineAccounts.thy ===== *)
theory EngineAccounts
  imports CommonTypes
begin

text \<open>
  \<open>crates/engine/src/account_manager.rs\<close>: positions, realized profit and risk limits of the
  engine's accounts. \<open>apply_fill\<close> divides, so its model returns \<open>None\<close> where the code panics.
\<close>

section \<open>State and operations\<close>

record account_manager =
  am_positions :: "(account_id, position) hashmap"
  am_risk_limits :: "(account_id, risk_limits) hashmap"
  am_default_limits :: risk_limits

definition new_account_manager :: "risk_limits \<Rightarrow> account_manager" where
  "new_account_manager limits =
     \<lparr>am_positions = [], am_risk_limits = [], am_default_limits = limits\<rparr>"

definition get_position :: "account_manager \<Rightarrow> account_id \<Rightarrow> position" where
  "get_position m acc = get_or default_position (am_positions m) acc"

definition get_limits :: "account_manager \<Rightarrow> account_id \<Rightarrow> risk_limits" where
  "get_limits m acc = get_or (am_default_limits m) (am_risk_limits m) acc"

definition set_limits :: "account_id \<Rightarrow> risk_limits \<Rightarrow> account_manager \<Rightarrow> account_manager" where
  "set_limits acc limits m = m\<lparr>am_risk_limits := AList.update acc limits (am_risk_limits m)\<rparr>"

text \<open>\<open>Ok(())\<close> is \<open>Inr ()\<close>, an error is \<open>Inl\<close> its reason.\<close>

definition check_risk ::
  "account_manager \<Rightarrow> account_id \<Rightarrow> side \<Rightarrow> i64 \<Rightarrow> reject_reason + unit"
where
  "check_risk m acc s q =
     (let limits = get_limits m acc
      in if q > max_order_size limits then Inl Risk
         else
           let current_pos = net_position (get_position m acc);
               new_position =
                 (case s of Buy \<Rightarrow> add64 current_pos q | Sell \<Rightarrow> sub64 current_pos q)
           in if new_position > max_long_position limits then Inl Risk
              else if new_position < neg64 (max_short_position limits) then Inl Risk
              else Inr ())"

text \<open>The position after a fill: the two arms of the \<open>match side\<close> of \<open>apply_fill\<close>.\<close>

definition fill_buy :: "i64 \<Rightarrow> i64 \<Rightarrow> position \<Rightarrow> position option" where
  "fill_buy px q pos =
     (if net_position pos < 0 then
        let closing_qty = min q (neg64 (net_position pos));
            pnl_per_lot = sub64 (avg_price pos) px;
            opening_qty = sub64 q closing_qty
        in Some \<lparr>net_position = add64 (net_position pos) q,
                 avg_price = (if opening_qty > 0 then px else avg_price pos),
                 realized_pnl = add64 (realized_pnl pos) (mul64 closing_qty pnl_per_lot)\<rparr>
      else if net_position pos = 0 then
        Some (pos\<lparr>avg_price := px, net_position := add64 (net_position pos) q\<rparr>)
      else
        let total_value = add64 (mul64 (net_position pos) (avg_price pos)) (mul64 q px)
        in map_option
             (\<lambda>avg. pos\<lparr>avg_price := avg, net_position := add64 (net_position pos) q\<rparr>)
             (div64 total_value (add64 (net_position pos) q)))"

definition fill_sell :: "i64 \<Rightarrow> i64 \<Rightarrow> position \<Rightarrow> position option" where
  "fill_sell px q pos =
     (if net_position pos > 0 then
        let closing_qty = min q (net_position pos);
            pnl_per_lot = sub64 px (avg_price pos);
            opening_qty = sub64 q closing_qty
        in Some \<lparr>net_position = sub64 (net_position pos) q,
                 avg_price = (if opening_qty > 0 then px else avg_price pos),
                 realized_pnl = add64 (realized_pnl pos) (mul64 closing_qty pnl_per_lot)\<rparr>
      else if net_position pos = 0 then
        Some (pos\<lparr>avg_price := px, net_position := sub64 (net_position pos) q\<rparr>)
      else
        let total_value =
              add64 (mul64 (neg64 (net_position pos)) (avg_price pos)) (mul64 q px)
        in map_option
             (\<lambda>avg. pos\<lparr>avg_price := avg, net_position := sub64 (net_position pos) q\<rparr>)
             (div64 total_value (add64 (neg64 (net_position pos)) q)))"

definition apply_fill ::
  "account_id \<Rightarrow> side \<Rightarrow> i64 \<Rightarrow> i64 \<Rightarrow> account_manager \<Rightarrow> account_manager option"
where
  "apply_fill acc s px q m =
     map_option (\<lambda>pos. m\<lparr>am_positions := AList.update acc pos (am_positions m)\<rparr>)
       (case s of
          Buy \<Rightarrow> fill_buy px q (get_position m acc)
        | Sell \<Rightarrow> fill_sell px q (get_position m acc))"

definition accounts_with_positions :: "account_manager \<Rightarrow> account_id list" where
  "accounts_with_positions m =
     map fst (filter (\<lambda>(_, pos). net_position pos \<noteq> 0) (am_positions m))"

definition account_count :: "account_manager \<Rightarrow> nat" where
  "account_count m = length (am_positions m)"

section \<open>A fill in exact arithmetic\<close>

text \<open>
  The accounting rule without machine integers and without the code's case split on the side:
  a fill of signed quantity \<open>d\<close> moves the net position by \<open>d\<close>; the part of it that goes against
  the position is closed at the entry price; the entry price is kept while the position shrinks,
  becomes the fill price when it opens or flips, and is the truncated weighted average when it grows.
\<close>

definition signed_qty :: "side \<Rightarrow> int \<Rightarrow> int" where
  "signed_qty s q = (case s of Buy \<Rightarrow> q | Sell \<Rightarrow> - q)"

definition closed_part :: "int \<Rightarrow> int \<Rightarrow> int" where
  "closed_part net d = (if sgn net * sgn d < 0 then min \<bar>d\<bar> \<bar>net\<bar> else 0)"

definition exact_fill :: "int \<Rightarrow> int \<Rightarrow> position \<Rightarrow> position" where
  "exact_fill px d pos =
     (let net = net_position pos; c = closed_part net d
      in \<lparr>net_position = net + d,
          avg_price =
            (if net = 0 \<or> c < \<bar>d\<bar> \<and> 0 < c then px
             else if 0 < c then avg_price pos
             else (\<bar>net\<bar> * avg_price pos + \<bar>d\<bar> * px) sdiv (\<bar>net\<bar> + \<bar>d\<bar>)),
          realized_pnl = realized_pnl pos + sgn net * c * (px - avg_price pos)\<rparr>)"

text \<open>When the fill's numbers fit: the position, the value of both parts and the profit.\<close>

definition fill_fits :: "int \<Rightarrow> int \<Rightarrow> position \<Rightarrow> bool" where
  "fill_fits px q pos \<longleftrightarrow>
     (let net = \<bar>net_position pos\<bar>; avg = avg_price pos
      in net + q \<le> i64_max \<and> i64_ok (px - avg) \<and> i64_ok (avg - px) \<and>
         i64_ok (net * avg) \<and> i64_ok (q * px) \<and> i64_ok (net * avg + q * px) \<and>
         (\<forall>c \<in> {0, min q net}. i64_ok (c * (px - avg)) \<and> i64_ok (c * (avg - px)) \<and>
            i64_ok (realized_pnl pos + c * (px - avg)) \<and> i64_ok (realized_pnl pos + c * (avg - px))))"

lemma i64_okI: "- (2 ^ 63) \<le> x \<Longrightarrow> x < 2 ^ 63 \<Longrightarrow> i64_ok x"
  by (simp add: i64_ok_def i64_min_def i64_max_def)

lemma div64_pos: "0 < b \<Longrightarrow> div64 a b = Some (a sdiv b)"
  by (simp add: div64_def)

lemma fill_buy_exact:
  assumes q: "0 < q" and fits: "fill_fits px q pos"
  shows "fill_buy px q pos = Some (exact_fill px q pos)"
proof -
  let ?net = "net_position pos" and ?avg = "avg_price pos"
  have b: "\<bar>?net\<bar> + q \<le> i64_max" using fits by (simp add: fill_fits_def Let_def)
  then have ok: "i64_ok (?net + q)" "i64_ok (- ?net)" "i64_ok (q - min q (- ?net))" "i64_ok (?net + q)"
    using q by (auto simp: i64_ok_def i64_min_def i64_max_def)
  consider "?net < 0" | "?net = 0" | "0 < ?net" by linarith
  then show ?thesis
  proof cases
    case 1
    have c: "closed_part ?net q = min q (- ?net)" using 1 q by (simp add: closed_part_def)
    have fit: "i64_ok (?avg - px)" "i64_ok (min q (- ?net) * (?avg - px))"
      "i64_ok (realized_pnl pos + min q (- ?net) * (?avg - px))"
      using fits 1 by (simp_all add: fill_fits_def Let_def)
    have "realized_pnl pos + min q (- ?net) * (?avg - px) =
        realized_pnl pos + sgn ?net * min q (- ?net) * (px - ?avg)"
      using 1 by (simp add: algebra_simps)
    then show ?thesis using 1 q ok fit
      by (simp add: fill_buy_def exact_fill_def Let_def c i64_simps)
  next
    case 2
    then show ?thesis using q ok
      by (simp add: fill_buy_def exact_fill_def Let_def closed_part_def i64_simps)
  next
    case 3
    have fit: "i64_ok (?net * ?avg)" "i64_ok (q * px)" "i64_ok (?net * ?avg + q * px)"
      using fits 3 by (simp_all add: fill_fits_def Let_def)
    show ?thesis using 3 q ok fit
      by (simp add: fill_buy_def exact_fill_def Let_def closed_part_def i64_simps div64_pos)
  qed
qed

lemma fill_sell_exact:
  assumes q: "0 < q" and fits: "fill_fits px q pos"
  shows "fill_sell px q pos = Some (exact_fill px (- q) pos)"
proof -
  let ?net = "net_position pos" and ?avg = "avg_price pos"
  have b: "\<bar>?net\<bar> + q \<le> i64_max" using fits by (simp add: fill_fits_def Let_def)
  then have ok: "i64_ok (?net - q)" "i64_ok (- ?net)" "i64_ok (q - min q ?net)" "i64_ok (- ?net + q)"
    using q by (auto simp: i64_ok_def i64_min_def i64_max_def)
  consider "0 < ?net" | "?net = 0" | "?net < 0" by linarith
  then show ?thesis
  proof cases
    case 1
    have c: "closed_part ?net (- q) = min q ?net" using 1 q by (simp add: closed_part_def)
    have fit: "i64_ok (px - ?avg)" "i64_ok (min q ?net * (px - ?avg))"
      "i64_ok (realized_pnl pos + min q ?net * (px - ?avg))"
      using fits 1 by (simp_all add: fill_fits_def Let_def)
    then show ?thesis using 1 q ok
      by (simp add: fill_sell_def exact_fill_def Let_def c i64_simps)
  next
    case 2
    then show ?thesis using q ok
      by (simp add: fill_sell_def exact_fill_def Let_def closed_part_def i64_simps)
  next
    case 3
    have fit: "i64_ok (- ?net * ?avg)" "i64_ok (q * px)" "i64_ok (- ?net * ?avg + q * px)"
      using fits 3 by (simp_all add: fill_fits_def Let_def)
    show ?thesis using 3 q ok fit
      by (simp add: fill_sell_def exact_fill_def Let_def closed_part_def i64_simps div64_pos)
  qed
qed

text \<open>Whatever the prices are, the net position moves by the signed quantity and nothing panics,
  as long as the position itself stays in range.\<close>

lemma fill_net:
  assumes q: "0 < q" and b: "\<bar>net_position pos\<bar> + q \<le> i64_max"
  shows "\<exists>pos'. (case s of Buy \<Rightarrow> fill_buy px q pos | Sell \<Rightarrow> fill_sell px q pos) = Some pos' \<and>
    net_position pos' = net_position pos + signed_qty s q"
proof -
  have ok: "i64_ok (net_position pos - q)" "i64_ok (- net_position pos)" "i64_ok (net_position pos + q)"
    "i64_ok (- net_position pos + q)"
    using assms by (auto simp: i64_ok_def i64_min_def i64_max_def)
  show ?thesis
  proof (cases s)
    case Buy
    then show ?thesis using ok q
      by (auto simp: fill_buy_def Let_def signed_qty_def i64_simps div64_pos)
  next
    case Sell
    then show ?thesis using ok q
      by (auto simp: fill_sell_def Let_def signed_qty_def i64_simps div64_pos)
  qed
qed

lemma get_position_apply:
  "apply_fill acc s px q m = Some m' \<Longrightarrow>
   (case s of Buy \<Rightarrow> fill_buy px q (get_position m acc) | Sell \<Rightarrow> fill_sell px q (get_position m acc)) =
     Some (get_position m' acc) \<and>
   (\<forall>a. a \<noteq> acc \<longrightarrow> get_position m' a = get_position m a) \<and>
   (\<forall>a. get_limits m' a = get_limits m a)"
  by (auto simp: apply_fill_def get_position_def get_limits_def)

lemma apply_fill_net:
  assumes "0 < q" and "\<bar>net_position (get_position m acc)\<bar> + q \<le> i64_max"
  shows "\<exists>m'. apply_fill acc s px q m = Some m' \<and>
    (\<forall>a. net_position (get_position m' a) =
       net_position (get_position m a) + (if a = acc then signed_qty s q else 0)) \<and>
    (\<forall>a. get_limits m' a = get_limits m a)"
proof -
  obtain pos' where pos': "(case s of Buy \<Rightarrow> fill_buy px q (get_position m acc)
      | Sell \<Rightarrow> fill_sell px q (get_position m acc)) = Some pos'"
    "net_position pos' = net_position (get_position m acc) + signed_qty s q"
    using fill_net [OF assms] by blast
  then obtain m' where m': "apply_fill acc s px q m = Some m'" by (simp add: apply_fill_def)
  from get_position_apply [OF m'] pos' m' show ?thesis by auto
qed

text \<open>The average entry price stays between the old one and the fill price.\<close>

lemma div_between:
  fixes a b c :: int
  assumes "0 < c" and "a * c \<le> n" and "n \<le> b * c"
  shows "a \<le> n div c" and "n div c \<le> b"
  using zdiv_mono1 [OF assms(2,1)] zdiv_mono1 [OF assms(3,1)] assms(1) by simp_all

lemma sdiv_between:
  fixes a b c :: int
  assumes "0 < c" and "a * c \<le> n" and "n \<le> b * c"
  shows "a \<le> n sdiv c \<and> n sdiv c \<le> b"
proof -
  have s: "n sdiv c = (if 0 \<le> n then n div c else - ((- n) div c))"
    using assms(1) by (auto simp: signed_divide_int_def sgn_if)
  have "- b \<le> (- n) div c" "(- n) div c \<le> - a"
    by (rule div_between [OF assms(1), of "- b" _ "- a"]; use assms in simp)+
  then show ?thesis using div_between [OF assms] by (simp add: s)
qed

lemma exact_fill_avg:
  assumes "px \<in> {lo..hi}" and "net_position pos \<noteq> 0 \<longrightarrow> avg_price pos \<in> {lo..hi}" and "d \<noteq> 0"
  shows "avg_price (exact_fill px d pos) \<in> {lo..hi}"
proof -
  let ?n = "\<bar>net_position pos\<bar>" and ?d = "\<bar>d\<bar>"
  have "lo \<le> (?n * avg_price pos + ?d * px) sdiv (?n + ?d) \<and>
      (?n * avg_price pos + ?d * px) sdiv (?n + ?d) \<le> hi" if net: "net_position pos \<noteq> 0"
  proof (rule sdiv_between)
    have lo: "?n * lo \<le> ?n * avg_price pos" "?d * lo \<le> ?d * px"
      and hi: "?n * avg_price pos \<le> ?n * hi" "?d * px \<le> ?d * hi"
      using assms net by (auto intro!: mult_left_mono)
    show "0 < ?n + ?d" using assms(3) by simp
    show "lo * (?n + ?d) \<le> ?n * avg_price pos + ?d * px" using lo by (simp add: algebra_simps)
    show "?n * avg_price pos + ?d * px \<le> hi * (?n + ?d)" using hi by (simp add: algebra_simps)
  qed
  then show ?thesis using assms(1,2) by (auto simp: exact_fill_def Let_def)
qed

text \<open>What the risk check admits, in exact arithmetic.\<close>

definition within_limits :: "risk_limits \<Rightarrow> int \<Rightarrow> int \<Rightarrow> bool" where
  "within_limits l q net \<longleftrightarrow>
     q \<le> max_order_size l \<and> - max_short_position l \<le> net \<and> net \<le> max_long_position l"

lemma check_risk_iff:
  assumes "\<bar>net_position (get_position m acc)\<bar> + q \<le> i64_max" and "0 \<le> q"
    and "i64_ok (- max_short_position (get_limits m acc))"
  shows "check_risk m acc s q =
    (if within_limits (get_limits m acc) q (net_position (get_position m acc) + signed_qty s q)
     then Inr () else Inl Risk)"
proof -
  have "i64_ok (net_position (get_position m acc) + q)" "i64_ok (net_position (get_position m acc) - q)"
    using assms(1,2) by (auto simp: i64_ok_def i64_min_def i64_max_def)
  then show ?thesis using assms(3)
    by (cases s) (auto simp: check_risk_def Let_def within_limits_def signed_qty_def i64_simps)
qed

lemma check_risk_result: "check_risk m acc s q = Inl r \<Longrightarrow> r = Risk"
  by (auto simp: check_risk_def Let_def split: if_splits)

end
