(* ===== verification/Bytes.thy ===== *)
theory Bytes
  imports CommonTypes
begin

text \<open>
  Bytes and serializers. \<open>to_le\<close> and \<open>from_le\<close> are the standard library's \<open>to_le_bytes\<close> and
  \<open>from_le_bytes\<close>. \<open>postcard\<close> is a third-party crate: what the code calls of it is the record
  \<open>serde\<close> (\<open>to_stdvec\<close> and \<open>from_bytes\<close>), and the locale \<open>serde\<close> states the law the code relies
  on, that a serialized value is read back. The wire combinators at the end build serializers
  that meet the law (variable-length integers, fields in order, a tag per variant); concrete runs
  are evaluated on them.
\<close>

section \<open>Little-endian words\<close>

fun le_nat :: "nat \<Rightarrow> nat \<Rightarrow> u8 list" where
  "le_nat 0 k = []"
| "le_nat (Suc n) k = of_nat (k mod 256) # le_nat n (k div 256)"

fun nat_le :: "u8 list \<Rightarrow> nat" where
  "nat_le [] = 0"
| "nat_le (b # bs) = unat b + 256 * nat_le bs"

definition to_le :: "'a::len word \<Rightarrow> u8 list" where
  "to_le w = le_nat (LENGTH('a) div 8) (unat w)"

definition from_le :: "u8 list \<Rightarrow> 'a::len word" where
  "from_le bs = of_nat (nat_le bs)"

lemma length_le_nat [simp]: "length (le_nat n k) = n"
  by (induction n arbitrary: k) auto

lemma unat_of_nat_byte: "unat (of_nat (k mod 256) :: u8) = k mod 256"
  by (simp add: unat_of_nat take_bit_eq_mod)

lemma nat_le_le_nat: "nat_le (le_nat n k) = k mod 256 ^ n"
proof (induction n arbitrary: k)
  case (Suc n)
  have "k mod (256 * 256 ^ n) = 256 * (k div 256 mod 256 ^ n) + k mod 256"
    by (rule mod_mult2_eq)
  with Suc show ?case by (simp add: unat_of_nat_byte)
qed simp

lemma length_to_le [simp]: "length (to_le (w :: 'a::len word)) = LENGTH('a) div 8"
  by (simp add: to_le_def)

lemma from_le_to_le:
  fixes w :: "'a::len word"
  assumes "LENGTH('a) mod 8 = 0"
  shows "from_le (to_le w) = w"
proof -
  have "(256 :: nat) ^ (LENGTH('a) div 8) = 2 ^ (8 * (LENGTH('a) div 8))"
    by (simp add: power_mult)
  also have "8 * (LENGTH('a) div 8) = LENGTH('a)" using mult_div_mod_eq [of 8 "LENGTH('a)"] assms by simp
  finally show ?thesis
    using unsigned_less [of w] by (simp add: from_le_def to_le_def nat_le_le_nat)
qed

lemma from_le_to_le_words [simp]:
  "from_le (to_le (x :: u8)) = x" "from_le (to_le (y :: u16)) = y"
  "from_le (to_le (z :: u32)) = z" "from_le (to_le (u :: u64)) = u"
  by (rule from_le_to_le, simp)+

section \<open>Serializers\<close>

record 'a serde =
  sd_to :: "'a \<Rightarrow> u8 list option"
  sd_from :: "u8 list \<Rightarrow> 'a option"

locale serde =
  fixes P :: "'a serde"
  assumes from_to: "sd_to P v = Some bs \<Longrightarrow> sd_from P bs = Some v"
begin

lemma to_inject: "sd_to P v = Some bs \<Longrightarrow> sd_to P w = Some bs \<Longrightarrow> v = w"
  by (metis from_to option.inject)

end

section \<open>Wire formats that meet the contract\<close>

text \<open>A wire format writes a value and reads it back from the front of a byte string.\<close>

record 'a wire =
  w_enc :: "'a \<Rightarrow> u8 list"
  w_dec :: "u8 list \<Rightarrow> ('a \<times> u8 list) option"

locale wire =
  fixes W :: "'a wire"
  assumes dec_enc: "w_dec W (w_enc W v @ r) = Some (v, r)"

definition serde_of :: "'a wire \<Rightarrow> 'a serde" where
  "serde_of W = \<lparr>sd_to = (\<lambda>v. Some (w_enc W v)),
     sd_from = (\<lambda>bs. case w_dec W bs of Some (v, []) \<Rightarrow> Some v | _ \<Rightarrow> None)\<rparr>"

text \<open>Every wire format gives a serializer.\<close>

sublocale wire \<subseteq> wire_serde: serde "serde_of W"
proof
  fix v bs assume "sd_to (serde_of W) v = Some bs"
  then show "sd_from (serde_of W) bs = Some v"
    using dec_enc [of v "[]"] by (simp add: serde_of_def)
qed

text \<open>Naturals in base 128, low digits first, the high bit set on all digits but the last.\<close>

fun varint :: "nat \<Rightarrow> u8 list" where
  "varint n = (if n < 128 then [of_nat n] else of_nat (128 + n mod 128) # varint (n div 128))"

declare varint.simps [simp del]

fun unvarint :: "u8 list \<Rightarrow> (nat \<times> u8 list) option" where
  "unvarint [] = None"
| "unvarint (b # bs) =
     (if unat b < 128 then Some (unat b, bs)
      else map_option (\<lambda>(n, r). (unat b - 128 + 128 * n, r)) (unvarint bs))"

definition w_nat :: "nat wire" where
  "w_nat = \<lparr>w_enc = varint, w_dec = unvarint\<rparr>"

definition w_map :: "('b \<Rightarrow> 'a) \<Rightarrow> ('a \<Rightarrow> 'b) \<Rightarrow> 'a wire \<Rightarrow> 'b wire" where
  "w_map f g W = \<lparr>w_enc = (\<lambda>v. w_enc W (f v)), w_dec = (\<lambda>bs. map_option (map_prod g id) (w_dec W bs))\<rparr>"

definition w_pair :: "'a wire \<Rightarrow> 'b wire \<Rightarrow> ('a \<times> 'b) wire" where
  "w_pair A B = \<lparr>w_enc = (\<lambda>(a, b). w_enc A a @ w_enc B b),
     w_dec = (\<lambda>bs. case w_dec A bs of None \<Rightarrow> None
       | Some (a, r) \<Rightarrow> map_option (map_prod (Pair a) id) (w_dec B r))\<rparr>"

definition w_sum :: "'a wire \<Rightarrow> 'b wire \<Rightarrow> ('a + 'b) wire" where
  "w_sum A B = \<lparr>w_enc = (\<lambda>v. case v of Inl a \<Rightarrow> 0 # w_enc A a | Inr b \<Rightarrow> 1 # w_enc B b),
     w_dec = (\<lambda>bs. case bs of [] \<Rightarrow> None
       | t # r \<Rightarrow> if t = 0 then map_option (map_prod Inl id) (w_dec A r)
                 else if t = 1 then map_option (map_prod Inr id) (w_dec B r) else None)\<rparr>"

fun dec_list :: "('a wire) \<Rightarrow> nat \<Rightarrow> u8 list \<Rightarrow> ('a list \<times> u8 list) option" where
  "dec_list W 0 bs = Some ([], bs)"
| "dec_list W (Suc n) bs =
     (case w_dec W bs of None \<Rightarrow> None
      | Some (a, r) \<Rightarrow> map_option (map_prod (Cons a) id) (dec_list W n r))"

definition w_list :: "'a wire \<Rightarrow> 'a list wire" where
  "w_list W = \<lparr>w_enc = (\<lambda>vs. varint (length vs) @ concat (map (w_enc W) vs)),
     w_dec = (\<lambda>bs. case unvarint bs of None \<Rightarrow> None | Some (n, r) \<Rightarrow> dec_list W n r)\<rparr>"

definition w_word :: "'a::len word wire" where
  "w_word = w_map unat of_nat w_nat"

text \<open>Signed integers fold to naturals: \<open>0, -1, 1, -2, ...\<close>.\<close>

definition zigzag :: "int \<Rightarrow> nat" where
  "zigzag i = (if 0 \<le> i then 2 * nat i else 2 * nat (- i) - 1)"

definition unzigzag :: "nat \<Rightarrow> int" where
  "unzigzag n = (if even n then int (n div 2) else - int ((n + 1) div 2))"

definition w_int :: "int wire" where
  "w_int = w_map zigzag unzigzag w_nat"

lemma unat_of_nat_u8: "n < 256 \<Longrightarrow> unat (of_nat n :: u8) = n"
  using unat_of_nat_byte [of n] by simp

lemma unvarint_varint: "unvarint (varint n @ r) = Some (n, r)"
proof (induction n rule: varint.induct)
  case (1 n)
  show ?case
  proof (cases "n < 128")
    case True
    then show ?thesis by (simp add: varint.simps [of n] unat_of_nat_u8)
  next
    case False
    have "unat (of_nat (128 + n mod 128) :: u8) = 128 + n mod 128"
      by (rule unat_of_nat_u8) (use mod_less_divisor [of 128 n] in linarith)
    with 1 [OF False] False show ?thesis
      by (simp add: varint.simps [of n] del: of_nat_add)
  qed
qed

lemma wire_nat: "wire w_nat"
  by unfold_locales (simp add: w_nat_def unvarint_varint)

lemma wire_map: "wire W \<Longrightarrow> (\<And>v. g (f v) = v) \<Longrightarrow> wire (w_map f g W)"
  by (simp add: wire_def w_map_def)

lemma wire_pair: "wire A \<Longrightarrow> wire B \<Longrightarrow> wire (w_pair A B)"
  by (simp add: wire_def w_pair_def)

lemma wire_sum: "wire A \<Longrightarrow> wire B \<Longrightarrow> wire (w_sum A B)"
  by (simp add: wire_def w_sum_def split: sum.splits)

lemma dec_list_enc: "wire W \<Longrightarrow> dec_list W (length vs) (concat (map (w_enc W) vs) @ r) = Some (vs, r)"
  by (induction vs) (simp_all add: wire_def)

lemma wire_list: "wire W \<Longrightarrow> wire (w_list W)"
  using dec_list_enc [of W] by (simp add: wire_def w_list_def unvarint_varint)

lemma wire_word: "wire w_word"
  unfolding w_word_def by (rule wire_map [OF wire_nat]) simp

lemma unzigzag_zigzag: "unzigzag (zigzag i) = i"
proof (cases "0 \<le> i")
  case False
  then obtain n where "i = - int (Suc n)" by (cases i) auto
  then show ?thesis by (simp add: zigzag_def unzigzag_def)
qed (simp add: zigzag_def unzigzag_def)

lemma wire_int: "wire w_int"
  unfolding w_int_def by (rule wire_map [OF wire_nat]) (rule unzigzag_zigzag)

lemmas wires = wire_nat wire_word wire_int wire_pair wire_sum wire_list

section \<open>The program's data on the wire\<close>

definition w_bool :: "bool wire" where
  "w_bool = w_map (\<lambda>b. if b then 1 else 0) (\<lambda>n. n = 1) w_nat"

definition w_side :: "side wire" where
  "w_side = w_map (\<lambda>s. s = Sell) (\<lambda>b. if b then Sell else Buy) w_bool"

definition w_tif :: "time_in_force wire" where
  "w_tif = w_map (\<lambda>t. t = Ioc) (\<lambda>b. if b then Ioc else Gtc) w_bool"

definition w_flags :: "order_flags wire" where
  "w_flags = w_map post_only (\<lambda>b. \<lparr>post_only = b\<rparr>) w_bool"

definition w_limits :: "risk_limits wire" where
  "w_limits = w_map (\<lambda>l. (max_long_position l, max_short_position l, max_order_size l))
     (\<lambda>(a, b, c). \<lparr>max_long_position = a, max_short_position = b, max_order_size = c\<rparr>)
     (w_pair w_int (w_pair w_int w_int))"

definition w_position :: "position wire" where
  "w_position = w_map (\<lambda>p. (net_position p, avg_price p, realized_pnl p))
     (\<lambda>(a, b, c). \<lparr>net_position = a, avg_price = b, realized_pnl = c\<rparr>)
     (w_pair w_int (w_pair w_int w_int))"

definition w_new_order :: "new_order wire" where
  "w_new_order = w_map
     (\<lambda>n. (no_client_seq n, no_order_id n, no_account_id n, no_symbol_id n, no_side n, no_price n,
           no_qty n, no_tif n, no_flags n))
     (\<lambda>(a, b, c, d, e, f, g, h, i).
        \<lparr>no_client_seq = a, no_order_id = b, no_account_id = c, no_symbol_id = d, no_side = e,
         no_price = f, no_qty = g, no_tif = h, no_flags = i\<rparr>)
     (w_pair w_word (w_pair w_word (w_pair w_word (w_pair w_word (w_pair w_side (w_pair w_int
        (w_pair w_int (w_pair w_tif w_flags))))))))"

definition w_cancel :: "cancel_cmd wire" where
  "w_cancel = w_map (\<lambda>c. (ca_client_seq c, ca_order_id c, ca_account_id c, ca_symbol_id c))
     (\<lambda>(a, b, c, d). \<lparr>ca_client_seq = a, ca_order_id = b, ca_account_id = c, ca_symbol_id = d\<rparr>)
     (w_pair w_word (w_pair w_word (w_pair w_word w_word)))"

definition w_replace :: "replace_cmd wire" where
  "w_replace = w_map
     (\<lambda>r. (re_client_seq r, re_order_id r, re_account_id r, re_symbol_id r, re_new_price r, re_new_qty r))
     (\<lambda>(a, b, c, d, e, f). \<lparr>re_client_seq = a, re_order_id = b, re_account_id = c, re_symbol_id = d,
        re_new_price = e, re_new_qty = f\<rparr>)
     (w_pair w_word (w_pair w_word (w_pair w_word (w_pair w_word (w_pair w_int w_int)))))"

definition w_set_limits :: "set_risk_limits wire" where
  "w_set_limits = w_map (\<lambda>s. (sr_client_seq s, sr_account_id s, sr_symbol_id s, sr_limits s))
     (\<lambda>(a, b, c, d). \<lparr>sr_client_seq = a, sr_account_id = b, sr_symbol_id = c, sr_limits = d\<rparr>)
     (w_pair w_word (w_pair w_word (w_pair w_word w_limits)))"

definition w_query :: "query_account wire" where
  "w_query = w_map (\<lambda>q. (qa_client_seq q, qa_account_id q, qa_symbol_id q))
     (\<lambda>(a, b, c). \<lparr>qa_client_seq = a, qa_account_id = b, qa_symbol_id = c\<rparr>)
     (w_pair w_word (w_pair w_word w_word))"

definition w_auth :: "authenticate_cmd wire" where
  "w_auth = w_map (\<lambda>a. map of_char (au_api_key a)) (\<lambda>ns. \<lparr>au_api_key = map char_of ns\<rparr>) (w_list w_nat)"

definition w_command :: "command wire" where
  "w_command = w_map
     (\<lambda>c. case c of NewOrder n \<Rightarrow> Inl n | Cancel c \<Rightarrow> Inr (Inl c) | Replace r \<Rightarrow> Inr (Inr (Inl r))
        | SetRiskLimits s \<Rightarrow> Inr (Inr (Inr (Inl s))) | QueryAccount q \<Rightarrow> Inr (Inr (Inr (Inr (Inl q))))
        | Authenticate a \<Rightarrow> Inr (Inr (Inr (Inr (Inr a)))))
     (\<lambda>v. case v of Inl n \<Rightarrow> NewOrder n | Inr (Inl c) \<Rightarrow> Cancel c | Inr (Inr (Inl r)) \<Rightarrow> Replace r
        | Inr (Inr (Inr (Inl s))) \<Rightarrow> SetRiskLimits s
        | Inr (Inr (Inr (Inr (Inl q)))) \<Rightarrow> QueryAccount q
        | Inr (Inr (Inr (Inr (Inr a)))) \<Rightarrow> Authenticate a)
     (w_sum w_new_order (w_sum w_cancel (w_sum w_replace (w_sum w_set_limits (w_sum w_query w_auth)))))"

lemma wire_bool: "wire w_bool"
  unfolding w_bool_def by (rule wire_map [OF wire_nat]) simp

lemma wire_side: "wire w_side"
  unfolding w_side_def by (rule wire_map [OF wire_bool]) (metis side.exhaust)

lemma wire_tif: "wire w_tif"
  unfolding w_tif_def by (rule wire_map [OF wire_bool]) (metis time_in_force.exhaust)

lemma wire_flags: "wire w_flags"
  unfolding w_flags_def by (rule wire_map [OF wire_bool]) simp

lemma wire_limits: "wire w_limits"
  unfolding w_limits_def by (rule wire_map) (auto intro!: wires)

lemma wire_position: "wire w_position"
  unfolding w_position_def by (rule wire_map) (auto intro!: wires)

lemma wire_new_order: "wire w_new_order"
  unfolding w_new_order_def by (rule wire_map) (auto intro!: wires wire_side wire_tif wire_flags)

lemma wire_cancel: "wire w_cancel"
  unfolding w_cancel_def by (rule wire_map) (auto intro!: wires)

lemma wire_replace: "wire w_replace"
  unfolding w_replace_def by (rule wire_map) (auto intro!: wires)

lemma wire_set_limits: "wire w_set_limits"
  unfolding w_set_limits_def by (rule wire_map) (auto intro!: wires wire_limits)

lemma wire_query: "wire w_query"
  unfolding w_query_def by (rule wire_map) (auto intro!: wires)

lemma wire_auth: "wire w_auth"
  unfolding w_auth_def by (rule wire_map) (auto intro!: wires simp: comp_def map_idI)

lemma wire_command: "wire w_command"
  unfolding w_command_def
  by (rule wire_map)
    (auto intro!: wires wire_new_order wire_cancel wire_replace wire_set_limits wire_query wire_auth
      split: command.splits)

definition command_serde :: "command serde" where
  "command_serde = serde_of w_command"

interpretation command_wire: wire w_command
  by (rule wire_command)

interpretation command_serde: serde command_serde
  unfolding command_serde_def by (rule command_wire.wire_serde.serde_axioms)

end
