(* ===== verification/Journal.thy ===== *)
theory Journal
  imports Bytes Decimal
begin

text \<open>
  The command journal of \<open>crates/persistence/src/lib.rs\<close>. The operating system is a disk of named
  files and a schedule of outcomes: every system call takes the next outcome, \<open>None\<close> for success
  and \<open>Some n\<close> for a failure, in a write after \<open>n\<close> bytes. An empty schedule is a disk without
  faults. Times (\<open>Instant\<close>, \<open>Duration\<close>) are natural numbers of nanoseconds, given as
  arguments. Serializing (\<open>postcard\<close>) and the checksum (\<open>crc32fast\<close>) are parameters.
\<close>

section \<open>The disk\<close>

record disk =
  dk_files :: "(string, u8 list) hashmap"
  dk_faults :: "nat option list"

datatype io_err =
    IoError
  | UnexpectedEof
  | FrameTooLarge
  | SerializeError
  | DeserializeError
  | ChecksumMismatch

definition file_bytes :: "disk \<Rightarrow> string \<Rightarrow> u8 list" where
  "file_bytes d name = get_or [] (dk_files d) name"

definition os_call :: "disk \<Rightarrow> nat option \<times> disk" where
  "os_call d = (case dk_faults d of [] \<Rightarrow> (None, d) | f # fs \<Rightarrow> (f, d\<lparr>dk_faults := fs\<rparr>))"

definition write_all :: "string \<Rightarrow> u8 list \<Rightarrow> disk \<Rightarrow> (io_err + unit) \<times> disk" where
  "write_all name bs d =
     (case os_call d of
        (None, d1) \<Rightarrow>
          (Inr (), d1\<lparr>dk_files := AList.update name (file_bytes d1 name @ bs) (dk_files d1)\<rparr>)
      | (Some n, d1) \<Rightarrow>
          (Inl IoError,
           d1\<lparr>dk_files := AList.update name (file_bytes d1 name @ take n bs) (dk_files d1)\<rparr>))"

text \<open>The \<open>?\<close> of the source: go on with the value, or return the error.\<close>

definition io_bind ::
  "(io_err + 'a) \<times> disk \<Rightarrow> ('a \<Rightarrow> disk \<Rightarrow> (io_err + 'b) \<times> disk) \<Rightarrow> (io_err + 'b) \<times> disk"
where
  "io_bind r f = (case r of (Inl e, d) \<Rightarrow> (Inl e, d) | (Inr a, d) \<Rightarrow> f a d)"

text \<open>A system call that returns nothing: \<open>sync_data\<close>, \<open>seek\<close>, opening a file.\<close>

definition os_unit :: "disk \<Rightarrow> (io_err + unit) \<times> disk" where
  "os_unit d = (case os_call d of (None, d1) \<Rightarrow> (Inr (), d1) | (Some _, d1) \<Rightarrow> (Inl IoError, d1))"

definition open_create :: "string \<Rightarrow> disk \<Rightarrow> (io_err + unit) \<times> disk" where
  "open_create name d = io_bind (os_unit d) (\<lambda>_ d1.
     (Inr (), if map_of (dk_files d1) name = None
              then d1\<lparr>dk_files := AList.update name [] (dk_files d1)\<rparr> else d1))"

definition rename_file :: "string \<Rightarrow> string \<Rightarrow> disk \<Rightarrow> (io_err + unit) \<times> disk" where
  "rename_file old new d = io_bind (os_unit d) (\<lambda>_ d1.
     case map_of (dk_files d1) old of
       None \<Rightarrow> (Inl IoError, d1)
     | Some bs \<Rightarrow> (Inr (), d1\<lparr>dk_files := AList.update new bs (AList.delete old (dk_files d1))\<rparr>))"

section \<open>The journal\<close>

text \<open>\<open>jr_handle\<close> is the name under which the open file is found now: the path, unless a rotation
  renamed the file and failed to open a new one.\<close>

record journal_config =
  jc_batch_size :: nat
  jc_sync_interval :: nat
  jc_rotation_threshold :: u64

record journal =
  jr_handle :: string
  jr_path :: string
  jr_batch_buffer :: "command list"
  jr_batch_size :: nat
  jr_last_sync :: nat
  jr_sync_interval :: nat
  jr_commands_written :: u64
  jr_since_rotation :: u64
  jr_rotation_threshold :: u64

record journal_stats =
  js_commands_written :: u64
  js_since_rotation :: u64
  js_pending_batch_size :: nat

definition default_journal_config :: journal_config where
  "default_journal_config =
     \<lparr>jc_batch_size = 100, jc_sync_interval = 100 * 1000000, jc_rotation_threshold = 1000000\<rparr>"

definition open_with_config ::
  "nat \<Rightarrow> string \<Rightarrow> journal_config \<Rightarrow> disk \<Rightarrow> (io_err + journal) \<times> disk"
where
  "open_with_config now path config d = io_bind (open_create path d) (\<lambda>_ d1.
     (Inr \<lparr>jr_handle = path, jr_path = path, jr_batch_buffer = [],
           jr_batch_size = jc_batch_size config, jr_last_sync = now,
           jr_sync_interval = jc_sync_interval config, jr_commands_written = 0,
           jr_since_rotation = 0, jr_rotation_threshold = jc_rotation_threshold config\<rparr>, d1))"

definition open_journal :: "nat \<Rightarrow> string \<Rightarrow> disk \<Rightarrow> (io_err + journal) \<times> disk" where
  "open_journal now path d = open_with_config now path default_journal_config d"

text \<open>A frame is the payload's length, the payload and its checksum.\<close>

definition write_frame ::
  "command serde \<Rightarrow> (u8 list \<Rightarrow> u32) \<Rightarrow> command \<Rightarrow> journal \<Rightarrow> disk \<Rightarrow> (io_err + unit) \<times> disk"
where
  "write_frame P crc cmd j d =
     (case sd_to P cmd of
        None \<Rightarrow> (Inl SerializeError, d)
      | Some payload \<Rightarrow>
          io_bind (write_all (jr_handle j) (to_le (of_nat (length payload) :: u32)) d) (\<lambda>_ d1.
          io_bind (write_all (jr_handle j) payload d1) (\<lambda>_ d2.
          write_all (jr_handle j) (to_le (crc payload)) d2)))"

text \<open>The loop of \<open>flush\<close> over the drained commands; it leaves at the first error.\<close>

fun write_frames ::
  "command serde \<Rightarrow> (u8 list \<Rightarrow> u32) \<Rightarrow> command list \<Rightarrow> journal \<Rightarrow> disk \<Rightarrow>
   (io_err + unit) \<times> journal \<times> disk"
where
  "write_frames P crc [] j d = (Inr (), j, d)"
| "write_frames P crc (cmd # cmds) j d =
     (case write_frame P crc cmd j d of
        (Inl e, d1) \<Rightarrow> (Inl e, j, d1)
      | (Inr _, d1) \<Rightarrow>
          write_frames P crc cmds
            (j\<lparr>jr_commands_written := jr_commands_written j + 1,
               jr_since_rotation := jr_since_rotation j + 1\<rparr>) d1)"

definition flush ::
  "command serde \<Rightarrow> (u8 list \<Rightarrow> u32) \<Rightarrow> nat \<Rightarrow> journal \<Rightarrow> disk \<Rightarrow> (io_err + unit) \<times> journal \<times> disk"
where
  "flush P crc now j d =
     (if jr_batch_buffer j = [] then (Inr (), j, d)
      else
        case write_frames P crc (jr_batch_buffer j) (j\<lparr>jr_batch_buffer := []\<rparr>) d of
          (Inl e, j1, d1) \<Rightarrow> (Inl e, j1, d1)
        | (Inr _, j1, d1) \<Rightarrow>
            (case os_unit d1 of
               (Inl e, d2) \<Rightarrow> (Inl e, j1, d2)
             | (Inr _, d2) \<Rightarrow> (Inr (), j1\<lparr>jr_last_sync := now\<rparr>, d2)))"

definition append_cmd ::
  "command serde \<Rightarrow> (u8 list \<Rightarrow> u32) \<Rightarrow> nat \<Rightarrow> command \<Rightarrow> journal \<Rightarrow> disk \<Rightarrow>
   (io_err + unit) \<times> journal \<times> disk"
where
  "append_cmd P crc now cmd j d =
     (let j1 = j\<lparr>jr_batch_buffer := jr_batch_buffer j @ [cmd]\<rparr>;
          should_flush = (jr_batch_size j1 \<le> length (jr_batch_buffer j1) \<or>
                          jr_sync_interval j1 \<le> now - jr_last_sync j1)
      in if should_flush then flush P crc now j1 d else (Inr (), j1, d))"

text \<open>Reading back. The file ends the loop at a frame boundary or inside a header or a checksum; a
  file that ends inside a payload is an error, and so is a frame over ten megabytes.\<close>

definition max_frame :: nat where
  "max_frame = 10 * 1024 * 1024"

function read_frames ::
  "'a serde \<Rightarrow> (u8 list \<Rightarrow> u32) \<Rightarrow> u8 list \<Rightarrow> io_err + 'a list"
where
  "read_frames P crc bs =
     (if length bs < 4 then Inr []
      else
        let len = unat (from_le (take 4 bs) :: u32); rest = drop 4 bs
        in if max_frame < len then Inl FrameTooLarge
           else if length rest < len then Inl UnexpectedEof
           else
             let buf = take len rest; rest2 = drop len rest
             in if length rest2 < 4 then Inr []
                else if crc buf \<noteq> from_le (take 4 rest2) then Inr []
                else
                  case sd_from P buf of
                    None \<Rightarrow> Inl DeserializeError
                  | Some cmd \<Rightarrow> map_sum id (Cons cmd) (read_frames P crc (drop 4 rest2)))"
  by pat_completeness auto
termination
  by (relation "measure (\<lambda>(P, crc, bs). length bs)") auto

declare read_frames.simps [simp del]

definition read_all ::
  "command serde \<Rightarrow> (u8 list \<Rightarrow> u32) \<Rightarrow> journal \<Rightarrow> disk \<Rightarrow> (io_err + command list) \<times> disk"
where
  "read_all P crc j d = io_bind (os_unit d) (\<lambda>_ d1.
     case read_frames P crc (file_bytes d1 (jr_handle j)) of
       Inl e \<Rightarrow> (Inl e, d1)
     | Inr cmds \<Rightarrow> (Inr cmds, snd (os_unit d1)))"

definition should_rotate :: "journal \<Rightarrow> bool" where
  "should_rotate j \<longleftrightarrow>
     0 < jr_rotation_threshold j \<and> jr_rotation_threshold j \<le> jr_since_rotation j"

text \<open>The name of the backup: the directory of the path, its stem, the time in seconds. The model
  of \<open>parent\<close> and \<open>file_stem\<close> is for paths that name a file.\<close>

definition dir_part :: "string \<Rightarrow> string" where
  "dir_part p = rev (dropWhile (\<lambda>c. c \<noteq> CHR ''/'') (rev p))"

definition file_stem :: "string \<Rightarrow> string" where
  "file_stem p =
     (let name = rev (takeWhile (\<lambda>c. c \<noteq> CHR ''/'') (rev p));
          before = rev (tl (dropWhile (\<lambda>c. c \<noteq> CHR ''.'') (rev name)))
      in if CHR ''.'' \<notin> set name \<or> before = [] then name else before)"

definition backup_path :: "string \<Rightarrow> nat \<Rightarrow> string" where
  "backup_path p ts = dir_part p @ file_stem p @ ''_'' @ show_nat ts @ ''.bin''"

definition rotate ::
  "command serde \<Rightarrow> (u8 list \<Rightarrow> u32) \<Rightarrow> nat \<Rightarrow> nat \<Rightarrow> journal \<Rightarrow> disk \<Rightarrow>
   (io_err + string) \<times> journal \<times> disk"
where
  "rotate P crc now ts j d =
     (case flush P crc now j d of
        (Inl e, j1, d1) \<Rightarrow> (Inl e, j1, d1)
      | (Inr _, j1, d1) \<Rightarrow>
          let backup = backup_path (jr_path j1) ts
          in case rename_file (jr_path j1) backup d1 of
               (Inl e, d2) \<Rightarrow> (Inl e, j1, d2)
             | (Inr _, d2) \<Rightarrow>
                 (case open_create (jr_path j1) d2 of
                    (Inl e, d3) \<Rightarrow> (Inl e, j1\<lparr>jr_handle := backup\<rparr>, d3)
                  | (Inr _, d3) \<Rightarrow>
                      (Inr backup, j1\<lparr>jr_handle := jr_path j1, jr_since_rotation := 0\<rparr>, d3)))"

definition stats :: "journal \<Rightarrow> journal_stats" where
  "stats j = \<lparr>js_commands_written = jr_commands_written j,
     js_since_rotation = jr_since_rotation j, js_pending_batch_size = length (jr_batch_buffer j)\<rparr>"

end
