(* ===== verification/Snapshots.thy ===== *)
theory Snapshots
  imports Journal
begin

text \<open>
  The snapshot files of \<open>crates/persistence/src/lib.rs\<close>. The snapshot directory is a disk whose
  file names are the names inside the directory; a directory that does not exist is one without
  files. The newest snapshot is the one whose name sorts last.
\<close>

section \<open>Saving and loading\<close>

record snapshot =
  sn_sequence :: u64
  sn_data :: "u8 list"

definition snapshot_name :: "u64 \<Rightarrow> string" where
  "snapshot_name seq' = ''snapshot_'' @ pad0 12 (unat seq') @ ''.bin''"

definition is_snapshot_name :: "string \<Rightarrow> bool" where
  "is_snapshot_name n \<longleftrightarrow>
     take 9 n = ''snapshot_'' \<and> 4 \<le> length n \<and> drop (length n - 4) n = ''.bin''"

definition create_file :: "string \<Rightarrow> disk \<Rightarrow> (io_err + unit) \<times> disk" where
  "create_file name d = io_bind (os_unit d) (\<lambda>_ d1.
     (Inr (), d1\<lparr>dk_files := AList.update name [] (dk_files d1)\<rparr>))"

definition save_snapshot :: "(u8 list \<Rightarrow> u32) \<Rightarrow> snapshot \<Rightarrow> disk \<Rightarrow> (io_err + string) \<times> disk" where
  "save_snapshot crc sn d =
     (let name = snapshot_name (sn_sequence sn)
      in io_bind (os_unit d) (\<lambda>_ d1.
         io_bind (create_file name d1) (\<lambda>_ d2.
         io_bind (write_all name (to_le (sn_sequence sn)) d2) (\<lambda>_ d3.
         io_bind (write_all name (to_le (of_nat (length (sn_data sn)) :: u32)) d3) (\<lambda>_ d4.
         io_bind (write_all name (sn_data sn) d4) (\<lambda>_ d5.
         io_bind (write_all name (to_le (crc (sn_data sn))) d5) (\<lambda>_ d6.
         io_bind (os_unit d6) (\<lambda>_ d7. (Inr name, d7)))))))))"

text \<open>The bytes of a snapshot file. A file that ends before its checksum is accepted.\<close>

definition parse_snapshot :: "(u8 list \<Rightarrow> u32) \<Rightarrow> u8 list \<Rightarrow> io_err + snapshot" where
  "parse_snapshot crc bs =
     (if length bs < 12 then Inl UnexpectedEof
      else
        let seq' = from_le (take 8 bs);
            len = unat (from_le (take 4 (drop 8 bs)) :: u32);
            rest = drop 12 bs
        in if length rest < len then Inl UnexpectedEof
           else
             let content = take len rest; tail = drop len rest
             in if 4 \<le> length tail \<and> crc content \<noteq> from_le (take 4 tail) then Inl ChecksumMismatch
                else Inr \<lparr>sn_sequence = seq', sn_data = content\<rparr>)"

definition load_from_file ::
  "(u8 list \<Rightarrow> u32) \<Rightarrow> string \<Rightarrow> disk \<Rightarrow> (io_err + snapshot option) \<times> disk"
where
  "load_from_file crc name d = io_bind (os_unit d) (\<lambda>_ d1.
     case map_of (dk_files d1) name of
       None \<Rightarrow> (Inl IoError, d1)
     | Some bs \<Rightarrow> (map_sum id Some (parse_snapshot crc bs), d1))"

definition snapshot_entries :: "disk \<Rightarrow> string list" where
  "snapshot_entries d = filter is_snapshot_name (map fst (dk_files d))"

definition load_latest :: "(u8 list \<Rightarrow> u32) \<Rightarrow> disk \<Rightarrow> (io_err + snapshot option) \<times> disk" where
  "load_latest crc d =
     (if dk_files d = [] then (Inr None, d)
      else io_bind (os_unit d) (\<lambda>_ d1.
        if snapshot_entries d1 = [] then (Inr None, d1)
        else load_from_file crc (last (sort (snapshot_entries d1))) d1))"

text \<open>\<open>cleanup_old\<close> removes the first files in name order, counting those it could remove.\<close>

fun remove_files :: "string list \<Rightarrow> disk \<Rightarrow> nat \<times> disk" where
  "remove_files [] d = (0, d)"
| "remove_files (n # ns) d =
     (case os_unit d of
        (Inl _, d1) \<Rightarrow> remove_files ns d1
      | (Inr _, d1) \<Rightarrow>
          (case remove_files ns (d1\<lparr>dk_files := AList.delete n (dk_files d1)\<rparr>) of
             (r, d2) \<Rightarrow> (Suc r, d2)))"

definition cleanup_old :: "nat \<Rightarrow> disk \<Rightarrow> (io_err + nat) \<times> disk" where
  "cleanup_old keep d =
     (if dk_files d = [] then (Inr 0, d)
      else io_bind (os_unit d) (\<lambda>_ d1.
        let entries = snapshot_entries d1
        in if length entries \<le> keep then (Inr 0, d1)
           else
             (case remove_files (take (length entries - keep) (sort entries)) d1 of
                (r, d2) \<Rightarrow> (Inr r, d2))))"

section \<open>Facts\<close>

lemma is_snapshot_name_name [simp]: "is_snapshot_name (snapshot_name seq')"
  by (simp add: is_snapshot_name_def snapshot_name_def)

lemma snapshot_name_less:
  assumes "unat a < 10 ^ 12" and "unat b < 10 ^ 12"
  shows "snapshot_name a < snapshot_name b \<longleftrightarrow> a < b"
proof -
  have "pad0 12 (unat a) = digits 12 (unat a)" "pad0 12 (unat b) = digits 12 (unat b)"
    using assms by (auto intro!: pad0_digits)
  then have "snapshot_name a < snapshot_name b \<longleftrightarrow> digits 12 (unat a) < digits 12 (unat b)"
    unfolding snapshot_name_def by (simp only: lex_append_same lex_append_right length_digits)
  also have "\<dots> \<longleftrightarrow> unat a < unat b" by (rule digits_less [OF assms])
  finally show ?thesis by (simp add: word_less_nat_alt)
qed

lemma update_twice: "AList.update k v (AList.update k w m) = AList.update k v m"
  by (induction m) auto

lemma save_snapshot_ok:
  assumes "dk_faults d = []"
  shows "\<exists>d'. save_snapshot crc sn d = (Inr (snapshot_name (sn_sequence sn)), d') \<and> dk_faults d' = [] \<and>
    dk_files d' = AList.update (snapshot_name (sn_sequence sn))
      (to_le (sn_sequence sn) @ to_le (of_nat (length (sn_data sn)) :: u32) @ sn_data sn @
       to_le (crc (sn_data sn))) (dk_files d)"
  using assms
  by (simp add: save_snapshot_def Let_def io_bind_def create_file_def os_unit_def os_call_def
      write_all_def file_bytes_def update_twice)

lemma parse_snapshot_ok:
  assumes "length (sn_data sn) < 2 ^ 32"
  shows "parse_snapshot crc (to_le (sn_sequence sn) @ to_le (of_nat (length (sn_data sn)) :: u32) @
    sn_data sn @ to_le (crc (sn_data sn))) = Inr sn"
proof -
  have "unat (of_nat (length (sn_data sn)) :: u32) = length (sn_data sn)"
    using assms by (simp add: unat_of_nat take_bit_eq_mod)
  then show ?thesis by (simp add: parse_snapshot_def Let_def)
qed

text \<open>A directory of well-named snapshots below \<open>10 ^ 12\<close>, and the largest name in it.\<close>

definition snapshots_below :: "u64 \<Rightarrow> disk \<Rightarrow> bool" where
  "snapshots_below seq' d \<longleftrightarrow> unat seq' < 10 ^ 12 \<and>
     (\<forall>n \<in> set (snapshot_entries d). \<exists>s. n = snapshot_name s \<and> s < seq')"

lemma last_sort_Max:
  fixes xs :: "'a::linorder list"
  assumes "xs \<noteq> []"
  shows "last (sort xs) = Max (set xs)"
proof (cases "sort xs" rule: rev_cases)
  case Nil
  with assms show ?thesis by (metis length_0_conv length_sort)
next
  case (snoc ys z)
  have "sorted (ys @ [z])" unfolding snoc [symmetric] by (rule sorted_sort)
  then have "\<forall>y \<in> set ys. y \<le> z" by (simp add: sorted_append)
  moreover have "set xs = insert z (set ys)" unfolding set_sort [of "\<lambda>x. x" xs, symmetric] snoc by simp
  ultimately show ?thesis by (auto simp: snoc intro!: Max_eqI [symmetric])
qed

lemma load_latest_ok:
  assumes "dk_faults d = []" and below: "snapshots_below (sn_sequence sn) d"
    and len: "length (sn_data sn) < 2 ^ 32" and save: "save_snapshot crc sn d = (r, d')"
  shows "load_latest crc d' = (Inr (Some sn), d')"
proof -
  let ?n = "snapshot_name (sn_sequence sn)"
  let ?bs = "to_le (sn_sequence sn) @ to_le (of_nat (length (sn_data sn)) :: u32) @ sn_data sn @
    to_le (crc (sn_data sn))"
  have d': "dk_faults d' = []" "dk_files d' = AList.update ?n ?bs (dk_files d)"
    using save_snapshot_ok [OF assms(1), of crc sn] save by auto
  have names: "set (snapshot_entries d') = insert ?n (set (snapshot_entries d))"
    by (auto simp: snapshot_entries_def d' set_map [symmetric] simp del: set_map)
      (auto simp: dom_map_of_conv_image_fst [symmetric])
  have "n < ?n" if n: "n \<in> set (snapshot_entries d)" for n
  proof -
    obtain s where s: "n = snapshot_name s" "s < sn_sequence sn" using below n by (auto simp: snapshots_below_def)
    have "unat (sn_sequence sn) < 10 ^ 12" using below by (simp add: snapshots_below_def)
    moreover from this s(2) have "unat s < 10 ^ 12" by (simp add: word_less_nat_alt)
    ultimately show ?thesis using s by (simp add: snapshot_name_less)
  qed
  then have "Max (set (snapshot_entries d')) = ?n"
    unfolding names by (intro Max_eqI) (auto intro: less_imp_le)
  moreover have ne: "snapshot_entries d' \<noteq> []" using names by auto
  ultimately have "last (sort (snapshot_entries d')) = ?n" by (simp add: last_sort_Max)
  moreover have "dk_files d' \<noteq> []" using ne by (auto simp: snapshot_entries_def)
  moreover have "os_unit d' = (Inr (), d')" using d'(1) by (simp add: os_unit_def os_call_def)
  ultimately show ?thesis using ne d'(2) parse_snapshot_ok [OF len]
    by (simp add: load_latest_def load_from_file_def io_bind_def)
qed

lemma remove_files_ok:
  "dk_faults d = [] \<Longrightarrow> remove_files ns d =
     (length ns, d\<lparr>dk_files := filter (\<lambda>e. fst e \<notin> set ns) (dk_files d)\<rparr>)"
proof (induction ns arbitrary: d)
  case (Cons n ns)
  from Cons.IH [of "d\<lparr>dk_files := AList.delete n (dk_files d)\<rparr>"] Cons.prems show ?case
    by (simp add: os_unit_def os_call_def AList.delete_eq case_prod_beta eq_commute [of n])
qed simp

text \<open>After a cleanup the newest \<open>keep\<close> snapshots are left, with their contents.\<close>

lemma cleanup_old_ok:
  assumes faults: "dk_faults d = []" and c: "cleanup_old keep d = (r, d')"
  shows "r = Inr (length (snapshot_entries d) - keep)" and "dk_faults d' = []"
    and "dk_files d' = filter (\<lambda>e. fst e \<notin>
      set (take (length (snapshot_entries d) - keep) (sort (snapshot_entries d)))) (dk_files d)"
proof -
  have u: "os_unit d = (Inr (), d)" using faults by (simp add: os_unit_def os_call_def)
  have "r = Inr (length (snapshot_entries d) - keep) \<and> dk_faults d' = [] \<and> dk_files d' = filter (\<lambda>e. fst e \<notin>
      set (take (length (snapshot_entries d) - keep) (sort (snapshot_entries d)))) (dk_files d)"
    using c faults
    by (auto simp: cleanup_old_def io_bind_def u Let_def remove_files_ok snapshot_entries_def
        split: if_splits)
  then show "r = Inr (length (snapshot_entries d) - keep)" "dk_faults d' = []"
    "dk_files d' = filter (\<lambda>e. fst e \<notin>
      set (take (length (snapshot_entries d) - keep) (sort (snapshot_entries d)))) (dk_files d)"
    by auto
qed

text \<open>So the file that sorts last, if any is to be kept, is still there, and sorts last.\<close>

lemma map_of_filter_keys: "k \<notin> A \<Longrightarrow> map_of (filter (\<lambda>e. fst e \<notin> A) m) k = map_of m k"
  by (induction m) auto

lemma load_latest_cleanup:
  assumes faults: "dk_faults d = []" and dist: "keys_distinct (dk_files d)" and keep: "0 < keep"
    and c: "cleanup_old keep d = (r, d')" and l: "load_latest crc d = (Inr (Some sn), d)"
  shows "load_latest crc d' = (Inr (Some sn), d')"
proof -
  let ?es = "snapshot_entries d" and ?n = "length (snapshot_entries d) - keep"
  note cl = cleanup_old_ok [OF faults c]
  have u: "dk_faults e = [] \<Longrightarrow> os_unit e = (Inr (), e)" for e :: disk
    by (simp add: os_unit_def os_call_def)
  have ne: "?es \<noteq> []" "dk_files d \<noteq> []" using l faults
    by (auto simp: load_latest_def io_bind_def u split: if_splits)
  have "distinct (sort ?es)" using dist by (simp add: snapshot_entries_def)
  then have de: "set (take ?n (sort ?es)) \<inter> set (drop ?n (sort ?es)) = {}"
    by (rule set_take_disj_set_drop_if_distinct) simp
  have len: "?n < length (sort ?es)" using ne(1) keep by (cases ?es) auto
  have es': "snapshot_entries d' = filter (\<lambda>n. n \<notin> set (take ?n (sort ?es))) ?es"
    unfolding snapshot_entries_def cl(3) by (simp add: filter_map comp_def conj_commute)
  have "set ?es = set (take ?n (sort ?es)) \<union> set (drop ?n (sort ?es))"
    by (metis append_take_drop_id set_append set_sort)
  then have "set (snapshot_entries d') = set (drop ?n (sort ?es))"
    unfolding es' using de by (simp only: set_filter) blast
  moreover have "last (sort ?es) \<in> set (drop ?n (sort ?es))"
    using len by (metis drop_eq_Nil last_drop last_in_set not_less)
  ultimately have mem: "last (sort ?es) \<in> set (snapshot_entries d')" by simp
  have sub: "set (snapshot_entries d') \<subseteq> set ?es" unfolding es' by auto
  have ne': "snapshot_entries d' \<noteq> []" using mem by auto
  have "Max (set (snapshot_entries d')) = last (sort ?es)"
    by (rule Max_eqI) (use mem sub in \<open>auto simp: last_sort_Max [OF ne(1)]\<close>)
  then have last': "last (sort (snapshot_entries d')) = last (sort ?es)"
    by (simp add: last_sort_Max [OF ne'])
  have look: "map_of (dk_files d') (last (sort ?es)) = map_of (dk_files d) (last (sort ?es))"
    unfolding cl(3) by (rule map_of_filter_keys) (use mem in \<open>simp add: es'\<close>)
  have "dk_files d' \<noteq> []" using ne' by (auto simp: snapshot_entries_def)
  with l ne ne' last' look show ?thesis
    by (auto simp: load_latest_def load_from_file_def io_bind_def u faults cl(2) split: option.splits)
qed

end
