(* ===== verification/Engine.thy ===== *)
theory Engine
  imports BookFacts Metrics EngineAccounts Snapshots
begin

text \<open>
  \<open>crates/engine/src/engine.rs\<close>: the engine of one symbol. It owns a book, the accounts, the two
  sequence counters, the journal and the snapshot directory; a command turns into a list of
  events and a new state. \<open>None\<close> is a panic. The channels (\<open>crossbeam_channel\<close>) are outside:
  a received message is an argument of the step, what is sent is its result.
\<close>

section \<open>State\<close>

record inbound =
  in_conn_id :: u64
  in_cmd :: command

record outbound =
  out_conn_id :: u64
  out_ev :: event

record engine_config =
  ec_journal_path :: string
  ec_snapshot_dir :: string
  ec_journal_config :: journal_config
  ec_snapshot_interval :: u64

definition default_engine_config :: engine_config where
  "default_engine_config =
     \<lparr>ec_journal_path = ''journal.bin'', ec_snapshot_dir = ''snapshots'',
      ec_journal_config = default_journal_config, ec_snapshot_interval = 100000\<rparr>"

record 's engine =
  en_server_seq :: u64
  en_command_seq :: u64
  en_book :: "'s order_book"
  en_metrics :: metrics
  en_journal :: journal
  en_disk :: disk
  en_snapshots :: disk
  en_config :: engine_config
  en_accounts :: account_manager

text \<open>A journal that cannot be opened is a panic (\<open>expect\<close>). The book is always that of symbol 1.\<close>

definition new_engine ::
  "('s, order) slab_ops \<Rightarrow> nat \<Rightarrow> metrics \<Rightarrow> engine_config \<Rightarrow> disk \<Rightarrow> disk \<Rightarrow> 's engine option"
where
  "new_engine S now metrics config d snaps =
     (case open_with_config now (ec_journal_path config) (ec_journal_config config) d of
        (Inl _, _) \<Rightarrow> None
      | (Inr j, d1) \<Rightarrow>
          Some \<lparr>en_server_seq = 1, en_command_seq = 0, en_book = new_book S 1, en_metrics = metrics,
                en_journal = j, en_disk = d1, en_snapshots = snaps, en_config = config,
                en_accounts = new_account_manager default_risk_limits\<rparr>)"

section \<open>Events\<close>

definition next_seq :: "'s engine \<Rightarrow> u64 \<times> 's engine" where
  "next_seq e = (en_server_seq e, e\<lparr>en_server_seq := en_server_seq e + 1\<rparr>)"

definition ack_ev :: "u64 \<Rightarrow> order_id \<Rightarrow> 's engine \<Rightarrow> event \<times> 's engine" where
  "ack_ev client_seq oid e =
     (let (sq, e1) = next_seq e
      in (EvAck \<lparr>ak_server_seq = sq, ak_client_seq = client_seq, ak_order_id = oid\<rparr>, e1))"

definition reject_ev ::
  "u64 \<Rightarrow> order_id option \<Rightarrow> reject_reason \<Rightarrow> 's engine \<Rightarrow> event \<times> 's engine"
where
  "reject_ev client_seq oid reason e =
     (let (sq, e1) = next_seq (e\<lparr>en_metrics := inc_rejects (en_metrics e)\<rparr>)
      in (EvReject \<lparr>rj_server_seq = sq, rj_client_seq = client_seq, rj_order_id = oid,
                    rj_reason = reason\<rparr>, e1))"

definition book_top_event :: "'s engine \<Rightarrow> event \<times> 's engine" where
  "book_top_event e =
     (let (sq, e1) = next_seq e
      in (EvBookTop
            \<lparr>bt_server_seq = sq, bt_symbol_id = bk_symbol (en_book e),
             bt_best_bid_px = map_option fst (best_bid (en_book e)),
             bt_best_bid_qty = map_option snd (best_bid (en_book e)),
             bt_best_ask_px = map_option fst (best_ask (en_book e)),
             bt_best_ask_qty = map_option snd (best_ask (en_book e))\<rparr>, e1))"

text \<open>\<open>reject_overloaded\<close> sends its event itself.\<close>

definition reject_overloaded :: "u64 \<Rightarrow> u64 \<Rightarrow> 's engine \<Rightarrow> outbound \<times> 's engine" where
  "reject_overloaded conn_id client_seq e =
     (let (sq, e1) = next_seq e
      in (\<lparr>out_conn_id = conn_id,
           out_ev = EvReject \<lparr>rj_server_seq = sq, rj_client_seq = client_seq, rj_order_id = None,
                              rj_reason = Overloaded\<rparr>\<rparr>, e1))"

section \<open>New orders\<close>

text \<open>The loop over the fills: the taker's position, the maker's position, the event.\<close>

definition emit_fill ::
  "new_order \<Rightarrow> match_fill \<Rightarrow> 's engine \<Rightarrow> (event \<times> 's engine) option"
where
  "emit_fill no f e =
     (let e1 = e\<lparr>en_metrics := inc_fills (en_metrics e)\<rparr>
      in case apply_fill (no_account_id no) (no_side no) (mf_price f) (mf_qty f) (en_accounts e1) of
           None \<Rightarrow> None
         | Some a1 \<Rightarrow>
             (case apply_fill (mf_maker_account_id f) (opposite (no_side no)) (mf_price f) (mf_qty f) a1 of
                None \<Rightarrow> None
              | Some a2 \<Rightarrow>
                  (let (sq, e2) = next_seq (e1\<lparr>en_accounts := a2\<rparr>)
                   in Some (EvFill \<lparr>fi_server_seq = sq, fi_client_seq = no_client_seq no,
                                    fi_symbol_id = bk_symbol (en_book e),
                                    fi_taker_order_id = mf_taker_order_id f,
                                    fi_maker_order_id = mf_maker_order_id f,
                                    fi_price = mf_price f, fi_qty = mf_qty f\<rparr>, e2))))"

fun emit_fills ::
  "new_order \<Rightarrow> match_fill list \<Rightarrow> 's engine \<Rightarrow> (event list \<times> 's engine) option"
where
  "emit_fills no [] e = Some ([], e)"
| "emit_fills no (f # fs) e =
     (case emit_fill no f e of
        None \<Rightarrow> None
      | Some (ev, e1) \<Rightarrow> map_option (\<lambda>(evs, e2). (ev # evs, e2)) (emit_fills no fs e1))"

definition order_of :: "new_order \<Rightarrow> qty \<Rightarrow> order" where
  "order_of no q =
     \<lparr>o_id = no_order_id no, o_account = no_account_id no, o_symbol = no_symbol_id no,
      o_side = no_side no, o_price = no_price no, o_qty_rem = q, o_tif = no_tif no,
      o_flags = no_flags no\<rparr>"

definition rest_order :: "('s, order) slab_ops \<Rightarrow> new_order \<Rightarrow> qty \<Rightarrow> 's engine \<Rightarrow> 's engine" where
  "rest_order S no q e = e\<lparr>en_book := insert_resting S (order_of no q) (en_book e)\<rparr>"

definition top_and_ack :: "new_order \<Rightarrow> event list \<Rightarrow> 's engine \<Rightarrow> event list \<times> 's engine" where
  "top_and_ack no evs e =
     (let (top, e1) = book_top_event e; (a, e2) = ack_ev (no_client_seq no) (no_order_id no) e1
      in (evs @ [top, a], e2))"

definition handle_new ::
  "('s, order) slab_ops \<Rightarrow> new_order \<Rightarrow> 's engine \<Rightarrow> (event list \<times> 's engine) option"
where
  "handle_new S no e =
     (let rej = (\<lambda>reason. case reject_ev (no_client_seq no) (Some (no_order_id no)) reason e of
                   (ev, e1) \<Rightarrow> Some ([ev], e1));
          crosses = would_cross (en_book e) (no_side no) (no_price no)
      in if no_symbol_id no \<noteq> bk_symbol (en_book e) \<or> no_qty no \<le> 0 then rej Invalid
         else
           case check_risk (en_accounts e) (no_account_id no) (no_side no) (no_qty no) of
             Inl reason \<Rightarrow> rej reason
           | Inr _ \<Rightarrow>
               if post_only (no_flags no) \<and> crosses then rej PostOnlyWouldCross
               else if crosses then
                 (case match_taker S (no_order_id no) (no_side no) (no_price no) (no_qty no) (en_book e) of
                    None \<Rightarrow> None
                  | Some (book, fills) \<Rightarrow>
                      map_option (\<lambda>(evs, e1).
                          let rem = sub64 (no_qty no) (sum64 (map mf_qty fills));
                              e2 = (if rem > 0 \<and> no_tif no = Gtc then rest_order S no rem e1 else e1)
                          in top_and_ack no evs e2)
                        (emit_fills no fills (e\<lparr>en_book := book\<rparr>)))
               else
                 Some (top_and_ack no []
                         (if no_tif no = Gtc then rest_order S no (no_qty no) e else e)))"

definition handle_set_risk_limits :: "set_risk_limits \<Rightarrow> 's engine \<Rightarrow> event list \<times> 's engine" where
  "handle_set_risk_limits srl e =
     (let (ev, e1) = ack_ev (sr_client_seq srl) 0
            (e\<lparr>en_accounts := set_limits (sr_account_id srl) (sr_limits srl) (en_accounts e)\<rparr>)
      in ([ev], e1))"

definition handle_query_account :: "query_account \<Rightarrow> 's engine \<Rightarrow> event list \<times> 's engine" where
  "handle_query_account qa e =
     (let (sq, e1) = next_seq e
      in ([EvAccountState
             \<lparr>as_server_seq = sq, as_client_seq = qa_client_seq qa, as_account_id = qa_account_id qa,
              as_symbol_id = qa_symbol_id qa,
              as_position = get_position (en_accounts e) (qa_account_id qa),
              as_risk_limits = get_limits (en_accounts e) (qa_account_id qa)\<rparr>], e1))"

section \<open>Commands\<close>

definition process_cancel ::
  "('s, order) slab_ops \<Rightarrow> cancel_cmd \<Rightarrow> 's engine \<Rightarrow> event list \<times> 's engine"
where
  "process_cancel S c e =
     (if ca_symbol_id c \<noteq> bk_symbol (en_book e) then
        (case reject_ev (ca_client_seq c) (Some (ca_order_id c)) Invalid e of (ev, e1) \<Rightarrow> ([ev], e1))
      else
        (case cancel S (ca_order_id c) (ca_account_id c) (en_book e) of
           (False, b) \<Rightarrow>
             (case reject_ev (ca_client_seq c) (Some (ca_order_id c)) NotFound (e\<lparr>en_book := b\<rparr>) of
                (ev, e1) \<Rightarrow> ([ev], e1))
         | (True, b) \<Rightarrow>
             (let (top, e1) = book_top_event (e\<lparr>en_book := b\<rparr>);
                  (a, e2) = ack_ev (ca_client_seq c) (ca_order_id c) e1
              in ([top, a], e2))))"

definition process_replace ::
  "('s, order) slab_ops \<Rightarrow> replace_cmd \<Rightarrow> 's engine \<Rightarrow> (event list \<times> 's engine) option"
where
  "process_replace S r e =
     (let rej = (\<lambda>reason. case reject_ev (re_client_seq r) (Some (re_order_id r)) reason e of
                   (ev, e1) \<Rightarrow> Some ([ev], e1))
      in if re_symbol_id r \<noteq> bk_symbol (en_book e) \<or> re_new_qty r \<le> 0 then rej Invalid
         else
           case get_order S (en_book e) (re_order_id r) of
             None \<Rightarrow> rej NotFound
           | Some ord \<Rightarrow>
               if o_account ord \<noteq> re_account_id r then rej NotFound
               else
                 handle_new S
                   \<lparr>no_client_seq = re_client_seq r, no_order_id = re_order_id r,
                    no_account_id = re_account_id r, no_symbol_id = re_symbol_id r,
                    no_side = o_side ord, no_price = re_new_price r, no_qty = re_new_qty r,
                    no_tif = o_tif ord, no_flags = o_flags ord\<rparr>
                   (e\<lparr>en_book := snd (cancel S (re_order_id r) (re_account_id r) (en_book e))\<rparr>))"

fun process ::
  "('s, order) slab_ops \<Rightarrow> command \<Rightarrow> 's engine \<Rightarrow> (event list \<times> 's engine) option"
where
  "process S (NewOrder no) e = handle_new S no e"
| "process S (SetRiskLimits srl) e = Some (handle_set_risk_limits srl e)"
| "process S (QueryAccount qa) e = Some (handle_query_account qa e)"
| "process S (Authenticate a) e = Some ([], e)"
| "process S (Cancel c) e = Some (process_cancel S c e)"
| "process S (Replace r) e = process_replace S r e"

section \<open>Replay\<close>

definition count_command :: "'s engine \<Rightarrow> 's engine" where
  "count_command e = e\<lparr>en_command_seq := en_command_seq e + 1\<rparr>"

fun replay_command :: "('s, order) slab_ops \<Rightarrow> command \<Rightarrow> 's engine \<Rightarrow> 's engine option" where
  "replay_command S (NewOrder no) e = map_option (count_command \<circ> snd) (handle_new S no e)"
| "replay_command S (Cancel c) e =
     Some (count_command
       (e\<lparr>en_book := snd (cancel S (ca_order_id c) (ca_account_id c) (en_book e))\<rparr>))"
| "replay_command S (Replace r) e = map_option (count_command \<circ> snd) (process S (Replace r) e)"
| "replay_command S (SetRiskLimits srl) e = Some (count_command (snd (handle_set_risk_limits srl e)))"
| "replay_command S (QueryAccount qa) e = Some (count_command (snd (handle_query_account qa e)))"
| "replay_command S (Authenticate a) e = Some (count_command e)"

fun replay :: "('s, order) slab_ops \<Rightarrow> command list \<Rightarrow> 's engine \<Rightarrow> 's engine option" where
  "replay S [] e = Some e"
| "replay S (cmd # cmds) e =
     (case replay_command S cmd e of None \<Rightarrow> None | Some e1 \<Rightarrow> replay S cmds e1)"

section \<open>Snapshots of the engine\<close>

record engine_snapshot =
  es_book :: "u8 list"
  es_accounts :: "u8 list"

text \<open>What the engine uses of \<open>postcard\<close> and \<open>crc32fast\<close>.\<close>

record codecs =
  cd_command :: "command serde"
  cd_orders :: "order list serde"
  cd_accounts :: "account_manager serde"
  cd_snapshot :: "engine_snapshot serde"
  cd_crc :: "u8 list \<Rightarrow> u32"

text \<open>The result says whether the snapshot was taken; the run loop only warns when it was not.\<close>

definition take_snapshot ::
  "('s, order) slab_ops \<Rightarrow> codecs \<Rightarrow> 's engine \<Rightarrow> (io_err + unit) \<times> 's engine"
where
  "take_snapshot S C e =
     (case serialize_snapshot S (sd_to (cd_orders C)) (en_book e) of
        None \<Rightarrow> (Inl SerializeError, e)
      | Some book \<Rightarrow>
          (case sd_to (cd_accounts C) (en_accounts e) of
             None \<Rightarrow> (Inl SerializeError, e)
           | Some accounts \<Rightarrow>
               (case sd_to (cd_snapshot C) \<lparr>es_book = book, es_accounts = accounts\<rparr> of
                  None \<Rightarrow> (Inl SerializeError, e)
                | Some bs \<Rightarrow>
                    (case save_snapshot (cd_crc C)
                            \<lparr>sn_sequence = en_command_seq e, sn_data = bs\<rparr> (en_snapshots e) of
                       (Inl err, d1) \<Rightarrow> (Inl err, e\<lparr>en_snapshots := d1\<rparr>)
                     | (Inr _, d1) \<Rightarrow> (Inr (), e\<lparr>en_snapshots := snd (cleanup_old 3 d1)\<rparr>)))))"

text \<open>Restoring from the newest snapshot; the error type is that of \<open>anyhow\<close>. A result \<open>None\<close> is a
  panic of the replay.\<close>

definition load_state ::
  "('s, order) slab_ops \<Rightarrow> codecs \<Rightarrow> 's engine \<Rightarrow> (io_err + unit) \<times> 's engine"
where
  "load_state S C e =
     (case load_latest (cd_crc C) (en_snapshots e) of
        (Inl err, d1) \<Rightarrow> (Inl err, e\<lparr>en_snapshots := d1\<rparr>)
      | (Inr None, d1) \<Rightarrow> (Inr (), e\<lparr>en_snapshots := d1\<rparr>)
      | (Inr (Some sn), d1) \<Rightarrow>
          (case sd_from (cd_snapshot C) (sn_data sn) of
             None \<Rightarrow> (Inl DeserializeError, e\<lparr>en_snapshots := d1\<rparr>)
           | Some combined \<Rightarrow>
               (case restore_from_snapshot S (sd_from (cd_orders C)) (es_book combined) (en_book e) of
                  None \<Rightarrow> (Inl DeserializeError, e\<lparr>en_snapshots := d1\<rparr>)
                | Some book \<Rightarrow>
                    (case sd_from (cd_accounts C) (es_accounts combined) of
                       None \<Rightarrow> (Inl DeserializeError, e\<lparr>en_snapshots := d1, en_book := book\<rparr>)
                     | Some accounts \<Rightarrow>
                         (Inr (), e\<lparr>en_snapshots := d1, en_book := book, en_accounts := accounts,
                                    en_command_seq := sn_sequence sn,
                                    en_server_seq := sn_sequence sn + 1\<rparr>)))))"

definition restore_from_persistence ::
  "('s, order) slab_ops \<Rightarrow> codecs \<Rightarrow> 's engine \<Rightarrow> ((io_err + unit) \<times> 's engine) option"
where
  "restore_from_persistence S C e =
     (case load_state S C e of
        (Inl err, e1) \<Rightarrow> Some (Inl err, e1)
      | (Inr _, e1) \<Rightarrow>
          (case read_all (cd_command C) (cd_crc C) (en_journal e1) (en_disk e1) of
             (Inl err, d1) \<Rightarrow> Some (Inl err, e1\<lparr>en_disk := d1\<rparr>)
           | (Inr all_cmds, d1) \<Rightarrow>
               (let e2 = e1\<lparr>en_disk := d1\<rparr>; replay_start = unat (en_command_seq e2)
                in if replay_start < length all_cmds
                   then map_option (Pair (Inr ())) (replay S (drop replay_start all_cmds) e2)
                   else Some (Inr (), e2))))"

section \<open>The run loop\<close>

text \<open>
  One received command. \<open>open_sends\<close> is the number of sends the outbound channel still accepts,
  \<open>None\<close> if it stays open; when it closes, the loop returns at once (\<open>Stopped\<close>), before the
  command is counted. \<open>now\<close> and \<open>ts\<close> are the times read during the step.
\<close>

datatype run_status = Running | Stopped

definition journal_step ::
  "codecs \<Rightarrow> nat \<Rightarrow> command \<Rightarrow> 's engine \<Rightarrow> 's engine"
where
  "journal_step C now cmd e =
     (case append_cmd (cd_command C) (cd_crc C) now cmd (en_journal e) (en_disk e) of
        (_, j, d) \<Rightarrow> e\<lparr>en_journal := j, en_disk := d\<rparr>)"

definition snapshot_due :: "'s engine \<Rightarrow> bool" where
  "snapshot_due e \<longleftrightarrow> 0 < ec_snapshot_interval (en_config e) \<and>
     en_command_seq e mod ec_snapshot_interval (en_config e) = 0"

definition rotate_step :: "codecs \<Rightarrow> nat \<Rightarrow> nat \<Rightarrow> 's engine \<Rightarrow> 's engine" where
  "rotate_step C now ts e =
     (if should_rotate (en_journal e) then
        (case rotate (cd_command C) (cd_crc C) now ts (en_journal e) (en_disk e) of
           (_, j, d) \<Rightarrow> e\<lparr>en_journal := j, en_disk := d\<rparr>)
      else e)"

text \<open>After the events are sent: count the command, snapshot if due, rotate the journal if due.\<close>

definition after_command ::
  "('s, order) slab_ops \<Rightarrow> codecs \<Rightarrow> nat \<Rightarrow> nat \<Rightarrow> 's engine \<Rightarrow> 's engine"
where
  "after_command S C now ts e =
     (let e1 = count_command e
      in rotate_step C now ts (if snapshot_due e1 then snd (take_snapshot S C e1) else e1))"

definition run_step ::
  "('s, order) slab_ops \<Rightarrow> codecs \<Rightarrow> nat \<Rightarrow> nat \<Rightarrow> nat option \<Rightarrow> inbound \<Rightarrow> 's engine \<Rightarrow>
   (outbound list \<times> run_status \<times> 's engine) option"
where
  "run_step S C now ts open_sends inb e =
     (case process S (in_cmd inb)
             (journal_step C now (in_cmd inb) (e\<lparr>en_metrics := queue_dec (en_metrics e)\<rparr>)) of
        None \<Rightarrow> None
      | Some (events, e1) \<Rightarrow>
          let outs = map (\<lambda>ev. \<lparr>out_conn_id = in_conn_id inb, out_ev = ev\<rparr>) events;
              accepted = (case open_sends of None \<Rightarrow> length outs | Some n \<Rightarrow> n)
          in if accepted < length outs then Some (take accepted outs, Stopped, e1)
             else Some (outs, Running, after_command S C now ts e1))"

text \<open>A query message, and the shutdown of the loop.\<close>

definition query_all_orders :: "('s, order) slab_ops \<Rightarrow> 's engine \<Rightarrow> order_snapshot list" where
  "query_all_orders S e = get_all_order_snapshots S (en_book e)"

definition shutdown :: "codecs \<Rightarrow> nat \<Rightarrow> 's engine \<Rightarrow> 's engine" where
  "shutdown C now e =
     (case flush (cd_command C) (cd_crc C) now (en_journal e) (en_disk e) of
        (_, j, d) \<Rightarrow> e\<lparr>en_journal := j, en_disk := d\<rparr>)"

end
