(* ===== verification/EngineSpec.thy ===== *)
theory EngineSpec
  imports Engine
begin

text \<open>
  What the engine's handling of a new order does to the abstract book, and the invariant of the
  engine: its book is well formed and not crossed.
\<close>

type_synonym sides = "side \<Rightarrow> order list"

abbreviation sides_of :: "('s, order) slab_ops \<Rightarrow> 's engine \<Rightarrow> sides" where
  "sides_of S e \<equiv> side_orders S (en_book e)"

text \<open>The abstract effect of an accepted order: match, then rest what is left unless it is an
  immediate-or-cancel order.\<close>

definition spec_new :: "new_order \<Rightarrow> sides \<Rightarrow> sides \<times> match_fill list" where
  "spec_new no B =
     (let s = no_side no;
          (rest, fills) =
            spec_match (no_order_id no) s (no_price no) (no_qty no) (B (opposite s));
          rem = no_qty no - filled fills;
          B1 = B(opposite s := rest)
      in (if 0 < rem \<and> no_tif no = Gtc then B1(s := place s (order_of no rem) (B1 s)) else B1, fills))"

definition reaches :: "side \<Rightarrow> price \<Rightarrow> order list \<Rightarrow> bool" where
  "reaches s px ms = (case ms of [] \<Rightarrow> False | m # _ \<Rightarrow> \<not> better (opposite s) px (o_price m))"

text \<open>The decision on a new order, in the order of the code's checks.\<close>

definition admission :: "('s, order) slab_ops \<Rightarrow> new_order \<Rightarrow> 's engine \<Rightarrow> reject_reason option" where
  "admission S no e =
     (if no_symbol_id no \<noteq> bk_symbol (en_book e) \<or> no_qty no \<le> 0 then Some Invalid
      else
        case check_risk (en_accounts e) (no_account_id no) (no_side no) (no_qty no) of
          Inl r \<Rightarrow> Some r
        | Inr _ \<Rightarrow>
            if post_only (no_flags no) \<and>
               reaches (no_side no) (no_price no) (sides_of S e (opposite (no_side no)))
            then Some PostOnlyWouldCross else None)"

definition uncrossed :: "sides \<Rightarrow> bool" where
  "uncrossed B \<longleftrightarrow> (\<forall>x \<in> set (B Buy). \<forall>y \<in> set (B Sell). o_price x < o_price y)"

definition engine_ok :: "('s, order) slab_ops \<Rightarrow> 's engine \<Rightarrow> bool" where
  "engine_ok S e \<longleftrightarrow> book_ok S (en_book e) \<and> uncrossed (sides_of S e)"

section \<open>The abstract book stays uncrossed\<close>

lemma uncrossed_iff:
  "uncrossed B \<longleftrightarrow>
   (\<forall>x \<in> set (B s). \<forall>y \<in> set (B (opposite s)). better (opposite s) (o_price x) (o_price y))"
  by (cases s) (auto simp: uncrossed_def)

lemma spec_match_prices:
  assumes "y \<in> set (fst (spec_match t s px q ms))"
  shows "\<exists>x \<in> set ms. o_price y = o_price x \<and> o_id y = o_id x \<and> o_account y = o_account x \<and>
    o_side y = o_side x"
proof -
  obtain xs ys where ms: "ms = xs @ ys" and rest: "fst (spec_match t s px q ms) = ys \<or>
     (\<exists>x x' zs. ys = x # zs \<and> partly_filled x x' \<and> fst (spec_match t s px q ms) = x' # zs)"
    using spec_match_rest [of ms t s px q] by auto
  from rest assms consider "y \<in> set ys" | x where "x \<in> set ys" "partly_filled x y"
    by (metis list.set_intros set_ConsD)
  then show ?thesis
  proof cases
    case 1
    then show ?thesis using ms by auto
  next
    case (2 x)
    then show ?thesis using ms by (intro bexI [of _ x]) (auto simp: partly_filled_def)
  qed
qed

lemma spec_match_prioritized:
  "prioritized u ms \<Longrightarrow> prioritized u (fst (spec_match t s px q ms))"
  by (induction t s px q ms rule: spec_match.induct) (auto simp: prioritized_Cons split: prod.splits)

text \<open>An order with quantity left cannot reach any order that remains on the other side.\<close>

lemma spec_match_out_of_reach:
  assumes "\<forall>m \<in> set ms. 0 < o_qty_rem m" and "0 \<le> q" and "prioritized (opposite s) ms"
    and "filled (snd (spec_match t s px q ms)) < q"
  shows "\<forall>y \<in> set (fst (spec_match t s px q ms)). better (opposite s) px (o_price y)"
proof (cases "fst (spec_match t s px q ms)")
  case (Cons m rest)
  have m: "better (opposite s) px (o_price m)"
    using spec_match_exhausts [OF assms(1,2), of t s px] assms(4) Cons by simp
  have "better (opposite s) px (o_price y)" if "y \<in> set rest" for y
  proof -
    have "\<not> better (opposite s) (o_price y) (o_price m)"
      using spec_match_prioritized [OF assms(3), of t s px q] that by (simp add: Cons prioritized_Cons)
    with m show ?thesis by (cases s) auto
  qed
  with m Cons show ?thesis by auto
qed simp

lemma spec_new_uncrossed:
  assumes un: "uncrossed B" and pos: "\<forall>s. \<forall>m \<in> set (B s). 0 < o_qty_rem m"
    and pr: "\<forall>s. prioritized s (B s)" and q: "0 \<le> no_qty no"
  shows "uncrossed (fst (spec_new no B))"
proof -
  define s where "s = no_side no"
  define ms where "ms = B (opposite s)"
  define r where "r = spec_match (no_order_id no) s (no_price no) (no_qty no) ms"
  have old: "better (opposite s) (o_price x) (o_price y)" if x: "x \<in> set (B s)" and y: "y \<in> set (fst r)" for x y
  proof -
    from spec_match_prices [of y "no_order_id no" s "no_price no" "no_qty no" ms] y
    obtain z where "z \<in> set ms" "o_price y = o_price z" by (auto simp: r_def)
    with un x show ?thesis by (auto simp: uncrossed_iff [of B s] ms_def)
  qed
  have new: "better (opposite s) (no_price no) (o_price y)"
    if "0 < no_qty no - filled (snd r)" "y \<in> set (fst r)" for y
    using spec_match_out_of_reach [of ms "no_qty no" s "no_order_id no" "no_price no"] pos pr q that
    by (simp add: r_def ms_def)
  have spec: "fst (spec_new no B) =
      (if 0 < no_qty no - filled (snd r) \<and> no_tif no = Gtc
       then B(opposite s := fst r, s := place s (order_of no (no_qty no - filled (snd r))) (B s))
       else B(opposite s := fst r))"
    by (simp add: spec_new_def Let_def s_def r_def ms_def case_prod_beta)
  show ?thesis unfolding uncrossed_iff [of _ s] spec using old new
    by (auto simp: order_of_def)
qed

section \<open>The fills of an order\<close>

fun fill_events :: "new_order \<Rightarrow> symbol_id \<Rightarrow> u64 \<Rightarrow> match_fill list \<Rightarrow> event list" where
  "fill_events no symb sq [] = []"
| "fill_events no symb sq (f # fs) =
     EvFill \<lparr>fi_server_seq = sq, fi_client_seq = no_client_seq no, fi_symbol_id = symb,
             fi_taker_order_id = mf_taker_order_id f, fi_maker_order_id = mf_maker_order_id f,
             fi_price = mf_price f, fi_qty = mf_qty f\<rparr> # fill_events no symb (sq + 1) fs"

abbreviation net :: "'s engine \<Rightarrow> account_id \<Rightarrow> int" where
  "net e a \<equiv> net_position (get_position (en_accounts e) a)"

text \<open>What a list of fills does to the net position of an account: the taker trades on its side,
  each maker on the other.\<close>

fun fills_delta :: "new_order \<Rightarrow> match_fill list \<Rightarrow> account_id \<Rightarrow> int" where
  "fills_delta no [] a = 0"
| "fills_delta no (f # fs) a =
     (if a = no_account_id no then signed_qty (no_side no) (mf_qty f) else 0) +
     (if a = mf_maker_account_id f then signed_qty (opposite (no_side no)) (mf_qty f) else 0) +
     fills_delta no fs a"

lemma signed_qty_opposite: "signed_qty (opposite s) q = - signed_qty s q"
  by (cases s) (simp_all add: signed_qty_def)

lemma abs_signed_qty: "0 \<le> q \<Longrightarrow> \<bar>signed_qty s q\<bar> = q"
  by (cases s) (simp_all add: signed_qty_def)

lemma emit_fill_ok:
  assumes q: "0 < mf_qty f" and b: "\<forall>a. \<bar>net e a\<bar> + 2 * mf_qty f \<le> i64_max"
  shows "\<exists>accs. emit_fill no f e = Some (hd (fill_events no (bk_symbol (en_book e)) (en_server_seq e) [f]),
      e\<lparr>en_metrics := inc_fills (en_metrics e), en_accounts := accs,
        en_server_seq := en_server_seq e + 1\<rparr>) \<and>
    (\<forall>a. net_position (get_position accs a) = net e a + fills_delta no [f] a) \<and>
    (\<forall>a. get_limits accs a = get_limits (en_accounts e) a)"
proof -
  let ?s = "no_side no" and ?q = "mf_qty f" and ?t = "no_account_id no"
  have "\<bar>net e ?t\<bar> + ?q \<le> i64_max" using b [rule_format, of ?t] q by linarith
  from apply_fill_net [OF q this, of ?s "mf_price f"] obtain a1 where
    a1: "apply_fill ?t ?s (mf_price f) ?q (en_accounts e) = Some a1"
    and n1: "\<And>a. net_position (get_position a1 a) = net e a + (if a = ?t then signed_qty ?s ?q else 0)"
    and l1: "\<And>a. get_limits a1 a = get_limits (en_accounts e) a" by blast
  have "\<bar>net_position (get_position a1 (mf_maker_account_id f))\<bar> + ?q \<le> i64_max"
    using b [rule_format, of "mf_maker_account_id f"] abs_signed_qty [of ?q ?s] q by (auto simp: n1)
  from apply_fill_net [OF q this, of "opposite ?s" "mf_price f"] obtain a2 where
    a2: "apply_fill (mf_maker_account_id f) (opposite ?s) (mf_price f) ?q a1 = Some a2"
    and n2: "\<And>a. net_position (get_position a2 a) = net_position (get_position a1 a) +
      (if a = mf_maker_account_id f then signed_qty (opposite ?s) ?q else 0)"
    and l2: "\<And>a. get_limits a2 a = get_limits a1 a" by blast
  show ?thesis
    by (intro exI [of _ a2]) (simp add: emit_fill_def Let_def next_seq_def a1 a2 n1 n2 l1 l2)
qed

lemma abs_delta_le: "0 < mf_qty f \<Longrightarrow> \<bar>x + fills_delta no [f] a\<bar> \<le> \<bar>x\<bar> + 2 * mf_qty f"
  by (cases "no_side no") (auto simp: signed_qty_def)

lemma filled_nonneg: "\<forall>f \<in> set fs. 0 < mf_qty f \<Longrightarrow> 0 \<le> filled fs"
  unfolding filled_def by (intro sum_list_nonneg) auto

lemma emit_fills_ok:
  assumes "\<forall>f \<in> set fs. 0 < mf_qty f" and "\<forall>a. \<bar>net e a\<bar> + 2 * filled fs \<le> i64_max"
  shows "\<exists>accs. emit_fills no fs e =
      Some (fill_events no (bk_symbol (en_book e)) (en_server_seq e) fs,
        e\<lparr>en_metrics := (inc_fills ^^ length fs) (en_metrics e), en_accounts := accs,
          en_server_seq := en_server_seq e + of_nat (length fs)\<rparr>) \<and>
    (\<forall>a. net_position (get_position accs a) = net e a + fills_delta no fs a) \<and>
    (\<forall>a. get_limits accs a = get_limits (en_accounts e) a)"
  using assms
proof (induction fs arbitrary: e)
  case Nil
  show ?case by (intro exI [of _ "en_accounts e"]) simp
next
  case (Cons f fs)
  have q: "0 < mf_qty f" and pos: "\<forall>f \<in> set fs. 0 < mf_qty f" using Cons.prems(1) by auto
  note nn = filled_nonneg [OF pos]
  have "\<forall>a. \<bar>net e a\<bar> + 2 * mf_qty f \<le> i64_max"
  proof
    fix a show "\<bar>net e a\<bar> + 2 * mf_qty f \<le> i64_max"
      using Cons.prems(2) [rule_format, of a] nn by simp
  qed
  from emit_fill_ok [OF q this, of no] obtain a1 where
    e1: "emit_fill no f e = Some (hd (fill_events no (bk_symbol (en_book e)) (en_server_seq e) [f]),
      e\<lparr>en_metrics := inc_fills (en_metrics e), en_accounts := a1, en_server_seq := en_server_seq e + 1\<rparr>)"
    and n1: "\<And>a. net_position (get_position a1 a) = net e a + fills_delta no [f] a"
    and l1: "\<And>a. get_limits a1 a = get_limits (en_accounts e) a" by blast
  let ?e = "e\<lparr>en_metrics := inc_fills (en_metrics e), en_accounts := a1, en_server_seq := en_server_seq e + 1\<rparr>"
  have "\<bar>net ?e a\<bar> + 2 * filled fs \<le> i64_max" for a
    using Cons.prems(2) [rule_format, of a] abs_delta_le [OF q, of "net e a" no a] by (simp add: n1)
  with Cons.IH [OF pos, of ?e] obtain a2 where
    e2: "emit_fills no fs ?e = Some (fill_events no (bk_symbol (en_book e)) (en_server_seq e + 1) fs,
      ?e\<lparr>en_metrics := (inc_fills ^^ length fs) (inc_fills (en_metrics e)), en_accounts := a2,
         en_server_seq := en_server_seq e + 1 + of_nat (length fs)\<rparr>)"
    and n2: "\<And>a. net_position (get_position a2 a) = net ?e a + fills_delta no fs a"
    and l2: "\<And>a. get_limits a2 a = get_limits a1 a" by auto
  show ?case
    by (intro exI [of _ a2])
      (use e2 in \<open>simp add: e1 n2 n1 l1 l2 funpow_swap1 add.assoc\<close>)
qed

end
