(* ===== verification/EngineInv.thy ===== *)
theory EngineInv
  imports EngineSpec
begin

text \<open>
  The engine's operations against the abstract book: an admissible new order has exactly the
  abstract effect and emits exactly its events, and every operation keeps the invariant.
\<close>

text \<open>When an order is admissible: its id is not live, and the numbers fit. The last two
  conditions bound the quantity resting at the order's price and the positions.\<close>

definition admissible :: "('s, order) slab_ops \<Rightarrow> new_order \<Rightarrow> 's engine \<Rightarrow> bool" where
  "admissible S no e \<longleftrightarrow> i64_ok (no_qty no) \<and>
     (\<forall>s. no_order_id no \<notin> o_id ` set (sides_of S e s)) \<and>
     qty_at (sides_of S e (no_side no)) (no_price no) + no_qty no \<le> i64_max \<and>
     (\<forall>a. \<bar>net e a\<bar> + 2 * no_qty no \<le> i64_max)"

text \<open>The top-of-book event of an abstract book.\<close>

definition top_of :: "order list \<Rightarrow> (price \<times> qty) option" where
  "top_of ords = (case ords of [] \<Rightarrow> None | m # _ \<Rightarrow> Some (o_price m, qty_at ords (o_price m)))"

definition top_event :: "symbol_id \<Rightarrow> u64 \<Rightarrow> sides \<Rightarrow> event" where
  "top_event symb sq B =
     EvBookTop \<lparr>bt_server_seq = sq, bt_symbol_id = symb,
       bt_best_bid_px = map_option fst (top_of (B Buy)),
       bt_best_bid_qty = map_option snd (top_of (B Buy)),
       bt_best_ask_px = map_option fst (top_of (B Sell)),
       bt_best_ask_qty = map_option snd (top_of (B Sell))\<rparr>"

definition reject_event :: "u64 \<Rightarrow> u64 \<Rightarrow> order_id \<Rightarrow> reject_reason \<Rightarrow> event" where
  "reject_event sq client_seq oid reason =
     EvReject \<lparr>rj_server_seq = sq, rj_client_seq = client_seq, rj_order_id = Some oid, rj_reason = reason\<rparr>"

definition ack_event :: "u64 \<Rightarrow> u64 \<Rightarrow> order_id \<Rightarrow> event" where
  "ack_event sq client_seq oid =
     EvAck \<lparr>ak_server_seq = sq, ak_client_seq = client_seq, ak_order_id = oid\<rparr>"

definition rejected :: "'s engine \<Rightarrow> 's engine" where
  "rejected e = e\<lparr>en_metrics := inc_rejects (en_metrics e), en_server_seq := en_server_seq e + 1\<rparr>"

lemma reject_ev_eq:
  "reject_ev cs (Some oid) r e = (reject_event (en_server_seq e) cs oid r, rejected e)"
  by (simp add: reject_ev_def next_seq_def reject_event_def rejected_def)

lemma ack_ev_eq:
  "ack_ev cs oid e = (ack_event (en_server_seq e) cs oid, e\<lparr>en_server_seq := en_server_seq e + 1\<rparr>)"
  by (simp add: ack_ev_def next_seq_def ack_event_def)

lemma rejected_sel [simp]:
  "en_book (rejected e) = en_book e" "en_accounts (rejected e) = en_accounts e"
  "en_command_seq (rejected e) = en_command_seq e" "en_server_seq (rejected e) = en_server_seq e + 1"
  by (simp_all add: rejected_def)

lemma engine_ok_book:
  "en_book e' = en_book e \<Longrightarrow> engine_ok S e' \<longleftrightarrow> engine_ok S e"
  by (simp add: engine_ok_def)

lemma best_bid_ask_top:
  assumes "book_ok S b"
  shows "best_bid b = top_of (side_orders S b Buy)" and "best_ask b = top_of (side_orders S b Sell)"
  using best_level_spec [OF assms, of Buy] best_level_spec [OF assms, of Sell]
  by (simp_all add: best_level_def top_of_def)

lemma book_top_event_eq:
  assumes "book_ok S (en_book e)"
  shows "book_top_event e = (top_event (bk_symbol (en_book e)) (en_server_seq e) (sides_of S e),
    e\<lparr>en_server_seq := en_server_seq e + 1\<rparr>)"
  by (simp add: book_top_event_def next_seq_def top_event_def best_bid_ask_top [OF assms])

lemma would_cross_reaches:
  "book_ok S b \<Longrightarrow> would_cross b s px \<longleftrightarrow> reaches s px (side_orders S b (opposite s))"
  by (simp add: would_cross_iff reaches_def)

lemma not_reaches_spec_match:
  "\<not> reaches s px ms \<Longrightarrow> spec_match t s px q ms = (ms, [])"
  by (cases ms) (auto simp: reaches_def)

text \<open>A rejected order changes the sequence number and the reject counter, nothing else.\<close>

lemma handle_new_reject:
  assumes ok: "book_ok S (en_book e)" and adm: "admission S no e = Some r"
  shows "handle_new S no e =
    Some ([reject_event (en_server_seq e) (no_client_seq no) (no_order_id no) r], rejected e)"
  using adm
  by (auto simp: admission_def handle_new_def Let_def reject_ev_eq would_cross_reaches [OF ok]
      split: if_splits sum.splits)

lemma handle_new_admitted:
  assumes ok: "book_ok S (en_book e)" and adm: "admission S no e = None"
  shows "handle_new S no e =
    (if reaches (no_side no) (no_price no) (sides_of S e (opposite (no_side no))) then
       (case match_taker S (no_order_id no) (no_side no) (no_price no) (no_qty no) (en_book e) of
          None \<Rightarrow> None
        | Some (book, fills) \<Rightarrow>
            map_option (\<lambda>(evs, e1).
                let rem = sub64 (no_qty no) (sum64 (map mf_qty fills))
                in top_and_ack no evs (if rem > 0 \<and> no_tif no = Gtc then rest_order S no rem e1 else e1))
              (emit_fills no fills (e\<lparr>en_book := book\<rparr>)))
     else Some (top_and_ack no [] (if no_tif no = Gtc then rest_order S no (no_qty no) e else e)))"
    and "0 < no_qty no"
  using adm
  by (auto simp: admission_def handle_new_def Let_def would_cross_reaches [OF ok] case_prod_beta
      split: if_splits sum.splits option.splits)

lemma qty_at_split:
  "qty_at (xs @ ys) px = qty_at xs px + qty_at ys px"
  by (simp add: qty_at_def)

context order_slab begin

text \<open>Matching, whether the order crosses or not, followed by resting what is left.\<close>

lemma match_ok:
  assumes ok: "book_ok S (en_book e)" and adm: "admissible S no e" and q: "0 < no_qty no"
  shows "\<exists>book. (if reaches (no_side no) (no_price no) (sides_of S e (opposite (no_side no)))
      then match_taker S (no_order_id no) (no_side no) (no_price no) (no_qty no) (en_book e)
      else Some (en_book e, [])) = Some (book, snd (spec_new no (sides_of S e))) \<and>
    book_ok S book \<and> bk_symbol book = bk_symbol (en_book e) \<and>
    map_of (bk_index book) (no_order_id no) = None \<and>
    side_orders S book (no_side no) = sides_of S e (no_side no) \<and>
    side_orders S book (opposite (no_side no)) =
      fst (spec_match (no_order_id no) (no_side no) (no_price no) (no_qty no)
        (sides_of S e (opposite (no_side no))))"
proof -
  have fresh: "map_of (bk_index (en_book e)) (no_order_id no) = None"
    using adm by (auto simp: index_None_iff [OF ok] admissible_def all_orders_def)
  have qok: "i64_ok (no_qty no)" using adm by (simp add: admissible_def)
  have fills: "snd (spec_new no (sides_of S e)) = snd (spec_match (no_order_id no) (no_side no)
      (no_price no) (no_qty no) (sides_of S e (opposite (no_side no))))"
    by (simp add: spec_new_def Let_def case_prod_beta)
  show ?thesis
  proof (cases "reaches (no_side no) (no_price no) (sides_of S e (opposite (no_side no)))")
    case True
    from match_loop_ok [OF ok qok, of "no_order_id no" "no_side no" "no_price no"] True fresh
    show ?thesis by (auto simp: match_taker_def fills)
  next
    case False
    with not_reaches_spec_match [OF False, of "no_order_id no" "no_qty no"] ok fresh
    show ?thesis by (simp add: fills)
  qed
qed

lemma rest_ok:
  assumes "book_ok S book" "map_of (bk_index book) (no_order_id no) = None" "0 < r" "r \<le> no_qty no"
    and "qty_at (side_orders S book (no_side no)) (no_price no) + no_qty no \<le> i64_max"
  shows "book_ok S (insert_resting S (order_of no r) book)"
    and "side_orders S (insert_resting S (order_of no r) book) =
      (side_orders S book)(no_side no := place (no_side no) (order_of no r) (side_orders S book (no_side no)))"
proof -
  have "room book (order_of no r)" using assms by (simp add: room_iff order_of_def)
  note ins = insert_resting_ok [of book "order_of no r", OF assms(1) _ _ this]
  show "book_ok S (insert_resting S (order_of no r) book)"
    using ins(1) assms by (simp add: order_of_def)
  show "side_orders S (insert_resting S (order_of no r) book) =
      (side_orders S book)(no_side no := place (no_side no) (order_of no r) (side_orders S book (no_side no)))"
    by (rule ext) (use ins(2) assms in \<open>simp add: order_of_def\<close>)
qed

lemma insert_resting_symbol: "bk_symbol (insert_resting S ord b) = bk_symbol b"
  by (simp add: insert_resting_def Let_def case_prod_beta)

end

section \<open>The contract of a new order\<close>

text \<open>What acceptance means: the abstract book, the fills in order with consecutive sequence
  numbers, the new top of the book, the acknowledgement, and the positions of both parties.\<close>

definition accepts ::
  "('s, order) slab_ops \<Rightarrow> new_order \<Rightarrow> 's engine \<Rightarrow> event list \<Rightarrow> 's engine \<Rightarrow> bool"
where
  "accepts S no e evs e' \<longleftrightarrow>
     (let fills = snd (spec_new no (sides_of S e)); n = of_nat (length fills);
          symb = bk_symbol (en_book e); sq = en_server_seq e
      in evs = fill_events no symb sq fills @
           [top_event symb (sq + n) (sides_of S e'),
            ack_event (sq + n + 1) (no_client_seq no) (no_order_id no)] \<and>
         sides_of S e' = fst (spec_new no (sides_of S e)) \<and>
         bk_symbol (en_book e') = symb \<and> en_server_seq e' = sq + n + 2 \<and>
         (\<forall>a. net e' a = net e a + fills_delta no fills a) \<and>
         (\<forall>a. get_limits (en_accounts e') a = get_limits (en_accounts e) a) \<and>
         en_metrics e' = (inc_fills ^^ length fills) (en_metrics e) \<and>
         en_command_seq e' = en_command_seq e)"

text \<open>The last part of the handler: rest what is left, then the top of the book and the ack.\<close>

lemma top_and_ack_eq:
  assumes "book_ok S (en_book e)"
  shows "top_and_ack no evs e =
    (evs @ [top_event (bk_symbol (en_book e)) (en_server_seq e) (sides_of S e),
            ack_event (en_server_seq e + 1) (no_client_seq no) (no_order_id no)],
     e\<lparr>en_server_seq := en_server_seq e + 2\<rparr>)"
  by (simp add: top_and_ack_def book_top_event_eq [OF assms] ack_ev_eq add.assoc)

lemma side_orders_pos: "book_ok S b \<Longrightarrow> \<forall>s. \<forall>m \<in> set (side_orders S b s). 0 < o_qty_rem m"
  using side_orders_ok(2) by blast

lemma spec_new_fills:
  assumes ok: "book_ok S b" and q: "0 < no_qty no" and qok: "i64_ok (no_qty no)"
  defines "fills \<equiv> snd (spec_new no (side_orders S b))"
  shows "\<forall>f \<in> set fills. 0 < mf_qty f" and "filled fills \<le> no_qty no" and "0 \<le> filled fills"
    and "sub64 (no_qty no) (sum64 (map mf_qty fills)) = no_qty no - filled fills"
proof -
  have f: "fills = snd (spec_match (no_order_id no) (no_side no) (no_price no) (no_qty no)
      (side_orders S b (opposite (no_side no))))"
    by (simp add: fills_def spec_new_def Let_def case_prod_beta)
  have pos: "\<forall>m \<in> set (side_orders S b (opposite (no_side no))). 0 < o_qty_rem m"
    using side_orders_pos [OF ok] by blast
  show fpos: "\<forall>f \<in> set fills. 0 < mf_qty f" using spec_match_fills [OF pos] by (auto simp: f)
  show le: "filled fills \<le> no_qty no" and nn: "0 \<le> filled fills"
    using spec_match_bounds [OF pos] q by (simp_all add: f)
  have "i64_ok (filled fills)" by (rule i64_ok_between [OF nn le qok])
  then have "sum64 (map mf_qty fills) = filled fills"
    using sum64_exact [of "map mf_qty fills" 0] fpos by (simp add: sum64_def filled_def less_imp_le)
  moreover have "i64_ok (no_qty no - filled fills)"
    by (rule i64_ok_between [OF _ _ qok]) (use le nn in auto)
  ultimately show "sub64 (no_qty no) (sum64 (map mf_qty fills)) = no_qty no - filled fills"
    by (simp add: sub64_id)
qed

context order_slab begin

text \<open>Both branches of the handler end here: a book after matching, the accounts after the fills.\<close>

lemma finish_ok:
  assumes ok: "engine_ok S e" and adm: "admissible S no e" and q: "0 < no_qty no"
    and book: "book_ok S book" "bk_symbol book = bk_symbol (en_book e)"
      "map_of (bk_index book) (no_order_id no) = None"
      "side_orders S book (no_side no) = sides_of S e (no_side no)"
      "side_orders S book (opposite (no_side no)) = fst (spec_match (no_order_id no) (no_side no)
        (no_price no) (no_qty no) (sides_of S e (opposite (no_side no))))"
    and fills: "fills = snd (spec_new no (sides_of S e))" and r: "r = no_qty no - filled fills"
    and e1: "e1 = e\<lparr>en_book := book, en_metrics := (inc_fills ^^ length fills) (en_metrics e),
      en_accounts := accs, en_server_seq := en_server_seq e + of_nat (length fills)\<rparr>"
    and accs: "\<forall>a. net_position (get_position accs a) = net e a + fills_delta no fills a"
      "\<forall>a. get_limits accs a = get_limits (en_accounts e) a"
    and res: "top_and_ack no (fill_events no (bk_symbol (en_book e)) (en_server_seq e) fills)
      (if r > 0 \<and> no_tif no = Gtc then rest_order S no r e1 else e1) = (evs, e')"
  shows "engine_ok S e' \<and> accepts S no e evs e'"
proof -
  let ?B = "sides_of S e" and ?s = "no_side no"
  have bok: "book_ok S (en_book e)" using ok by (simp add: engine_ok_def)
  have qok: "i64_ok (no_qty no)" and fit: "qty_at (?B ?s) (no_price no) + no_qty no \<le> i64_max"
    using adm by (simp_all add: admissible_def)
  note fl = spec_new_fills [OF bok q qok, folded fills]
  let ?e2 = "if r > 0 \<and> no_tif no = Gtc then rest_order S no r e1 else e1"
  have sides: "side_orders S book = ?B(opposite ?s := fst (spec_match (no_order_id no) ?s
        (no_price no) (no_qty no) (?B (opposite ?s))))"
  proof
    fix t show "side_orders S book t = (?B(opposite ?s := fst (spec_match (no_order_id no) ?s
        (no_price no) (no_qty no) (?B (opposite ?s))))) t"
      using book(4,5) by (cases t; cases ?s) simp_all
  qed
  have ff: "fills = snd (spec_match (no_order_id no) ?s (no_price no) (no_qty no) (?B (opposite ?s)))"
    by (simp add: fills spec_new_def Let_def case_prod_beta)
  have B2: "book_ok S (en_book ?e2) \<and> sides_of S ?e2 = fst (spec_new no ?B) \<and>
      bk_symbol (en_book ?e2) = bk_symbol (en_book e)"
  proof (cases "r > 0 \<and> no_tif no = Gtc")
    case True
    have rest: "book_ok S (insert_resting S (order_of no r) book)"
      "side_orders S (insert_resting S (order_of no r) book) =
        (side_orders S book)(?s := place ?s (order_of no r) (side_orders S book ?s))"
      using rest_ok [OF book(1,3), of r] True r fl(3) fit book(4) by simp_all
    have "fst (spec_new no ?B) = (side_orders S book)(?s := place ?s (order_of no r) (side_orders S book ?s))"
      using True by (simp add: sides spec_new_def Let_def case_prod_beta r ff)
    with rest True show ?thesis by (simp add: rest_order_def e1 insert_resting_symbol book(2))
  next
    case False
    then have "fst (spec_new no ?B) = side_orders S book"
      by (auto simp: sides spec_new_def Let_def case_prod_beta r ff)
    with False book(1,2) show ?thesis by (auto simp: e1)
  qed
  then have b2: "book_ok S (en_book ?e2)" and s2: "sides_of S ?e2 = fst (spec_new no ?B)"
    and y2: "bk_symbol (en_book ?e2) = bk_symbol (en_book e)" by auto
  have fields: "en_server_seq ?e2 = en_server_seq e + of_nat (length fills)"
    "en_accounts ?e2 = accs" "en_metrics ?e2 = (inc_fills ^^ length fills) (en_metrics e)"
    "en_command_seq ?e2 = en_command_seq e"
    by (simp_all add: rest_order_def e1)
  have evs: "evs = fill_events no (bk_symbol (en_book e)) (en_server_seq e) fills @
      [top_event (bk_symbol (en_book e)) (en_server_seq e + of_nat (length fills)) (sides_of S ?e2),
       ack_event (en_server_seq e + of_nat (length fills) + 1) (no_client_seq no) (no_order_id no)]"
    and e': "e' = ?e2\<lparr>en_server_seq := en_server_seq ?e2 + 2\<rparr>"
    using res unfolding top_and_ack_eq [OF b2] y2 fields by auto
  have "uncrossed (fst (spec_new no ?B))"
    by (rule spec_new_uncrossed)
      (use ok side_orders_pos [OF bok] side_orders_prioritized [OF bok] q in \<open>auto simp: engine_ok_def\<close>)
  then have "engine_ok S e'" using b2 s2 by (simp add: engine_ok_def e')
  moreover have "accepts S no e evs e'"
    using evs s2 y2 fields accs
    by (simp add: accepts_def Let_def fills [symmetric] e')
  ultimately show ?thesis ..
qed

lemma handle_new_ok:
  assumes ok: "engine_ok S e" and adm: "admissible S no e"
  shows "\<exists>evs e'. handle_new S no e = Some (evs, e') \<and> engine_ok S e' \<and>
    (case admission S no e of
       Some r \<Rightarrow> evs = [reject_event (en_server_seq e) (no_client_seq no) (no_order_id no) r] \<and>
         e' = rejected e
     | None \<Rightarrow> accepts S no e evs e')"
proof -
  have bok: "book_ok S (en_book e)" using ok by (simp add: engine_ok_def)
  show ?thesis
  proof (cases "admission S no e")
    case (Some r)
    with handle_new_reject [OF bok Some] ok show ?thesis
      by (simp add: engine_ok_book [of "rejected e" e])
  next
    case None
    note hn = handle_new_admitted [OF bok None]
    let ?B = "sides_of S e" and ?s = "no_side no"
    define fills where "fills = snd (spec_new no ?B)"
    define r where "r = no_qty no - filled fills"
    have qok: "i64_ok (no_qty no)" using adm by (simp add: admissible_def)
    note fl = spec_new_fills [OF bok hn(2) qok, folded fills_def]
    obtain book where m: "(if reaches ?s (no_price no) (?B (opposite ?s))
        then match_taker S (no_order_id no) ?s (no_price no) (no_qty no) (en_book e)
        else Some (en_book e, [])) = Some (book, fills)"
      and book: "book_ok S book" "bk_symbol book = bk_symbol (en_book e)"
        "map_of (bk_index book) (no_order_id no) = None" "side_orders S book ?s = ?B ?s"
        "side_orders S book (opposite ?s) = fst (spec_match (no_order_id no) ?s (no_price no)
          (no_qty no) (?B (opposite ?s)))"
      using match_ok [OF bok adm hn(2)] unfolding fills_def by blast
    have "\<bar>net (e\<lparr>en_book := book\<rparr>) a\<bar> + 2 * filled fills \<le> i64_max" for a
      using adm fl(2) by (auto simp: admissible_def dest: spec [of _ a])
    then obtain accs where em: "emit_fills no fills (e\<lparr>en_book := book\<rparr>) =
        Some (fill_events no (bk_symbol (en_book e)) (en_server_seq e) fills,
          e\<lparr>en_book := book, en_metrics := (inc_fills ^^ length fills) (en_metrics e),
            en_accounts := accs, en_server_seq := en_server_seq e + of_nat (length fills)\<rparr>)"
      and accs: "\<forall>a. net_position (get_position accs a) = net e a + fills_delta no fills a"
        "\<forall>a. get_limits accs a = get_limits (en_accounts e) a"
      using emit_fills_ok [OF fl(1), of "e\<lparr>en_book := book\<rparr>" no] book(2) by auto
    define e1 where "e1 = e\<lparr>en_book := book, en_metrics := (inc_fills ^^ length fills) (en_metrics e),
            en_accounts := accs, en_server_seq := en_server_seq e + of_nat (length fills)\<rparr>"
    obtain evs e' where res: "top_and_ack no (fill_events no (bk_symbol (en_book e)) (en_server_seq e) fills)
        (if r > 0 \<and> no_tif no = Gtc then rest_order S no r e1 else e1) = (evs, e')"
      by (cases "top_and_ack no (fill_events no (bk_symbol (en_book e)) (en_server_seq e) fills)
        (if r > 0 \<and> no_tif no = Gtc then rest_order S no r e1 else e1)")
    have "handle_new S no e = Some (evs, e')"
    proof (cases "reaches ?s (no_price no) (?B (opposite ?s))")
      case True
      with m em res fl(4) show ?thesis
        by (auto simp: hn(1) e1_def [symmetric] r_def Let_def split: if_splits)
    next
      case False
      with m have eq: "book = en_book e" "fills = []" by auto
      with em have "e1 = e" by (simp add: e1_def)
      with False res eq hn(2) show ?thesis by (auto simp: hn(1) r_def split: if_splits)
    qed
    with finish_ok [OF ok adm hn(2) book fills_def r_def e1_def accs res] None show ?thesis by simp
  qed
qed

end

end
