(* ===== verification/EngineCommands.thy ===== *)
theory EngineCommands
  imports EngineInv
begin

text \<open>
  Cancels, replaces and the whole command dispatch: what they do to the abstract book, that they
  keep the engine's invariant, and the sequence numbers of what they emit.
\<close>

section \<open>Cancel\<close>

definition owned :: "('s, order) slab_ops \<Rightarrow> 's engine \<Rightarrow> order_id \<Rightarrow> account_id \<Rightarrow> bool" where
  "owned S e oid acc \<longleftrightarrow> (\<exists>s. \<exists>x \<in> set (sides_of S e s). o_id x = oid \<and> o_account x = acc)"

lemma ex_side: "(\<exists>s. Q s) \<longleftrightarrow> Q Buy \<or> Q Sell"
  by (metis side.exhaust)

lemma cancel_iff:
  assumes ok: "book_ok S b"
  shows "fst (cancel S oid acc b) \<longleftrightarrow> (\<exists>s. \<exists>x \<in> set (side_orders S b s). o_id x = oid \<and> o_account x = acc)"
proof -
  have "fst (cancel S oid acc b) \<longleftrightarrow> (\<exists>x. get_order S b oid = Some x \<and> o_account x = acc)"
    by (auto simp: cancel_def get_order_def Let_def split: option.splits)
  also have "\<dots> \<longleftrightarrow> (\<exists>x \<in> set (all_orders S b). o_id x = oid \<and> o_account x = acc)"
    by (auto simp: get_order_iff [OF ok])
  also have "\<dots> \<longleftrightarrow> (\<exists>s. \<exists>x \<in> set (side_orders S b s). o_id x = oid \<and> o_account x = acc)"
    by (auto simp: ex_side all_orders_def)
  finally show ?thesis .
qed

lemma uncrossed_subset:
  "uncrossed B \<Longrightarrow> (\<And>s. set (B' s) \<subseteq> set (B s)) \<Longrightarrow> uncrossed B'"
  unfolding uncrossed_def by (meson subset_iff)

lemma set_without: "set (without oid xs) = {x \<in> set xs. o_id x \<noteq> oid}"
  by (auto simp: without_def)

context order_slab begin

lemma cancel_engine_ok:
  assumes ok: "engine_ok S e" and e'_def: "e' = e\<lparr>en_book := snd (cancel S oid acc (en_book e))\<rparr>"
  shows "engine_ok S e'" and "bk_symbol (en_book e') = bk_symbol (en_book e)"
    and "owned S e oid acc \<Longrightarrow> sides_of S e' = (\<lambda>s. without oid (sides_of S e s))"
    and "\<not> owned S e oid acc \<Longrightarrow> en_book e' = en_book e"
proof -
  have bok: "book_ok S (en_book e)" using ok by (simp add: engine_ok_def)
  obtain r b' where c: "cancel S oid acc (en_book e) = (r, b')" by (cases "cancel S oid acc (en_book e)")
  have r: "r \<longleftrightarrow> owned S e oid acc" using cancel_iff [OF bok, of oid acc] c by (simp add: owned_def)
  note cok = cancel_ok [OF bok, of oid acc b'] and cno = cancel_False [of oid acc "en_book e" b']
  show s: "owned S e oid acc \<Longrightarrow> sides_of S e' = (\<lambda>s. without oid (sides_of S e s))"
    using cok(2) c r by (auto simp: e'_def)
  show "\<not> owned S e oid acc \<Longrightarrow> en_book e' = en_book e"
    using cno c r by (simp add: e'_def)
  show "bk_symbol (en_book e') = bk_symbol (en_book e)"
    using cok(4) cno c by (cases r) (auto simp: e'_def)
  show "engine_ok S e'"
  proof (cases r)
    case True
    have "uncrossed (sides_of S e')"
      by (rule uncrossed_subset [of "sides_of S e"])
        (use ok s True r in \<open>auto simp: engine_ok_def set_without\<close>)
    with cok(1) c True show ?thesis by (simp add: engine_ok_def e'_def)
  next
    case False
    with cno c ok show ?thesis by (simp add: engine_ok_def e'_def)
  qed
qed

end

text \<open>The three outcomes of a cancel command.\<close>

definition cancels ::
  "('s, order) slab_ops \<Rightarrow> cancel_cmd \<Rightarrow> 's engine \<Rightarrow> event list \<Rightarrow> 's engine \<Rightarrow> bool"
where
  "cancels S c e evs e' \<longleftrightarrow>
     (let sq = en_server_seq e; oid = ca_order_id c; cs = ca_client_seq c
      in if ca_symbol_id c \<noteq> bk_symbol (en_book e)
         then evs = [reject_event sq cs oid Invalid] \<and> e' = rejected e
         else if owned S e oid (ca_account_id c)
         then sides_of S e' = (\<lambda>s. without oid (sides_of S e s)) \<and>
              evs = [top_event (bk_symbol (en_book e)) sq (sides_of S e'), ack_event (sq + 1) cs oid] \<and>
              en_server_seq e' = sq + 2 \<and> en_accounts e' = en_accounts e
         else evs = [reject_event sq cs oid NotFound] \<and> e' = rejected e)"

section \<open>Replace\<close>

text \<open>The order a replace command turns into, and the state in which it is handled.\<close>

definition replacement :: "replace_cmd \<Rightarrow> order \<Rightarrow> new_order" where
  "replacement r ord =
     \<lparr>no_client_seq = re_client_seq r, no_order_id = re_order_id r,
      no_account_id = re_account_id r, no_symbol_id = re_symbol_id r,
      no_side = o_side ord, no_price = re_new_price r, no_qty = re_new_qty r,
      no_tif = o_tif ord, no_flags = o_flags ord\<rparr>"

definition after_removal :: "('s, order) slab_ops \<Rightarrow> replace_cmd \<Rightarrow> 's engine \<Rightarrow> 's engine" where
  "after_removal S r e =
     e\<lparr>en_book := snd (cancel S (re_order_id r) (re_account_id r) (en_book e))\<rparr>"

lemma process_replace_eq:
  "process_replace S r e =
     (if re_symbol_id r \<noteq> bk_symbol (en_book e) \<or> re_new_qty r \<le> 0
      then Some ([reject_event (en_server_seq e) (re_client_seq r) (re_order_id r) Invalid], rejected e)
      else case get_order S (en_book e) (re_order_id r) of
          None \<Rightarrow> Some ([reject_event (en_server_seq e) (re_client_seq r) (re_order_id r) NotFound], rejected e)
        | Some ord \<Rightarrow>
            if o_account ord \<noteq> re_account_id r
            then Some ([reject_event (en_server_seq e) (re_client_seq r) (re_order_id r) NotFound], rejected e)
            else handle_new S (replacement r ord) (after_removal S r e))"
  by (simp add: process_replace_def Let_def reject_ev_eq replacement_def after_removal_def
      split: option.split)

section \<open>All commands\<close>

text \<open>The condition under which a command is handled exactly: for a new order, admissibility; for
  a replace of an own order, admissibility of the replacement once the order is removed.\<close>

fun admissible_cmd :: "('s, order) slab_ops \<Rightarrow> command \<Rightarrow> 's engine \<Rightarrow> bool" where
  "admissible_cmd S (NewOrder no) e = admissible S no e"
| "admissible_cmd S (Replace r) e =
     (case get_order S (en_book e) (re_order_id r) of
        None \<Rightarrow> True
      | Some ord \<Rightarrow> o_account ord \<noteq> re_account_id r \<or>
          admissible S (replacement r ord) (after_removal S r e))"
| "admissible_cmd S _ e = True"

context order_slab begin

lemma process_cancel_ok:
  assumes ok: "engine_ok S e" and p: "process_cancel S c e = (evs, e')"
  shows "engine_ok S e' \<and> cancels S c e evs e'"
proof -
  have bok: "book_ok S (en_book e)" using ok by (simp add: engine_ok_def)
  let ?e1 = "e\<lparr>en_book := snd (cancel S (ca_order_id c) (ca_account_id c) (en_book e))\<rparr>"
  note ce = cancel_engine_ok [OF ok refl, of "ca_order_id c" "ca_account_id c"]
  have own: "fst (cancel S (ca_order_id c) (ca_account_id c) (en_book e)) \<longleftrightarrow>
      owned S e (ca_order_id c) (ca_account_id c)"
    by (simp add: cancel_iff [OF bok] owned_def)
  consider "ca_symbol_id c \<noteq> bk_symbol (en_book e)"
    | "ca_symbol_id c = bk_symbol (en_book e)" "owned S e (ca_order_id c) (ca_account_id c)"
    | "ca_symbol_id c = bk_symbol (en_book e)" "\<not> owned S e (ca_order_id c) (ca_account_id c)"
    by blast
  then show ?thesis
  proof cases
    case 1
    with p ok show ?thesis
      by (auto simp: process_cancel_def reject_ev_eq cancels_def engine_ok_book [of "rejected e" e])
  next
    case 2
    have b1: "book_ok S (en_book ?e1)" using ce(1) by (simp add: engine_ok_def)
    from 2 own p have res: "evs = [top_event (bk_symbol (en_book e)) (en_server_seq e) (sides_of S ?e1),
        ack_event (en_server_seq e + 1) (ca_client_seq c) (ca_order_id c)]"
      "e' = ?e1\<lparr>en_server_seq := en_server_seq e + 2\<rparr>"
      using ce(2) book_top_event_eq [OF b1]
      by (auto simp: process_cancel_def ack_ev_eq Let_def case_prod_beta split: if_splits bool.splits)
    with 2 ce(1,3) show ?thesis
      by (simp add: cancels_def Let_def engine_ok_def)
  next
    case 3
    with ce(4) have "cancel S (ca_order_id c) (ca_account_id c) (en_book e) = (False, en_book e)"
      using own by (cases "cancel S (ca_order_id c) (ca_account_id c) (en_book e)") simp
    with 3 p ok show ?thesis
      by (auto simp: process_cancel_def reject_ev_eq cancels_def engine_ok_book [of "rejected e" e])
  qed
qed

lemma after_removal_ok:
  assumes ok: "engine_ok S e" and ord: "get_order S (en_book e) (re_order_id r) = Some ord"
    and acc: "o_account ord = re_account_id r"
  shows "engine_ok S (after_removal S r e)"
    and "sides_of S (after_removal S r e) = (\<lambda>s. without (re_order_id r) (sides_of S e s))"
    and "bk_symbol (en_book (after_removal S r e)) = bk_symbol (en_book e)"
proof -
  have bok: "book_ok S (en_book e)" using ok by (simp add: engine_ok_def)
  have "owned S e (re_order_id r) (re_account_id r)"
    using ord acc unfolding get_order_iff [OF bok] by (auto simp: owned_def all_orders_def)
  with cancel_engine_ok [OF ok, of "after_removal S r e" "re_order_id r" "re_account_id r"]
  show "engine_ok S (after_removal S r e)"
    "sides_of S (after_removal S r e) = (\<lambda>s. without (re_order_id r) (sides_of S e s))"
    "bk_symbol (en_book (after_removal S r e)) = bk_symbol (en_book e)"
    by (simp_all add: after_removal_def)
qed

text \<open>Every admissible command is processed without a panic and keeps the invariant.\<close>

lemma process_ok:
  assumes ok: "engine_ok S e" and adm: "admissible_cmd S cmd e"
  shows "\<exists>evs e'. process S cmd e = Some (evs, e') \<and> engine_ok S e'"
proof (cases cmd)
  case (NewOrder no)
  with handle_new_ok [OF ok, of no] adm show ?thesis by auto
next
  case (Cancel c)
  obtain evs e' where "process_cancel S c e = (evs, e')" by (cases "process_cancel S c e")
  with process_cancel_ok [OF ok this] Cancel show ?thesis by simp
next
  case (Replace r)
  have rej: "engine_ok S (rejected e)" using ok by (simp add: engine_ok_book [of "rejected e" e])
  show ?thesis
  proof (cases "get_order S (en_book e) (re_order_id r)")
    case None
    with Replace rej show ?thesis by (simp add: process_replace_eq)
  next
    case (Some ord)
    show ?thesis
    proof (cases "o_account ord = re_account_id r")
      case True
      have "admissible S (replacement r ord) (after_removal S r e)"
        using adm Replace Some True by simp
      from handle_new_ok [OF after_removal_ok(1) [OF ok Some True] this] Replace Some True rej
      show ?thesis by (auto simp: process_replace_eq)
    next
      case False
      with Replace Some rej show ?thesis by (simp add: process_replace_eq)
    qed
  qed
next
  case (SetRiskLimits srl)
  with ok show ?thesis by (simp add: handle_set_risk_limits_def ack_ev_eq Let_def engine_ok_def)
next
  case (QueryAccount qa)
  with ok show ?thesis by (simp add: handle_query_account_def next_seq_def Let_def engine_ok_def)
next
  case (Authenticate a)
  with ok show ?thesis by simp
qed

end

section \<open>Sequence numbers\<close>

text \<open>Every event of the engine carries a sequence number; those of one command are consecutive.\<close>

fun event_seq :: "event \<Rightarrow> u64 option" where
  "event_seq (EvAck a) = Some (ak_server_seq a)"
| "event_seq (EvReject r) = Some (rj_server_seq r)"
| "event_seq (EvFill f) = Some (fi_server_seq f)"
| "event_seq (EvBookTop t) = Some (bt_server_seq t)"
| "event_seq (EvAccountState s) = Some (as_server_seq s)"
| "event_seq (EvAuthSuccess a) = None"
| "event_seq (EvAuthFailure a) = None"

fun numbered :: "u64 \<Rightarrow> event list \<Rightarrow> bool" where
  "numbered sq [] = True"
| "numbered sq (ev # evs) = (event_seq ev = Some sq \<and> numbered (sq + 1) evs)"

definition numbers :: "'s engine \<Rightarrow> event list \<Rightarrow> 's engine \<Rightarrow> bool" where
  "numbers e evs e' \<longleftrightarrow> numbered (en_server_seq e) evs \<and>
     en_server_seq e' = en_server_seq e + of_nat (length evs)"

lemma numbered_append:
  "numbered sq (xs @ ys) \<longleftrightarrow> numbered sq xs \<and> numbered (sq + of_nat (length xs)) ys"
  by (induction xs arbitrary: sq) (auto simp: add.assoc)

lemma reject_ev_numbers: "reject_ev cs oid r e = (ev, e') \<Longrightarrow> numbers e [ev] e'"
  by (auto simp: reject_ev_def next_seq_def numbers_def)

lemma top_and_ack_numbers:
  "top_and_ack no evs e1 = (evs', e') \<Longrightarrow> numbers e evs e1 \<Longrightarrow> numbers e evs' e'"
  by (auto simp: top_and_ack_def book_top_event_def ack_ev_def next_seq_def numbers_def numbered_append
      add.assoc)

lemma emit_fills_numbers: "emit_fills no fs e = Some (evs, e') \<Longrightarrow> numbers e evs e'"
proof (induction fs arbitrary: e evs)
  case (Cons f fs)
  obtain ev e1 evs' where 1: "emit_fill no f e = Some (ev, e1)"
    and 2: "emit_fills no fs e1 = Some (evs', e')" "evs = ev # evs'"
    using Cons.prems by (auto split: option.splits)
  have "event_seq ev = Some (en_server_seq e) \<and> en_server_seq e1 = en_server_seq e + 1"
    using 1 by (auto simp: emit_fill_def Let_def next_seq_def split: option.splits)
  with Cons.IH [OF 2(1)] 2(2) show ?case by (simp add: numbers_def add.assoc)
qed (simp add: numbers_def)

lemma numbers_cong:
  "numbers e evs e' \<Longrightarrow> en_server_seq d = en_server_seq e \<Longrightarrow> en_server_seq d' = en_server_seq e' \<Longrightarrow>
   numbers d evs d'"
  by (simp add: numbers_def)

lemma rest_order_seq [simp]: "en_server_seq (rest_order S no q e) = en_server_seq e"
  by (simp add: rest_order_def)

lemma handle_new_numbers:
  assumes "handle_new S no e = Some (evs, e')"
  shows "numbers e evs e'"
proof -
  have nil: "numbers e [] d" if "en_server_seq d = en_server_seq e" for d :: "'a engine"
    using that by (simp add: numbers_def)
  have mid: "numbers e evs0 e1" "numbers e evs0 (rest_order S no q e1)"
    if "emit_fills no fs (e\<lparr>en_book := b\<rparr>) = Some (evs0, e1)" for evs0 e1 fs b q
    using emit_fills_numbers [OF that] by (auto elim!: numbers_cong)
  show ?thesis
    using assms unfolding handle_new_def Let_def
    by (auto split: if_splits sum.splits option.splits prod.splits dest!: reject_ev_numbers
        elim!: top_and_ack_numbers intro: mid nil)
qed

lemma process_numbers:
  assumes "process S cmd e = Some (evs, e')"
  shows "numbers e evs e'"
proof (cases cmd)
  case (NewOrder no)
  with assms show ?thesis by (auto intro: handle_new_numbers)
next
  case (Replace r)
  from assms Replace show ?thesis
    by (auto simp: process_replace_eq reject_event_def numbers_def after_removal_def
        split: if_splits option.splits dest!: handle_new_numbers)
next
  case (Cancel c)
  with assms show ?thesis
    by (auto simp: process_cancel_def numbers_def reject_ev_def ack_ev_def book_top_event_def next_seq_def
        Let_def split: if_splits prod.splits bool.splits)
qed (use assms in \<open>auto simp: handle_set_risk_limits_def handle_query_account_def ack_ev_def next_seq_def
    numbers_def\<close>)

end
