(* ===== verification/BookProps.thy ===== *)
theory BookProps
  imports EngineCommands
begin

text \<open>
  The properties of the order book, each for every slab that meets the contract, with a run on a
  concrete book of three orders.
\<close>

section \<open>A concrete book\<close>

definition ex_order :: "order_id \<Rightarrow> account_id \<Rightarrow> side \<Rightarrow> price \<Rightarrow> qty \<Rightarrow> order" where
  "ex_order oid acc s px q =
     \<lparr>o_id = oid, o_account = acc, o_symbol = 1, o_side = s, o_price = px, o_qty_rem = q,
      o_tif = Gtc, o_flags = \<lparr>post_only = False\<rparr>\<rparr>"

definition ex_orders :: "order list" where
  "ex_orders = [ex_order 1 10 Sell 101 5, ex_order 2 11 Sell 100 3, ex_order 3 12 Sell 100 4]"

definition ex_book :: "order option list order_book" where
  "ex_book = restore_orders vec_slab ex_orders (new_book vec_slab 1)"

lemma ex_orders_ok: "restorable ex_orders"
  by (auto simp: restorable_def ex_orders_def ex_order_def side_at_def i64_max_def)

lemma ex_book_holds: "holds_orders vec_slab ex_book ex_orders"
  unfolding ex_book_def by (rule vec_orders.restore_holds [OF ex_orders_ok])

lemma ex_book_ok: "book_ok vec_slab ex_book"
  using ex_book_holds by (simp add: holds_orders_def)

lemma ex_book_sell:
  "side_orders vec_slab ex_book Sell = [ex_order 2 11 Sell 100 3, ex_order 3 12 Sell 100 4, ex_order 1 10 Sell 101 5]"
  by code_simp

lemma ex_book_buy: "side_orders vec_slab ex_book Buy = []"
  by code_simp

section \<open>Properties\<close>

text \<open>C1: Matching refines the abstract book: on a well-formed book the loop never panics, its fills
  are those of price-time priority matching, the other side is what they leave, the taker's own
  side does not change and the book stays well formed.\<close>

theorem match_taker_refines:
  assumes "order_slab S" and "book_ok S b" and "i64_ok q"
  shows "\<exists>b'. match_taker S t s px q b =
      Some (b', snd (spec_match t s px q (side_orders S b (opposite s)))) \<and>
    book_ok S b' \<and>
    side_orders S b' (opposite s) = fst (spec_match t s px q (side_orders S b (opposite s))) \<and>
    side_orders S b' s = side_orders S b s"
  using order_slab.match_loop_ok [OF assms, of t s px] unfolding match_taker_def by blast

theorem match_taker_refines_witness:
  "map_option (map mf_qty \<circ> snd) (match_taker vec_slab 9 Buy 100 6 ex_book) = Some [3, 3]"
  using match_taker_refines [OF vec_orders.order_slab_axioms ex_book_ok, of 6 9 Buy 100]
  by (auto simp: ex_book_sell ex_order_def i64_ok_def i64_min_def i64_max_def)

lemma match_taker_result:
  assumes "order_slab S" and "book_ok S b" and "i64_ok q"
    and "match_taker S t s px q b = Some (b', fills)"
  shows "fills = snd (spec_match t s px q (side_orders S b (opposite s)))"
    and "side_orders S b' (opposite s) = fst (spec_match t s px q (side_orders S b (opposite s)))"
  using order_slab.match_loop_ok [OF assms(1-3), of t s px] assms(4) by (auto simp: match_taker_def)

text \<open>C11: The fills of a match are sound: each is positive, names the taker, trades at the price of a
  resting order of the other side that the limit admits, and takes no more than that order has;
  together they do not exceed the taker's quantity, and what they report is what the other side lost.\<close>

theorem match_fills_sound:
  assumes slab: "order_slab S" and ok: "book_ok S b" and q: "i64_ok q" "0 \<le> q"
    and run: "match_taker S t s px q b = Some (b', fills)"
  shows "(\<forall>f \<in> set fills. 0 < mf_qty f \<and> mf_taker_order_id f = t \<and>
      \<not> better (opposite s) px (mf_price f) \<and>
      (\<exists>m \<in> set (side_orders S b (opposite s)). mf_maker_order_id f = o_id m \<and>
         mf_maker_account_id f = o_account m \<and> mf_price f = o_price m \<and> mf_qty f \<le> o_qty_rem m)) \<and>
    filled fills \<le> q \<and>
    qty_sum (side_orders S b' (opposite s)) + filled fills = qty_sum (side_orders S b (opposite s))"
proof -
  note r = match_taker_result [OF slab ok q(1) run]
  have pos: "\<forall>m \<in> set (side_orders S b (opposite s)). 0 < o_qty_rem m" using side_orders_pos [OF ok] by blast
  show ?thesis
    unfolding r using spec_match_fills [OF pos, of t s px q] spec_match_bounds [OF pos q(2), of t s px]
      spec_match_conserves [of t s px q "side_orders S b (opposite s)"] by blast
qed

theorem match_fills_sound_witness:
  "\<exists>b' fills. match_taker vec_slab 9 Buy 100 6 ex_book = Some (b', fills) \<and> filled fills \<le> 6 \<and>
     qty_sum (side_orders vec_slab b' Sell) + filled fills = 12"
proof -
  obtain b' fills where run: "match_taker vec_slab 9 Buy 100 6 ex_book = Some (b', fills)"
    using order_slab.match_loop_ok [OF vec_orders.order_slab_axioms ex_book_ok, of 6 9 Buy 100]
    by (auto simp: match_taker_def i64_ok_def i64_min_def i64_max_def)
  from match_fills_sound [OF vec_orders.order_slab_axioms ex_book_ok _ _ this] run show ?thesis
    by (auto simp: ex_book_sell ex_order_def i64_ok_def i64_min_def i64_max_def)
qed

text \<open>C12: Matching goes as far as it can: when it stops, the taker is filled, or no order is left on
  the other side, or the best one left is out of the limit's reach.\<close>

theorem match_exhausts:
  assumes slab: "order_slab S" and ok: "book_ok S b" and q: "i64_ok q" "0 \<le> q"
    and run: "match_taker S t s px q b = Some (b', fills)"
  shows "filled fills = q \<or>
    (\<forall>y \<in> set (side_orders S b' (opposite s)). better (opposite s) px (o_price y))"
proof -
  note r = match_taker_result [OF slab ok q(1) run]
  have pos: "\<forall>m \<in> set (side_orders S b (opposite s)). 0 < o_qty_rem m" using side_orders_pos [OF ok] by blast
  have "filled fills \<le> q" using spec_match_bounds [OF pos q(2)] by (simp add: r)
  with spec_match_out_of_reach [OF pos q(2) side_orders_prioritized [OF ok], of t px] show ?thesis
    unfolding r by fastforce
qed

theorem match_exhausts_witness:
  "\<exists>b' fills. match_taker vec_slab 9 Buy 100 8 ex_book = Some (b', fills) \<and> (filled fills = 8 \<or>
     (\<forall>y \<in> set (side_orders vec_slab b' Sell). 100 < o_price y))"
proof -
  obtain b' fills where run: "match_taker vec_slab 9 Buy 100 8 ex_book = Some (b', fills)"
    using order_slab.match_loop_ok [OF vec_orders.order_slab_axioms ex_book_ok, of 8 9 Buy 100]
    by (auto simp: match_taker_def i64_ok_def i64_min_def i64_max_def)
  from match_exhausts [OF vec_orders.order_slab_axioms ex_book_ok _ _ this] run show ?thesis
    by (simp add: i64_ok_def i64_min_def i64_max_def)
qed

text \<open>C40: Resting an order places it behind every order of its side that is at least as good, and
  leaves the other side alone; the book stays well formed.\<close>

theorem insert_resting_refines:
  assumes "order_slab S" and ok: "book_ok S b" and "\<forall>s. o_id ord \<notin> o_id ` set (side_orders S b s)"
    and "0 < o_qty_rem ord"
    and "qty_at (side_orders S b (o_side ord)) (o_price ord) + o_qty_rem ord \<le> i64_max"
  shows "book_ok S (insert_resting S ord b) \<and>
    side_orders S (insert_resting S ord b) s =
      (if s = o_side ord then place s ord (side_orders S b s) else side_orders S b s)"
proof -
  have "map_of (bk_index b) (o_id ord) = None"
    using assms(3) by (auto simp: index_None_iff [OF ok] all_orders_def)
  moreover have "room b ord" using assms(5) by (simp add: room_iff [OF ok])
  ultimately show ?thesis
    using order_slab.insert_resting_ok [OF assms(1) ok _ assms(4)] by blast
qed

theorem insert_resting_refines_witness:
  "side_orders vec_slab (insert_resting vec_slab (ex_order 4 13 Sell 100 2) ex_book) Sell =
     [ex_order 2 11 Sell 100 3, ex_order 3 12 Sell 100 4, ex_order 4 13 Sell 100 2, ex_order 1 10 Sell 101 5]"
proof -
  have ids: "\<forall>s. o_id (ex_order 4 13 Sell 100 2) \<notin> o_id ` set (side_orders vec_slab ex_book s)"
  proof
    fix s show "o_id (ex_order 4 13 Sell 100 2) \<notin> o_id ` set (side_orders vec_slab ex_book s)"
      by (cases s) (simp_all add: ex_book_sell ex_book_buy ex_order_def)
  qed
  from insert_resting_refines [OF vec_orders.order_slab_axioms ex_book_ok ids, of Sell] show ?thesis
    by (simp add: ex_book_sell ex_order_def qty_at_def i64_max_def)
qed

text \<open>C17: A cancel succeeds exactly for a live order of the account; then the order is gone, every
  other order keeps its place, and its id is free. Otherwise the book does not change.\<close>

theorem cancel_refines:
  assumes "order_slab S" and ok: "book_ok S b" and run: "cancel S oid acc b = (r, b')"
  shows "(r \<longleftrightarrow> (\<exists>s. \<exists>x \<in> set (side_orders S b s). o_id x = oid \<and> o_account x = acc)) \<and>
    (if r then book_ok S b' \<and> side_orders S b' = (\<lambda>s. without oid (side_orders S b s)) \<and>
       get_order S b' oid = None
     else b' = b)"
proof -
  have r: "r \<longleftrightarrow> (\<exists>s. \<exists>x \<in> set (side_orders S b s). o_id x = oid \<and> o_account x = acc)"
    using cancel_iff [OF ok, of oid acc] run by simp
  show ?thesis
  proof (cases r)
    case True
    with run have c: "cancel S oid acc b = (True, b')" by simp
    have "side_orders S b' = (\<lambda>s. without oid (side_orders S b s))"
      using order_slab.cancel_ok(2) [OF assms(1) ok c] by blast
    with order_slab.cancel_ok(1,3) [OF assms(1) ok c] r True show ?thesis by (simp add: get_order_def)
  next
    case False
    with order_slab.cancel_False [OF assms(1), of oid acc b b'] run r show ?thesis by simp
  qed
qed

theorem cancel_refines_witness:
  "fst (cancel vec_slab 3 12 ex_book) \<and> \<not> fst (cancel vec_slab 3 11 ex_book) \<and>
   side_orders vec_slab (snd (cancel vec_slab 3 12 ex_book)) Sell =
     [ex_order 2 11 Sell 100 3, ex_order 1 10 Sell 101 5]"
proof -
  have "fst (cancel vec_slab 3 12 ex_book)"
    using cancel_refines [OF vec_orders.order_slab_axioms ex_book_ok prod.collapse [symmetric], of 3 12]
    by (auto simp: ex_side ex_book_sell ex_order_def)
  moreover have "\<not> fst (cancel vec_slab 3 11 ex_book)"
    using cancel_refines [OF vec_orders.order_slab_axioms ex_book_ok prod.collapse [symmetric], of 3 11]
    by (auto simp: ex_side ex_book_sell ex_book_buy ex_order_def)
  ultimately show ?thesis
    using cancel_refines [OF vec_orders.order_slab_axioms ex_book_ok prod.collapse [symmetric], of 3 12]
    by (simp add: ex_book_sell without_def ex_order_def)
qed

lemma qty_at_without_le:
  "\<forall>m \<in> set xs. 0 < o_qty_rem m \<Longrightarrow> qty_at (without oid xs) px \<le> qty_at xs px"
  by (induction xs) (auto simp: qty_at_def without_def)

text \<open>C18: Replacing a live order of the account moves it, with its new price and quantity, to the
  back of its new price; for any other id or account the book does not change.\<close>

theorem replace_refines:
  assumes slab: "order_slab S" and ok: "book_ok S b" and run: "replace S oid acc px q b = (r, b')"
    and fits: "0 < q" "\<forall>s. qty_at (side_orders S b s) px + q \<le> i64_max"
  shows "(r \<longleftrightarrow> (\<exists>s. \<exists>x \<in> set (side_orders S b s). o_id x = oid \<and> o_account x = acc)) \<and>
    (if r then book_ok S b' \<and> (\<exists>x. get_order S b oid = Some x \<and> (\<forall>s. side_orders S b' s =
         (if s = o_side x then place s (x\<lparr>o_price := px, o_qty_rem := q\<rparr>) (without oid (side_orders S b s))
          else without oid (side_orders S b s))))
     else b' = b)"
proof -
  have r: "r \<longleftrightarrow> fst (cancel S oid acc b)"
    using run by (auto simp: replace_def cancel_def Let_def split: option.splits prod.splits if_splits)
  show ?thesis
  proof (cases r)
    case True
    obtain b1 where c: "cancel S oid acc b = (True, b1)"
      using True r by (cases "cancel S oid acc b") simp
    note cok = order_slab.cancel_ok [OF slab ok c]
    obtain x where x: "get_order S b oid = Some x" "o_account x = acc" using cok(5) by blast
    have id: "o_id x = oid" using x(1) get_order_iff [OF ok] by blast
    let ?x = "x\<lparr>o_price := px, o_qty_rem := q\<rparr>"
    have b': "b' = insert_resting S ?x b1"
      using run c x by (auto simp: replace_def get_order_def split: option.splits)
    have "room b1 ?x"
      using fits(2) [rule_format, of "o_side x"]
        qty_at_without_le [of "side_orders S b (o_side x)" oid px] side_orders_pos [OF ok]
      by (simp add: room_iff [OF cok(1)] cok(2))
    from order_slab.insert_resting_ok [OF slab cok(1) _ _ this] fits(1) cok(3) id
    have "book_ok S b' \<and> (\<forall>s. side_orders S b' s = (if s = o_side x then place s ?x (side_orders S b1 s)
        else side_orders S b1 s))" by (simp add: b')
    with True x r cok(2) show ?thesis by (simp add: cancel_iff [OF ok])
  next
    case False
    then have "b' = b"
      using run by (auto simp: replace_def Let_def split: option.splits prod.splits if_splits)
    moreover have "\<not> (\<exists>s. \<exists>x \<in> set (side_orders S b s). o_id x = oid \<and> o_account x = acc)"
      using False r cancel_iff [OF ok, of oid acc] by blast
    ultimately show ?thesis using False by (simp only: if_False simp_thms)
  qed
qed

theorem replace_refines_witness:
  "fst (replace vec_slab 2 11 100 9 ex_book) \<and>
   side_orders vec_slab (snd (replace vec_slab 2 11 100 9 ex_book)) Sell =
     [ex_order 3 12 Sell 100 4, ex_order 2 11 Sell 100 9, ex_order 1 10 Sell 101 5]"
proof -
  have fits: "\<forall>s. qty_at (side_orders vec_slab ex_book s) 100 + 9 \<le> i64_max"
  proof
    fix s show "qty_at (side_orders vec_slab ex_book s) 100 + 9 \<le> i64_max"
      by (cases s) (simp_all add: ex_book_sell ex_book_buy ex_order_def qty_at_def i64_max_def)
  qed
  have g: "get_order vec_slab ex_book 2 = Some (ex_order 2 11 Sell 100 3)" by code_simp
  note r = replace_refines [OF vec_orders.order_slab_axioms ex_book_ok prod.collapse [symmetric] _ fits, of 2 11]
  have "fst (replace vec_slab 2 11 100 9 ex_book)"
    using r by (auto simp: ex_side ex_book_sell ex_order_def)
  with r show ?thesis by (auto simp: g ex_book_sell without_def ex_order_def)
qed

text \<open>What the queries answer, in terms of the two priority lists: a lookup finds exactly the
  live orders, the best levels are the first price and the quantity resting at it, an order would
  cross exactly when the first order of the other side is within its limit, and the order count
  is the number of live orders.\<close>

theorem queries_refine:
  assumes ok: "book_ok S b"
  shows "(get_order S b oid = Some x \<longleftrightarrow> x \<in> set (all_orders S b) \<and> o_id x = oid) \<and>
    best_bid b = top_of (side_orders S b Buy) \<and> best_ask b = top_of (side_orders S b Sell) \<and>
    (would_cross b s px \<longleftrightarrow> reaches s px (side_orders S b (opposite s))) \<and>
    live_order_count b = length (all_orders S b)"
  using get_order_iff [OF ok] best_bid_ask_top [OF ok] would_cross_reaches [OF ok] live_order_count_ok [OF ok]
  by blast

theorem queries_refine_witness:
  "best_ask ex_book = Some (100, 7) \<and> best_bid ex_book = None \<and> would_cross ex_book Buy 100 \<and>
   live_order_count ex_book = 3"
  using queries_refine [OF ex_book_ok, of 2 "ex_order 2 11 Sell 100 3" Buy 100]
  by (simp add: ex_book_sell ex_book_buy all_orders_def top_of_def qty_at_def reaches_def ex_order_def)

definition snapshot_of :: "order \<Rightarrow> order_snapshot" where
  "snapshot_of x =
     \<lparr>os_order_id = o_id x, os_account_id = o_account x, os_symbol_id = o_symbol x, os_side = o_side x,
      os_price = o_price x, os_qty_rem = o_qty_rem x,
      os_reserved_amount = (if o_side x = Buy then mul64 (o_price x) (o_qty_rem x) else 0)\<rparr>"

lemma order_snapshots_map:
  assumes "index_ok g idx" and "\<forall>e \<in> set m. \<exists>x. map_of idx (fst e) = Some (snd e) \<and>
    sl_get S sl (snd e) = Some x \<and> o_id x = fst e"
  shows "List.map_filter (\<lambda>(oid, key). map_option (\<lambda>ord. \<lparr>os_order_id = oid, os_account_id = o_account ord,
      os_symbol_id = o_symbol ord, os_side = o_side ord, os_price = o_price ord, os_qty_rem = o_qty_rem ord,
      os_reserved_amount = (if o_side ord = Buy then mul64 (o_price ord) (o_qty_rem ord) else 0)\<rparr>)
      (sl_get S sl key)) m = map (\<lambda>e. snapshot_of (the (sl_get S sl (snd e)))) m"
  using assms(2)
  by (induction m) (auto simp: List.map_filter_simps snapshot_of_def)

text \<open>The snapshots sent for reconciliation are those of the live orders, each once, with the
  reserve of a buy order.\<close>

theorem order_snapshots_exact:
  assumes ok: "book_ok S b"
  shows "set (get_all_order_snapshots S b) = snapshot_of ` set (all_orders S b) \<and>
    length (get_all_order_snapshots S b) = length (all_orders S b)"
proof -
  note idx = book_okD(2) [OF ok]
  have e: "\<exists>x. map_of (bk_index b) (fst e) = Some (snd e) \<and>
      sl_get S (bk_orders b) (snd e) = Some x \<and> o_id x = fst e" if "e \<in> set (bk_index b)" for e
  proof -
    have k: "map_of (bk_index b) (fst e) = Some (snd e)"
      using that idx by (simp add: index_ok_def del: map_of_eq_Some_iff)
        (metis map_of_is_SomeI prod.collapse)
    then obtain x where "live (sl_get S (bk_orders b)) (snd e) = Some x" "o_id x = fst e"
      using idx unfolding index_ok_def by blast
    with k show ?thesis by (simp add: live_Some)
  qed
  have m: "get_all_order_snapshots S b = map (\<lambda>e. snapshot_of (the (sl_get S (bk_orders b) (snd e)))) (bk_index b)"
    unfolding get_all_order_snapshots_def by (rule order_snapshots_map [OF idx]) (use e in blast)
  have "x \<in> set (all_orders S b) \<longleftrightarrow> (\<exists>e \<in> set (bk_index b). sl_get S (bk_orders b) (snd e) = Some x)" for x
  proof
    assume "x \<in> set (all_orders S b)"
    then have "get_order S b (o_id x) = Some x" by (simp add: get_order_iff [OF ok])
    then show "\<exists>e \<in> set (bk_index b). sl_get S (bk_orders b) (snd e) = Some x"
      by (auto simp: get_order_def split: option.splits dest!: map_of_SomeD intro: bexI [rotated])
  next
    assume "\<exists>e \<in> set (bk_index b). sl_get S (bk_orders b) (snd e) = Some x"
    then obtain e' where e': "e' \<in> set (bk_index b)" "sl_get S (bk_orders b) (snd e') = Some x" by blast
    from e [OF e'(1)] e'(2) have "get_order S b (o_id x) = Some x" by (auto simp: get_order_def)
    then show "x \<in> set (all_orders S b)" by (simp add: get_order_iff [OF ok])
  qed
  then have "set (get_all_order_snapshots S b) = snapshot_of ` set (all_orders S b)"
    unfolding m using e by (force simp: image_iff)
  moreover have "length (get_all_order_snapshots S b) = length (all_orders S b)"
    using live_order_count_ok [OF ok] by (simp add: m live_order_count_def)
  ultimately show ?thesis ..
qed

theorem order_snapshots_exact_witness:
  "length (get_all_order_snapshots vec_slab ex_book) = 3 \<and>
   snapshot_of (ex_order 2 11 Sell 100 3) \<in> set (get_all_order_snapshots vec_slab ex_book)"
  using order_snapshots_exact [OF ex_book_ok] by (simp add: all_orders_def ex_book_sell ex_book_buy)

lemma restore_sides:
  assumes "order_slab S" and ok: "book_ok S b" and "b' = restore_orders S (snapshot_orders S b) b0"
  shows "book_ok S b' \<and> mset (side_orders S b' s) = mset (side_orders S b s) \<and>
    filter (\<lambda>x. o_price x = px) (side_orders S b' s) =
      filter (\<lambda>x. o_side x = s \<and> o_price x = px) (snapshot_orders S b)"
proof -
  note sp = order_slab.snapshot_orders_spec [OF assms(1) ok]
  have h: "holds_orders S b' (snapshot_orders S b)"
    unfolding assms(3) by (rule order_slab.restore_holds [OF assms(1) restorable_perm [OF ok sp]])
  then have ok': "book_ok S b'" by (simp add: holds_orders_def)
  have at: "filter (\<lambda>x. o_price x = p) (side_orders S b' t) = side_at (snapshot_orders S b) t p" for t p
    using h by (simp add: holds_orders_def)
  have "mset (side_orders S b' s) = mset (side_orders S b s)"
  proof (rule multiset_eqI)
    fix x
    have "count (mset (side_orders S b' s)) x = count (mset (side_at (snapshot_orders S b) s (o_price x))) x"
      unfolding at [symmetric] by simp
    also have "\<dots> = count (mset (side_at (all_orders S b) s (o_price x))) x"
      using sp by (simp add: side_at_def)
    also have "\<dots> = count (mset (side_orders S b s)) x"
      unfolding side_at_all_orders [OF ok] by simp
    finally show "count (mset (side_orders S b' s)) x = count (mset (side_orders S b s)) x" .
  qed
  with ok' at show ?thesis by (simp add: side_at_def)
qed

text \<open>C39: A snapshot followed by a restore keeps every live order: each side holds the same orders,
  and at each price they stand in the order in which the slab yielded them.\<close>

theorem snapshot_roundtrip:
  assumes "order_slab S" and ok: "book_ok S b" and "b' = restore_orders S (snapshot_orders S b) b0"
  shows "book_ok S b' \<and> mset (side_orders S b' s) = mset (side_orders S b s) \<and>
    filter (\<lambda>x. o_price x = px) (side_orders S b' s) =
      filter (\<lambda>x. o_side x = s \<and> o_price x = px) (snapshot_orders S b)"
  by (rule restore_sides [OF assms])

theorem snapshot_roundtrip_witness:
  "mset (side_orders vec_slab (restore_orders vec_slab (snapshot_orders vec_slab ex_book) (new_book vec_slab 1)) Sell) =
     {#ex_order 2 11 Sell 100 3, ex_order 3 12 Sell 100 4, ex_order 1 10 Sell 101 5#}"
  using snapshot_roundtrip [OF vec_orders.order_slab_axioms ex_book_ok refl, of "new_book vec_slab 1" Sell]
  by (simp add: ex_book_sell)

definition ex_reused :: "order option list order_book" where
  "ex_reused =
     (case match_taker vec_slab 9 Buy 100 3 ex_book of
        None \<Rightarrow> ex_book
      | Some (b, _) \<Rightarrow> insert_resting vec_slab (ex_order 4 13 Sell 100 2) b)"

text \<open>The restore does not keep time priority: once a filled order's key was reused, a younger
  order stands before an older one of the same price after the restore.\<close>

theorem snapshot_loses_time_priority:
  "map o_id (side_orders vec_slab ex_reused Sell) = [3, 4, 1] \<and>
   map o_id (side_orders vec_slab
     (restore_orders vec_slab (snapshot_orders vec_slab ex_reused) (new_book vec_slab 1)) Sell) = [4, 3, 1]"
  by code_simp

end
