(* ===== verification/JournalFacts.thy ===== *)
theory JournalFacts
  imports Journal
begin

text \<open>
  What the journal keeps. Its file is a sequence of whole frames; reading it returns the commands
  of the frames in order; what was appended is what the file holds followed by what the batch
  buffer holds. A file cut short anywhere reads as a prefix of its commands or as an error.
\<close>

section \<open>Frames\<close>

definition frame :: "'a serde \<Rightarrow> (u8 list \<Rightarrow> u32) \<Rightarrow> 'a \<Rightarrow> u8 list" where
  "frame P crc cmd =
     (case sd_to P cmd of
        None \<Rightarrow> []
      | Some p \<Rightarrow> to_le (of_nat (length p) :: u32) @ p @ to_le (crc p))"

definition frames :: "'a serde \<Rightarrow> (u8 list \<Rightarrow> u32) \<Rightarrow> 'a list \<Rightarrow> u8 list" where
  "frames P crc cmds = concat (map (frame P crc) cmds)"

definition framable :: "'a serde \<Rightarrow> 'a \<Rightarrow> bool" where
  "framable P cmd \<longleftrightarrow> (case sd_to P cmd of None \<Rightarrow> False | Some p \<Rightarrow> length p \<le> max_frame)"

lemma frames_simps [simp]:
  "frames P crc [] = []" "frames P crc (c # cs) = frame P crc c @ frames P crc cs"
  "frames P crc (cs @ ds) = frames P crc cs @ frames P crc ds"
  by (simp_all add: frames_def)

lemma framableE:
  assumes "framable P cmd"
  obtains p where "sd_to P cmd = Some p" "length p \<le> max_frame"
    "unat (of_nat (length p) :: u32) = length p"
proof -
  from assms obtain p where p: "sd_to P cmd = Some p" "length p \<le> max_frame"
    by (auto simp: framable_def split: option.splits)
  from p(2) have "unat (of_nat (length p) :: u32) = length p"
    by (simp add: unat_of_nat take_bit_eq_mod max_frame_def)
  with p show thesis by (rule that)
qed

text \<open>Reading a file that ends early, and a file that starts with a length.\<close>

lemma read_short: "length bs < 4 \<Longrightarrow> read_frames P crc bs = Inr []"
  by (simp add: read_frames.simps)

lemma read_header:
  assumes "unat (of_nat n :: u32) = n"
  shows "read_frames P crc (to_le (of_nat n :: u32) @ rest) =
    (if max_frame < n then Inl FrameTooLarge
     else if length rest < n then Inl UnexpectedEof
     else if length rest < n + 4 \<or> crc (take n rest) \<noteq> from_le (take 4 (drop n rest)) then Inr []
     else case sd_from P (take n rest) of
         None \<Rightarrow> Inl DeserializeError
       | Some cmd \<Rightarrow> map_sum id (Cons cmd) (read_frames P crc (drop 4 (drop n rest))))"
  by (subst read_frames.simps) (auto simp: Let_def assms add.commute)

text \<open>A proper prefix of a frame holds no command; inside the payload it is an error.\<close>

definition torn_result :: "'a serde \<Rightarrow> 'a \<Rightarrow> nat \<Rightarrow> io_err + 'a list" where
  "torn_result P cmd n =
     (case sd_to P cmd of None \<Rightarrow> Inr []
      | Some p \<Rightarrow> if 4 \<le> n \<and> n < 4 + length p then Inl UnexpectedEof else Inr [])"

locale journal_codec = serde P for P :: "'a serde" +
  fixes crc :: "u8 list \<Rightarrow> u32"
begin

lemma read_frame:
  assumes "framable P cmd"
  shows "read_frames P crc (frame P crc cmd @ r) = map_sum id (Cons cmd) (read_frames P crc r)"
proof -
  obtain p where p: "sd_to P cmd = Some p" "length p \<le> max_frame"
    "unat (of_nat (length p) :: u32) = length p"
    using assms by (rule framableE)
  have "sd_from P p = Some cmd" using p(1) by (rule from_to)
  with p show ?thesis
    using read_header [OF p(3), of P crc "p @ to_le (crc p) @ r"] by (simp add: frame_def)
qed

lemma read_frames_append:
  "\<forall>c \<in> set cmds. framable P c \<Longrightarrow>
   read_frames P crc (frames P crc cmds @ r) = map_sum id ((@) cmds) (read_frames P crc r)"
proof (induction cmds)
  case Nil
  show ?case by (cases "read_frames P crc r") simp_all
next
  case (Cons c cmds)
  then show ?case by (cases "read_frames P crc r") (simp_all add: read_frame)
qed

lemma read_frames_Nil [simp]: "read_frames P crc [] = Inr []"
  by (simp add: read_frames.simps)

lemma read_frames_all:
  "\<forall>c \<in> set cmds. framable P c \<Longrightarrow> read_frames P crc (frames P crc cmds) = Inr cmds"
  using read_frames_append [of cmds "[]"] by simp

lemma read_torn:
  assumes "framable P cmd" and n: "n < length (frame P crc cmd)"
  shows "read_frames P crc (take n (frame P crc cmd)) = torn_result P cmd n"
proof -
  obtain p where p: "sd_to P cmd = Some p" "length p \<le> max_frame"
    "unat (of_nat (length p) :: u32) = length p"
    using assms(1) by (rule framableE)
  let ?h = "to_le (of_nat (length p) :: u32)" and ?c = "to_le (crc p)"
  have f: "frame P crc cmd = ?h @ p @ ?c" by (simp add: frame_def p)
  consider "n < 4" | "4 \<le> n" "n < 4 + length p" | "4 + length p \<le> n" "n < 8 + length p"
    using n by (fastforce simp: f)
  then show ?thesis
  proof cases
    case 1
    then show ?thesis by (simp add: read_short torn_result_def p)
  next
    case 2
    then have t: "take n (frame P crc cmd) = ?h @ take (n - 4) p" by (simp add: f)
    show ?thesis using 2 p read_header [OF p(3), of P crc "take (n - 4) p"]
      by (simp add: t torn_result_def)
  next
    case 3
    define x where "x = take (n - (4 + length p)) ?c"
    have t: "take n (frame P crc cmd) = ?h @ p @ x" using 3 by (simp add: f x_def)
    have "length x < 4" "\<not> n < 4 + length p" using 3 by (auto simp: x_def)
    then show ?thesis using p read_header [OF p(3), of P crc "p @ x"]
      by (simp add: t torn_result_def)
  qed
qed

text \<open>A file of frames cut after \<open>n\<close> bytes: whole frames, then a proper prefix of the next.\<close>

lemma take_frames:
  assumes "n < length (frames P crc cmds)"
  shows "\<exists>k m. k < length cmds \<and> m < length (frame P crc (cmds ! k)) \<and>
    take n (frames P crc cmds) = frames P crc (take k cmds) @ take m (frame P crc (cmds ! k))"
  using assms
proof (induction cmds arbitrary: n)
  case (Cons c cmds)
  show ?case
  proof (cases "n < length (frame P crc c)")
    case True
    then show ?thesis by (intro exI [of _ 0] exI [of _ n]) simp
  next
    case False
    with Cons.prems have "n - length (frame P crc c) < length (frames P crc cmds)" by simp
    from Cons.IH [OF this] obtain k m where "k < length cmds" "m < length (frame P crc (cmds ! k))"
      "take (n - length (frame P crc c)) (frames P crc cmds) =
        frames P crc (take k cmds) @ take m (frame P crc (cmds ! k))" by blast
    with False show ?thesis by (intro exI [of _ "Suc k"] exI [of _ m]) simp
  qed
qed simp

lemma read_cut:
  assumes "\<forall>c \<in> set cmds. framable P c" and "n < length (frames P crc cmds)"
  shows "\<exists>k < length cmds. read_frames P crc (take n (frames P crc cmds)) = Inr (take k cmds) \<or>
    read_frames P crc (take n (frames P crc cmds)) = Inl UnexpectedEof"
proof -
  obtain k m where k: "k < length cmds" "m < length (frame P crc (cmds ! k))"
    and cut: "take n (frames P crc cmds) = frames P crc (take k cmds) @ take m (frame P crc (cmds ! k))"
    using take_frames [OF assms(2)] by blast
  have fr: "\<forall>c \<in> set (take k cmds). framable P c" "framable P (cmds ! k)"
    using assms(1) k(1) by (auto dest: in_set_takeD)
  have "read_frames P crc (take n (frames P crc cmds)) =
      map_sum id ((@) (take k cmds)) (torn_result P (cmds ! k) m)"
    by (simp add: cut read_frames_append [OF fr(1)] read_torn [OF fr(2) k(2)])
  moreover have "torn_result P (cmds ! k) m \<in> {Inr [], Inl UnexpectedEof}"
    by (simp add: torn_result_def split: option.splits)
  ultimately show ?thesis using k(1) by auto
qed

text \<open>A frame whose checksum is wrong ends the reading: the commands before it are returned, those
  behind it are not.\<close>

lemma read_bad_checksum:
  assumes "\<forall>c \<in> set cmds. framable P c" and "length p \<le> max_frame" and "w \<noteq> crc p"
  shows "read_frames P crc (frames P crc cmds @ to_le (of_nat (length p) :: u32) @ p @ to_le w @ r) =
    Inr cmds"
proof -
  have "unat (of_nat (length p) :: u32) = length p"
    using assms(2) by (simp add: unat_of_nat take_bit_eq_mod max_frame_def)
  then have "read_frames P crc (to_le (of_nat (length p) :: u32) @ p @ to_le w @ r) = Inr []"
    using assms(2,3) read_header [of "length p" P crc "p @ to_le w @ r"] by simp
  then show ?thesis by (simp add: read_frames_append [OF assms(1)])
qed

end

section \<open>Writing without faults\<close>

text \<open>Contents of the open file, and what the journal was asked to keep.\<close>

definition journal_inv ::
  "command serde \<Rightarrow> (u8 list \<Rightarrow> u32) \<Rightarrow> journal \<Rightarrow> disk \<Rightarrow> command list \<Rightarrow> bool"
where
  "journal_inv P crc j d history \<longleftrightarrow> (\<forall>c \<in> set history. framable P c) \<and>
     (\<exists>written. history = written @ jr_batch_buffer j \<and>
        map_of (dk_files d) (jr_handle j) = Some (frames P crc written))"

lemma file_bytes_Some: "map_of (dk_files d) n = Some bs \<Longrightarrow> file_bytes d n = bs"
  by (simp add: file_bytes_def get_or_def)

lemma write_all_ok:
  "dk_faults d = [] \<Longrightarrow> write_all name bs d =
     (Inr (), d\<lparr>dk_files := AList.update name (file_bytes d name @ bs) (dk_files d)\<rparr>)"
  by (simp add: write_all_def os_call_def)

lemma os_unit_ok: "dk_faults d = [] \<Longrightarrow> os_unit d = (Inr (), d)"
  by (simp add: os_unit_def os_call_def)

lemma write_frame_ok:
  assumes "framable P cmd" and "dk_faults d = []" and held: "map_of (dk_files d) (jr_handle j) = Some bs"
  shows "\<exists>d'. write_frame P crc cmd j d = (Inr (), d') \<and> dk_faults d' = [] \<and>
    map_of (dk_files d') = (map_of (dk_files d))(jr_handle j \<mapsto> bs @ frame P crc cmd)"
  using assms(1)
  by (rule framableE)
    (simp add: write_frame_def io_bind_def write_all_ok assms(2) frame_def file_bytes_def get_or_def held)

lemma write_frames_ok:
  assumes "\<forall>c \<in> set cmds. framable P c" and "dk_faults d = []"
    and "map_of (dk_files d) (jr_handle j) = Some bs"
  shows "\<exists>d'. write_frames P crc cmds j d = (Inr (),
      j\<lparr>jr_commands_written := jr_commands_written j + of_nat (length cmds),
        jr_since_rotation := jr_since_rotation j + of_nat (length cmds)\<rparr>, d') \<and>
    dk_faults d' = [] \<and>
    map_of (dk_files d') = (map_of (dk_files d))(jr_handle j \<mapsto> bs @ frames P crc cmds)"
  using assms
proof (induction cmds arbitrary: j d bs)
  case (Cons c cmds)
  obtain d1 where d1: "write_frame P crc c j d = (Inr (), d1)" "dk_faults d1 = []"
    "map_of (dk_files d1) = (map_of (dk_files d))(jr_handle j \<mapsto> bs @ frame P crc c)"
    using write_frame_ok [of P c d j bs crc] Cons.prems by auto
  let ?j = "j\<lparr>jr_commands_written := jr_commands_written j + 1, jr_since_rotation := jr_since_rotation j + 1\<rparr>"
  from Cons.IH [of d1 ?j "bs @ frame P crc c"] Cons.prems(1) d1 show ?case by (auto simp: add.assoc fun_eq_iff)
qed (auto simp: fun_upd_idem)

lemma flush_ok:
  assumes inv: "journal_inv P crc j d history" and faults: "dk_faults d = []"
  shows "\<exists>j' d'. flush P crc now j d = (Inr (), j', d') \<and> dk_faults d' = [] \<and>
    jr_batch_buffer j' = [] \<and> jr_handle j' = jr_handle j \<and> jr_path j' = jr_path j \<and>
    jr_batch_size j' = jr_batch_size j \<and> jr_rotation_threshold j' = jr_rotation_threshold j \<and>
    map_of (dk_files d') = (map_of (dk_files d))(jr_handle j \<mapsto> frames P crc history)"
proof -
  obtain written where w: "history = written @ jr_batch_buffer j"
    "map_of (dk_files d) (jr_handle j) = Some (frames P crc written)"
    and fr: "\<forall>c \<in> set history. framable P c"
    using inv by (auto simp: journal_inv_def)
  show ?thesis
  proof (cases "jr_batch_buffer j = []")
    case True
    with w faults show ?thesis by (simp add: flush_def fun_upd_idem)
  next
    case False
    have "\<forall>c \<in> set (jr_batch_buffer j). framable P c" using fr w(1) by simp
    from write_frames_ok [OF this faults, of "j\<lparr>jr_batch_buffer := []\<rparr>" "frames P crc written" crc] False w
    show ?thesis by (auto simp: flush_def os_unit_ok)
  qed
qed

lemma append_ok:
  assumes inv: "journal_inv P crc j d history" and faults: "dk_faults d = []" and cmd: "framable P cmd"
  shows "\<exists>j' d'. append_cmd P crc now cmd j d = (Inr (), j', d') \<and> dk_faults d' = [] \<and>
    journal_inv P crc j' d' (history @ [cmd]) \<and>
    (jr_batch_buffer j' = [] \<or> length (jr_batch_buffer j') < jr_batch_size j')"
proof -
  let ?j = "j\<lparr>jr_batch_buffer := jr_batch_buffer j @ [cmd]\<rparr>"
  have inv': "journal_inv P crc ?j d (history @ [cmd])"
    using inv cmd by (auto simp: journal_inv_def)
  show ?thesis
  proof (cases "jr_batch_size j \<le> Suc (length (jr_batch_buffer j)) \<or> jr_sync_interval j \<le> now - jr_last_sync j")
    case True
    from flush_ok [OF inv' faults, of now] obtain j' d' where "flush P crc now ?j d = (Inr (), j', d')"
      "dk_faults d' = []" "jr_batch_buffer j' = []" "jr_handle j' = jr_handle j"
      "map_of (dk_files d') = (map_of (dk_files d))(jr_handle j \<mapsto> frames P crc (history @ [cmd]))"
      by auto
    with True inv' show ?thesis by (auto simp: append_cmd_def Let_def journal_inv_def)
  next
    case False
    with inv' faults show ?thesis by (auto simp: append_cmd_def Let_def)
  qed
qed

text \<open>Rotation moves the whole file to the backup and starts an empty one.\<close>

lemma file_stem_prefix:
  assumes "name = rev (takeWhile (\<lambda>c. c \<noteq> CHR ''/'') (rev p))"
  shows "\<exists>rest. name = file_stem p @ rest \<and> (rest = [] \<or> hd rest = CHR ''.'')"
proof (cases "file_stem p = name")
  case False
  let ?dots = "dropWhile (\<lambda>c. c \<noteq> CHR ''.'') (rev name)"
  from False assms have st: "file_stem p = rev (tl ?dots)" and dot: "CHR ''.'' \<in> set name"
    by (auto simp: file_stem_def Let_def split: if_splits)
  from dot have ne: "?dots \<noteq> []" and h: "hd ?dots = CHR ''.''"
    using hd_dropWhile [of "\<lambda>c. c \<noteq> CHR ''.''" "rev name"] by (auto simp: dropWhile_eq_Nil_conv)
  have "rev name = takeWhile (\<lambda>c. c \<noteq> CHR ''.'') (rev name) @ CHR ''.'' # tl ?dots"
    using ne h by (metis list.collapse takeWhile_dropWhile_id)
  then have "name = rev (tl ?dots) @ CHR ''.'' # rev (takeWhile (\<lambda>c. c \<noteq> CHR ''.'') (rev name))"
    by (metis append.assoc append_Cons append_Nil rev.simps(2) rev_append rev_rev_ident)
  then show ?thesis unfolding st by (metis list.sel(1))
qed (metis append_Nil2)

lemma backup_path_neq: "backup_path p ts \<noteq> p"
proof
  assume eq: "backup_path p ts = p"
  define name where "name = rev (takeWhile (\<lambda>c. c \<noteq> CHR ''/'') (rev p))"
  have "p = dir_part p @ name" unfolding dir_part_def name_def
    by (metis rev_append rev_rev_ident takeWhile_dropWhile_id)
  with eq have n: "name = file_stem p @ ''_'' @ show_nat ts @ ''.bin''"
    unfolding backup_path_def by (metis same_append_eq)
  obtain rest where "name = file_stem p @ rest" "rest = [] \<or> hd rest = CHR ''.''"
    using file_stem_prefix [OF name_def] by blast
  with n show False by auto
qed

lemma rotate_ok:
  assumes inv: "journal_inv P crc j d history" and faults: "dk_faults d = []"
    and path: "jr_handle j = jr_path j"
  shows "\<exists>j' d'. rotate P crc now ts j d = (Inr (backup_path (jr_path j) ts), j', d') \<and>
    dk_faults d' = [] \<and> jr_handle j' = jr_path j' \<and> jr_since_rotation j' = 0 \<and>
    jr_batch_buffer j' = [] \<and> map_of (dk_files d') = (map_of (dk_files d))
      (jr_path j \<mapsto> [], backup_path (jr_path j) ts \<mapsto> frames P crc history)"
proof -
  obtain j1 d1 where f: "flush P crc now j d = (Inr (), j1, d1)" "dk_faults d1 = []"
    "jr_batch_buffer j1 = []" "jr_path j1 = jr_path j"
    "map_of (dk_files d1) = (map_of (dk_files d))(jr_path j \<mapsto> frames P crc history)"
    using flush_ok [OF inv faults, of now] path by metis
  then show ?thesis using backup_path_neq [of "jr_path j" ts]
    by (simp add: rotate_def Let_def rename_file_def open_create_def io_bind_def os_unit_ok
        fun_upd_twist fun_eq_iff)
qed

text \<open>A flush that fails has already drained the batch: its remaining commands are gone.\<close>

lemma write_frames_buffer:
  "write_frames P crc cmds j d = (r, j', d') \<Longrightarrow> jr_batch_buffer j' = jr_batch_buffer j"
  by (induction cmds arbitrary: j d) (auto split: sum.splits prod.splits)

lemma flush_error_drains:
  "flush P crc now j d = (Inl e, j', d') \<Longrightarrow> jr_batch_buffer j' = []"
  by (auto simp: flush_def split: if_splits prod.splits sum.splits dest!: write_frames_buffer)

section \<open>A concrete codec\<close>

text \<open>A checksum for concrete runs: the sum of the bytes.\<close>

definition sum_check :: "u8 list \<Rightarrow> u32" where
  "sum_check bs = of_nat (sum_list (map unat bs))"

interpretation wire_journal: journal_codec command_serde sum_check
  by unfold_locales

end
