(* ===== verification/EngineReplay.thy ===== *)
theory EngineReplay
  imports EngineCommands JournalFacts
begin

text \<open>
  Recovery. The core of the engine is its book and its accounts. What a command does to the core
  depends on the core alone, and replaying a command changes it as processing it did, with one
  exception: the replay of a cancel does not look at the symbol. So an engine restarted on the
  journal of a run ends in the core of that run.
\<close>

definition core :: "'s engine \<Rightarrow> 's order_book \<times> account_manager" where
  "core e = (en_book e, en_accounts e)"

text \<open>The command list processed one after the other, as the run loop does.\<close>

fun process_all :: "('s, order) slab_ops \<Rightarrow> command list \<Rightarrow> 's engine \<Rightarrow> (event list \<times> 's engine) option" where
  "process_all S [] e = Some ([], e)"
| "process_all S (cmd # cmds) e =
     (case process S cmd e of
        None \<Rightarrow> None
      | Some (evs, e1) \<Rightarrow>
          map_option (\<lambda>(evs', e2). (evs @ evs', e2)) (process_all S cmds e1))"

section \<open>The core decides\<close>

text \<open>Two results agree when both are panics or both return the same core.\<close>

definition same_result :: "('a \<times> 's engine) option \<Rightarrow> ('b \<times> 's engine) option \<Rightarrow> bool" where
  "same_result r q \<longleftrightarrow> map_option (core \<circ> snd) r = map_option (core \<circ> snd) q"

lemma same_resultD:
  assumes "map_option (core \<circ> snd) x = map_option (core \<circ> snd) y" and "x = Some r"
  obtains q where "y = Some q" "core (snd r) = core (snd q)"
  using assms by (cases y) auto

lemma coreD: "core e = core d \<Longrightarrow> en_book e = en_book d \<and> en_accounts e = en_accounts d"
  by (simp add: core_def)

lemma core_events:
  "core (snd (ack_ev cs oid e)) = core e" "core (snd (reject_ev cs oid' r e)) = core e"
  "core (snd (book_top_event e)) = core e" "core (snd (top_and_ack no evs e)) = core e"
  "core (count_command e) = core e"
  by (simp_all add: ack_ev_def reject_ev_def book_top_event_def top_and_ack_def next_seq_def core_def
      count_command_def Let_def case_prod_beta)

lemma core_rest_order: "core e = core d \<Longrightarrow> core (rest_order S no q e) = core (rest_order S no q d)"
  by (simp add: core_def rest_order_def)

lemma emit_fill_core:
  assumes "core e = core d"
  shows "map_option (core \<circ> snd) (emit_fill no f e) = map_option (core \<circ> snd) (emit_fill no f d)"
  using coreD [OF assms]
  by (simp add: emit_fill_def Let_def next_seq_def core_def split: option.splits)

lemma emit_fills_core:
  "core e = core d \<Longrightarrow> same_result (emit_fills no fs e) (emit_fills no fs d)"
proof (induction fs arbitrary: e d)
  case (Cons f fs)
  have f: "map_option (core \<circ> snd) (emit_fill no f e) = map_option (core \<circ> snd) (emit_fill no f d)"
    by (rule emit_fill_core [OF Cons.prems])
  show ?case
  proof (cases "emit_fill no f e")
    case None
    with f show ?thesis by (simp add: same_result_def)
  next
    case (Some r)
    obtain q where q: "emit_fill no f d = Some q" "core (snd r) = core (snd q)"
      by (rule same_resultD [OF f Some])
    have eq: "map_option (core \<circ> snd) (map_option (\<lambda>(evs, e2). (ev # evs, e2)) x) = map_option (core \<circ> snd) x"
      for ev and x :: "(event list \<times> 'a engine) option"
      by (cases x) auto
    from Cons.IH [OF q(2)] Some q(1) show ?thesis
      by (cases r; cases q) (simp add: same_result_def eq)
  qed
qed (simp add: same_result_def)

lemma handle_new_core:
  assumes "core e = core d"
  shows "same_result (handle_new S no e) (handle_new S no d)"
proof -
  have b: "en_book e = en_book d" "en_accounts e = en_accounts d" using coreD [OF assms] by auto
  have rej: "same_result (case reject_ev cs oid r e of (ev, e1) \<Rightarrow> Some ([ev], e1))
      (case reject_ev cs oid r d of (ev, e1) \<Rightarrow> Some ([ev], e1))" for cs oid r
    using core_events(2) [of cs oid r e] core_events(2) [of cs oid r d] assms
    by (simp add: same_result_def case_prod_beta)
  have rest: "same_result (Some (top_and_ack no [] (if P then rest_order S no q e else e)))
      (Some (top_and_ack no [] (if P then rest_order S no q d else d)))" for P q
    using core_rest_order [OF assms, of S no q] assms by (simp add: same_result_def core_events)
  have em: "same_result
      (map_option (\<lambda>(evs, e1). top_and_ack no evs (if P then rest_order S no q e1 else e1))
        (emit_fills no fs (e\<lparr>en_book := book\<rparr>)))
      (map_option (\<lambda>(evs, e1). top_and_ack no evs (if P then rest_order S no q e1 else e1))
        (emit_fills no fs (d\<lparr>en_book := book\<rparr>)))" for q P fs book
  proof -
    have "core (e\<lparr>en_book := book\<rparr>) = core (d\<lparr>en_book := book\<rparr>)" using b by (simp add: core_def)
    note s = emit_fills_core [OF this, of no fs]
    show ?thesis
    proof (cases "emit_fills no fs (e\<lparr>en_book := book\<rparr>)")
      case None
      with s show ?thesis by (simp add: same_result_def)
    next
      case (Some r)
      obtain q' where q': "emit_fills no fs (d\<lparr>en_book := book\<rparr>) = Some q'" "core (snd r) = core (snd q')"
        by (rule same_resultD [OF s [unfolded same_result_def] Some])
      with Some core_rest_order [OF q'(2), of S no q] show ?thesis
        by (simp add: same_result_def case_prod_beta core_events)
    qed
  qed
  have refl: "same_result (None :: (event list \<times> 'a engine) option) (None :: (event list \<times> 'a engine) option)"
    by (simp add: same_result_def)
  show ?thesis
    unfolding handle_new_def Let_def b
    by (auto simp: rej rest [where P = True, simplified] rest [where P = False, simplified] refl
        em [where P = True, simplified] em [where P = False, simplified] em split: sum.split option.split prod.split)
qed

lemma process_cancel_core:
  "core (snd (process_cancel S c e)) =
     (if ca_symbol_id c \<noteq> bk_symbol (en_book e) then core e
      else (snd (cancel S (ca_order_id c) (ca_account_id c) (en_book e)), en_accounts e))"
proof -
  obtain r b where c: "cancel S (ca_order_id c) (ca_account_id c) (en_book e) = (r, b)"
    by (cases "cancel S (ca_order_id c) (ca_account_id c) (en_book e)")
  show ?thesis
    by (cases r) (simp_all add: process_cancel_def c reject_ev_def book_top_event_def ack_ev_def
        next_seq_def core_def)
qed

lemma process_core:
  assumes "core e = core d"
  shows "same_result (process S cmd e) (process S cmd d)"
proof -
  have b: "en_book e = en_book d" "en_accounts e = en_accounts d" using coreD [OF assms] by auto
  show ?thesis
  proof (cases cmd)
    case (NewOrder no)
    with handle_new_core [OF assms] show ?thesis by simp
  next
    case (Cancel c)
    with assms b show ?thesis by (simp add: same_result_def process_cancel_core)
  next
    case (Replace r)
    have "core (after_removal S r e) = core (after_removal S r d)"
      using b by (simp add: after_removal_def core_def)
    from handle_new_core [OF this] assms b have
      "same_result (handle_new S no (after_removal S r e)) (handle_new S no (after_removal S r d))" for no
      by blast
    moreover have "core (rejected e) = core (rejected d)" using assms by (simp add: core_def)
    ultimately show ?thesis
      using Replace b by (auto simp: process_replace_eq same_result_def split: option.split)
  qed (use assms b in \<open>simp_all add: same_result_def handle_set_risk_limits_def handle_query_account_def
      ack_ev_def next_seq_def core_def\<close>)
qed

lemma process_all_core:
  "core e = core d \<Longrightarrow> map_option (core \<circ> snd) (process_all S cmds e) = map_option (core \<circ> snd) (process_all S cmds d)"
proof (induction cmds arbitrary: e d)
  case (Cons cmd cmds)
  have step: "map_option (core \<circ> snd) (process S cmd e) = map_option (core \<circ> snd) (process S cmd d)"
    using process_core [OF Cons.prems, of S cmd] by (simp add: same_result_def)
  have eq: "map_option (core \<circ> snd) (map_option (\<lambda>(evs', e2). (evs @ evs', e2)) x) = map_option (core \<circ> snd) x"
    for evs and x :: "(event list \<times> 'a engine) option"
    by (cases x) auto
  show ?case
  proof (cases "process S cmd e")
    case None
    with step show ?thesis by simp
  next
    case (Some r)
    obtain q where q: "process S cmd d = Some q" "core (snd r) = core (snd q)"
      by (rule same_resultD [OF step Some])
    from Cons.IH [OF q(2)] Some q(1) show ?thesis by (cases r; cases q) (simp add: eq [unfolded comp_def] comp_def)
  qed
qed simp

text \<open>Two lists one after the other, the second from any engine with the core that the first leaves.\<close>

lemma process_all_core_append:
  assumes "map_option (core \<circ> snd) (process_all S xs f) = Some (core e)"
    and "map_option (core \<circ> snd) (process_all S ys e) = Some c"
  shows "map_option (core \<circ> snd) (process_all S (xs @ ys) f) = Some c"
  using assms(1)
proof (induction xs arbitrary: f)
  case Nil
  then have "core f = core e" by simp
  from process_all_core [OF this, of S ys] assms(2) show ?case by simp
next
  case (Cons cmd xs)
  then obtain evs f1 where p: "process S cmd f = Some (evs, f1)" by (cases "process S cmd f") auto
  have "map_option (core \<circ> snd) (process_all S xs f1) = Some (core e)"
    using Cons.prems p by (cases "process_all S xs f1") auto
  from Cons.IH [OF this] p show ?case by (cases "process_all S (xs @ ys) f1") auto
qed

text \<open>Replay does not look at the symbol of a cancel: it does what processing does with the cancel of the
  book's own symbol.\<close>

definition own_cancel :: "symbol_id \<Rightarrow> command \<Rightarrow> bool" where
  "own_cancel symb cmd \<longleftrightarrow> (case cmd of Cancel c \<Rightarrow> ca_symbol_id c = symb | _ \<Rightarrow> True)"

definition as_own :: "symbol_id \<Rightarrow> command \<Rightarrow> command" where
  "as_own symb cmd = (case cmd of Cancel c \<Rightarrow> Cancel (c\<lparr>ca_symbol_id := symb\<rparr>) | _ \<Rightarrow> cmd)"

lemma as_own_own: "own_cancel symb cmd \<Longrightarrow> as_own symb cmd = cmd"
  by (cases cmd) (auto simp: own_cancel_def as_own_def)

lemma replay_command_core:
  "map_option core (replay_command S cmd e) = map_option (core \<circ> snd) (process S (as_own (bk_symbol (en_book e)) cmd) e)"
proof (cases cmd)
  case (Cancel c)
  then show ?thesis by (simp add: as_own_def process_cancel_core core_events) (simp add: core_def)
qed (simp_all add: as_own_def option.map_comp comp_def core_events)

text \<open>No operation changes the symbol of the book.\<close>

lemma cancel_symbol [simp]: "bk_symbol (snd (cancel S oid acc b)) = bk_symbol b"
  by (simp add: cancel_def Let_def split: option.split)

lemma insert_symbol [simp]: "bk_symbol (insert_resting S ord b) = bk_symbol b"
  by (simp add: insert_resting_def Let_def case_prod_beta)

lemma match_step_symbol:
  "match_step S tid s px q b = DropLevel b' \<Longrightarrow> bk_symbol b' = bk_symbol b"
  "match_step S tid s px q b = Traded b' r f \<Longrightarrow> bk_symbol b' = bk_symbol b"
  by (auto simp: match_step_def trade_def Let_def split: if_splits option.splits prod.splits)

lemma match_loop_symbol:
  "match_loop S tid s px q b = Some (b', fs) \<Longrightarrow> bk_symbol b' = bk_symbol b"
proof (induction S tid s px q b arbitrary: b' fs rule: match_loop.induct)
  case (1 S tid s px q b)
  show ?case
  proof (cases "match_step S tid s px q b")
    case Stop
    with "1.prems" show ?thesis by (simp add: match_loop.simps [of S tid s px q b])
  next
    case Panic
    with "1.prems" show ?thesis by (simp add: match_loop.simps [of S tid s px q b])
  next
    case (DropLevel b1)
    with "1.prems" "1.IH"(1) [OF DropLevel] match_step_symbol(1) [OF DropLevel] show ?thesis
      by (simp add: match_loop.simps [of S tid s px q b])
  next
    case (Traded b1 r f)
    with "1.prems" obtain fs' where "match_loop S tid s px r b1 = Some (b', fs')"
      by (auto simp: match_loop.simps [of S tid s px q b])
    with "1.IH"(2) [OF Traded] match_step_symbol(2) [OF Traded] show ?thesis by simp
  qed
qed

lemma emit_fills_book: "emit_fills no fs e = Some (evs, e') \<Longrightarrow> en_book e' = en_book e"
proof (induction fs arbitrary: e evs)
  case (Cons f fs)
  then obtain ev e1 evs' where "emit_fill no f e = Some (ev, e1)" "emit_fills no fs e1 = Some (evs', e')"
    by (auto split: option.splits)
  with Cons.IH show ?case
    by (auto simp: emit_fill_def Let_def next_seq_def split: option.splits)
qed simp

lemma core_symbol: "core e = core d \<Longrightarrow> bk_symbol (en_book e) = bk_symbol (en_book d)"
  by (simp add: core_def)

lemma top_and_ack_book: "top_and_ack no evs e = (evs', e') \<Longrightarrow> en_book e' = en_book e"
  using core_events(4) [of no evs e] by (simp add: core_def)

lemma handle_new_symbol:
  assumes "handle_new S no e = Some (evs, e')"
  shows "bk_symbol (en_book e') = bk_symbol (en_book e)"
proof -
  have em: "bk_symbol (en_book e1) = bk_symbol (en_book e)"
    if "match_taker S a s px q (en_book e) = Some (b, fs)" "emit_fills no fs (e\<lparr>en_book := b\<rparr>) = Some (evs0, e1)"
    for a s px q b fs evs0 e1
    using match_loop_symbol [of S a s px q "en_book e"] emit_fills_book [OF that(2)] that(1)
    by (simp add: match_taker_def)
  show ?thesis
    using assms unfolding handle_new_def Let_def
    by (auto simp: rest_order_def reject_ev_def next_seq_def em split: if_splits sum.splits option.splits prod.splits
        dest!: top_and_ack_book)
qed

lemma process_symbol:
  assumes "process S cmd e = Some (evs, e')"
  shows "bk_symbol (en_book e') = bk_symbol (en_book e)"
proof (cases cmd)
  case (NewOrder no)
  with assms handle_new_symbol show ?thesis by auto
next
  case (Cancel c)
  with assms process_cancel_core [of S c e] show ?thesis
    by (auto simp: core_def split: if_splits)
next
  case (Replace r)
  from assms Replace show ?thesis
    by (auto simp: process_replace_eq after_removal_def split: if_splits option.splits dest!: handle_new_symbol)
qed (use assms in \<open>auto simp: handle_set_risk_limits_def handle_query_account_def ack_ev_def next_seq_def\<close>)

lemma replay_as_own:
  assumes "core e = core d" and "bk_symbol (en_book e) = symb"
  shows "map_option core (replay S cmds d) = map_option (core \<circ> snd) (process_all S (map (as_own symb) cmds) e)"
  using assms
proof (induction cmds arbitrary: e d)
  case (Cons cmd cmds)
  let ?cmd = "as_own symb cmd"
  have "bk_symbol (en_book d) = symb" using Cons.prems core_symbol by metis
  then have step: "map_option core (replay_command S cmd d) = map_option (core \<circ> snd) (process S ?cmd e)"
    using replay_command_core [of S cmd d] process_core [OF Cons.prems(1), of S ?cmd]
    by (simp add: same_result_def)
  show ?case
  proof (cases "process S ?cmd e")
    case None
    with step show ?thesis by simp
  next
    case (Some r)
    obtain evs e1 where r: "r = (evs, e1)" by (cases r)
    obtain d1 where d1: "replay_command S cmd d = Some d1" "core e1 = core d1"
      using step Some r by (cases "replay_command S cmd d") auto
    have "bk_symbol (en_book e1) = symb"
      using process_symbol Some r Cons.prems(2) by metis
    from Cons.IH [OF d1(2) this] show ?thesis using Some r d1(1)
      by (cases "process_all S (map (as_own symb) cmds) e1") auto
  qed
qed (simp add: core_def)

lemma replay_core:
  assumes "\<forall>cmd \<in> set cmds. own_cancel (bk_symbol (en_book e)) cmd" and "core e = core d"
  shows "map_option core (replay S cmds d) = map_option (core \<circ> snd) (process_all S cmds e)"
proof -
  have "map (as_own (bk_symbol (en_book e))) cmds = cmds" using assms(1) as_own_own by (induction cmds) auto
  with replay_as_own [OF assms(2) refl, of S cmds] show ?thesis by simp
qed

end
