(* ===== verification/EngineRecovery.thy ===== *)
theory EngineRecovery
  imports EngineReplay
begin

text \<open>
  Recovery end to end: a run journals its commands before it processes them, so an engine started
  on the files of a finished run reads them back and replays them into the same core. A snapshot
  keeps the accounts and, side by side and price by price, the orders in the order in which the
  slab yields them.
\<close>

section \<open>What processing does not touch\<close>

definition persistent :: "'s engine \<Rightarrow> journal \<times> disk \<times> disk \<times> engine_config \<times> u64" where
  "persistent e = (en_journal e, en_disk e, en_snapshots e, en_config e, en_command_seq e)"

lemma persistent_upd [simp]:
  "persistent (e\<lparr>en_book := b\<rparr>) = persistent e" "persistent (e\<lparr>en_metrics := m\<rparr>) = persistent e"
  "persistent (e\<lparr>en_accounts := a\<rparr>) = persistent e" "persistent (e\<lparr>en_server_seq := q\<rparr>) = persistent e"
  by (simp_all add: persistent_def)

lemma persistent_simps:
  "persistent (rejected e) = persistent e" "persistent (rest_order S no q e) = persistent e"
  "reject_ev cs oid r e = (ev, e') \<Longrightarrow> persistent e' = persistent e"
  "top_and_ack no evs e = (evs', e') \<Longrightarrow> persistent e' = persistent e"
  by (auto simp: rejected_def rest_order_def reject_ev_def top_and_ack_def book_top_event_def ack_ev_def
      next_seq_def)

lemma emit_fills_persistent: "emit_fills no fs e = Some (evs, e') \<Longrightarrow> persistent e' = persistent e"
proof (induction fs arbitrary: e evs)
  case (Cons f fs)
  then obtain ev e1 evs' where 1: "emit_fill no f e = Some (ev, e1)"
    and 2: "emit_fills no fs e1 = Some (evs', e')" by (auto split: option.splits)
  from 1 have "persistent e1 = persistent e"
    by (auto simp: emit_fill_def Let_def next_seq_def split: option.splits)
  with Cons.IH [OF 2] show ?case by simp
qed simp

lemma handle_new_persistent: "handle_new S no e = Some (evs, e') \<Longrightarrow> persistent e' = persistent e"
  unfolding handle_new_def Let_def
  by (auto simp: persistent_simps(2) split: if_splits sum.splits option.splits prod.splits
      dest!: persistent_simps(3,4) emit_fills_persistent)

lemma process_persistent:
  assumes "process S cmd e = Some (evs, e')"
  shows "persistent e' = persistent e"
proof (cases cmd)
  case (NewOrder no)
  with assms handle_new_persistent show ?thesis by auto
next
  case (Cancel c)
  with assms show ?thesis
    by (auto simp: process_cancel_def reject_ev_def ack_ev_def book_top_event_def next_seq_def
        split: if_splits prod.splits bool.splits)
next
  case (Replace r)
  with assms show ?thesis
    by (auto simp: process_replace_eq after_removal_def persistent_simps(1)
        split: if_splits option.splits dest!: handle_new_persistent)
qed (use assms in \<open>auto simp: handle_set_risk_limits_def handle_query_account_def ack_ev_def next_seq_def\<close>)

lemma core_cong [simp]: "core (e\<lparr>en_metrics := m\<rparr>) = core e" "core (journal_step C now cmd e) = core e"
  by (simp_all add: core_def journal_step_def case_prod_beta)

section \<open>A run and its journal\<close>

text \<open>Received messages with the times of their steps, handled one after the other.\<close>

fun run_all ::
  "('s, order) slab_ops \<Rightarrow> codecs \<Rightarrow> (nat \<times> nat \<times> inbound) list \<Rightarrow> 's engine \<Rightarrow>
   (outbound list \<times> 's engine) option"
where
  "run_all S C [] e = Some ([], e)"
| "run_all S C ((now, ts, inb) # ms) e =
     (case run_step S C now ts None inb e of
        None \<Rightarrow> None
      | Some (outs, _, e1) \<Rightarrow> map_option (\<lambda>(outs', e2). (outs @ outs', e2)) (run_all S C ms e1))"

abbreviation cmds_of :: "(nat \<times> nat \<times> inbound) list \<Rightarrow> command list" where
  "cmds_of ms \<equiv> map (\<lambda>m. in_cmd (snd (snd m))) ms"

text \<open>Without faults of the channel the run does to the core what processing its commands does.\<close>

lemma after_command_core: "core (after_command S C now ts e) = core e"
  by (auto simp: after_command_def rotate_step_def take_snapshot_def count_command_def core_def Let_def
      split: prod.splits option.splits sum.splits if_splits)

lemma run_all_core:
  "core e = core d \<Longrightarrow> map_option (core \<circ> snd) (run_all S C ms e) = map_option (core \<circ> snd) (process_all S (cmds_of ms) d)"
proof (induction ms arbitrary: e d)
  case (Cons m ms)
  obtain now ts inb where m: "m = (now, ts, inb)" by (cases m)
  let ?e0 = "journal_step C now (in_cmd inb) (e\<lparr>en_metrics := queue_dec (en_metrics e)\<rparr>)"
  have "core ?e0 = core d" using Cons.prems by simp
  from process_core [OF this, of S "in_cmd inb"] have step:
    "map_option (core \<circ> snd) (process S (in_cmd inb) ?e0) = map_option (core \<circ> snd) (process S (in_cmd inb) d)"
    by (simp add: same_result_def)
  have eq: "map_option (core \<circ> snd) (map_option (\<lambda>(xs', e2). (xs @ xs', e2)) x) = map_option (core \<circ> snd) x"
    for xs :: "'b list" and x :: "('b list \<times> 'a engine) option"
    by (cases x) auto
  show ?case
  proof (cases "process S (in_cmd inb) ?e0")
    case None
    with step m show ?thesis by (simp add: run_step_def Let_def)
  next
    case (Some r)
    obtain evs e1 where r: "r = (evs, e1)" by (cases r)
    obtain evs' d1 where d1: "process S (in_cmd inb) d = Some (evs', d1)" "core e1 = core d1"
      using step Some r by (cases "process S (in_cmd inb) d") auto
    have "core (after_command S C now ts e1) = core d1" using d1(2) by (simp add: after_command_core)
    from Cons.IH [OF this] Some r m d1(1) show ?thesis
      by (simp add: run_step_def Let_def eq [unfolded comp_def] comp_def)
  qed
qed simp

lemma write_frames_fields:
  "write_frames P crc cmds j d = (r, j', d') \<Longrightarrow> jr_rotation_threshold j' = jr_rotation_threshold j \<and>
   jr_handle j' = jr_handle j \<and> jr_path j' = jr_path j \<and> jr_batch_size j' = jr_batch_size j \<and>
   jr_batch_buffer j' = jr_batch_buffer j"
  by (induction cmds arbitrary: j d) (auto split: prod.splits sum.splits)

lemma unat_add_le: "unat (a + b) \<le> unat a + unat (b :: 'a::len word)"
  by (simp add: unat_word_ariths)

lemma write_frames_since:
  "write_frames P crc cmds j d = (r, j', d') \<Longrightarrow>
   unat (jr_since_rotation j') \<le> unat (jr_since_rotation j) + length cmds"
proof (induction cmds arbitrary: j d)
  case (Cons c cmds)
  let ?j = "j\<lparr>jr_commands_written := jr_commands_written j + 1, jr_since_rotation := jr_since_rotation j + 1\<rparr>"
  show ?case
  proof (cases "write_frame P crc c j d")
    case (Pair r1 d1)
    show ?thesis
    proof (cases r1)
      case (Inr u)
      with Cons.prems Pair have "write_frames P crc cmds ?j d1 = (r, j', d')" by simp
      from Cons.IH [OF this] unat_add_le [of "jr_since_rotation j" 1] show ?thesis by simp
    qed (use Cons.prems Pair in simp)
  qed
qed simp

text \<open>The frames written since the last rotation and those that wait in the buffer.\<close>

definition logged :: "journal \<Rightarrow> nat" where
  "logged j = unat (jr_since_rotation j) + length (jr_batch_buffer j)"

lemma flush_fields:
  assumes "flush P crc now j d = (r, j', d')"
  shows "jr_rotation_threshold j' = jr_rotation_threshold j \<and> jr_handle j' = jr_handle j \<and>
    jr_path j' = jr_path j \<and> jr_batch_size j' = jr_batch_size j \<and> logged j' \<le> logged j \<and>
    length (jr_batch_buffer j') \<le> length (jr_batch_buffer j)"
proof -
  let ?j = "j\<lparr>jr_batch_buffer := []\<rparr>"
  obtain r1 j1 d1 where w: "write_frames P crc (jr_batch_buffer j) ?j d = (r1, j1, d1)"
    by (cases "write_frames P crc (jr_batch_buffer j) ?j d")
  note f = write_frames_fields [OF w] write_frames_since [OF w]
  from assms f show ?thesis
    by (auto simp: flush_def logged_def w split: if_splits prod.splits sum.splits)
qed

lemma append_fields:
  assumes "append_cmd P crc now cmd j d = (r, j', d')"
  shows "jr_rotation_threshold j' = jr_rotation_threshold j \<and> jr_handle j' = jr_handle j \<and>
    jr_path j' = jr_path j \<and> jr_batch_size j' = jr_batch_size j \<and> logged j' \<le> Suc (logged j) \<and>
    length (jr_batch_buffer j') \<le> Suc (length (jr_batch_buffer j))"
  using assms
  by (auto simp: append_cmd_def Let_def logged_def split: if_splits dest!: flush_fields)

text \<open>For the next \<open>k\<close> commands no rotation and no snapshot is due.\<close>

definition undisturbed :: "nat \<Rightarrow> 's engine \<Rightarrow> bool" where
  "undisturbed k e \<longleftrightarrow>
     (jr_rotation_threshold (en_journal e) = 0 \<or>
        logged (en_journal e) + k < unat (jr_rotation_threshold (en_journal e))) \<and>
     (ec_snapshot_interval (en_config e) = 0 \<or>
        unat (en_command_seq e) + k < unat (ec_snapshot_interval (en_config e)))"

text \<open>A log: the journal holds the history, and goes on doing so for \<open>k\<close> commands.\<close>

definition logging :: "codecs \<Rightarrow> nat \<Rightarrow> 's engine \<Rightarrow> command list \<Rightarrow> bool" where
  "logging C k e history \<longleftrightarrow>
     journal_inv (cd_command C) (cd_crc C) (en_journal e) (en_disk e) history \<and>
     dk_faults (en_disk e) = [] \<and> jr_handle (en_journal e) = jr_path (en_journal e) \<and>
     undisturbed k e \<and> dk_files (en_snapshots e) = []"

lemma logging_persistent:
  "persistent e' = persistent e \<Longrightarrow> logging C k e' h \<longleftrightarrow> logging C k e h"
  by (simp add: logging_def undisturbed_def persistent_def)

lemma journal_step_fields:
  "en_config (journal_step C now cmd e) = en_config e" "en_command_seq (journal_step C now cmd e) = en_command_seq e"
  "en_snapshots (journal_step C now cmd e) = en_snapshots e"
  by (simp_all add: journal_step_def case_prod_beta)

text \<open>After the append of a command there are still \<open>k\<close> commands to go, the count of this one included.\<close>

lemma journal_step_logging:
  fixes now :: nat
  assumes "logging C (Suc k) e history" and "framable (cd_command C) cmd"
  defines "e' \<equiv> journal_step C now cmd e"
  shows "logging C k e' (history @ [cmd])"
    and "ec_snapshot_interval (en_config e') = 0 \<or>
      Suc (unat (en_command_seq e')) + k < unat (ec_snapshot_interval (en_config e'))"
proof -
  from assms(1) have inv: "journal_inv (cd_command C) (cd_crc C) (en_journal e) (en_disk e) history"
    and faults: "dk_faults (en_disk e) = []" by (simp_all add: logging_def)
  obtain j' d' where a: "append_cmd (cd_command C) (cd_crc C) now cmd (en_journal e) (en_disk e) = (Inr (), j', d')"
    and d': "dk_faults d' = []" and j': "journal_inv (cd_command C) (cd_crc C) j' d' (history @ [cmd])"
    using append_ok [OF inv faults assms(2), of now] by auto
  from append_fields [OF a] assms(1) show "logging C k e' (history @ [cmd])"
    by (auto simp: logging_def undisturbed_def e'_def journal_step_def a d' j')
  from assms(1) show "ec_snapshot_interval (en_config e') = 0 \<or>
      Suc (unat (en_command_seq e')) + k < unat (ec_snapshot_interval (en_config e'))"
    by (simp add: e'_def journal_step_fields logging_def undisturbed_def)
qed

text \<open>Then nothing but the count happens.\<close>

lemma after_command_undisturbed:
  assumes log: "logging C k e history"
    and seq: "ec_snapshot_interval (en_config e) = 0 \<or>
      Suc (unat (en_command_seq e)) + k < unat (ec_snapshot_interval (en_config e))"
  shows "after_command S C now ts e = count_command e \<and> logging C k (count_command e) history"
proof -
  let ?i = "ec_snapshot_interval (en_config e)"
  have u: "undisturbed k e" using log by (simp add: logging_def)
  have "\<not> should_rotate (en_journal e)"
    using u by (auto simp: undisturbed_def should_rotate_def logged_def word_le_nat_alt word_less_nat_alt)
  moreover have sq: "?i = 0 \<or> unat (en_command_seq e + 1) = Suc (unat (en_command_seq e))"
    using seq unsigned_less [of ?i, where 'a = nat] by (auto simp: unat_word_ariths)
  have "\<not> (0 < ?i \<and> (en_command_seq e + 1) mod ?i = 0)"
  proof (cases "?i = 0")
    case False
    with seq sq have "unat (en_command_seq e + 1) < unat ?i" "0 < unat (en_command_seq e + 1)" by auto
    then have "unat ((en_command_seq e + 1) mod ?i) \<noteq> 0" unfolding unat_mod by simp
    then show ?thesis by (metis unsigned_0)
  qed simp
  then have "\<not> snapshot_due (count_command e)" by (simp add: snapshot_due_def count_command_def)
  ultimately have "after_command S C now ts e = count_command e"
    by (simp add: after_command_def rotate_step_def Let_def count_command_def)
  moreover have "logging C k (count_command e) history"
    using log seq sq by (auto simp: logging_def undisturbed_def count_command_def)
  ultimately show ?thesis by simp
qed

lemma run_step_logging:
  assumes log: "logging C (Suc k) e history" and fr: "framable (cd_command C) (in_cmd inb)"
    and step: "run_step S C now ts sends inb e = Some (outs, st, e')"
  shows "logging C k e' (history @ [in_cmd inb])"
    and "\<exists>evs e1. process S (in_cmd inb) (journal_step C now (in_cmd inb)
        (e\<lparr>en_metrics := queue_dec (en_metrics e)\<rparr>)) = Some (evs, e1) \<and> core e' = core e1 \<and>
        en_journal e' = en_journal e1"
    and "jr_path (en_journal e') = jr_path (en_journal e) \<and> jr_batch_size (en_journal e') = jr_batch_size (en_journal e)"
proof -
  let ?start = "e\<lparr>en_metrics := queue_dec (en_metrics e)\<rparr>"
  let ?e1 = "journal_step C now (in_cmd inb) ?start"
  have "logging C (Suc k) ?start history" using log by (simp add: logging_persistent [of ?start e])
  note l1 = journal_step_logging [OF this fr, of now]
  obtain evs e2 where p: "process S (in_cmd inb) ?e1 = Some (evs, e2)"
    and e': "e' = e2 \<or> e' = after_command S C now ts e2"
    using step by (auto simp: run_step_def Let_def split: option.splits prod.splits if_splits)
  have per: "persistent e2 = persistent ?e1" by (rule process_persistent [OF p])
  have l2: "logging C k e2 (history @ [in_cmd inb])" using l1(1) logging_persistent [OF per] by simp
  moreover have "ec_snapshot_interval (en_config e2) = 0 \<or>
      Suc (unat (en_command_seq e2)) + k < unat (ec_snapshot_interval (en_config e2))"
    using l1(2) per by (simp add: persistent_def)
  ultimately have "after_command S C now ts e2 = count_command e2"
    "logging C k (count_command e2) (history @ [in_cmd inb])"
    using after_command_undisturbed by blast+
  then have e'': "e' = e2 \<or> e' = count_command e2" "logging C k (count_command e2) (history @ [in_cmd inb])"
    using e' by simp_all
  then show "logging C k e' (history @ [in_cmd inb])" using l2 by blast
  show "\<exists>evs e1. process S (in_cmd inb) ?e1 = Some (evs, e1) \<and> core e' = core e1 \<and>
      en_journal e' = en_journal e1"
    using p e'' by (auto simp: core_def count_command_def)
  obtain q j' d' where "append_cmd (cd_command C) (cd_crc C) now (in_cmd inb) (en_journal e) (en_disk e) = (q, j', d')"
    by (cases "append_cmd (cd_command C) (cd_crc C) now (in_cmd inb) (en_journal e) (en_disk e)")
  from append_fields [OF this] this have "jr_path (en_journal ?e1) = jr_path (en_journal e) \<and>
      jr_batch_size (en_journal ?e1) = jr_batch_size (en_journal e)"
    by (simp add: journal_step_def)
  with per e'' show "jr_path (en_journal e') = jr_path (en_journal e) \<and>
      jr_batch_size (en_journal e') = jr_batch_size (en_journal e)"
    by (auto simp: persistent_def count_command_def)
qed

lemma run_all_logging:
  assumes "logging C (length ms + k) e history" and "\<forall>cmd \<in> set (cmds_of ms). framable (cd_command C) cmd"
    and "run_all S C ms e = Some (outs, e')" and "core d = core e"
  shows "logging C k e' (history @ cmds_of ms) \<and>
    map_option (core \<circ> snd) (process_all S (cmds_of ms) d) = Some (core e') \<and>
    jr_path (en_journal e') = jr_path (en_journal e) \<and> jr_batch_size (en_journal e') = jr_batch_size (en_journal e)"
  using assms
proof (induction ms arbitrary: e d history outs)
  case (Cons m ms)
  obtain now ts inb where m: "m = (now, ts, inb)" by (cases m)
  have fr: "framable (cd_command C) (in_cmd inb)" using Cons.prems(2) m by simp
  obtain outs1 st e1 outs2 where st: "run_step S C now ts None inb e = Some (outs1, st, e1)"
    and rest: "run_all S C ms e1 = Some (outs2, e')"
    using Cons.prems(3) m by (auto split: option.splits prod.splits)
  have log: "logging C (Suc (length ms + k)) e history" using Cons.prems(1) by simp
  note l1 = run_step_logging [OF log fr st]
  let ?start = "journal_step C now (in_cmd inb) (e\<lparr>en_metrics := queue_dec (en_metrics e)\<rparr>)"
  obtain evs e2 where p: "process S (in_cmd inb) ?start = Some (evs, e2)" "core e1 = core e2"
    using l1(2) by blast
  have "core ?start = core d" using Cons.prems(4) by simp
  from process_core [OF this, of S "in_cmd inb"] p(1) obtain evs' d1 where
    d1: "process S (in_cmd inb) d = Some (evs', d1)" "core d1 = core e1"
    using p(2) by (cases "process S (in_cmd inb) d") (auto simp: same_result_def)
  have "\<forall>cmd \<in> set (cmds_of ms). framable (cd_command C) cmd" using Cons.prems(2) by simp
  from Cons.IH [OF l1(1) this rest d1(2)] show ?case
    using d1(1) m l1(3) by (cases "process_all S (cmds_of ms) d1") auto
qed simp

section \<open>Restart on the journal\<close>

lemma restore_from_journal:
  assumes codec: "journal_codec (cd_command C)" and faults: "dk_faults (en_disk d) = []"
    and snaps: "dk_files (en_snapshots d) = []" and seq0: "en_command_seq d = 0"
    and held: "map_of (dk_files (en_disk d)) (jr_handle (en_journal d)) = Some (frames (cd_command C) (cd_crc C) cmds)"
    and fr: "\<forall>cmd \<in> set cmds. framable (cd_command C) cmd"
  shows "restore_from_persistence S C d = map_option (Pair (Inr ())) (replay S cmds d)"
    and "load_state S C d = (Inr (), d)"
    and "read_all (cd_command C) (cd_crc C) (en_journal d) (en_disk d) = (Inr cmds, en_disk d)"
proof -
  have "read_frames (cd_command C) (cd_crc C) (frames (cd_command C) (cd_crc C) cmds) = Inr cmds"
    by (rule journal_codec.read_frames_all [OF codec fr])
  then show rd: "read_all (cd_command C) (cd_crc C) (en_journal d) (en_disk d) = (Inr cmds, en_disk d)"
    using faults held
    by (simp add: read_all_def io_bind_def os_unit_ok file_bytes_Some)
  show load: "load_state S C d = (Inr (), d)"
    using snaps by (simp add: load_state_def load_latest_def)
  from rd load show "restore_from_persistence S C d = map_option (Pair (Inr ())) (replay S cmds d)"
    by (cases cmds) (simp_all add: restore_from_persistence_def Let_def seq0)
qed

text \<open>A run and the flush at its end.\<close>

lemma shutdown_ok:
  assumes "logging C k e history"
  shows "file_bytes (en_disk (shutdown C now e)) (jr_path (en_journal e)) = frames (cd_command C) (cd_crc C) history"
    and "dk_faults (en_disk (shutdown C now e)) = []"
    and "en_snapshots (shutdown C now e) = en_snapshots e"
proof -
  have inv: "journal_inv (cd_command C) (cd_crc C) (en_journal e) (en_disk e) history"
    and faults: "dk_faults (en_disk e) = []" and h: "jr_handle (en_journal e) = jr_path (en_journal e)"
    using assms by (simp_all add: logging_def)
  obtain j' d' where "flush (cd_command C) (cd_crc C) now (en_journal e) (en_disk e) = (Inr (), j', d')"
    "dk_faults d' = []" "map_of (dk_files d') = (map_of (dk_files (en_disk e)))
      (jr_handle (en_journal e) \<mapsto> frames (cd_command C) (cd_crc C) history)"
    using flush_ok [OF inv faults, of now] by blast
  with h show "file_bytes (en_disk (shutdown C now e)) (jr_path (en_journal e)) = frames (cd_command C) (cd_crc C) history"
    "dk_faults (en_disk (shutdown C now e)) = []" "en_snapshots (shutdown C now e) = en_snapshots e"
    by (simp_all add: shutdown_def file_bytes_def get_or_def)
qed

text \<open>Opening an engine on a disk without faults.\<close>

lemma new_engine_ok:
  assumes "dk_faults dk = []"
  obtains d where "new_engine S now m config dk snaps = Some d"
    and "dk_faults (en_disk d) = []" "en_snapshots d = snaps" "en_command_seq d = 0" "en_config d = config"
    and "map_of (dk_files (en_disk d)) (ec_journal_path config) = Some (file_bytes dk (ec_journal_path config))"
    and "jr_handle (en_journal d) = ec_journal_path config" "jr_path (en_journal d) = ec_journal_path config"
    and "jr_batch_buffer (en_journal d) = []" "logged (en_journal d) = 0"
    and "jr_rotation_threshold (en_journal d) = jc_rotation_threshold (ec_journal_config config)"
    and "jr_batch_size (en_journal d) = jc_batch_size (ec_journal_config config)"
    and "core d = (new_book S 1, new_account_manager default_risk_limits)"
proof (cases "map_of (dk_files dk) (ec_journal_path config)")
  case None
  with assms that show thesis
    by (auto simp: new_engine_def open_with_config_def open_create_def io_bind_def os_unit_ok core_def
        file_bytes_def get_or_def logged_def)
next
  case (Some bs)
  with assms that show thesis
    by (auto simp: new_engine_def open_with_config_def open_create_def io_bind_def os_unit_ok core_def
        file_bytes_def get_or_def logged_def)
qed

text \<open>A run that starts with \<open>h\<close> commands in the journal and executes \<open>n\<close> more is short when it ends before the
  first snapshot and the first rotation.\<close>

definition short_run :: "engine_config \<Rightarrow> nat \<Rightarrow> nat \<Rightarrow> bool" where
  "short_run config h n \<longleftrightarrow>
     (jc_rotation_threshold (ec_journal_config config) = 0 \<or> n < unat (jc_rotation_threshold (ec_journal_config config))) \<and>
     (ec_snapshot_interval config = 0 \<or> h + n < unat (ec_snapshot_interval config))"

lemma replay_persistent:
  assumes "replay S cmds e = Some e'"
  shows "en_journal e' = en_journal e \<and> en_disk e' = en_disk e \<and> en_snapshots e' = en_snapshots e \<and>
    en_config e' = en_config e \<and> en_command_seq e' = en_command_seq e + of_nat (length cmds)"
  using assms
proof (induction cmds arbitrary: e)
  case (Cons cmd cmds)
  then obtain e1 where e1: "replay_command S cmd e = Some e1" "replay S cmds e1 = Some e'"
    by (auto split: option.splits)
  have "persistent (e1\<lparr>en_command_seq := en_command_seq e\<rparr>) = persistent e \<and> en_command_seq e1 = en_command_seq e + 1"
  proof (cases cmd)
    case (NewOrder no)
    with e1(1) obtain evs e2 where "handle_new S no e = Some (evs, e2)" "e1 = count_command e2" by auto
    with handle_new_persistent [of S no e] show ?thesis by (auto simp: persistent_def count_command_def)
  next
    case (Replace r)
    with e1(1) obtain evs e2 where "process S (Replace r) e = Some (evs, e2)" "e1 = count_command e2" by auto
    with process_persistent [of S "Replace r" e] show ?thesis by (auto simp: persistent_def count_command_def)
  qed (use e1(1) in \<open>auto simp: persistent_def count_command_def handle_set_risk_limits_def
      handle_query_account_def ack_ev_def next_seq_def\<close>)
  with Cons.IH [OF e1(2)] show ?case by (simp add: persistent_def)
qed simp

lemma restore_journal:
  assumes "restore_from_persistence S C e = Some (r, e')"
  shows "en_journal e' = en_journal e"
proof -
  have "en_journal (snd (load_state S C e)) = en_journal e"
    by (auto simp: load_state_def split: prod.split sum.split option.split)
  with assms show ?thesis
    by (auto simp: restore_from_persistence_def Let_def dest: replay_persistent split: prod.splits sum.splits if_splits)
qed

lemma fresh_symbol: "core e = (new_book S 1, a) \<Longrightarrow> bk_symbol (en_book e) = 1"
  by (simp add: core_def new_book_def)

text \<open>An engine that is started on a journal of commands has replayed them, and logs behind them.\<close>

lemma restart_replays:
  assumes codec: "journal_codec (cd_command C)" and fr: "\<forall>cmd \<in> set cmds. framable (cd_command C) cmd"
    and own: "\<forall>cmd \<in> set cmds. own_cancel 1 cmd"
    and disk: "dk_faults dk = []" "dk_files snaps = []"
      "file_bytes dk (ec_journal_path config) = frames (cd_command C) (cd_crc C) cmds"
    and fresh: "core f = (new_book S 1, new_account_manager default_risk_limits)"
    and live: "map_option (core \<circ> snd) (process_all S cmds f) = Some c"
  shows "\<exists>d d'. new_engine S now m config dk snaps = Some d \<and>
    restore_from_persistence S C d = Some (Inr (), d') \<and> core d' = c"
proof (rule new_engine_ok [OF disk(1)])
  fix d assume d: "new_engine S now m config dk snaps = Some d"
    "dk_faults (en_disk d) = []" "en_snapshots d = snaps" "en_command_seq d = 0"
    "map_of (dk_files (en_disk d)) (ec_journal_path config) = Some (file_bytes dk (ec_journal_path config))"
    "jr_handle (en_journal d) = ec_journal_path config"
    "core d = (new_book S 1, new_account_manager default_risk_limits)"
  have res: "restore_from_persistence S C d = map_option (Pair (Inr ())) (replay S cmds d)"
    using restore_from_journal(1) [OF codec d(2) _ d(4) _ fr] d(3,5,6) disk by simp
  have "map_option core (replay S cmds d) = Some c"
    using replay_core [of cmds f d S] own live fresh fresh_symbol [OF fresh] d(7) by simp
  with res d(1) show ?thesis by (cases "replay S cmds d") auto
qed

lemma started_logging:
  assumes codec: "journal_codec (cd_command C)" and fr: "\<forall>cmd \<in> set hist. framable (cd_command C) cmd"
    and own: "\<forall>cmd \<in> set hist. own_cancel 1 cmd"
    and disk: "dk_faults dk = []" "dk_files snaps = []"
      "file_bytes dk (ec_journal_path config) = frames (cd_command C) (cd_crc C) hist"
    and short: "short_run config (length hist) n"
    and start: "new_engine S now m config dk snaps = Some f" "restore_from_persistence S C f = Some (r, e)"
  shows "r = Inr () \<and> logging C n e hist \<and> map_option (core \<circ> snd) (process_all S hist f) = Some (core e) \<and>
    core f = (new_book S 1, new_account_manager default_risk_limits) \<and> jr_batch_buffer (en_journal e) = [] \<and>
    jr_path (en_journal e) = ec_journal_path config \<and>
    jr_batch_size (en_journal e) = jc_batch_size (ec_journal_config config)"
proof (rule new_engine_ok [OF disk(1), of S now m config snaps])
  fix d assume "new_engine S now m config dk snaps = Some d"
    and d: "dk_faults (en_disk d) = []" "en_snapshots d = snaps" "en_command_seq d = 0" "en_config d = config"
    "map_of (dk_files (en_disk d)) (ec_journal_path config) = Some (file_bytes dk (ec_journal_path config))"
    "jr_handle (en_journal d) = ec_journal_path config" "jr_path (en_journal d) = ec_journal_path config"
    "jr_batch_buffer (en_journal d) = []" "logged (en_journal d) = 0"
    "jr_rotation_threshold (en_journal d) = jc_rotation_threshold (ec_journal_config config)"
    "jr_batch_size (en_journal d) = jc_batch_size (ec_journal_config config)"
    "core d = (new_book S 1, new_account_manager default_risk_limits)"
  with start(1) have f: "d = f" by simp
  have "restore_from_persistence S C f = map_option (Pair (Inr ())) (replay S hist f)"
    using restore_from_journal(1) [OF codec _ _ _ _ fr, of f] d disk f by simp
  then have r: "r = Inr ()" and e: "replay S hist f = Some e"
    using start(2) by (cases "replay S hist f"; simp)+
  note per = replay_persistent [OF e]
  have "unat (en_command_seq e) \<le> length hist" using per d(3) f by (simp add: unat_of_nat)
  then have "undisturbed n e" using short per d(4,9,10) f by (auto simp: undisturbed_def short_run_def)
  then have "logging C n e hist"
    using per d f disk fr by (auto simp: logging_def journal_inv_def)
  moreover have "map_option (core \<circ> snd) (process_all S hist f) = Some (core e)"
    using replay_core [of hist f f S] own e fresh_symbol [of f S] d(12) f by simp
  ultimately show ?thesis using r per d f by simp
qed

text \<open>A run, its shutdown, and a restart on the files it leaves.\<close>

lemma recovery_ok:
  assumes codec: "journal_codec (cd_command C)"
    and disk: "dk_faults dk = []" "dk_files snaps = []"
      "file_bytes dk (ec_journal_path config) = frames (cd_command C) (cd_crc C) hist"
    and cmds: "\<forall>cmd \<in> set (hist @ cmds_of ms). framable (cd_command C) cmd \<and> own_cancel 1 cmd"
    and short: "short_run config (length hist) (length ms)"
    and start: "new_engine S t0 m0 config dk snaps = Some f" "restore_from_persistence S C f = Some (r, e)"
    and run: "run_all S C ms e = Some (outs, e')"
  shows "\<exists>d d'. new_engine S t1 m1 config (en_disk (shutdown C t2 e')) (en_snapshots (shutdown C t2 e')) = Some d \<and>
    restore_from_persistence S C d = Some (Inr (), d') \<and> core d' = core e'"
proof -
  have fr: "\<forall>cmd \<in> set hist. framable (cd_command C) cmd" "\<forall>cmd \<in> set (cmds_of ms). framable (cd_command C) cmd"
    "\<forall>cmd \<in> set hist. own_cancel 1 cmd"
    using cmds by auto
  from started_logging [OF codec fr(1,3) disk short start] have log: "logging C (length ms + 0) e hist"
    and f: "map_option (core \<circ> snd) (process_all S hist f) = Some (core e)"
      "core f = (new_book S 1, new_account_manager default_risk_limits)"
    and path: "jr_path (en_journal e) = ec_journal_path config" by simp_all
  from run_all_logging [OF log fr(2) run refl] have log': "logging C 0 e' (hist @ cmds_of ms)" by simp
  have fr': "\<forall>cmd \<in> set (hist @ cmds_of ms). framable (cd_command C) cmd"
    "\<forall>cmd \<in> set (hist @ cmds_of ms). own_cancel 1 cmd" using cmds by auto
  have path': "jr_path (en_journal e') = ec_journal_path config"
    and live: "map_option (core \<circ> snd) (process_all S (cmds_of ms) e) = Some (core e')"
    using run_all_logging [OF log fr(2) run refl] path by simp_all
  note left = shutdown_ok [OF log', of t2]
  have "dk_files (en_snapshots (shutdown C t2 e')) = []" using log' left(3) by (simp add: logging_def)
  then show ?thesis
    using restart_replays [OF codec fr' left(2) _ _ f(2) process_all_core_append [OF f(1) live]] left(1) path' by simp
qed

section \<open>Snapshots\<close>

text \<open>The sizes for which a snapshot is written exactly: its length field has 32 bits.\<close>

definition snapshot_bytes :: "('s, order) slab_ops \<Rightarrow> codecs \<Rightarrow> 's engine \<Rightarrow> u8 list option" where
  "snapshot_bytes S C e =
     (case sd_to (cd_orders C) (snapshot_orders S (en_book e)) of
        None \<Rightarrow> None
      | Some b \<Rightarrow>
          (case sd_to (cd_accounts C) (en_accounts e) of
             None \<Rightarrow> None
           | Some a \<Rightarrow> sd_to (cd_snapshot C) \<lparr>es_book = b, es_accounts = a\<rparr>))"

context order_slab begin

lemma snapshot_restores:
  assumes laws: "serde (cd_orders C)" "serde (cd_accounts C)" "serde (cd_snapshot C)"
    and ok: "book_ok S (en_book e)" and bs: "snapshot_bytes S C e = Some bs" "length bs < 2 ^ 32"
    and disk: "dk_faults (en_snapshots e) = []" "keys_distinct (dk_files (en_snapshots e))"
      "snapshots_below (en_command_seq e) (en_snapshots e)"
    and take: "take_snapshot S C e = (r, e')" and d: "en_snapshots d = en_snapshots e'"
  shows "r = Inr () \<and> (\<exists>d'. load_state S C d = (Inr (), d') \<and>
    holds_orders S (en_book d') (snapshot_orders S (en_book e)) \<and>
    en_accounts d' = en_accounts e \<and> en_command_seq d' = en_command_seq e \<and>
    en_server_seq d' = en_command_seq e + 1)"
proof -
  obtain b a where ba: "sd_to (cd_orders C) (snapshot_orders S (en_book e)) = Some b"
    "sd_to (cd_accounts C) (en_accounts e) = Some a"
    "sd_to (cd_snapshot C) \<lparr>es_book = b, es_accounts = a\<rparr> = Some bs"
    using bs(1) by (auto simp: snapshot_bytes_def split: option.splits)
  let ?sn = "\<lparr>sn_sequence = en_command_seq e, sn_data = bs\<rparr>"
  obtain d1 where save: "save_snapshot (cd_crc C) ?sn (en_snapshots e) = (Inr (snapshot_name (en_command_seq e)), d1)"
    and d1: "dk_faults d1 = []" and files: "keys_distinct (dk_files d1)"
    using save_snapshot_ok [OF disk(1), of "cd_crc C" ?sn] disk(2) by (auto simp: distinct_update)
  have latest: "load_latest (cd_crc C) d1 = (Inr (Some ?sn), d1)"
    by (rule load_latest_ok [OF disk(1) _ _ save]) (use disk(3) bs(2) in simp_all)
  have e': "r = Inr ()" "en_snapshots e' = snd (cleanup_old 3 d1)"
    using take ba save by (auto simp: take_snapshot_def serialize_snapshot_def)
  have latest': "load_latest (cd_crc C) (en_snapshots e') = (Inr (Some ?sn), en_snapshots e')"
    unfolding e'(2)
    by (rule load_latest_cleanup [OF d1 files, where keep = 3 and r = "fst (cleanup_old 3 d1)"])
      (simp_all add: latest)
  have loads: "sd_from (cd_orders C) b = Some (snapshot_orders S (en_book e))"
    "sd_from (cd_accounts C) a = Some (en_accounts e)"
    "sd_from (cd_snapshot C) bs = Some \<lparr>es_book = b, es_accounts = a\<rparr>"
    using serde.from_to [OF laws(1) ba(1)] serde.from_to [OF laws(2) ba(2)] serde.from_to [OF laws(3) ba(3)]
    by simp_all
  have "restorable (snapshot_orders S (en_book e))"
    by (rule restorable_perm [OF ok snapshot_orders_spec [OF ok]])
  from restore_holds [OF this] show ?thesis
    using latest' loads e'(1) by (simp add: load_state_def d restore_from_snapshot_def)
qed

end

end
