(* ===== verification/EngineWire.thy ===== *)
theory EngineWire
  imports EngineRecovery
begin

text \<open>
  Serializers for the engine's snapshots that meet the contract, for concrete runs: orders,
  accounts and the snapshot record on the wire formats of \<open>Bytes\<close>.
\<close>

definition w_order :: "order wire" where
  "w_order = w_map
     (\<lambda>x. (o_id x, o_account x, o_symbol x, o_side x, o_price x, o_qty_rem x, o_tif x, o_flags x))
     (\<lambda>(a, b, c, d, e, f, g, h). \<lparr>o_id = a, o_account = b, o_symbol = c, o_side = d, o_price = e,
        o_qty_rem = f, o_tif = g, o_flags = h\<rparr>)
     (w_pair w_word (w_pair w_word (w_pair w_word (w_pair w_side (w_pair w_int (w_pair w_int
        (w_pair w_tif w_flags)))))))"

definition w_accounts :: "account_manager wire" where
  "w_accounts = w_map (\<lambda>m. (am_positions m, am_risk_limits m, am_default_limits m))
     (\<lambda>(a, b, c). \<lparr>am_positions = a, am_risk_limits = b, am_default_limits = c\<rparr>)
     (w_pair (w_list (w_pair w_word w_position)) (w_pair (w_list (w_pair w_word w_limits)) w_limits))"

text \<open>A byte on the wire is the byte itself.\<close>

definition w_byte :: "u8 wire" where
  "w_byte = \<lparr>w_enc = (\<lambda>b. [b]), w_dec = (\<lambda>bs. case bs of [] \<Rightarrow> None | b # r \<Rightarrow> Some (b, r))\<rparr>"

definition w_snapshot :: "engine_snapshot wire" where
  "w_snapshot = w_map (\<lambda>s. (es_book s, es_accounts s)) (\<lambda>(a, b). \<lparr>es_book = a, es_accounts = b\<rparr>)
     (w_pair (w_list w_byte) (w_list w_byte))"

lemma wire_order: "wire w_order"
  unfolding w_order_def by (rule wire_map) (auto intro!: wires wire_side wire_tif wire_flags)

lemma wire_accounts: "wire w_accounts"
  unfolding w_accounts_def by (rule wire_map) (auto intro!: wires wire_position wire_limits)

lemma wire_byte: "wire w_byte"
  by unfold_locales (simp add: w_byte_def)

lemma wire_snapshot: "wire w_snapshot"
  unfolding w_snapshot_def by (rule wire_map) (auto intro!: wires wire_byte)

definition wire_codecs :: codecs where
  "wire_codecs =
     \<lparr>cd_command = command_serde, cd_orders = serde_of (w_list w_order), cd_accounts = serde_of w_accounts,
      cd_snapshot = serde_of w_snapshot, cd_crc = sum_check\<rparr>"

interpretation orders_wire: wire "w_list w_order"
  by (rule wire_list [OF wire_order])

interpretation accounts_wire: wire w_accounts
  by (rule wire_accounts)

interpretation snapshot_wire: wire w_snapshot
  by (rule wire_snapshot)

lemma wire_codecs_laws:
  "serde (cd_orders wire_codecs)" "serde (cd_accounts wire_codecs)" "serde (cd_snapshot wire_codecs)"
  "journal_codec (cd_command wire_codecs)"
  using orders_wire.wire_serde.serde_axioms accounts_wire.wire_serde.serde_axioms
    snapshot_wire.wire_serde.serde_axioms wire_journal.journal_codec_axioms
  by (simp_all add: wire_codecs_def)

end
