(* ===== verification/JournalProps.thy ===== *)
theory JournalProps
  imports EngineWire
begin

text \<open>
  The properties of the journal and of the snapshot files, each for every serializer that reads
  back what it wrote and every checksum, with runs on the concrete wire format.
\<close>

section \<open>Concrete commands\<close>

definition ex_cancel :: "order_id \<Rightarrow> command" where
  "ex_cancel oid = Cancel \<lparr>ca_client_seq = 1, ca_order_id = oid, ca_account_id = 3, ca_symbol_id = 1\<rparr>"

lemma small_varint: "n < 128 \<Longrightarrow> varint n = [of_nat n]"
  by (simp add: varint.simps)

lemma ex_cancel_bytes:
  "unat oid < 128 \<Longrightarrow> sd_to command_serde (ex_cancel oid) = Some [1, 0, 1, of_nat (unat oid), 3, 1]"
  by (simp add: command_serde_def serde_of_def w_command_def ex_cancel_def w_map_def w_sum_def
      w_cancel_def w_pair_def w_word_def w_nat_def small_varint)

lemma ex_cancel_framable: "unat oid < 128 \<Longrightarrow> framable command_serde (ex_cancel oid)"
  by (simp add: framable_def ex_cancel_bytes max_frame_def)

definition empty_disk :: disk where
  "empty_disk = \<lparr>dk_files = [], dk_faults = []\<rparr>"

definition ex_open :: journal where
  "ex_open =
     \<lparr>jr_handle = ''j'', jr_path = ''j'', jr_batch_buffer = [], jr_batch_size = 2, jr_last_sync = 0,
      jr_sync_interval = 1000, jr_commands_written = 0, jr_since_rotation = 0, jr_rotation_threshold = 2\<rparr>"

definition ex_disk :: disk where
  "ex_disk = \<lparr>dk_files = [(''j'', [])], dk_faults = []\<rparr>"

lemma ex_open_inv: "journal_inv command_serde sum_check ex_open ex_disk []"
  by (simp add: journal_inv_def ex_open_def ex_disk_def)

section \<open>The journal\<close>

text \<open>Nothing appended is lost on a disk without faults: after an append the file holds whole
  frames, and the commands of the file followed by those in the batch buffer are exactly what was
  appended, in order; the buffer stays below the batch size.\<close>

theorem append_keeps_history:
  assumes "journal_inv P crc j d history" and "dk_faults d = []" and "framable P cmd"
  shows "\<exists>j' d'. append_cmd P crc now cmd j d = (Inr (), j', d') \<and> dk_faults d' = [] \<and>
    journal_inv P crc j' d' (history @ [cmd]) \<and>
    (jr_batch_buffer j' = [] \<or> length (jr_batch_buffer j') < jr_batch_size j')"
  by (rule append_ok [OF assms])

theorem append_keeps_history_witness:
  "\<exists>j' d'. append_cmd command_serde sum_check 5 (ex_cancel 7) ex_open ex_disk = (Inr (), j', d') \<and>
     journal_inv command_serde sum_check j' d' [ex_cancel 7]"
  using append_keeps_history [OF ex_open_inv _ ex_cancel_framable, of 7 5] by (auto simp: ex_disk_def)

text \<open>C23: Flush and read back: after a flush, reading the whole journal returns the history.\<close>

theorem flush_read_roundtrip:
  assumes "journal_codec P" and inv: "journal_inv P crc j d history" and faults: "dk_faults d = []"
  shows "\<exists>j' d'. flush P crc now j d = (Inr (), j', d') \<and> read_all P crc j' d' = (Inr history, d') \<and>
    jr_batch_buffer j' = []"
proof -
  obtain j' d' where f: "flush P crc now j d = (Inr (), j', d')" "dk_faults d' = []" "jr_batch_buffer j' = []"
    "jr_handle j' = jr_handle j"
    "map_of (dk_files d') = (map_of (dk_files d))(jr_handle j \<mapsto> frames P crc history)"
    using flush_ok [OF inv faults, of now] by blast
  have "\<forall>c \<in> set history. framable P c" using inv by (simp add: journal_inv_def)
  then have "read_frames P crc (frames P crc history) = Inr history"
    by (rule journal_codec.read_frames_all [OF assms(1)])
  with f show ?thesis by (simp add: read_all_def io_bind_def os_unit_ok file_bytes_def get_or_def)
qed

text \<open>The file holds one command, two more wait in the buffer.\<close>

theorem flush_read_roundtrip_witness:
  "\<exists>j' d'. flush command_serde sum_check 5 (ex_open\<lparr>jr_batch_buffer := [ex_cancel 1, ex_cancel 2]\<rparr>)
       \<lparr>dk_files = [(''j'', frames command_serde sum_check [ex_cancel 3])], dk_faults = []\<rparr> = (Inr (), j', d') \<and>
     read_all command_serde sum_check j' d' = (Inr [ex_cancel 3, ex_cancel 1, ex_cancel 2], d') \<and>
     jr_batch_buffer j' = []"
proof -
  have "journal_inv command_serde sum_check (ex_open\<lparr>jr_batch_buffer := [ex_cancel 1, ex_cancel 2]\<rparr>)
      \<lparr>dk_files = [(''j'', frames command_serde sum_check [ex_cancel 3])], dk_faults = []\<rparr>
      [ex_cancel 3, ex_cancel 1, ex_cancel 2]"
    by (simp add: journal_inv_def ex_cancel_framable ex_open_def del: frames_simps)
  from flush_read_roundtrip [OF wire_journal.journal_codec_axioms this, of 5] show ?thesis by simp
qed

text \<open>C24: A journal cut short anywhere, as a crash in the middle of a write leaves it, reads as a
  proper prefix of its commands, or as an error; never as anything else.\<close>

theorem cut_journal_reads_prefix:
  assumes "journal_codec P" and "\<forall>c \<in> set cmds. framable P c" and "n < length (frames P crc cmds)"
  shows "\<exists>k < length cmds. read_frames P crc (take n (frames P crc cmds)) = Inr (take k cmds) \<or>
    read_frames P crc (take n (frames P crc cmds)) = Inl UnexpectedEof"
  by (rule journal_codec.read_cut [OF assms])

lemma ex_frame_length: "unat oid < 128 \<Longrightarrow> length (frame command_serde crc (ex_cancel oid)) = 14"
  by (simp add: frame_def ex_cancel_bytes)

theorem cut_journal_reads_prefix_witness:
  "read_frames command_serde sum_check (take 17 (frames command_serde sum_check [ex_cancel 7, ex_cancel 8])) \<in>
     {Inr [], Inr [ex_cancel 7], Inl UnexpectedEof}"
proof -
  have "\<exists>k < length [ex_cancel 7, ex_cancel 8].
      read_frames command_serde sum_check (take 17 (frames command_serde sum_check [ex_cancel 7, ex_cancel 8])) =
        Inr (take k [ex_cancel 7, ex_cancel 8]) \<or>
      read_frames command_serde sum_check (take 17 (frames command_serde sum_check [ex_cancel 7, ex_cancel 8])) =
        Inl UnexpectedEof"
    by (rule cut_journal_reads_prefix [OF wire_journal.journal_codec_axioms])
      (auto simp: ex_cancel_framable ex_frame_length)
  then show ?thesis by (auto simp: less_Suc_eq numeral_2_eq_2)
qed

text \<open>A cut inside the payload of the last frame is not skipped: the whole journal becomes
  unreadable, and with it every command before the cut.\<close>

theorem cut_in_payload_fails:
  assumes "journal_codec P" and "\<forall>c \<in> set (cmds @ [cmd]). framable P c" and "sd_to P cmd = Some p"
    and "4 \<le> n" and "n < 4 + length p"
  shows "read_frames P crc (frames P crc cmds @ take n (frame P crc cmd)) = Inl UnexpectedEof"
proof -
  have fr: "\<forall>c \<in> set cmds. framable P c" "framable P cmd" using assms(2) by auto
  have "n < length (frame P crc cmd)" using assms(3,5) by (simp add: frame_def)
  with journal_codec.read_torn [OF assms(1) fr(2)] show ?thesis
    using journal_codec.read_frames_append [OF assms(1) fr(1)] assms(3-5) by (simp add: torn_result_def)
qed

theorem cut_in_payload_fails_witness:
  "read_frames command_serde sum_check
     (frames command_serde sum_check [ex_cancel 7] @ take 6 (frame command_serde sum_check (ex_cancel 8))) =
   Inl UnexpectedEof"
  by (rule cut_in_payload_fails [OF wire_journal.journal_codec_axioms _ ex_cancel_bytes])
    (auto simp: ex_cancel_framable)

text \<open>A frame with a wrong checksum ends the reading: the commands before it are returned, and
  neither it nor anything behind it.\<close>

theorem bad_checksum_stops:
  assumes "journal_codec P" and "\<forall>c \<in> set cmds. framable P c" and "length p \<le> max_frame" and "w \<noteq> crc p"
  shows "read_frames P crc (frames P crc cmds @ to_le (of_nat (length p) :: u32) @ p @ to_le w @ r) = Inr cmds"
  by (rule journal_codec.read_bad_checksum [where P = P and w = w and p = p and cmds = cmds and crc = crc, OF assms])

theorem bad_checksum_stops_witness:
  "read_frames command_serde sum_check
     (frames command_serde sum_check [ex_cancel 7] @ to_le (1 :: u32) @ [5] @ to_le (6 :: u32) @ [1, 2, 3, 4]) =
   Inr [ex_cancel 7]"
  using bad_checksum_stops [OF wire_journal.journal_codec_axioms, where cmds = "[ex_cancel 7]" and p = "[5]"
      and w = 6 and r = "[1, 2, 3, 4]" and crc = sum_check]
  by (simp add: ex_cancel_framable max_frame_def sum_check_def)

text \<open>A rotation moves the whole history to the backup file, leaves an empty journal behind and
  resets the rotation counter; no other file changes.\<close>

theorem rotate_moves_history:
  assumes "journal_inv P crc j d history" and "dk_faults d = []" and "jr_handle j = jr_path j"
  shows "\<exists>j' d'. rotate P crc now ts j d = (Inr (backup_path (jr_path j) ts), j', d') \<and>
    dk_faults d' = [] \<and> jr_handle j' = jr_path j' \<and> jr_since_rotation j' = 0 \<and>
    jr_batch_buffer j' = [] \<and> map_of (dk_files d') = (map_of (dk_files d))
      (jr_path j \<mapsto> [], backup_path (jr_path j) ts \<mapsto> frames P crc history)"
  by (rule rotate_ok [OF assms])

theorem rotate_moves_history_witness:
  "\<exists>j' d'. rotate command_serde sum_check 5 60 ex_open ex_disk = (Inr ''j_60.bin'', j', d') \<and>
     map_of (dk_files d') ''j'' = Some []"
proof -
  have "backup_path ''j'' 60 = ''j_60.bin''"
    by (simp add: backup_path_def dir_part_def file_stem_def Let_def show_nat.simps digit_def) code_simp
  moreover have "jr_handle ex_open = jr_path ex_open" "jr_path ex_open = ''j''" "dk_faults ex_disk = []"
    by (simp_all add: ex_open_def ex_disk_def)
  ultimately show ?thesis using rotate_moves_history [OF ex_open_inv, of 5 60] by auto
qed

text \<open>A flush that fails has drained the batch: whatever it did not write is not retried.\<close>

theorem failed_flush_drops_batch:
  assumes "flush P crc now j d = (Inl err, j', d')"
  shows "jr_batch_buffer j' = []"
  by (rule flush_error_drains [OF assms])

lemma six_bytes: "to_le (6 :: u32) = [6, 0, 0, 0]"
  by code_simp

theorem failed_flush_drops_batch_witness:
  "\<exists>err j' d'. flush command_serde sum_check 5 (ex_open\<lparr>jr_batch_buffer := [ex_cancel 7]\<rparr>)
       (ex_disk\<lparr>dk_faults := [Some 2]\<rparr>) = (Inl err, j', d') \<and> jr_batch_buffer j' = [] \<and>
     file_bytes d' ''j'' = [6, 0]"
proof -
  have f: "\<exists>j' d'. flush command_serde sum_check 5 (ex_open\<lparr>jr_batch_buffer := [ex_cancel 7]\<rparr>)
       (ex_disk\<lparr>dk_faults := [Some 2]\<rparr>) = (Inl IoError, j', d') \<and> file_bytes d' ''j'' = [6, 0]"
    by (simp add: flush_def write_frame_def ex_cancel_bytes io_bind_def write_all_def os_call_def ex_open_def
        ex_disk_def file_bytes_def get_or_def six_bytes)
  then obtain j' d' where r: "flush command_serde sum_check 5 (ex_open\<lparr>jr_batch_buffer := [ex_cancel 7]\<rparr>)
       (ex_disk\<lparr>dk_faults := [Some 2]\<rparr>) = (Inl IoError, j', d')" "file_bytes d' ''j'' = [6, 0]" by blast
  from failed_flush_drops_batch [OF r(1)] r show ?thesis by blast
qed

section \<open>Snapshot files\<close>

text \<open>Saving a snapshot newer than all others makes it the one that is loaded, byte for byte, as
  long as sequence numbers have at most twelve digits.\<close>

theorem saved_snapshot_loads:
  assumes "dk_faults d = []" and "snapshots_below (sn_sequence sn) d" and "length (sn_data sn) < 2 ^ 32"
    and "save_snapshot crc sn d = (r, d')"
  shows "load_latest crc d' = (Inr (Some sn), d')"
  by (rule load_latest_ok [OF assms])

theorem saved_snapshot_loads_witness:
  "load_latest sum_check (snd (save_snapshot sum_check \<lparr>sn_sequence = 1234, sn_data = [1, 2, 3]\<rparr>
       \<lparr>dk_files = [], dk_faults = []\<rparr>)) =
     (Inr (Some \<lparr>sn_sequence = 1234, sn_data = [1, 2, 3]\<rparr>),
      snd (save_snapshot sum_check \<lparr>sn_sequence = 1234, sn_data = [1, 2, 3]\<rparr> \<lparr>dk_files = [], dk_faults = []\<rparr>))"
  by (rule saved_snapshot_loads [OF _ _ _ prod.collapse [symmetric]])
    (simp_all add: snapshots_below_def snapshot_entries_def)

text \<open>Snapshot names sort by sequence number only up to twelve digits: beyond, the newer
  snapshot sorts first and the older one is loaded.\<close>

theorem snapshot_names_sort:
  "(\<forall>a b. unat a < 10 ^ 12 \<longrightarrow> unat b < 10 ^ 12 \<longrightarrow> (snapshot_name a < snapshot_name b \<longleftrightarrow> a < b)) \<and>
   snapshot_name 1000000000000 < snapshot_name 999999999999"
proof -
  have "pad0 12 1000000000000 =
      [digit 1, digit 0, digit 0, digit 0, digit 0, digit 0, digit 0, digit 0, digit 0, digit 0, digit 0, digit 0, digit 0]"
    "pad0 12 999999999999 =
      [digit 9, digit 9, digit 9, digit 9, digit 9, digit 9, digit 9, digit 9, digit 9, digit 9, digit 9, digit 9]"
    by (simp_all add: pad0_def show_nat.simps)
  then have "snapshot_name 1000000000000 < snapshot_name 999999999999"
    by (simp add: snapshot_name_def digit_less)
  then show ?thesis using snapshot_name_less by blast
qed

text \<open>Cleaning up removes all but the newest snapshots, and what is loaded stays the same.\<close>

theorem cleanup_keeps_newest:
  assumes "dk_faults d = []" and "keys_distinct (dk_files d)" and "0 < keep"
    and "cleanup_old keep d = (r, d')" and "load_latest crc d = (Inr (Some sn), d)"
  shows "r = Inr (length (snapshot_entries d) - keep) \<and> load_latest crc d' = (Inr (Some sn), d')"
  using cleanup_old_ok(1) [OF assms(1,4)] load_latest_cleanup [OF assms] by blast

theorem cleanup_keeps_newest_witness:
  "\<exists>d1 d2. save_snapshot sum_check \<lparr>sn_sequence = 1234, sn_data = [1, 2, 3]\<rparr> empty_disk =
       (Inr (snapshot_name 1234), d1) \<and> snd (cleanup_old 3 d1) = d2 \<and>
     load_latest sum_check d2 = (Inr (Some \<lparr>sn_sequence = 1234, sn_data = [1, 2, 3]\<rparr>), d2)"
proof -
  let ?sn = "\<lparr>sn_sequence = 1234, sn_data = [1, 2, 3]\<rparr> :: snapshot"
  obtain d1 where d1: "save_snapshot sum_check ?sn empty_disk = (Inr (snapshot_name 1234), d1)"
    "dk_faults d1 = []" "keys_distinct (dk_files d1)"
    using save_snapshot_ok [of empty_disk sum_check ?sn] by (auto simp: empty_disk_def)
  have "load_latest sum_check d1 = (Inr (Some ?sn), d1)"
    by (rule load_latest_ok [OF _ _ _ d1(1)]) (simp_all add: empty_disk_def snapshots_below_def snapshot_entries_def)
  from cleanup_keeps_newest [OF d1(2,3) _ prod.collapse [symmetric] this, of 3] d1(1) show ?thesis by auto
qed

end
