(* ===== verification/EngineProps.thy ===== *)
theory EngineProps
  imports BookProps JournalProps
begin

text \<open>
  The properties of the engine: its reachable states, the contract of each command, positions and
  risk, sequence numbers, replay, recovery and snapshots. Concrete runs start from an engine on
  an empty disk.
\<close>

section \<open>A concrete engine\<close>

definition ex_config :: engine_config where
  "ex_config =
     \<lparr>ec_journal_path = ''j.bin'', ec_snapshot_dir = ''s'',
      ec_journal_config = \<lparr>jc_batch_size = 2, jc_sync_interval = 1000, jc_rotation_threshold = 0\<rparr>,
      ec_snapshot_interval = 0\<rparr>"

definition ex_journal :: journal where
  "ex_journal =
     \<lparr>jr_handle = ''j.bin'', jr_path = ''j.bin'', jr_batch_buffer = [], jr_batch_size = 2,
      jr_last_sync = 0, jr_sync_interval = 1000, jr_commands_written = 0, jr_since_rotation = 0,
      jr_rotation_threshold = 0\<rparr>"

definition ex_engine :: "order option list engine" where
  "ex_engine =
     \<lparr>en_server_seq = 1, en_command_seq = 0, en_book = new_book vec_slab 1,
      en_metrics = default_metrics, en_journal = ex_journal,
      en_disk = \<lparr>dk_files = [(''j.bin'', [])], dk_faults = []\<rparr>, en_snapshots = empty_disk,
      en_config = ex_config, en_accounts = new_account_manager default_risk_limits\<rparr>"

lemma ex_engine_new:
  "new_engine vec_slab 0 default_metrics ex_config empty_disk empty_disk = Some ex_engine"
  by (simp add: new_engine_def open_with_config_def open_create_def io_bind_def os_unit_def os_call_def
      ex_engine_def ex_config_def empty_disk_def ex_journal_def)

definition ex_new :: "order_id \<Rightarrow> account_id \<Rightarrow> side \<Rightarrow> price \<Rightarrow> qty \<Rightarrow> new_order" where
  "ex_new oid acc s px q =
     \<lparr>no_client_seq = 1, no_order_id = oid, no_account_id = acc, no_symbol_id = 1, no_side = s,
      no_price = px, no_qty = q, no_tif = Gtc, no_flags = \<lparr>post_only = False\<rparr>\<rparr>"

lemma ex_new_sel [simp]:
  "no_client_seq (ex_new oid acc s px q) = 1" "no_order_id (ex_new oid acc s px q) = oid"
  "no_account_id (ex_new oid acc s px q) = acc" "no_symbol_id (ex_new oid acc s px q) = 1"
  "no_side (ex_new oid acc s px q) = s" "no_price (ex_new oid acc s px q) = px"
  "no_qty (ex_new oid acc s px q) = q" "no_tif (ex_new oid acc s px q) = Gtc"
  "\<not> post_only (no_flags (ex_new oid acc s px q))"
  by (simp_all add: ex_new_def)

lemma ex_order_sel [simp]:
  "o_id (ex_order oid acc s px q) = oid" "o_account (ex_order oid acc s px q) = acc"
  "o_side (ex_order oid acc s px q) = s" "o_price (ex_order oid acc s px q) = px"
  "o_qty_rem (ex_order oid acc s px q) = q"
  "(ex_order oid acc s px q)\<lparr>o_qty_rem := r\<rparr> = ex_order oid acc s px r"
  by (simp_all add: ex_order_def)

text \<open>The same engine with the concrete book of three sell orders.\<close>

definition ex_trading :: "order option list engine" where
  "ex_trading = ex_engine\<lparr>en_book := ex_book\<rparr>"

lemma ex_trading_ok: "engine_ok vec_slab ex_trading"
  using ex_book_ok by (simp add: ex_trading_def engine_ok_def uncrossed_def ex_book_buy)

lemma ex_trading_sides:
  "sides_of vec_slab ex_trading Sell = [ex_order 2 11 Sell 100 3, ex_order 3 12 Sell 100 4, ex_order 1 10 Sell 101 5]"
  "sides_of vec_slab ex_trading Buy = []"
  by (simp_all add: ex_trading_def ex_book_sell ex_book_buy)

lemma ex_trading_net [simp]: "net ex_trading a = 0" "net ex_engine a = 0"
  by (simp_all add: ex_trading_def ex_engine_def new_account_manager_def get_position_def get_or_def
      default_position_def)

lemma ex_trading_limits [simp]: "get_limits (en_accounts ex_trading) a = default_risk_limits"
  by (simp add: ex_trading_def ex_engine_def new_account_manager_def get_limits_def get_or_def)

lemma ex_trading_sel [simp]:
  "en_server_seq ex_trading = 1" "bk_symbol (en_book ex_trading) = 1" "en_command_seq ex_trading = 0"
proof -
  have "bk_symbol ex_book = 1" by code_simp
  then show "en_server_seq ex_trading = 1" "bk_symbol (en_book ex_trading) = 1" "en_command_seq ex_trading = 0"
    by (simp_all add: ex_trading_def ex_engine_def)
qed

lemma all_sides: "(\<forall>s. Q s) \<longleftrightarrow> Q Buy \<and> Q Sell"
  by (metis side.exhaust)

lemma ex_admissible: "admissible vec_slab (ex_new 9 20 Buy 100 6) ex_trading"
  by (simp add: admissible_def all_sides ex_trading_sides qty_at_def
      i64_ok_def i64_min_def i64_max_def)

lemma ex_risk: "check_risk (en_accounts ex_trading) 20 Buy 6 = Inr ()"
  by (subst check_risk_iff)
    (simp_all add: within_limits_def default_risk_limits_def signed_qty_def i64_ok_def i64_min_def i64_max_def)

lemma ex_admission: "admission vec_slab (ex_new 9 20 Buy 100 6) ex_trading = None"
  by (simp add: admission_def ex_risk)

section \<open>New orders\<close>

text \<open>C2: A new order refines the abstract exchange: for an admissible order the handler does not
  panic and keeps the invariant; a refused order is answered with its reason and changes nothing
  but the sequence number and the reject counter; an accepted order has exactly the abstract
  effect on the book, emits its fills, the new top of the book and the acknowledgement in this
  order with consecutive sequence numbers, and moves the positions of both parties by the fills.\<close>

theorem handle_new_refines:
  assumes "order_slab S" and "engine_ok S e" and "admissible S no e"
  shows "\<exists>evs e'. handle_new S no e = Some (evs, e') \<and> engine_ok S e' \<and>
    (case admission S no e of
       Some r \<Rightarrow> evs = [reject_event (en_server_seq e) (no_client_seq no) (no_order_id no) r] \<and>
         e' = rejected e
     | None \<Rightarrow> accepts S no e evs e')"
  by (rule order_slab.handle_new_ok [OF assms])

theorem handle_new_refines_witness:
  "\<exists>evs e'. handle_new vec_slab (ex_new 9 20 Buy 100 6) ex_trading = Some (evs, e') \<and>
     length evs = 4 \<and> sides_of vec_slab e' Sell = [ex_order 3 12 Sell 100 1, ex_order 1 10 Sell 101 5] \<and>
     net e' 20 = 6 \<and> net e' 11 = - 3 \<and> net e' 12 = - 3"
  using handle_new_refines [OF vec_orders.order_slab_axioms ex_trading_ok ex_admissible]
  by (auto simp: ex_admission accepts_def Let_def spec_new_def ex_trading_sides signed_qty_def fill_of_def)

lemma sum_fills_delta: "(\<Sum>a \<in> UNIV. fills_delta no fs a) = 0"
proof (induction fs)
  case (Cons f fs)
  have "(\<Sum>a \<in> UNIV. fills_delta no (f # fs) a) =
      (\<Sum>a \<in> UNIV. if a = no_account_id no then signed_qty (no_side no) (mf_qty f) else 0) +
      (\<Sum>a \<in> UNIV. if a = mf_maker_account_id f then signed_qty (opposite (no_side no)) (mf_qty f) else 0) +
      (\<Sum>a \<in> UNIV. fills_delta no fs a)"
    by (simp add: sum.distrib)
  with Cons show ?case by (simp add: signed_qty_opposite)
qed simp

text \<open>C14: The engine's net positions are a zero-sum: an accepted order leaves their total over all
  accounts as it was.\<close>

theorem positions_zero_sum:
  assumes "order_slab S" and "engine_ok S e" and "admissible S no e"
    and "handle_new S no e = Some (evs, e')"
  shows "(\<Sum>a \<in> UNIV. net e' a) = (\<Sum>a \<in> UNIV. net e a)"
proof -
  from order_slab.handle_new_ok [OF assms(1-3)] assms(4) consider "accepts S no e evs e'" | "e' = rejected e"
    by (auto split: option.splits)
  then show ?thesis
  proof cases
    case 1
    then have "net e' a = net e a + fills_delta no (snd (spec_new no (sides_of S e))) a" for a
      by (simp add: accepts_def Let_def)
    then show ?thesis by (simp add: sum.distrib sum_fills_delta)
  qed simp
qed

theorem positions_zero_sum_witness:
  "\<exists>evs e'. handle_new vec_slab (ex_new 9 20 Buy 100 6) ex_trading = Some (evs, e') \<and>
     (\<Sum>a \<in> UNIV. net e' a) = 0"
proof -
  obtain evs e' where run: "handle_new vec_slab (ex_new 9 20 Buy 100 6) ex_trading = Some (evs, e')"
    using order_slab.handle_new_ok [OF vec_orders.order_slab_axioms ex_trading_ok ex_admissible] by blast
  from positions_zero_sum [OF vec_orders.order_slab_axioms ex_trading_ok ex_admissible run] run
  show ?thesis by simp
qed

text \<open>C15: The risk check holds: an order that is admitted is no larger than the account's limit, and
  the position it would give if it filled completely is inside the account's long and short limits.\<close>

theorem admitted_within_limits:
  assumes "admission S no e = None" and "\<bar>net e (no_account_id no)\<bar> + no_qty no \<le> i64_max"
    and "i64_ok (- max_short_position (get_limits (en_accounts e) (no_account_id no)))"
  shows "within_limits (get_limits (en_accounts e) (no_account_id no)) (no_qty no)
    (net e (no_account_id no) + signed_qty (no_side no) (no_qty no))"
proof -
  have "0 \<le> no_qty no" "\<exists>u. check_risk (en_accounts e) (no_account_id no) (no_side no) (no_qty no) = Inr u"
    using assms(1) by (auto simp: admission_def split: if_splits sum.splits)
  then show ?thesis using check_risk_iff [OF assms(2) _ assms(3)] by (auto split: if_splits)
qed

theorem admitted_within_limits_witness: "within_limits default_risk_limits 6 6"
  using admitted_within_limits [OF ex_admission]
  by (simp add: i64_ok_def i64_min_def i64_max_def default_risk_limits_def signed_qty_def)

section \<open>Reachable states\<close>

text \<open>An engine is started on some disk. It may find no readable snapshot, or one that a reachable engine wrote;
  it reads a journal and replays its commands; then it handles received messages. Every admissible command may
  be replayed or arrive, every write may fail, the channel may close.\<close>

inductive reachable :: "('s, order) slab_ops \<Rightarrow> codecs \<Rightarrow> 's engine \<Rightarrow> bool"
  for S C
where
  start: "new_engine S now m config d snaps = Some e \<Longrightarrow> reachable S C e"
| no_snapshot: "reachable S C e \<Longrightarrow> \<forall>sn d. load_latest (cd_crc C) (en_snapshots e) \<noteq> (Inr (Some sn), d) \<Longrightarrow>
    load_state S C e = (r, e') \<Longrightarrow> reachable S C e'"
| snapshot: "reachable S C e \<Longrightarrow> reachable S C d \<Longrightarrow>
    load_latest (cd_crc C) (en_snapshots d) = (Inr (Some sn), snaps) \<Longrightarrow> snapshot_bytes S C e = Some (sn_data sn) \<Longrightarrow>
    serde (cd_orders C) \<and> serde (cd_accounts C) \<and> serde (cd_snapshot C) \<Longrightarrow>
    load_state S C d = (r, d') \<Longrightarrow> reachable S C d'"
| journal_read: "reachable S C e \<Longrightarrow>
    read_all (cd_command C) (cd_crc C) (en_journal e) (en_disk e) = (r, dk) \<Longrightarrow> reachable S C (e\<lparr>en_disk := dk\<rparr>)"
| replayed: "reachable S C e \<Longrightarrow> admissible_cmd S cmd e \<Longrightarrow> replay_command S cmd e = Some e' \<Longrightarrow> reachable S C e'"
| message: "reachable S C e \<Longrightarrow> admissible_cmd S (in_cmd inb) e \<Longrightarrow>
    run_step S C now ts sends inb e = Some (outs, st, e') \<Longrightarrow> reachable S C e'"

inductive_cases reachableE: "reachable S C e"

text \<open>A journal whose commands are admissible one after the other.\<close>

fun admissible_replay :: "('s, order) slab_ops \<Rightarrow> command list \<Rightarrow> 's engine \<Rightarrow> bool" where
  "admissible_replay S [] e = True"
| "admissible_replay S (cmd # cmds) e = (admissible_cmd S cmd e \<and>
     (case replay_command S cmd e of None \<Rightarrow> True | Some e1 \<Rightarrow> admissible_replay S cmds e1))"

lemma replay_reachable:
  "reachable S C e \<Longrightarrow> admissible_replay S cmds e \<Longrightarrow> replay S cmds e = Some e' \<Longrightarrow> reachable S C e'"
  by (induction cmds arbitrary: e) (auto intro: reachable.replayed split: option.splits)

text \<open>So a restored engine is reachable: its snapshot, when it finds one, is one of a reachable engine.\<close>

lemma restore_reachable:
  assumes "reachable S C d" and "restore_from_persistence S C d = Some (r, d')"
    and snap: "\<And>sn snaps. load_latest (cd_crc C) (en_snapshots d) = (Inr (Some sn), snaps) \<Longrightarrow>
      \<exists>e. reachable S C e \<and> snapshot_bytes S C e = Some (sn_data sn) \<and>
        serde (cd_orders C) \<and> serde (cd_accounts C) \<and> serde (cd_snapshot C)"
    and cmds: "\<And>u d1 cmds dk. load_state S C d = (Inr u, d1) \<Longrightarrow>
      read_all (cd_command C) (cd_crc C) (en_journal d1) (en_disk d1) = (Inr cmds, dk) \<Longrightarrow>
      admissible_replay S (drop (unat (en_command_seq d1)) cmds) (d1\<lparr>en_disk := dk\<rparr>)"
  shows "reachable S C d'"
proof -
  obtain q d1 where load: "load_state S C d = (q, d1)" by (cases "load_state S C d")
  have d1: "reachable S C d1"
  proof (cases "\<exists>sn snaps. load_latest (cd_crc C) (en_snapshots d) = (Inr (Some sn), snaps)")
    case True
    then obtain sn snaps where l: "load_latest (cd_crc C) (en_snapshots d) = (Inr (Some sn), snaps)" by blast
    from snap [OF l] show ?thesis using reachable.snapshot [OF _ assms(1) l _ _ load] by blast
  qed (use reachable.no_snapshot [OF assms(1) _ load] in blast)
  obtain a dk where rd: "read_all (cd_command C) (cd_crc C) (en_journal d1) (en_disk d1) = (a, dk)"
    by (cases "read_all (cd_command C) (cd_crc C) (en_journal d1) (en_disk d1)")
  note d2 = reachable.journal_read [OF d1 rd]
  show ?thesis
  proof (cases q)
    case (Inr u)
    note load = load [unfolded Inr]
    show ?thesis
    proof (cases a)
      case (Inr all)
      note rd = rd [unfolded Inr]
      from assms(2) load rd d2 replay_reachable [OF d2 cmds [OF load rd]] show ?thesis
        by (auto simp: restore_from_persistence_def Let_def split: if_splits)
    qed (use assms(2) load rd d2 in \<open>auto simp: restore_from_persistence_def\<close>)
  qed (use assms(2) load d1 in \<open>auto simp: restore_from_persistence_def\<close>)
qed

lemma admissible_cmd_core: "core e = core d \<Longrightarrow> admissible_cmd S cmd e \<longleftrightarrow> admissible_cmd S cmd d"
  by (cases cmd) (auto simp: core_def admissible_def after_removal_def split: option.split)

lemma engine_ok_core: "core e = core d \<Longrightarrow> engine_ok S e \<longleftrightarrow> engine_ok S d"
  by (simp add: core_def engine_ok_def)

lemma new_engine_core:
  "new_engine S now m config d snaps = Some e \<Longrightarrow>
   core e = (new_book S 1, new_account_manager default_risk_limits)"
  by (auto simp: new_engine_def core_def split: prod.splits sum.splits)

lemma run_step_core:
  "run_step S C now ts sends inb e = Some (outs, st, e') \<Longrightarrow>
   \<exists>evs e1. process S (in_cmd inb) (journal_step C now (in_cmd inb)
     (e\<lparr>en_metrics := queue_dec (en_metrics e)\<rparr>)) = Some (evs, e1) \<and> core e' = core e1"
  by (auto simp: run_step_def Let_def after_command_core split: option.splits prod.splits if_splits)

lemma load_nothing_core:
  assumes "\<forall>sn d. load_latest (cd_crc C) (en_snapshots e) \<noteq> (Inr (Some sn), d)" and "load_state S C e = (r, e')"
  shows "core e' = core e"
proof -
  obtain q d where "load_latest (cd_crc C) (en_snapshots e) = (q, d)"
    by (cases "load_latest (cd_crc C) (en_snapshots e)")
  with assms show ?thesis by (cases q) (auto simp: load_state_def core_def split: option.splits)
qed

lemma load_snapshot_core:
  assumes laws: "serde (cd_orders C) \<and> serde (cd_accounts C) \<and> serde (cd_snapshot C)"
    and latest: "load_latest (cd_crc C) (en_snapshots d) = (Inr (Some sn), snaps)"
    and bytes: "snapshot_bytes S C e = Some (sn_data sn)" and load: "load_state S C d = (r, d')"
  shows "core d' = (restore_orders S (snapshot_orders S (en_book e)) (en_book d), en_accounts e)"
proof -
  obtain b a where ba: "sd_to (cd_orders C) (snapshot_orders S (en_book e)) = Some b"
    "sd_to (cd_accounts C) (en_accounts e) = Some a"
    "sd_to (cd_snapshot C) \<lparr>es_book = b, es_accounts = a\<rparr> = Some (sn_data sn)"
    using bytes by (auto simp: snapshot_bytes_def split: option.splits)
  have "sd_from (cd_orders C) b = Some (snapshot_orders S (en_book e))"
    "sd_from (cd_accounts C) a = Some (en_accounts e)"
    "sd_from (cd_snapshot C) (sn_data sn) = Some \<lparr>es_book = b, es_accounts = a\<rparr>"
    by (rule serde.from_to [OF _ ba(1)] serde.from_to [OF _ ba(2)] serde.from_to [OF _ ba(3)], use laws in blast)+
  with latest load show ?thesis by (auto simp: load_state_def restore_from_snapshot_def core_def)
qed

text \<open>A book rebuilt from the orders of an uncrossed book is well formed and uncrossed.\<close>

lemma restored_ok:
  assumes "order_slab S" and "engine_ok S e"
    and core: "core d' = (restore_orders S (snapshot_orders S (en_book e)) b0, a)"
  shows "engine_ok S d'"
proof -
  have ok: "book_ok S (en_book e)" using assms(2) by (simp add: engine_ok_def)
  have b: "en_book d' = restore_orders S (snapshot_orders S (en_book e)) b0" using core by (simp add: core_def)
  note rs = restore_sides [OF assms(1) ok b]
  have "set (sides_of S d' s) = set (sides_of S e s)" for s using rs mset_eq_setD by blast
  then show ?thesis using assms(2) rs by (simp add: engine_ok_def uncrossed_def)
qed

lemma reachable_inv:
  assumes "order_slab S" and "reachable S C e"
  shows "engine_ok S e"
  using assms(2)
proof (induction rule: reachable.induct)
  case (start now m config d snaps e)
  then have "en_book e = new_book S 1" using new_engine_core [OF start] by (simp add: core_def)
  then show ?case using order_slab.new_book_ok [OF assms(1), of 1]
    by (simp add: engine_ok_def uncrossed_def)
next
  case (no_snapshot e r e')
  then show ?case using engine_ok_core [OF load_nothing_core] by blast
next
  case (snapshot e d sn snaps r d')
  then show ?case using restored_ok [OF assms(1)] load_snapshot_core by metis
next
  case (journal_read e r dk)
  then show ?case by (simp add: engine_ok_def)
next
  case (replayed e cmd e')
  have "admissible_cmd S (as_own (bk_symbol (en_book e)) cmd) e"
    using replayed by (cases cmd) (simp_all add: as_own_def)
  from order_slab.process_ok [OF assms(1) replayed(4) this] obtain evs e1 where
    p: "process S (as_own (bk_symbol (en_book e)) cmd) e = Some (evs, e1)" and "engine_ok S e1" by blast
  moreover have "core e' = core e1" using replay_command_core [of S cmd e] replayed(3) p by simp
  ultimately show ?case using engine_ok_core by blast
next
  case (message e inb now ts sends outs st e')
  let ?e0 = "journal_step C now (in_cmd inb) (e\<lparr>en_metrics := queue_dec (en_metrics e)\<rparr>)"
  have c: "core ?e0 = core e" by simp
  obtain evs e1 where p: "process S (in_cmd inb) ?e0 = Some (evs, e1)" and e': "core e' = core e1"
    using run_step_core [OF message(3)] by blast
  have "engine_ok S ?e0" "admissible_cmd S (in_cmd inb) ?e0"
    using message engine_ok_core [OF c] admissible_cmd_core [OF c] by simp_all
  from order_slab.process_ok [OF assms(1) this] p have "engine_ok S e1" by auto
  then show ?case using engine_ok_core [OF e'] by simp
qed

text \<open>C3: In every reachable state the book is well formed and not crossed: every bid is below every ask,
  whatever was restored from a snapshot or a journal, rested, matched, cancelled or replaced. Reachable
  means that every new order, received or replayed, has an id that is not live and values that fit (the engine
  checks neither), and that a snapshot that is loaded was written by such an engine.\<close>

theorem reachable_engine_ok:
  assumes "order_slab S" and "reachable S C e"
  shows "engine_ok S e"
  by (rule reachable_inv [OF assms])

definition ex_codecs :: codecs where
  "ex_codecs =
     \<lparr>cd_command = command_serde, cd_orders = \<lparr>sd_to = \<lambda>_. None, sd_from = \<lambda>_. None\<rparr>,
      cd_accounts = \<lparr>sd_to = \<lambda>_. None, sd_from = \<lambda>_. None\<rparr>,
      cd_snapshot = \<lparr>sd_to = \<lambda>_. None, sd_from = \<lambda>_. None\<rparr>, cd_crc = sum_check\<rparr>"

lemma run_step_ok:
  assumes "order_slab S" and "engine_ok S e" and "admissible_cmd S (in_cmd inb) e"
  shows "\<exists>outs st e'. run_step S C now ts sends inb e = Some (outs, st, e')"
proof -
  let ?d = "journal_step C now (in_cmd inb) (e\<lparr>en_metrics := queue_dec (en_metrics e)\<rparr>)"
  have c: "core ?d = core e" by simp
  have "engine_ok S ?d" "admissible_cmd S (in_cmd inb) ?d"
    using assms(2,3) engine_ok_core [OF c] admissible_cmd_core [OF c] by simp_all
  from order_slab.process_ok [OF assms(1) this] show ?thesis
    by (auto simp: run_step_def Let_def)
qed

lemma run_step_returns_aux:
  assumes "order_slab S" and "reachable S C e" and "admissible_cmd S (in_cmd inb) e"
  shows "\<exists>outs st e'. run_step S C now ts sends inb e = Some (outs, st, e')"
  using run_step_ok [OF assms(1) reachable_inv [OF assms(1,2)] assms(3)] .

text \<open>C16: No admissible message makes the engine panic: the step returns, whatever the disk and the
  channel do.\<close>

theorem run_step_returns:
  assumes "order_slab S" and "reachable S C e" and "admissible_cmd S (in_cmd inb) e"
  shows "\<exists>outs st e'. run_step S C now ts sends inb e = Some (outs, st, e')"
  by (rule run_step_returns_aux [OF assms])

lemma ex_engine_sides [simp]: "sides_of vec_slab ex_engine s = []"
  using vec_orders.new_book_ok(2) [of 1 s] by (simp add: ex_engine_def)

lemma ex_engine_admissible: "admissible vec_slab (ex_new 1 10 Sell 100 5) ex_engine"
  by (simp add: admissible_def qty_at_def i64_ok_def i64_min_def i64_max_def)

theorem run_step_returns_witness:
  "run_step vec_slab ex_codecs 5 5 (Some 0) \<lparr>in_conn_id = 1, in_cmd = NewOrder (ex_new 1 10 Sell 100 5)\<rparr>
     ex_engine \<noteq> None"
  using run_step_returns [OF vec_orders.order_slab_axioms reachable.start [OF ex_engine_new, of ex_codecs],
      of "\<lparr>in_conn_id = 1, in_cmd = NewOrder (ex_new 1 10 Sell 100 5)\<rparr>" 5 5 "Some 0"]
    ex_engine_admissible by auto

section \<open>Events\<close>

text \<open>C38: The events of a command carry consecutive sequence numbers starting at the engine's counter,
  and the counter moves past them: no number is skipped or used twice, whatever the command is.\<close>

theorem events_numbered:
  assumes "process S cmd e = Some (evs, e')"
  shows "numbered (en_server_seq e) evs \<and>
    en_server_seq e' = en_server_seq e + of_nat (length evs)"
  using process_numbers [OF assms] by (simp add: numbers_def)

theorem events_numbered_witness:
  "\<exists>evs e'. process vec_slab (NewOrder (ex_new 9 20 Buy 100 6)) ex_trading = Some (evs, e') \<and> length evs = 4 \<and>
     numbered 1 evs \<and> en_server_seq e' = 5"
proof -
  obtain evs e' where run: "handle_new vec_slab (ex_new 9 20 Buy 100 6) ex_trading = Some (evs, e')"
    and n: "length evs = 4"
    using order_slab.handle_new_ok [OF vec_orders.order_slab_axioms ex_trading_ok ex_admissible]
    by (auto simp: ex_admission accepts_def Let_def spec_new_def ex_trading_sides)
  from run have "process vec_slab (NewOrder (ex_new 9 20 Buy 100 6)) ex_trading = Some (evs, e')" by simp
  from events_numbered [OF this] this n show ?thesis by auto
qed

lemma restore_symbol: "bk_symbol (restore_orders S ords b) = bk_symbol b"
proof -
  have "bk_symbol (foldl (\<lambda>b' ord. insert_resting S ord b') b0 ords) = bk_symbol b0" for b0
    by (induction ords arbitrary: b0) simp_all
  then show ?thesis by (simp add: restore_orders_def)
qed

lemma reachable_symbol: "reachable S C e \<Longrightarrow> bk_symbol (en_book e) = 1"
proof (induction rule: reachable.induct)
  case (start now m config d snaps e)
  then show ?case using new_engine_core [OF start] by (simp add: core_def new_book_def)
next
  case (no_snapshot e r e')
  then show ?case using core_symbol [OF load_nothing_core] by metis
next
  case (snapshot e d sn snaps r d')
  then have "en_book d' = restore_orders S (snapshot_orders S (en_book e)) (en_book d)"
    using load_snapshot_core [OF snapshot(5,3,4,6)] by (simp add: core_def)
  then show ?case using snapshot by (simp add: restore_symbol)
next
  case (journal_read e r dk)
  then show ?case by simp
next
  case (replayed e cmd e')
  then obtain evs e1 where p: "process S (as_own (bk_symbol (en_book e)) cmd) e = Some (evs, e1)" "core e' = core e1"
    using replay_command_core [of S cmd e]
    by (cases "process S (as_own (bk_symbol (en_book e)) cmd) e") auto
  then show ?case using process_symbol [OF p(1)] core_symbol [OF p(2)] replayed(4) by simp
next
  case (message e inb now ts sends outs st e')
  obtain evs e1 where p: "process S (in_cmd inb) (journal_step C now (in_cmd inb)
      (e\<lparr>en_metrics := queue_dec (en_metrics e)\<rparr>)) = Some (evs, e1)" and e': "core e' = core e1"
    using run_step_core [OF message(3)] by blast
  have "core (journal_step C now (in_cmd inb) (e\<lparr>en_metrics := queue_dec (en_metrics e)\<rparr>)) = core e"
    by simp
  then show ?case using process_symbol [OF p] core_symbol [OF e'] core_symbol message(4) by metis
qed

text \<open>An engine serves symbol 1 only, whatever it is configured for: in every reachable state an
  order for another symbol is answered with \<open>Invalid\<close>.\<close>

theorem other_symbols_rejected:
  assumes "reachable S C e" and "no_symbol_id no \<noteq> 1"
  shows "process S (NewOrder no) e =
    Some ([reject_event (en_server_seq e) (no_client_seq no) (no_order_id no) Invalid], rejected e)"
  using reachable_symbol [OF assms(1)] assms(2)
  by (simp add: handle_new_def Let_def reject_ev_eq)

theorem other_symbols_rejected_witness:
  "process vec_slab (NewOrder ((ex_new 9 20 Buy 100 6)\<lparr>no_symbol_id := 2\<rparr>)) ex_engine =
     Some ([reject_event 1 1 9 Invalid], rejected ex_engine)"
  using other_symbols_rejected [OF reachable.start [OF ex_engine_new, of ex_codecs],
      of "(ex_new 9 20 Buy 100 6)\<lparr>no_symbol_id := 2\<rparr>"]
  by (simp add: ex_new_def) (simp add: ex_engine_def)

section \<open>Cancel and replace\<close>

text \<open>A cancel command has three outcomes: \<open>Invalid\<close> for another symbol, \<open>NotFound\<close> unless the
  account owns a live order with the id, and else the order leaves the book, the top of the book
  and an acknowledgement are emitted, and no position changes.\<close>

theorem cancel_command_outcomes:
  assumes "order_slab S" and "engine_ok S e"
  shows "\<exists>evs e'. process S (Cancel c) e = Some (evs, e') \<and> engine_ok S e' \<and> cancels S c e evs e'"
proof -
  obtain evs e' where "process_cancel S c e = (evs, e')" by (cases "process_cancel S c e")
  with order_slab.process_cancel_ok [OF assms this] show ?thesis by simp
qed

theorem cancel_command_outcomes_witness:
  "\<exists>evs e'. process vec_slab (Cancel \<lparr>ca_client_seq = 7, ca_order_id = 3, ca_account_id = 12, ca_symbol_id = 1\<rparr>)
       ex_trading = Some (evs, e') \<and> length evs = 2 \<and>
     sides_of vec_slab e' Sell = [ex_order 2 11 Sell 100 3, ex_order 1 10 Sell 101 5]"
proof -
  have "owned vec_slab ex_trading 3 12" by (auto simp: owned_def ex_side ex_trading_sides)
  with cancel_command_outcomes [OF vec_orders.order_slab_axioms ex_trading_ok,
      of "\<lparr>ca_client_seq = 7, ca_order_id = 3, ca_account_id = 12, ca_symbol_id = 1\<rparr>"]
  show ?thesis by (auto simp: cancels_def Let_def ex_trading_sides without_def)
qed

text \<open>C21: A replace is not atomic: when the replacement is refused, by the risk check or as a
  post-only order that would cross, the original order is gone from the book all the same.\<close>

theorem refused_replace_loses_order:
  assumes slab: "order_slab S" and ok: "engine_ok S e" and symb: "re_symbol_id r = bk_symbol (en_book e)"
    and q: "0 < re_new_qty r" and ord: "get_order S (en_book e) (re_order_id r) = Some ord"
    and acc: "o_account ord = re_account_id r"
    and refused: "admission S (replacement r ord) (after_removal S r e) = Some reason"
  shows "\<exists>e'. process S (Replace r) e =
      Some ([reject_event (en_server_seq e) (re_client_seq r) (re_order_id r) reason], e') \<and>
    sides_of S e' = (\<lambda>s. without (re_order_id r) (sides_of S e s))"
proof -
  note rm = order_slab.after_removal_ok [OF slab ok ord acc]
  have "book_ok S (en_book (after_removal S r e))" using rm(1) by (simp add: engine_ok_def)
  from handle_new_reject [OF this refused] rm(2) show ?thesis
    using symb q ord acc
    by (simp add: process_replace_eq) (simp add: replacement_def after_removal_def)
qed

theorem refused_replace_loses_order_witness:
  "\<exists>e'. process vec_slab (Replace \<lparr>re_client_seq = 7, re_order_id = 3, re_account_id = 12, re_symbol_id = 1,
       re_new_price = 100, re_new_qty = 5000\<rparr>) ex_trading = Some ([reject_event 1 7 3 Risk], e') \<and>
     sides_of vec_slab e' Sell = [ex_order 2 11 Sell 100 3, ex_order 1 10 Sell 101 5]"
proof -
  let ?r = "\<lparr>re_client_seq = 7, re_order_id = 3, re_account_id = 12, re_symbol_id = 1,
       re_new_price = 100, re_new_qty = 5000\<rparr> :: replace_cmd"
  have g: "get_order vec_slab (en_book ex_trading) 3 = Some (ex_order 3 12 Sell 100 4)" by code_simp
  have "check_risk (en_accounts (after_removal vec_slab ?r ex_trading)) 12 Sell 5000 = Inl Risk"
    by (simp add: check_risk_def Let_def after_removal_def default_risk_limits_def)
  then have "admission vec_slab (replacement ?r (ex_order 3 12 Sell 100 4)) (after_removal vec_slab ?r ex_trading)
      = Some Risk"
    by (simp add: admission_def replacement_def) (simp add: after_removal_def)
  from refused_replace_loses_order [OF vec_orders.order_slab_axioms ex_trading_ok _ _ _ _ this] g
  show ?thesis by (auto simp: ex_trading_sides without_def)
qed

text \<open>An order that reuses a live id is not refused. Its owner's cancel takes it off the book, and then the older
  order stays there: it trades, but it can be cancelled no more.\<close>

lemma duplicate_id_lost:
  "let cancel = Cancel \<lparr>ca_client_seq = 2, ca_order_id = 1, ca_account_id = 10, ca_symbol_id = 1\<rparr>;
       cmds = [NewOrder (ex_new 1 10 Sell 100 5), NewOrder (ex_new 1 10 Sell 101 5), cancel, cancel]
   in map_option (\<lambda>(evs, e). (map o_price (sides_of vec_slab e Sell), last evs)) (process_all vec_slab cmds ex_engine) =
     Some ([100], reject_event 7 2 1 NotFound)"
  by code_simp

section \<open>Positions\<close>

text \<open>C19: Applying a fill follows the exact accounting rule when the numbers fit: the net position
  moves by the signed quantity, the part against the position is closed at the entry price with
  its profit realized, and the entry price is kept, set to the fill price, or averaged. No other
  account and no limit changes.\<close>

theorem apply_fill_exact:
  assumes "0 < q" and "fill_fits px q (get_position m acc)"
  shows "\<exists>m'. apply_fill acc s px q m = Some m' \<and>
    get_position m' acc = exact_fill px (signed_qty s q) (get_position m acc) \<and>
    (\<forall>a. a \<noteq> acc \<longrightarrow> get_position m' a = get_position m a) \<and> (\<forall>a. get_limits m' a = get_limits m a)"
proof -
  have p: "(case s of Buy \<Rightarrow> fill_buy px q (get_position m acc) | Sell \<Rightarrow> fill_sell px q (get_position m acc)) =
      Some (exact_fill px (signed_qty s q) (get_position m acc))"
    using fill_buy_exact [OF assms] fill_sell_exact [OF assms] by (cases s) (simp_all add: signed_qty_def)
  then obtain m' where "apply_fill acc s px q m = Some m'" by (simp add: apply_fill_def)
  with get_position_apply [OF this] p show ?thesis by simp
qed

theorem apply_fill_exact_witness:
  "\<exists>m'. apply_fill 5 Sell 110 15 (new_account_manager default_risk_limits\<lparr>am_positions :=
       [(5, \<lparr>net_position = 10, avg_price = 100, realized_pnl = 0\<rparr>)]\<rparr>) = Some m' \<and>
     get_position m' 5 = \<lparr>net_position = - 5, avg_price = 110, realized_pnl = 100\<rparr>"
  using apply_fill_exact [of 15 110 "new_account_manager default_risk_limits\<lparr>am_positions :=
       [(5, \<lparr>net_position = 10, avg_price = 100, realized_pnl = 0\<rparr>)]\<rparr>" 5 Sell]
  by (auto simp: fill_fits_def Let_def get_position_def get_or_def i64_ok_def i64_min_def i64_max_def
      exact_fill_def closed_part_def signed_qty_def)

text \<open>The average entry price never leaves the range of the prices traded: if the old average of
  an open position and the fill price lie in a range, so does the new average.\<close>

theorem average_in_range:
  assumes "0 < q" and "fill_fits px q (get_position m acc)" and "px \<in> {lo..hi}"
    and "net_position (get_position m acc) \<noteq> 0 \<longrightarrow> avg_price (get_position m acc) \<in> {lo..hi}"
    and "apply_fill acc s px q m = Some m'"
  shows "avg_price (get_position m' acc) \<in> {lo..hi}"
proof -
  have p: "(case s of Buy \<Rightarrow> fill_buy px q (get_position m acc) | Sell \<Rightarrow> fill_sell px q (get_position m acc)) =
      Some (exact_fill px (signed_qty s q) (get_position m acc))"
    using fill_buy_exact [OF assms(1,2)] fill_sell_exact [OF assms(1,2)]
    by (cases s) (simp_all add: signed_qty_def)
  with get_position_apply [OF assms(5)]
  have "get_position m' acc = exact_fill px (signed_qty s q) (get_position m acc)" by simp
  moreover have "signed_qty s q \<noteq> 0" using assms(1) by (cases s) (simp_all add: signed_qty_def)
  ultimately show ?thesis using exact_fill_avg [OF assms(3,4)] by simp
qed

theorem average_in_range_witness:
  "\<exists>m'. apply_fill 5 Buy 110 5 (new_account_manager default_risk_limits\<lparr>am_positions :=
       [(5, \<lparr>net_position = 10, avg_price = 100, realized_pnl = 0\<rparr>)]\<rparr>) = Some m' \<and>
     avg_price (get_position m' 5) \<in> {100..110}"
proof -
  let ?m = "new_account_manager default_risk_limits\<lparr>am_positions :=
       [(5, \<lparr>net_position = 10, avg_price = 100, realized_pnl = 0\<rparr>)]\<rparr>"
  have fits: "fill_fits 110 5 (get_position ?m 5)"
    by (simp add: fill_fits_def Let_def get_position_def get_or_def i64_ok_def i64_min_def i64_max_def)
  obtain m' where run: "apply_fill 5 Buy 110 5 ?m = Some m'"
    using fill_buy_exact [OF _ fits] by (auto simp: apply_fill_def)
  from average_in_range [OF _ fits _ _ run, of 100 110] run show ?thesis
    by (simp add: get_position_def get_or_def)
qed

section \<open>Replay and recovery\<close>

text \<open>C20: Replay is deterministic: from equal books and accounts, replaying a list of commands ends in the
  same book and accounts as processing it with every cancel addressed to the engine's own symbol, and one
  panics exactly when the other does; so it ends as processing the list itself when no cancel names another
  symbol.\<close>

theorem replay_deterministic:
  assumes "core e = core d"
  shows "map_option core (replay S cmds d) =
      map_option (core \<circ> snd) (process_all S (map (as_own (bk_symbol (en_book e))) cmds) e) \<and>
    ((\<forall>cmd \<in> set cmds. own_cancel (bk_symbol (en_book e)) cmd) \<longrightarrow>
      map_option core (replay S cmds d) = map_option (core \<circ> snd) (process_all S cmds e))"
  using replay_as_own [OF assms refl] replay_core [OF _ assms] by blast

text \<open>The order of the restart examples, and the cancel of it that names another symbol.\<close>

definition ex_rest :: command where
  "ex_rest = NewOrder (ex_new 1 10 Sell 100 5)"

definition ex_take :: command where
  "ex_take = NewOrder (ex_new 2 20 Buy 100 3)"

definition ex_foreign :: "symbol_id \<Rightarrow> command" where
  "ex_foreign symb = Cancel \<lparr>ca_client_seq = 2, ca_order_id = 1, ca_account_id = 10, ca_symbol_id = symb\<rparr>"

theorem replay_deterministic_witness:
  "map_option core (replay vec_slab [ex_rest, ex_foreign 2, ex_take] ex_engine) =
     map_option (core \<circ> snd) (process_all vec_slab [ex_rest, ex_foreign 1, ex_take] ex_engine) \<and>
   map_option core (replay vec_slab [ex_rest, ex_take] ex_engine) =
     map_option (core \<circ> snd) (process_all vec_slab [ex_rest, ex_take] ex_engine)"
proof -
  have "bk_symbol (en_book ex_engine) = 1" by (simp add: ex_engine_def new_book_def)
  with replay_deterministic [of ex_engine ex_engine vec_slab "[ex_rest, ex_foreign 2, ex_take]"]
    replay_deterministic [of ex_engine ex_engine vec_slab "[ex_rest, ex_take]"]
  show ?thesis by (simp add: as_own_def own_cancel_def ex_rest_def ex_foreign_def ex_take_def)
qed

text \<open>The address matters: a cancel for another symbol is refused when it is processed, but its
  replay takes the order off the book.\<close>

theorem replay_diverges:
  "let cmds = [NewOrder (ex_new 1 10 Sell 100 5),
               Cancel \<lparr>ca_client_seq = 2, ca_order_id = 1, ca_account_id = 10, ca_symbol_id = 2\<rparr>]
   in map_option (\<lambda>r. live_order_count (en_book (snd r))) (process_all vec_slab cmds ex_engine) = Some 1 \<and>
      map_option (\<lambda>e. live_order_count (en_book e)) (replay vec_slab cmds ex_engine) = Some 0"
  by code_simp

text \<open>C13: Recovery from the journal: an engine that is started on a journal, runs on disks without faults and
  with no snapshot, ends before its first rotation and its first snapshot are due, and is shut down, is
  restored on the files it left, with the same configuration, to exactly its book and its accounts, when no
  journaled cancel names another symbol. The journal may hold commands of earlier runs.\<close>

theorem recovery_exact:
  assumes "journal_codec (cd_command C)" and "dk_faults dk = []" "dk_files snaps = []"
    and "file_bytes dk (ec_journal_path config) = frames (cd_command C) (cd_crc C) hist"
    and "\<forall>cmd \<in> set (hist @ cmds_of ms). framable (cd_command C) cmd \<and> own_cancel 1 cmd"
    and "short_run config (length hist) (length ms)"
    and "new_engine S t0 m0 config dk snaps = Some f" "restore_from_persistence S C f = Some (r, e)"
    and "run_all S C ms e = Some (outs, e')"
  shows "\<exists>d d'. new_engine S t1 m1 config (en_disk (shutdown C t2 e')) (en_snapshots (shutdown C t2 e')) = Some d \<and>
    restore_from_persistence S C d = Some (Inr (), d') \<and> core d' = core e'"
  by (rule recovery_ok [OF assms])

lemma ex_framable: "framable command_serde (NewOrder (ex_new 1 10 Sell 100 5))"
  by (simp add: framable_def command_serde_def serde_of_def w_command_def w_map_def w_sum_def
      w_new_order_def w_pair_def w_word_def w_nat_def w_int_def w_side_def w_tif_def w_bool_def
      w_flags_def zigzag_def varint.simps max_frame_def)

lemma ex_framable_cmds:
  "framable (cd_command ex_codecs) ex_rest \<and> own_cancel 1 ex_rest"
  "framable (cd_command ex_codecs) ex_take \<and> own_cancel 1 ex_take"
  using ex_framable
  by (simp_all add: ex_codecs_def ex_rest_def ex_take_def own_cancel_def framable_def command_serde_def serde_of_def
      w_command_def w_map_def w_sum_def w_new_order_def w_pair_def w_word_def w_nat_def w_int_def w_side_def w_tif_def
      w_bool_def w_flags_def zigzag_def varint.simps max_frame_def)

lemma ex_journal_codec: "journal_codec (cd_command ex_codecs)"
  using wire_journal.journal_codec_axioms by (simp add: ex_codecs_def)

text \<open>An engine on a journal that holds the resting order of an earlier run.\<close>

definition ex_log :: "engine_config \<Rightarrow> disk" where
  "ex_log config = \<lparr>dk_files = [(ec_journal_path config, frames (cd_command ex_codecs) (cd_crc ex_codecs) [ex_rest])],
     dk_faults = []\<rparr>"

lemma ex_log_sel:
  "dk_faults (ex_log config) = []" "dk_files empty_disk = []"
  "file_bytes (ex_log config) (ec_journal_path config) = frames (cd_command ex_codecs) (cd_crc ex_codecs) [ex_rest]"
  by (simp_all add: ex_log_def empty_disk_def file_bytes_def get_or_def del: frames_simps)

lemma ex_short: "short_run default_engine_config 1 n \<longleftrightarrow> n < 99999"
  by (auto simp: short_run_def default_engine_config_def default_journal_config_def)

lemma ex_processed:
  "map_option (\<lambda>r. (sides_of vec_slab (snd r) Sell, en_accounts (snd r))) (process_all vec_slab [ex_rest] ex_engine) =
     Some ([ex_order 1 10 Sell 100 5], new_account_manager default_risk_limits)"
  "map_option (\<lambda>r. sides_of vec_slab (snd r) Buy) (process_all vec_slab [ex_rest] ex_engine) = Some []"
  "map_option (\<lambda>r. sides_of vec_slab (snd r) Sell) (process_all vec_slab [ex_rest, ex_take] ex_engine) =
     Some [ex_order 1 10 Sell 100 2]"
  by code_simp+

text \<open>It is restored to a reachable engine with the order, which the next order then trades with.\<close>

lemma ex_restored:
  obtains f e where "new_engine vec_slab 0 default_metrics config (ex_log config) empty_disk = Some f"
    and "restore_from_persistence vec_slab ex_codecs f = Some (Inr (), e)"
    and "reachable vec_slab ex_codecs e" "admissible_cmd vec_slab ex_take e"
    and "map_option (core \<circ> snd) (process_all vec_slab [ex_rest] ex_engine) = Some (core e)"
proof -
  have fresh: "core ex_engine = (new_book vec_slab 1, new_account_manager default_risk_limits)"
    by (rule new_engine_core [OF ex_engine_new])
  obtain evs0 e0 where e0: "process_all vec_slab [ex_rest] ex_engine = Some (evs0, e0)" using ex_processed(1) by auto
  have cmds: "\<forall>cmd \<in> set [ex_rest]. framable (cd_command ex_codecs) cmd" "\<forall>cmd \<in> set [ex_rest]. own_cancel 1 cmd"
    using ex_framable_cmds by simp_all
  obtain f e where f: "new_engine vec_slab 0 default_metrics config (ex_log config) empty_disk = Some f"
    and e: "restore_from_persistence vec_slab ex_codecs f = Some (Inr (), e)" "core e = core e0"
    using restart_replays [OF ex_journal_codec cmds ex_log_sel(1,2) ex_log_sel(3) [of config] fresh, of "core e0" 0 default_metrics] e0
    by (auto simp del: process_all.simps)
  have cf: "core f = core ex_engine" using new_engine_core [OF f] fresh by simp
  have held: "dk_faults (en_disk f) = []" "dk_files (en_snapshots f) = []" "en_command_seq f = 0"
    "map_of (dk_files (en_disk f)) (jr_handle (en_journal f)) = Some (frames (cd_command ex_codecs) (cd_crc ex_codecs) [ex_rest])"
    by (rule new_engine_ok [OF ex_log_sel(1) [of config], of vec_slab 0 default_metrics config empty_disk],
      use f ex_log_sel in simp)+
  note rf = restore_from_journal(2,3) [OF ex_journal_codec held cmds(1)]
  have adm: "admissible_cmd vec_slab ex_rest f"
    using ex_engine_admissible admissible_cmd_core [OF cf] by (simp add: ex_rest_def)
  have "reachable vec_slab ex_codecs e"
  proof (rule restore_reachable [OF reachable.start [OF f] e(1)])
    fix sn snaps assume "load_latest (cd_crc ex_codecs) (en_snapshots f) = (Inr (Some sn), snaps)"
    then show "\<exists>e. reachable vec_slab ex_codecs e \<and> snapshot_bytes vec_slab ex_codecs e = Some (sn_data sn) \<and>
        serde (cd_orders ex_codecs) \<and> serde (cd_accounts ex_codecs) \<and> serde (cd_snapshot ex_codecs)"
      using held(2) by (simp add: load_latest_def)
  next
    fix u d1 all dk assume "load_state vec_slab ex_codecs f = (Inr u, d1)"
      "read_all (cd_command ex_codecs) (cd_crc ex_codecs) (en_journal d1) (en_disk d1) = (Inr all, dk)"
    with rf held(3) adm show "admissible_replay vec_slab (drop (unat (en_command_seq d1)) all) (d1\<lparr>en_disk := dk\<rparr>)"
      by (simp split: option.split)
  qed
  moreover have "sides_of vec_slab e0 Sell = [ex_order 1 10 Sell 100 5]" "sides_of vec_slab e0 Buy = []"
    "en_accounts e0 = new_account_manager default_risk_limits"
    using ex_processed(1,2) e0 by simp_all
  then have "admissible_cmd vec_slab ex_take e0"
    by (simp add: ex_take_def admissible_def all_sides qty_at_def i64_ok_def i64_min_def i64_max_def
        new_account_manager_def get_position_def get_or_def default_position_def)
  ultimately show thesis using that [OF f e(1)] admissible_cmd_core [OF e(2)] e0 e(2) by simp
qed

lemma ex_traded:
  assumes "map_option (core \<circ> snd) (process_all vec_slab [ex_rest] ex_engine) = Some (core e)"
  obtains outs e' where "run_all vec_slab ex_codecs [(5, 5, \<lparr>in_conn_id = 1, in_cmd = ex_take\<rparr>)] e = Some (outs, e')"
    and "sides_of vec_slab e' Sell = [ex_order 1 10 Sell 100 2]"
proof -
  let ?ms = "[(5, 5, \<lparr>in_conn_id = 1, in_cmd = ex_take\<rparr>)]"
  obtain evs e2 where e2: "process_all vec_slab [ex_rest, ex_take] ex_engine = Some (evs, e2)"
    and s: "sides_of vec_slab e2 Sell = [ex_order 1 10 Sell 100 2]" using ex_processed(3) by auto
  obtain evs1 e1 where e1: "process_all vec_slab [ex_rest] ex_engine = Some (evs1, e1)" "core e1 = core e"
    using assms by auto
  have "map_option (core \<circ> snd) (process_all vec_slab [ex_take] e1) = Some (core e2)"
    using e1(1) e2 by (auto split: option.splits)
  then have "map_option (core \<circ> snd) (run_all vec_slab ex_codecs ?ms e) = Some (core e2)"
    using run_all_core [of e e1 vec_slab ex_codecs ?ms] e1(2) by simp
  then obtain outs e' where "run_all vec_slab ex_codecs ?ms e = Some (outs, e')" "core e' = core e2" by auto
  with that s show thesis by (simp add: core_def)
qed

theorem reachable_engine_ok_witness:
  "\<exists>f e outs st e'. new_engine vec_slab 0 default_metrics default_engine_config (ex_log default_engine_config) empty_disk = Some f \<and>
     restore_from_persistence vec_slab ex_codecs f = Some (Inr (), e) \<and>
     run_step vec_slab ex_codecs 5 5 None \<lparr>in_conn_id = 1, in_cmd = ex_take\<rparr> e = Some (outs, st, e') \<and>
     sides_of vec_slab e' Sell = [ex_order 1 10 Sell 100 2] \<and> engine_ok vec_slab e'"
proof (rule ex_restored)
  fix f e assume f: "new_engine vec_slab 0 default_metrics default_engine_config (ex_log default_engine_config) empty_disk = Some f"
    "restore_from_persistence vec_slab ex_codecs f = Some (Inr (), e)"
    and e: "reachable vec_slab ex_codecs e" "admissible_cmd vec_slab ex_take e"
    and core: "map_option (core \<circ> snd) (process_all vec_slab [ex_rest] ex_engine) = Some (core e)"
  obtain outs e' where run: "run_all vec_slab ex_codecs [(5, 5, \<lparr>in_conn_id = 1, in_cmd = ex_take\<rparr>)] e = Some (outs, e')"
    and s: "sides_of vec_slab e' Sell = [ex_order 1 10 Sell 100 2]" by (rule ex_traded [OF core])
  obtain st where st: "run_step vec_slab ex_codecs 5 5 None \<lparr>in_conn_id = 1, in_cmd = ex_take\<rparr> e = Some (outs, st, e')"
    using run by (auto split: option.splits prod.splits)
  from e(2) have "admissible_cmd vec_slab (in_cmd \<lparr>in_conn_id = 1, in_cmd = ex_take\<rparr>) e" by simp
  from reachable_engine_ok [OF vec_orders.order_slab_axioms reachable.message [OF e(1) this st]] f st s
  show ?thesis by blast
qed

theorem recovery_exact_witness:
  "\<exists>f e outs e' d d'. new_engine vec_slab 0 default_metrics default_engine_config (ex_log default_engine_config) empty_disk = Some f \<and>
     restore_from_persistence vec_slab ex_codecs f = Some (Inr (), e) \<and>
     run_all vec_slab ex_codecs [(5, 5, \<lparr>in_conn_id = 1, in_cmd = ex_take\<rparr>)] e = Some (outs, e') \<and>
     sides_of vec_slab e' Sell = [ex_order 1 10 Sell 100 2] \<and>
     new_engine vec_slab 9 default_metrics default_engine_config (en_disk (shutdown ex_codecs 8 e'))
       (en_snapshots (shutdown ex_codecs 8 e')) = Some d \<and>
     restore_from_persistence vec_slab ex_codecs d = Some (Inr (), d') \<and> core d' = core e'"
proof (rule ex_restored)
  fix f e assume f: "new_engine vec_slab 0 default_metrics default_engine_config (ex_log default_engine_config) empty_disk = Some f"
    "restore_from_persistence vec_slab ex_codecs f = Some (Inr (), e)"
    and core: "map_option (core \<circ> snd) (process_all vec_slab [ex_rest] ex_engine) = Some (core e)"
  let ?ms = "[(5, 5, \<lparr>in_conn_id = 1, in_cmd = ex_take\<rparr>)]"
  obtain outs e' where run: "run_all vec_slab ex_codecs ?ms e = Some (outs, e')"
    and s: "sides_of vec_slab e' Sell = [ex_order 1 10 Sell 100 2]" by (rule ex_traded [OF core])
  have "\<forall>cmd \<in> set ([ex_rest] @ cmds_of ?ms). framable (cd_command ex_codecs) cmd \<and> own_cancel 1 cmd"
    using ex_framable_cmds by simp
  from recovery_exact [OF ex_journal_codec ex_log_sel(1,2) ex_log_sel(3) [of default_engine_config] this _ f run, of 9 default_metrics 8] ex_short [of 1] f run s
  show ?thesis by (simp; blast)
qed

text \<open>What a restore replays: after a snapshot of sequence \<open>n\<close>, the commands of the current journal
  file from index \<open>n\<close> on. When the file was started by a rotation, commands that the snapshot does
  not contain stand before that index and are skipped.\<close>

theorem restore_replays_suffix:
  assumes "load_state S C e = (Inr (), e1)"
    and "read_all (cd_command C) (cd_crc C) (en_journal e1) (en_disk e1) = (Inr cmds, dk)"
  shows "restore_from_persistence S C e =
    map_option (Pair (Inr ())) (replay S (drop (unat (en_command_seq e1)) cmds) (e1\<lparr>en_disk := dk\<rparr>))"
  using assms by (simp add: restore_from_persistence_def Let_def)

theorem restore_replays_suffix_witness:
  "restore_from_persistence vec_slab ex_codecs
     (ex_engine\<lparr>en_command_seq := 2,
        en_disk := \<lparr>dk_files = [(''j.bin'', frames command_serde sum_check [NewOrder (ex_new 1 10 Sell 100 5)])],
                    dk_faults = []\<rparr>\<rparr>) =
   Some (Inr (), ex_engine\<lparr>en_command_seq := 2,
        en_disk := \<lparr>dk_files = [(''j.bin'', frames command_serde sum_check [NewOrder (ex_new 1 10 Sell 100 5)])],
                    dk_faults = []\<rparr>\<rparr>)"
proof -
  let ?d = "\<lparr>dk_files = [(''j.bin'', frames command_serde sum_check [NewOrder (ex_new 1 10 Sell 100 5)])],
       dk_faults = []\<rparr> :: disk"
  let ?e = "ex_engine\<lparr>en_command_seq := 2, en_disk := ?d\<rparr>"
  have l: "load_state vec_slab ex_codecs ?e = (Inr (), ?e)"
    by (simp add: load_state_def load_latest_def ex_engine_def empty_disk_def)
  have "read_frames command_serde sum_check (frames command_serde sum_check [NewOrder (ex_new 1 10 Sell 100 5)]) =
      Inr [NewOrder (ex_new 1 10 Sell 100 5)]"
    by (rule wire_journal.read_frames_all) (simp add: ex_framable)
  then have r: "read_all (cd_command ex_codecs) (cd_crc ex_codecs) (en_journal ?e) (en_disk ?e) =
      (Inr [NewOrder (ex_new 1 10 Sell 100 5)], ?d)"
    by (simp add: read_all_def io_bind_def os_unit_ok ex_codecs_def ex_engine_def ex_journal_def
        file_bytes_def get_or_def del: frames_simps)
  from restore_replays_suffix [OF l r] show ?thesis by simp
qed

text \<open>C22: An engine snapshot restores: once saved, it is the newest one, and loading it gives the
  accounts back exactly, every live order at its price in the slab's order, and the command
  counter; the event counter restarts behind the command counter.\<close>

theorem engine_snapshot_restores:
  assumes "order_slab S" and "serde (cd_orders C)" "serde (cd_accounts C)" "serde (cd_snapshot C)"
    and "engine_ok S e" and "snapshot_bytes S C e = Some bs" "length bs < 2 ^ 32"
    and "dk_faults (en_snapshots e) = []" "keys_distinct (dk_files (en_snapshots e))"
    and "snapshots_below (en_command_seq e) (en_snapshots e)"
    and "take_snapshot S C e = (r, e')" and "en_snapshots d = en_snapshots e'"
  shows "r = Inr () \<and> (\<exists>d'. load_state S C d = (Inr (), d') \<and>
    holds_orders S (en_book d') (snapshot_orders S (en_book e)) \<and>
    en_accounts d' = en_accounts e \<and> en_command_seq d' = en_command_seq e \<and>
    en_server_seq d' = en_command_seq e + 1)"
  by (rule order_slab.snapshot_restores [OF assms(1-4) _ assms(6-12)]) (use assms(5) in \<open>simp add: engine_ok_def\<close>)

lemma ex_snapshot_orders: "snapshot_orders vec_slab (en_book ex_trading) = ex_orders"
  by code_simp

lemma ex_snapshot_bytes: "\<exists>bs. snapshot_bytes vec_slab wire_codecs ex_trading = Some bs \<and> length bs < 2 ^ 32"
proof -
  have small: "n < 128 \<Longrightarrow> varint n = [of_nat n]" for n by (simp add: varint.simps)
  have large: "128 \<le> n \<Longrightarrow> varint n = of_nat (128 + n mod 128) # varint (n div 128)" for n
    by (subst varint.simps) simp
  show ?thesis
    unfolding snapshot_bytes_def ex_snapshot_orders
    by (simp add: wire_codecs_def serde_of_def ex_orders_def w_list_def w_order_def ex_order_def w_map_def
        w_pair_def w_word_def w_nat_def w_int_def w_side_def w_tif_def w_bool_def w_flags_def zigzag_def
        small large w_accounts_def ex_trading_def ex_engine_def new_account_manager_def
        default_risk_limits_def w_limits_def w_snapshot_def w_byte_def)
qed

theorem engine_snapshot_restores_witness:
  "\<exists>d'. load_state vec_slab wire_codecs
       (ex_engine\<lparr>en_snapshots := en_snapshots (snd (take_snapshot vec_slab wire_codecs ex_trading))\<rparr>) = (Inr (), d') \<and>
     holds_orders vec_slab (en_book d') ex_orders \<and> en_command_seq d' = 0"
proof -
  obtain bs where bs: "snapshot_bytes vec_slab wire_codecs ex_trading = Some bs" "length bs < 2 ^ 32"
    using ex_snapshot_bytes by blast
  have disk: "en_snapshots ex_trading = empty_disk" by (simp add: ex_trading_def ex_engine_def)
  show ?thesis
    using engine_snapshot_restores [OF vec_orders.order_slab_axioms wire_codecs_laws(1-3) ex_trading_ok bs
        _ _ _ prod.collapse [symmetric],
        of "ex_engine\<lparr>en_snapshots := en_snapshots (snd (take_snapshot vec_slab wire_codecs ex_trading))\<rparr>"]
    by (auto simp: disk empty_disk_def snapshots_below_def snapshot_entries_def ex_snapshot_orders)
qed

end
