(* ===== verification/Codec.thy ===== *)
theory Codec
  imports Bytes
begin

text \<open>
  \<open>crates/codecs\<close>: the binary codec between clients and the gateway, and the JSON one, which only
  calls \<open>serde_json\<close>. Buffers are byte lists. The \<open>bytes\<close> crate is a parameter: \<open>bytes_crate\<close> is
  the record of the reads and writes the codec calls, and the locale \<open>buf_laws\<close> states what
  the crate documents: a write appends the little-endian bytes of its value, a read takes them
  from the front (and panics when too few are left, which the codec's guards exclude).
\<close>

datatype proto_error =
    ProtoFrameTooLarge nat
  | Malformed string

section \<open>The bytes crate\<close>

record bytes_crate =
  get_u8_op :: "u8 list \<Rightarrow> u8 \<times> u8 list"
  get_u16_le :: "u8 list \<Rightarrow> u16 \<times> u8 list"
  get_u32_le :: "u8 list \<Rightarrow> u32 \<times> u8 list"
  get_u64_le :: "u8 list \<Rightarrow> u64 \<times> u8 list"
  get_i64_le :: "u8 list \<Rightarrow> i64 \<times> u8 list"
  copy_to_bytes :: "nat \<Rightarrow> u8 list \<Rightarrow> u8 list \<times> u8 list"
  put_u8 :: "u8 \<Rightarrow> u8 list \<Rightarrow> u8 list"
  put_u16_le :: "u16 \<Rightarrow> u8 list \<Rightarrow> u8 list"
  put_u32_le :: "u32 \<Rightarrow> u8 list \<Rightarrow> u8 list"
  put_u64_le :: "u64 \<Rightarrow> u8 list \<Rightarrow> u8 list"
  put_i64_le :: "i64 \<Rightarrow> u8 list \<Rightarrow> u8 list"
  put_slice :: "u8 list \<Rightarrow> u8 list \<Rightarrow> u8 list"

text \<open>The bytes of an \<open>i64\<close> are those of its two's complement.\<close>

definition i64_bytes :: "i64 \<Rightarrow> u8 list" where
  "i64_bytes x = to_le (word_of_int x :: u64)"

section \<open>Strings\<close>

text \<open>\<open>String::from_utf8\<close>: the well-formed byte sequences of the Unicode standard (no overlong
  forms, no surrogates, nothing above U+10FFFF).\<close>

definition cont :: "u8 \<Rightarrow> bool" where
  "cont b \<longleftrightarrow> 0x80 \<le> b \<and> b \<le> 0xBF"

fun utf8_valid :: "u8 list \<Rightarrow> bool" where
  "utf8_valid [] = True"
| "utf8_valid (a # r) =
     (if a < 0x80 then utf8_valid r
      else
        case r of
          [] \<Rightarrow> False
        | b # r1 \<Rightarrow>
            if 0xC2 \<le> a \<and> a \<le> 0xDF then cont b \<and> utf8_valid r1
            else
              case r1 of
                [] \<Rightarrow> False
              | c # r2 \<Rightarrow>
                  if 0xE0 \<le> a \<and> a \<le> 0xEF then
                    cont b \<and> cont c \<and> (a = 0xE0 \<longrightarrow> 0xA0 \<le> b) \<and> (a = 0xED \<longrightarrow> b \<le> 0x9F) \<and> utf8_valid r2
                  else
                    case r2 of
                      [] \<Rightarrow> False
                    | d # r3 \<Rightarrow>
                        0xF0 \<le> a \<and> a \<le> 0xF4 \<and> cont b \<and> cont c \<and> cont d \<and>
                        (a = 0xF0 \<longrightarrow> 0x90 \<le> b) \<and> (a = 0xF4 \<longrightarrow> b \<le> 0x8F) \<and> utf8_valid r3)"

definition string_bytes :: "string \<Rightarrow> u8 list" where
  "string_bytes s = map (\<lambda>c. of_nat (of_char c)) s"

definition bytes_string :: "u8 list \<Rightarrow> string" where
  "bytes_string bs = map (\<lambda>b. char_of (unat b)) bs"

section \<open>Reading\<close>

type_synonym 'a read = "u8 list \<Rightarrow> proto_error + 'a \<times> u8 list"

definition underrun :: proto_error where
  "underrun = Malformed ''binary: underrun''"

definition get_u8 :: "bytes_crate \<Rightarrow> u8 read" where
  "get_u8 B b = (if length b < 1 then Inl underrun else Inr (get_u8_op B b))"

definition get_u32 :: "bytes_crate \<Rightarrow> u32 read" where
  "get_u32 B b = (if length b < 4 then Inl underrun else Inr (get_u32_le B b))"

definition get_u64 :: "bytes_crate \<Rightarrow> u64 read" where
  "get_u64 B b = (if length b < 8 then Inl underrun else Inr (get_u64_le B b))"

definition get_i64 :: "bytes_crate \<Rightarrow> i64 read" where
  "get_i64 B b = (if length b < 8 then Inl underrun else Inr (get_i64_le B b))"

definition get_string :: "bytes_crate \<Rightarrow> string read" where
  "get_string B b =
     (if length b < 4 then Inl underrun
      else
        let (n, b1) = get_u32_le B b; len = unat n
        in if length b1 < len then Inl underrun
           else
             let (bs, b2) = copy_to_bytes B len b1
             in if utf8_valid bs then Inr (bytes_string bs, b2)
                else Inl (Malformed ''binary: invalid utf8''))"

text \<open>The \<open>?\<close> of the source.\<close>

definition rd_bind :: "proto_error + 'a \<times> u8 list \<Rightarrow> ('a \<Rightarrow> 'b read) \<Rightarrow> proto_error + 'b \<times> u8 list" where
  "rd_bind r f = (case r of Inl e \<Rightarrow> Inl e | Inr (a, b) \<Rightarrow> f a b)"

text \<open>A byte that selects one of two values.\<close>

definition get_flag :: "bytes_crate \<Rightarrow> string \<Rightarrow> 'a \<Rightarrow> 'a \<Rightarrow> 'a read" where
  "get_flag B err x y b =
     rd_bind (get_u8 B b) (\<lambda>t b1.
       if t = 0 then Inr (x, b1) else if t = 1 then Inr (y, b1) else Inl (Malformed err))"

section \<open>Decoding commands\<close>

definition decode_new_order :: "bytes_crate \<Rightarrow> command read" where
  "decode_new_order B b =
     rd_bind (get_u64 B b) (\<lambda>client_seq b.
     rd_bind (get_u64 B b) (\<lambda>oid b.
     rd_bind (get_u32 B b) (\<lambda>acc b.
     rd_bind (get_u32 B b) (\<lambda>symb b.
     rd_bind (get_flag B ''binary: bad side'' Buy Sell b) (\<lambda>s b.
     rd_bind (get_i64 B b) (\<lambda>px b.
     rd_bind (get_i64 B b) (\<lambda>q b.
     rd_bind (get_flag B ''binary: bad tif'' Gtc Ioc b) (\<lambda>tif b.
     rd_bind (get_flag B ''binary: bad post_only'' False True b) (\<lambda>po b.
       Inr (NewOrder
         \<lparr>no_client_seq = client_seq, no_order_id = oid, no_account_id = acc, no_symbol_id = symb,
          no_side = s, no_price = px, no_qty = q, no_tif = tif, no_flags = \<lparr>post_only = po\<rparr>\<rparr>, b))))))))))"

definition decode_cancel :: "bytes_crate \<Rightarrow> command read" where
  "decode_cancel B b =
     rd_bind (get_u64 B b) (\<lambda>client_seq b.
     rd_bind (get_u64 B b) (\<lambda>oid b.
     rd_bind (get_u32 B b) (\<lambda>acc b.
     rd_bind (get_u32 B b) (\<lambda>symb b.
       Inr (Cancel \<lparr>ca_client_seq = client_seq, ca_order_id = oid, ca_account_id = acc,
                    ca_symbol_id = symb\<rparr>, b)))))"

definition decode_replace :: "bytes_crate \<Rightarrow> command read" where
  "decode_replace B b =
     rd_bind (get_u64 B b) (\<lambda>client_seq b.
     rd_bind (get_u64 B b) (\<lambda>oid b.
     rd_bind (get_u32 B b) (\<lambda>acc b.
     rd_bind (get_u32 B b) (\<lambda>symb b.
     rd_bind (get_i64 B b) (\<lambda>px b.
     rd_bind (get_i64 B b) (\<lambda>q b.
       Inr (Replace \<lparr>re_client_seq = client_seq, re_order_id = oid, re_account_id = acc,
                     re_symbol_id = symb, re_new_price = px, re_new_qty = q\<rparr>, b)))))))"

definition decode_set_risk_limits :: "bytes_crate \<Rightarrow> command read" where
  "decode_set_risk_limits B b =
     rd_bind (get_u64 B b) (\<lambda>client_seq b.
     rd_bind (get_u32 B b) (\<lambda>acc b.
     rd_bind (get_u32 B b) (\<lambda>symb b.
     rd_bind (get_i64 B b) (\<lambda>max_long b.
     rd_bind (get_i64 B b) (\<lambda>max_short b.
     rd_bind (get_i64 B b) (\<lambda>max_size b.
       Inr (SetRiskLimits \<lparr>sr_client_seq = client_seq, sr_account_id = acc, sr_symbol_id = symb,
              sr_limits = \<lparr>max_long_position = max_long, max_short_position = max_short,
                           max_order_size = max_size\<rparr>\<rparr>, b)))))))"

definition decode_query_account :: "bytes_crate \<Rightarrow> command read" where
  "decode_query_account B b =
     rd_bind (get_u64 B b) (\<lambda>client_seq b.
     rd_bind (get_u32 B b) (\<lambda>acc b.
     rd_bind (get_u32 B b) (\<lambda>symb b.
       Inr (QueryAccount \<lparr>qa_client_seq = client_seq, qa_account_id = acc, qa_symbol_id = symb\<rparr>, b))))"

definition decode_authenticate :: "bytes_crate \<Rightarrow> command read" where
  "decode_authenticate B b =
     rd_bind (get_string B b) (\<lambda>key b. Inr (Authenticate \<lparr>au_api_key = key\<rparr>, b))"

text \<open>The bytes behind the command are not looked at.\<close>

definition decode_command :: "bytes_crate \<Rightarrow> u8 list \<Rightarrow> proto_error + command" where
  "decode_command B input =
     (if length input < 2 then Inl (Malformed ''binary: missing msg_type'')
      else
        let (mt, b) = get_u16_le B input
        in map_sum id fst
             (if mt = 1 then decode_new_order B b
              else if mt = 2 then decode_cancel B b
              else if mt = 3 then decode_replace B b
              else if mt = 4 then decode_set_risk_limits B b
              else if mt = 5 then decode_query_account B b
              else if mt = 6 then decode_authenticate B b
              else Inl (Malformed ''binary: unknown msg_type'')))"

section \<open>Encoding events\<close>

definition put_opt_i64 :: "bytes_crate \<Rightarrow> i64 option \<Rightarrow> u8 list \<Rightarrow> u8 list" where
  "put_opt_i64 B v out =
     (case v of Some x \<Rightarrow> put_i64_le B x (put_u8 B 1 out) | None \<Rightarrow> put_u8 B 0 out)"

definition put_string :: "bytes_crate \<Rightarrow> string \<Rightarrow> u8 list \<Rightarrow> u8 list" where
  "put_string B s out =
     (let bs = string_bytes s in put_slice B bs (put_u32_le B (of_nat (length bs)) out))"

fun reason_code :: "reject_reason \<Rightarrow> u8" where
  "reason_code Invalid = 1"
| "reason_code Risk = 2"
| "reason_code Overloaded = 3"
| "reason_code NotFound = 4"
| "reason_code PostOnlyWouldCross = 5"
| "reason_code RateLimitExceeded = 6"

text \<open>The writes of each arm, in order; \<open>encode_event\<close> never fails.\<close>

definition puts :: "(u8 list \<Rightarrow> u8 list) list \<Rightarrow> u8 list \<Rightarrow> u8 list" where
  "puts ws out = foldl (\<lambda>o' w. w o') out ws"

fun encode_event :: "bytes_crate \<Rightarrow> event \<Rightarrow> u8 list \<Rightarrow> u8 list" where
  "encode_event B (EvAck a) out =
     puts [put_u16_le B 101, put_u64_le B (ak_server_seq a), put_u64_le B (ak_client_seq a),
           put_u64_le B (ak_order_id a)] out"
| "encode_event B (EvReject r) out =
     puts [put_u16_le B 102, put_u64_le B (rj_server_seq r), put_u64_le B (rj_client_seq r),
           put_u8 B (reason_code (rj_reason r)),
           (case rj_order_id r of Some i \<Rightarrow> put_u64_le B i \<circ> put_u8 B 1 | None \<Rightarrow> put_u8 B 0)] out"
| "encode_event B (EvFill f) out =
     puts [put_u16_le B 103, put_u64_le B (fi_server_seq f), put_u64_le B (fi_client_seq f),
           put_u32_le B (fi_symbol_id f), put_u64_le B (fi_taker_order_id f),
           put_u64_le B (fi_maker_order_id f), put_i64_le B (fi_price f), put_i64_le B (fi_qty f)] out"
| "encode_event B (EvBookTop t) out =
     puts [put_u16_le B 104, put_u64_le B (bt_server_seq t), put_u32_le B (bt_symbol_id t),
           put_opt_i64 B (bt_best_bid_px t), put_opt_i64 B (bt_best_bid_qty t),
           put_opt_i64 B (bt_best_ask_px t), put_opt_i64 B (bt_best_ask_qty t)] out"
| "encode_event B (EvAccountState s) out =
     puts [put_u16_le B 105, put_u64_le B (as_server_seq s), put_u64_le B (as_client_seq s),
           put_u32_le B (as_account_id s), put_u32_le B (as_symbol_id s),
           put_i64_le B (net_position (as_position s)), put_i64_le B (avg_price (as_position s)),
           put_i64_le B (realized_pnl (as_position s)),
           put_i64_le B (max_long_position (as_risk_limits s)),
           put_i64_le B (max_short_position (as_risk_limits s)),
           put_i64_le B (max_order_size (as_risk_limits s))] out"
| "encode_event B (EvAuthSuccess a) out = puts [put_u16_le B 106, put_u32_le B (ok_account_id a)] out"
| "encode_event B (EvAuthFailure a) out = puts [put_u16_le B 107, put_string B (fa_reason a)] out"

section \<open>The JSON codec\<close>

text \<open>\<open>serde_json\<close> is a parameter: what it writes for an event and what it reads as a command.\<close>

definition json_encode_event :: "(event \<Rightarrow> u8 list option) \<Rightarrow> event \<Rightarrow> u8 list \<Rightarrow> proto_error + u8 list" where
  "json_encode_event to_writer ev out =
     (case to_writer ev of None \<Rightarrow> Inl (Malformed ''json encode'') | Some bs \<Rightarrow> Inr (out @ bs))"

definition json_decode_command :: "(u8 list \<Rightarrow> command option) \<Rightarrow> u8 list \<Rightarrow> proto_error + command" where
  "json_decode_command from_slice input =
     (case from_slice input of None \<Rightarrow> Inl (Malformed ''json decode'') | Some cmd \<Rightarrow> Inr cmd)"

end
