(* ===== verification/CodecFacts.thy ===== *)
theory CodecFacts
  imports Codec
begin

text \<open>
  The binary format as a relation between values and bytes. A reader is described by the encoding
  it accepts, so that decoding is characterized exactly: the codec accepts the encodings of the
  well-formed commands, followed by anything, and nothing else.
\<close>

section \<open>The contract of the bytes crate\<close>

locale buf_laws =
  fixes B :: bytes_crate
  assumes get_u8_law: "get_u8_op B (w8 # r) = (w8, r)"
    and get_u16_law: "get_u16_le B (to_le w16 @ r) = (w16, r)"
    and get_u32_law: "get_u32_le B (to_le w32 @ r) = (w32, r)"
    and get_u64_law: "get_u64_le B (to_le w64 @ r) = (w64, r)"
    and get_i64_law: "i64_ok x \<Longrightarrow> get_i64_le B (i64_bytes x @ r) = (x, r)"
    and copy_law: "n \<le> length b \<Longrightarrow> copy_to_bytes B n b = (take n b, drop n b)"
    and put_laws: "put_u8 B w8 out = out @ [w8]" "put_u16_le B w16 out = out @ to_le w16"
      "put_u32_le B w32 out = out @ to_le w32" "put_u64_le B w64 out = out @ to_le w64"
      "put_i64_le B x out = out @ i64_bytes x" "put_slice B bs out = out @ bs"

section \<open>Words and their bytes\<close>

lemma nat_le_less: "nat_le bs < 256 ^ length bs"
proof (induction bs)
  case (Cons b bs)
  have "unat b < 256" using unsigned_less [of b] by simp
  with Cons show ?case by simp
qed simp

lemma le_nat_nat_le: "le_nat (length bs) (nat_le bs) = bs"
proof (induction bs)
  case (Cons b bs)
  have b: "unat b < 256" using unsigned_less [of b] by simp
  then have "(of_nat ((unat b + 256 * nat_le bs) mod 256) :: u8) = b" by simp
  moreover have "(unat b + 256 * nat_le bs) div 256 = nat_le bs" using b by simp
  ultimately show ?case using Cons by simp
qed simp

lemma to_le_from_le:
  fixes bs :: "u8 list"
  assumes "length bs = LENGTH('a) div 8" and "LENGTH('a) mod 8 = 0"
  shows "to_le (from_le bs :: 'a::len word) = bs"
proof -
  have "256 ^ length bs = (2 :: nat) ^ (8 * (LENGTH('a) div 8))" by (simp add: assms(1) power_mult)
  also have "8 * (LENGTH('a) div 8) = LENGTH('a)" using mult_div_mod_eq [of 8 "LENGTH('a)"] assms(2) by simp
  finally have "unat (from_le bs :: 'a word) = nat_le bs"
    using nat_le_less [of bs] by (simp add: from_le_def unat_of_nat take_bit_eq_mod)
  then show ?thesis using le_nat_nat_le [of bs] assms(1) by (simp add: to_le_def)
qed

lemma to_le_onto:
  "length bs = 2 \<Longrightarrow> \<exists>w :: u16. bs = to_le w" "length bs = 4 \<Longrightarrow> \<exists>w :: u32. bs = to_le w"
  "length bs = 8 \<Longrightarrow> \<exists>w :: u64. bs = to_le w"
  by (rule exI [of _ "from_le bs"], simp add: to_le_from_le)+

lemma split_front: "n \<le> length b \<Longrightarrow> \<exists>bs r. b = bs @ r \<and> length bs = n"
  by (metis append_take_drop_id length_take min.absorb2)

lemma i64_bytes_onto:
  assumes "length bs = 8"
  shows "\<exists>x. i64_ok x \<and> bs = i64_bytes x"
proof -
  obtain w :: u64 where w: "bs = to_le w" using to_le_onto(3) [OF assms] by blast
  have "i64_ok (sint w)"
    using sint_ge [of w] sint_lt [of w] by (simp add: i64_ok_def i64_min_def i64_max_def)
  then show ?thesis using w by (intro exI [of _ "sint w"]) (simp add: i64_bytes_def)
qed

lemma to_le_eq [simp]:
  "to_le (x16 :: u16) = to_le y16 \<longleftrightarrow> x16 = y16" "to_le (x32 :: u32) = to_le y32 \<longleftrightarrow> x32 = y32"
  "to_le (x64 :: u64) = to_le y64 \<longleftrightarrow> x64 = y64"
  by (metis from_le_to_le_words)+

lemma to_le_inject [simp]:
  "to_le (x16 :: u16) @ a = to_le y16 @ b \<longleftrightarrow> x16 = y16 \<and> a = b"
  "to_le (x32 :: u32) @ a = to_le y32 @ b \<longleftrightarrow> x32 = y32 \<and> a = b"
  "to_le (x64 :: u64) @ a = to_le y64 @ b \<longleftrightarrow> x64 = y64 \<and> a = b"
  by (simp_all add: append_eq_append_conv)

lemma word_of_int_i64: "i64_ok x \<Longrightarrow> sint (word_of_int x :: u64) = x"
  by (rule int_word_sint [THEN trans]) (simp add: i64_ok_def i64_min_def i64_max_def)

lemma i64_bytes_inject:
  assumes "i64_ok x" and "i64_ok y"
  shows "i64_bytes x @ a = i64_bytes y @ b \<longleftrightarrow> x = y \<and> a = b"
  using word_of_int_i64 [OF assms(1)] word_of_int_i64 [OF assms(2)]
  by (metis i64_bytes_def to_le_inject(3))

lemma i64_bytes_eq: "i64_ok x \<Longrightarrow> i64_ok y \<Longrightarrow> i64_bytes x = i64_bytes y \<longleftrightarrow> x = y"
  using i64_bytes_inject [of x y "[]" "[]"] by simp

lemma length_i64_bytes [simp]: "length (i64_bytes x) = 8"
  by (simp add: i64_bytes_def)

section \<open>Encodings\<close>

definition flag_byte :: "bool \<Rightarrow> u8" where
  "flag_byte f = (if f then 1 else 0)"

definition string_wf :: "string \<Rightarrow> bool" where
  "string_wf s \<longleftrightarrow> utf8_valid (string_bytes s) \<and> length s < 2 ^ 32"

definition string_field :: "string \<Rightarrow> u8 list" where
  "string_field s = to_le (of_nat (length s) :: u32) @ string_bytes s"

definition limits_bytes :: "risk_limits \<Rightarrow> u8 list" where
  "limits_bytes l = i64_bytes (max_long_position l) @ i64_bytes (max_short_position l) @ i64_bytes (max_order_size l)"

definition limits_wf :: "risk_limits \<Rightarrow> bool" where
  "limits_wf l \<longleftrightarrow> i64_ok (max_long_position l) \<and> i64_ok (max_short_position l) \<and> i64_ok (max_order_size l)"

fun command_bytes :: "command \<Rightarrow> u8 list" where
  "command_bytes (NewOrder n) =
     to_le (1 :: u16) @ to_le (no_client_seq n) @ to_le (no_order_id n) @ to_le (no_account_id n) @
     to_le (no_symbol_id n) @ [flag_byte (no_side n = Sell)] @ i64_bytes (no_price n) @ i64_bytes (no_qty n) @
     [flag_byte (no_tif n = Ioc), flag_byte (post_only (no_flags n))]"
| "command_bytes (Cancel c) =
     to_le (2 :: u16) @ to_le (ca_client_seq c) @ to_le (ca_order_id c) @ to_le (ca_account_id c) @
     to_le (ca_symbol_id c)"
| "command_bytes (Replace r) =
     to_le (3 :: u16) @ to_le (re_client_seq r) @ to_le (re_order_id r) @ to_le (re_account_id r) @
     to_le (re_symbol_id r) @ i64_bytes (re_new_price r) @ i64_bytes (re_new_qty r)"
| "command_bytes (SetRiskLimits s) =
     to_le (4 :: u16) @ to_le (sr_client_seq s) @ to_le (sr_account_id s) @ to_le (sr_symbol_id s) @
     limits_bytes (sr_limits s)"
| "command_bytes (QueryAccount q) =
     to_le (5 :: u16) @ to_le (qa_client_seq q) @ to_le (qa_account_id q) @ to_le (qa_symbol_id q)"
| "command_bytes (Authenticate a) = to_le (6 :: u16) @ string_field (au_api_key a)"

text \<open>Prices, quantities and limits fit their 64 bits; strings are valid and their length fits 32.\<close>

fun command_wf :: "command \<Rightarrow> bool" where
  "command_wf (NewOrder n) \<longleftrightarrow> i64_ok (no_price n) \<and> i64_ok (no_qty n)"
| "command_wf (Replace r) \<longleftrightarrow> i64_ok (re_new_price r) \<and> i64_ok (re_new_qty r)"
| "command_wf (SetRiskLimits s) \<longleftrightarrow> limits_wf (sr_limits s)"
| "command_wf (Authenticate a) \<longleftrightarrow> string_wf (au_api_key a)"
| "command_wf _ \<longleftrightarrow> True"

section \<open>Readers\<close>

definition reads :: "'a read \<Rightarrow> ('a \<Rightarrow> bool) \<Rightarrow> ('a \<Rightarrow> u8 list) \<Rightarrow> bool" where
  "reads R good enc \<longleftrightarrow> (\<forall>b v r. R b = Inr (v, r) \<longleftrightarrow> good v \<and> b = enc v @ r)"

lemma readsI:
  assumes "\<And>v r. good v \<Longrightarrow> R (enc v @ r) = Inr (v, r)"
    and "\<And>b v r. R b = Inr (v, r) \<Longrightarrow> \<exists>u r'. good u \<and> b = enc u @ r'"
  shows "reads R good enc"
  unfolding reads_def using assms by (metis prod.inject sum.inject(2))

lemma rd_bind_iff:
  assumes "reads R good enc"
  shows "rd_bind (R b) f = Inr x \<longleftrightarrow> (\<exists>v r. good v \<and> b = enc v @ r \<and> f v r = Inr x)"
proof -
  have "rd_bind (R b) f = Inr x \<longleftrightarrow> (\<exists>v r. R b = Inr (v, r) \<and> f v r = Inr x)"
    by (auto simp: rd_bind_def split: sum.splits)
  then show ?thesis using assms by (simp add: reads_def conj_assoc)
qed

lemma string_bytes_inverse: "bytes_string (string_bytes s) = s" "string_bytes (bytes_string bs) = bs"
proof -
  have "char_of (unat (of_nat (of_char c) :: u8)) = (c :: char)" for c
    by (simp add: unat_of_nat take_bit_eq_mod of_char_mod_256)
  then show "bytes_string (string_bytes s) = s" by (simp add: bytes_string_def string_bytes_def map_idI)
  have "of_nat (of_char (char_of (unat b))) = (b :: u8)" for b
  proof -
    have "unat b < 256" using unsigned_less [of b] by simp
    then show ?thesis by (simp add: of_char_of)
  qed
  then show "string_bytes (bytes_string bs) = bs" by (simp add: bytes_string_def string_bytes_def map_idI)
qed

lemma length_string_bytes [simp]: "length (string_bytes s) = length s" "length (bytes_string bs) = length bs"
  by (simp_all add: string_bytes_def bytes_string_def)

context buf_laws begin

lemma reads_u8: "reads (get_u8 B) (\<lambda>_. True) (\<lambda>w. [w])"
proof (rule readsI)
  fix b v r assume "get_u8 B b = Inr (v, r)"
  then show "\<exists>u r'. True \<and> b = [u] @ r'" by (cases b) (auto simp: get_u8_def)
qed (simp add: get_u8_def get_u8_law)

lemma reads_u32: "reads (get_u32 B) (\<lambda>_. True) to_le"
proof (rule readsI)
  fix b v r assume "get_u32 B b = Inr (v, r)"
  then have "4 \<le> length b" by (auto simp: get_u32_def split: if_splits)
  then show "\<exists>u r'. True \<and> b = to_le (u :: u32) @ r'" using split_front to_le_onto(2) by metis
qed (simp add: get_u32_def get_u32_law)

lemma reads_u64: "reads (get_u64 B) (\<lambda>_. True) to_le"
proof (rule readsI)
  fix b v r assume "get_u64 B b = Inr (v, r)"
  then have "8 \<le> length b" by (auto simp: get_u64_def split: if_splits)
  then show "\<exists>u r'. True \<and> b = to_le (u :: u64) @ r'" using split_front to_le_onto(3) by metis
qed (simp add: get_u64_def get_u64_law)

lemma reads_i64: "reads (get_i64 B) i64_ok i64_bytes"
proof (rule readsI)
  fix b v r assume "get_i64 B b = Inr (v, r)"
  then have "8 \<le> length b" by (auto simp: get_i64_def split: if_splits)
  then show "\<exists>u r'. i64_ok u \<and> b = i64_bytes u @ r'" using split_front i64_bytes_onto by metis
qed (simp add: get_i64_def get_i64_law)

lemma reads_flag:
  assumes "x \<noteq> y"
  shows "reads (get_flag B err x y) (\<lambda>v. v = x \<or> v = y) (\<lambda>v. [flag_byte (v = y)])"
  unfolding reads_def get_flag_def rd_bind_iff [OF reads_u8]
  using assms by (auto simp: flag_byte_def split: if_splits intro: exI [of _ 1] exI [of _ 0])

lemma reads_string: "reads (get_string B) string_wf string_field"
proof (rule readsI)
  fix s r assume good: "string_wf s"
  then have len: "unat (of_nat (length s) :: u32) = length s"
    by (simp add: string_wf_def unat_of_nat take_bit_eq_mod)
  show "get_string B (string_field s @ r) = Inr (s, r)"
    using good by (simp add: get_string_def string_field_def get_u32_law Let_def len copy_law
        string_bytes_inverse string_wf_def)
next
  fix b s r assume g: "get_string B b = Inr (s, r)"
  then have "4 \<le> length b" by (auto simp: get_string_def split: if_splits)
  then obtain n :: u32 and b1 where b: "b = to_le n @ b1" using split_front to_le_onto(2) by metis
  with g have len: "unat n \<le> length b1" and v: "utf8_valid (take (unat n) b1)"
    by (auto simp: get_string_def get_u32_law Let_def copy_law split: if_splits prod.splits)
  have "unat n < 2 ^ 32" using unsigned_less [of n] by simp
  with len v have "string_wf (bytes_string (take (unat n) b1))"
    by (simp add: string_wf_def string_bytes_inverse min_absorb2)
  moreover have "b = string_field (bytes_string (take (unat n) b1)) @ drop (unat n) b1"
    using len by (simp add: b string_field_def string_bytes_inverse min_absorb2)
  ultimately show "\<exists>u r'. string_wf u \<and> b = string_field u @ r'" by blast
qed

lemmas binds = rd_bind_iff [OF reads_u64] rd_bind_iff [OF reads_u32] rd_bind_iff [OF reads_i64]
  rd_bind_iff [OF reads_string] rd_bind_iff [OF reads_flag [of Buy Sell]]
  rd_bind_iff [OF reads_flag [of Gtc Ioc]] rd_bind_iff [OF reads_flag [of False True]]

lemma ex_new_order:
  "(\<exists>n. Q n) \<longleftrightarrow> (\<exists>a b c d e f g h i. Q \<lparr>no_client_seq = a, no_order_id = b, no_account_id = c,
     no_symbol_id = d, no_side = e, no_price = f, no_qty = g, no_tif = h, no_flags = \<lparr>post_only = i\<rparr>\<rparr>)"
  by (metis new_order.cases order_flags.cases)

lemma decode_new_order_iff:
  "decode_new_order B b = Inr (cmd, r) \<longleftrightarrow>
   (\<exists>n. cmd = NewOrder n \<and> command_wf cmd \<and> to_le (1 :: u16) @ b = command_bytes cmd @ r)"
proof -
  have s: "s = Buy \<or> s = Sell" for s by (cases s) auto
  have t: "t = Gtc \<or> t = Ioc" for t by (cases t) auto
  show ?thesis
    unfolding decode_new_order_def ex_new_order by (auto simp: binds s t)
qed

lemma ex_cancel_cmd:
  "(\<exists>n. Q n) \<longleftrightarrow> (\<exists>a b c d. Q \<lparr>ca_client_seq = a, ca_order_id = b, ca_account_id = c, ca_symbol_id = d\<rparr>)"
  by (metis cancel_cmd.cases)

lemma decode_cancel_iff:
  "decode_cancel B b = Inr (cmd, r) \<longleftrightarrow>
   (\<exists>n. cmd = Cancel n \<and> command_wf cmd \<and> to_le (2 :: u16) @ b = command_bytes cmd @ r)"
  unfolding decode_cancel_def ex_cancel_cmd by (auto simp: binds)

lemma ex_replace_cmd:
  "(\<exists>n. Q n) \<longleftrightarrow> (\<exists>a b c d e f. Q \<lparr>re_client_seq = a, re_order_id = b, re_account_id = c, re_symbol_id = d,
     re_new_price = e, re_new_qty = f\<rparr>)"
  by (metis replace_cmd.cases)

lemma decode_replace_iff:
  "decode_replace B b = Inr (cmd, r) \<longleftrightarrow>
   (\<exists>n. cmd = Replace n \<and> command_wf cmd \<and> to_le (3 :: u16) @ b = command_bytes cmd @ r)"
  unfolding decode_replace_def ex_replace_cmd by (auto simp: binds)

lemma ex_set_limits:
  "(\<exists>n. Q n) \<longleftrightarrow> (\<exists>a b c d e f. Q \<lparr>sr_client_seq = a, sr_account_id = b, sr_symbol_id = c,
     sr_limits = \<lparr>max_long_position = d, max_short_position = e, max_order_size = f\<rparr>\<rparr>)"
  by (metis set_risk_limits.cases risk_limits.cases)

lemma decode_set_risk_limits_iff:
  "decode_set_risk_limits B b = Inr (cmd, r) \<longleftrightarrow>
   (\<exists>n. cmd = SetRiskLimits n \<and> command_wf cmd \<and> to_le (4 :: u16) @ b = command_bytes cmd @ r)"
  unfolding decode_set_risk_limits_def ex_set_limits
  by (auto simp: binds limits_wf_def limits_bytes_def)

lemma ex_query:
  "(\<exists>n. Q n) \<longleftrightarrow> (\<exists>a b c. Q \<lparr>qa_client_seq = a, qa_account_id = b, qa_symbol_id = c\<rparr>)"
  by (metis query_account.cases)

lemma decode_query_account_iff:
  "decode_query_account B b = Inr (cmd, r) \<longleftrightarrow>
   (\<exists>n. cmd = QueryAccount n \<and> command_wf cmd \<and> to_le (5 :: u16) @ b = command_bytes cmd @ r)"
  unfolding decode_query_account_def ex_query by (auto simp: binds)

lemma ex_auth: "(\<exists>n. Q n) \<longleftrightarrow> (\<exists>k. Q \<lparr>au_api_key = k\<rparr>)"
  by (metis authenticate_cmd.cases)

lemma decode_authenticate_iff:
  "decode_authenticate B b = Inr (cmd, r) \<longleftrightarrow>
   (\<exists>n. cmd = Authenticate n \<and> command_wf cmd \<and> to_le (6 :: u16) @ b = command_bytes cmd @ r)"
  unfolding decode_authenticate_def ex_auth by (auto simp: binds)

lemmas decode_iffs = decode_new_order_iff decode_cancel_iff decode_replace_iff decode_set_risk_limits_iff
  decode_query_account_iff decode_authenticate_iff

text \<open>The tag of a command is the first two bytes of its encoding.\<close>

lemma command_tag:
  "\<exists>t r. command_bytes cmd = to_le (t :: u16) @ r \<and> t = (case cmd of NewOrder _ \<Rightarrow> 1 | Cancel _ \<Rightarrow> 2
     | Replace _ \<Rightarrow> 3 | SetRiskLimits _ \<Rightarrow> 4 | QueryAccount _ \<Rightarrow> 5 | Authenticate _ \<Rightarrow> 6)"
  by (cases cmd) auto

lemma decode_command_tag:
  "decode_command B (to_le (t :: u16) @ b) = map_sum id fst
     (if t = 1 then decode_new_order B b else if t = 2 then decode_cancel B b
      else if t = 3 then decode_replace B b else if t = 4 then decode_set_risk_limits B b
      else if t = 5 then decode_query_account B b else if t = 6 then decode_authenticate B b
      else Inl (Malformed ''binary: unknown msg_type''))"
  by (simp add: decode_command_def get_u16_law)

lemma map_sum_fst: "map_sum id fst x = Inr v \<longleftrightarrow> (\<exists>r. x = Inr (v, r))"
  by (cases x) auto

lemma decode_command_iff:
  "decode_command B b = Inr cmd \<longleftrightarrow> command_wf cmd \<and> (\<exists>r. b = command_bytes cmd @ r)"
proof
  assume d: "decode_command B b = Inr cmd"
  then have "2 \<le> length b" by (auto simp: decode_command_def split: if_splits)
  then obtain t :: u16 and b1 where b: "b = to_le t @ b1" using split_front to_le_onto(1) by metis
  from d show "command_wf cmd \<and> (\<exists>r. b = command_bytes cmd @ r)"
    unfolding b decode_command_tag by (auto simp: map_sum_fst decode_iffs split: if_splits)
next
  assume r: "command_wf cmd \<and> (\<exists>r. b = command_bytes cmd @ r)"
  then obtain r where b: "b = command_bytes cmd @ r" by blast
  show "decode_command B b = Inr cmd"
    using r by (cases cmd) (auto simp: b decode_command_tag map_sum_fst decode_iffs simp del: command_wf.simps)
qed

end

section \<open>Events\<close>

definition opt_bytes :: "i64 option \<Rightarrow> u8 list" where
  "opt_bytes v = (case v of None \<Rightarrow> [0] | Some x \<Rightarrow> 1 # i64_bytes x)"

definition id_bytes :: "u64 option \<Rightarrow> u8 list" where
  "id_bytes v = (case v of None \<Rightarrow> [0] | Some x \<Rightarrow> 1 # to_le x)"

fun event_bytes :: "event \<Rightarrow> u8 list" where
  "event_bytes (EvAck a) =
     to_le (101 :: u16) @ to_le (ak_server_seq a) @ to_le (ak_client_seq a) @ to_le (ak_order_id a)"
| "event_bytes (EvReject r) =
     to_le (102 :: u16) @ to_le (rj_server_seq r) @ to_le (rj_client_seq r) @ [reason_code (rj_reason r)] @
     id_bytes (rj_order_id r)"
| "event_bytes (EvFill f) =
     to_le (103 :: u16) @ to_le (fi_server_seq f) @ to_le (fi_client_seq f) @ to_le (fi_symbol_id f) @
     to_le (fi_taker_order_id f) @ to_le (fi_maker_order_id f) @ i64_bytes (fi_price f) @ i64_bytes (fi_qty f)"
| "event_bytes (EvBookTop t) =
     to_le (104 :: u16) @ to_le (bt_server_seq t) @ to_le (bt_symbol_id t) @ opt_bytes (bt_best_bid_px t) @
     opt_bytes (bt_best_bid_qty t) @ opt_bytes (bt_best_ask_px t) @ opt_bytes (bt_best_ask_qty t)"
| "event_bytes (EvAccountState s) =
     to_le (105 :: u16) @ to_le (as_server_seq s) @ to_le (as_client_seq s) @ to_le (as_account_id s) @
     to_le (as_symbol_id s) @ i64_bytes (net_position (as_position s)) @ i64_bytes (avg_price (as_position s)) @
     i64_bytes (realized_pnl (as_position s)) @ limits_bytes (as_risk_limits s)"
| "event_bytes (EvAuthSuccess a) = to_le (106 :: u16) @ to_le (ok_account_id a)"
| "event_bytes (EvAuthFailure a) = to_le (107 :: u16) @ string_field (fa_reason a)"

definition opt_wf :: "i64 option \<Rightarrow> bool" where
  "opt_wf v = (case v of None \<Rightarrow> True | Some x \<Rightarrow> i64_ok x)"

fun event_wf :: "event \<Rightarrow> bool" where
  "event_wf (EvFill f) \<longleftrightarrow> i64_ok (fi_price f) \<and> i64_ok (fi_qty f)"
| "event_wf (EvBookTop t) \<longleftrightarrow> opt_wf (bt_best_bid_px t) \<and> opt_wf (bt_best_bid_qty t) \<and>
     opt_wf (bt_best_ask_px t) \<and> opt_wf (bt_best_ask_qty t)"
| "event_wf (EvAccountState s) \<longleftrightarrow> i64_ok (net_position (as_position s)) \<and> i64_ok (avg_price (as_position s)) \<and>
     i64_ok (realized_pnl (as_position s)) \<and> limits_wf (as_risk_limits s)"
| "event_wf (EvAuthFailure a) \<longleftrightarrow> length (fa_reason a) < 2 ^ 32"
| "event_wf _ \<longleftrightarrow> True"

context buf_laws begin

lemma encode_event_bytes: "encode_event B ev out = out @ event_bytes ev"
  by (cases ev) (simp_all add: puts_def put_laws put_opt_i64_def put_string_def opt_bytes_def id_bytes_def
      limits_bytes_def string_field_def Let_def split: option.split)

end

lemma opt_bytes_inject:
  "opt_wf v \<Longrightarrow> opt_wf w \<Longrightarrow> opt_bytes v @ a = opt_bytes w @ b \<longleftrightarrow> v = w \<and> a = b"
  by (auto simp: opt_wf_def opt_bytes_def i64_bytes_inject i64_bytes_eq split: option.splits)

lemma id_bytes_inject: "id_bytes v @ a = id_bytes w @ b \<longleftrightarrow> v = w \<and> a = b"
  by (auto simp: id_bytes_def split: option.splits)

lemma reason_code_inject: "reason_code r = reason_code q \<longleftrightarrow> r = q"
  by (cases r; cases q) simp_all

lemma string_field_inject:
  assumes "length s < 2 ^ 32" and "length t < 2 ^ 32"
  shows "string_field s @ a = string_field t @ b \<longleftrightarrow> s = t \<and> a = b"
proof
  assume eq: "string_field s @ a = string_field t @ b"
  then have "(of_nat (length s) :: u32) = of_nat (length t)" by (simp add: string_field_def)
  then have "unat (of_nat (length s) :: u32) = unat (of_nat (length t) :: u32)" by simp
  then have "length s = length t" using assms by (simp add: unat_of_nat take_bit_eq_mod)
  with eq have "string_bytes s = string_bytes t \<and> a = b"
    by (simp add: string_field_def)
  then show "s = t \<and> a = b" by (metis string_bytes_inverse(1))
qed simp

lemma event_bytes_inject:
  assumes "event_wf ev" and "event_wf ev'"
  shows "event_bytes ev @ a = event_bytes ev' @ b \<longleftrightarrow> ev = ev' \<and> a = b"
  using assms
  by (cases ev; cases ev')
    (auto simp: i64_bytes_inject opt_bytes_inject id_bytes_inject reason_code_inject limits_bytes_def
      limits_wf_def string_field_inject i64_bytes_eq intro!: fill.equality account_state_ev.equality position.equality risk_limits.equality)

section \<open>An implementation of the crate's contract\<close>

definition le_crate :: bytes_crate where
  "le_crate =
     \<lparr>get_u8_op = (\<lambda>b. (hd b, tl b)), get_u16_le = (\<lambda>b. (from_le (take 2 b), drop 2 b)),
      get_u32_le = (\<lambda>b. (from_le (take 4 b), drop 4 b)), get_u64_le = (\<lambda>b. (from_le (take 8 b), drop 8 b)),
      get_i64_le = (\<lambda>b. (sint (from_le (take 8 b) :: u64), drop 8 b)),
      copy_to_bytes = (\<lambda>n b. (take n b, drop n b)),
      put_u8 = (\<lambda>w out. out @ [w]), put_u16_le = (\<lambda>w out. out @ to_le w),
      put_u32_le = (\<lambda>w out. out @ to_le w), put_u64_le = (\<lambda>w out. out @ to_le w),
      put_i64_le = (\<lambda>x out. out @ i64_bytes x), put_slice = (\<lambda>bs out. out @ bs)\<rparr>"

interpretation le: buf_laws le_crate
  by unfold_locales (simp_all add: le_crate_def i64_bytes_def word_of_int_i64)

end
