(* ===== verification/CodecProps.thy ===== *)
theory CodecProps
  imports CodecFacts
begin

text \<open>
  Properties of the client codec, for every implementation of the \<open>bytes\<close> crate that meets its
  contract \<open>buf_laws\<close>; the witnesses run on \<open>le_crate\<close>.
\<close>

definition ex_cancel_msg :: command where
  "ex_cancel_msg = Cancel \<lparr>ca_client_seq = 7, ca_order_id = 300, ca_account_id = 2, ca_symbol_id = 1\<rparr>"

definition ex_ack :: event where
  "ex_ack = EvAck \<lparr>ak_server_seq = 1, ak_client_seq = 7, ak_order_id = 300\<rparr>"

definition ex_reject :: event where
  "ex_reject = EvReject \<lparr>rj_server_seq = 1, rj_client_seq = 7, rj_order_id = Some 300, rj_reason = NotFound\<rparr>"

lemma le_nat_numeral:
  "le_nat (numeral v) k = of_nat (k mod 256) # le_nat (pred_numeral v) (k div 256)"
  by (subst numeral_eq_Suc) (rule le_nat.simps(2))

lemma ex_cancel_cmd_bytes:
  "command_bytes ex_cancel_msg = [2, 0, 7, 0, 0, 0, 0, 0, 0, 0, 44, 1, 0, 0, 0, 0, 0, 0, 2, 0, 0, 0, 1, 0, 0, 0]"
  by (simp add: ex_cancel_msg_def to_le_def le_nat_numeral)

text \<open>C25: the decoder accepts exactly the encodings of the well-formed commands (prices, quantities
  and limits in range, keys valid UTF-8), followed by any bytes; everything else is an error.\<close>

theorem decoder_accepts_exactly:
  assumes "buf_laws B"
  shows "decode_command B b = Inr cmd \<longleftrightarrow> command_wf cmd \<and> (\<exists>r. b = command_bytes cmd @ r)"
  by (rule buf_laws.decode_command_iff [OF assms])

theorem decoder_accepts_exactly_witness:
  "decode_command le_crate
     [2, 0, 7, 0, 0, 0, 0, 0, 0, 0, 44, 1, 0, 0, 0, 0, 0, 0, 2, 0, 0, 0, 1, 0, 0, 0, 99] =
   Inr ex_cancel_msg"
proof -
  have "command_wf ex_cancel_msg" by (simp add: ex_cancel_msg_def)
  then show ?thesis
    using decoder_accepts_exactly [OF le.buf_laws_axioms, of
      "[2, 0, 7, 0, 0, 0, 0, 0, 0, 0, 44, 1, 0, 0, 0, 0, 0, 0, 2, 0, 0, 0, 1, 0, 0, 0, 99]" ex_cancel_msg]
    by (simp add: ex_cancel_cmd_bytes)
qed

text \<open>a frame that ends before its command does is rejected, wherever it ends.\<close>

theorem truncated_command_rejected:
  assumes "buf_laws B" and "command_wf cmd" and "n < length (command_bytes cmd)"
  shows "\<exists>e. decode_command B (take n (command_bytes cmd)) = Inl e"
proof (cases "decode_command B (take n (command_bytes cmd))")
  case (Inr c)
  then obtain r where c: "command_wf c" "take n (command_bytes cmd) = command_bytes c @ r"
    using buf_laws.decode_command_iff [OF assms(1)] by blast
  then have "command_bytes cmd = command_bytes c @ (r @ drop n (command_bytes cmd))"
    by (metis append_assoc append_take_drop_id)
  with c(1) have "decode_command B (command_bytes cmd) = Inr c"
    using buf_laws.decode_command_iff [OF assms(1)] by blast
  moreover have "decode_command B (command_bytes cmd) = Inr cmd"
    using buf_laws.decode_command_iff [OF assms(1)] assms(2) by (metis append_Nil2)
  ultimately have "c = cmd" by simp
  with c(2) have "length (command_bytes cmd) \<le> length (take n (command_bytes cmd))"
    by (metis length_append le_add1)
  with assms(3) show ?thesis by simp
qed blast

theorem truncated_command_rejected_witness:
  "\<exists>e. decode_command le_crate [2, 0, 7, 0, 0, 0, 0, 0, 0, 0, 44, 1] = Inl e"
proof -
  have "command_wf ex_cancel_msg" by (simp add: ex_cancel_msg_def)
  then show ?thesis
    using truncated_command_rejected [OF le.buf_laws_axioms, of ex_cancel_msg 12]
    by (simp add: ex_cancel_cmd_bytes)
qed

text \<open>the encoder appends to its buffer and its output is self-delimiting: from the bytes of
  well-formed events sent one after the other, the first event and the rest are determined.\<close>

theorem events_self_delimiting:
  assumes "buf_laws B" and "event_wf ev" and "event_wf ev'"
  shows "encode_event B ev out @ r = encode_event B ev' out @ r' \<longleftrightarrow> ev = ev' \<and> r = r'"
  by (simp add: buf_laws.encode_event_bytes [OF assms(1)] event_bytes_inject [OF assms(2,3)])

theorem events_self_delimiting_witness:
  "encode_event le_crate ex_ack [5] @ [0] \<noteq> encode_event le_crate ex_reject [5]"
  using events_self_delimiting [OF le.buf_laws_axioms, of ex_ack ex_reject "[5]" "[0]" "[]"]
  by (simp add: ex_ack_def ex_reject_def)

end
