(* ===== verification/GatewaySessions.thy ===== *)
theory GatewaySessions
  imports CommonTypes
begin

text \<open>
  \<open>crates/gateway_server/src/session.rs\<close> and \<open>auth.rs\<close>: which connection belongs to which account,
  and which key opens which account. Both are hash maps behind a lock that every operation holds.
\<close>

section \<open>Sessions\<close>

record session_manager =
  sm_sessions :: "(u64, account_id) hashmap"

definition new_session_manager :: session_manager where
  "new_session_manager = \<lparr>sm_sessions = []\<rparr>"

definition register :: "u64 \<Rightarrow> account_id \<Rightarrow> session_manager \<Rightarrow> session_manager" where
  "register conn acc s = s\<lparr>sm_sessions := AList.update conn acc (sm_sessions s)\<rparr>"

definition get_account_id :: "session_manager \<Rightarrow> u64 \<Rightarrow> account_id option" where
  "get_account_id s conn = map_of (sm_sessions s) conn"

definition is_authenticated :: "session_manager \<Rightarrow> u64 \<Rightarrow> bool" where
  "is_authenticated s conn \<longleftrightarrow> map_of (sm_sessions s) conn \<noteq> None"

definition unregister :: "u64 \<Rightarrow> session_manager \<Rightarrow> account_id option \<times> session_manager" where
  "unregister conn s =
     (map_of (sm_sessions s) conn, s\<lparr>sm_sessions := AList.delete conn (sm_sessions s)\<rparr>)"

definition session_count :: "session_manager \<Rightarrow> nat" where
  "session_count s = length (sm_sessions s)"

definition get_all_sessions :: "session_manager \<Rightarrow> (u64, account_id) hashmap" where
  "get_all_sessions s = sm_sessions s"

section \<open>Authentication\<close>

record auth_service =
  av_api_keys :: "(string, account_id) hashmap"

definition new_auth_service :: auth_service where
  "new_auth_service = \<lparr>av_api_keys = []\<rparr>"

definition register_api_key :: "string \<Rightarrow> account_id \<Rightarrow> auth_service \<Rightarrow> auth_service" where
  "register_api_key key acc a = a\<lparr>av_api_keys := AList.update key acc (av_api_keys a)\<rparr>"

definition authenticate :: "auth_service \<Rightarrow> string \<Rightarrow> string + account_id" where
  "authenticate a key =
     (case map_of (av_api_keys a) key of None \<Rightarrow> Inl ''Invalid API key'' | Some acc \<Rightarrow> Inr acc)"

definition has_api_key :: "auth_service \<Rightarrow> string \<Rightarrow> bool" where
  "has_api_key a key \<longleftrightarrow> map_of (av_api_keys a) key \<noteq> None"

definition revoke_api_key :: "string \<Rightarrow> auth_service \<Rightarrow> bool \<times> auth_service" where
  "revoke_api_key key a =
     (map_of (av_api_keys a) key \<noteq> None, a\<lparr>av_api_keys := AList.delete key (av_api_keys a)\<rparr>)"

definition key_count :: "auth_service \<Rightarrow> nat" where
  "key_count a = length (av_api_keys a)"

section \<open>Facts\<close>

lemma authenticated_register [simp]:
  "is_authenticated (register conn acc s) c \<longleftrightarrow> c = conn \<or> is_authenticated s c"
  by (simp add: is_authenticated_def register_def)

lemma authenticated_unregister [simp]:
  "is_authenticated (snd (unregister conn s)) c \<longleftrightarrow> c \<noteq> conn \<and> is_authenticated s c"
  by (simp add: is_authenticated_def unregister_def)

lemma not_authenticated_new [simp]: "\<not> is_authenticated new_session_manager conn"
  by (simp add: is_authenticated_def new_session_manager_def)

text \<open>A registered key opens its account until it is registered again or revoked.\<close>

lemma authenticate_register:
  "authenticate (register_api_key key acc a) k = (if k = key then Inr acc else authenticate a k)"
  by (simp add: authenticate_def register_api_key_def)

lemma authenticate_revoke:
  "authenticate (snd (revoke_api_key key a)) k =
    (if k = key then Inl ''Invalid API key'' else authenticate a k)"
  by (simp add: authenticate_def revoke_api_key_def)

text \<open>The two tables keep their keys distinct, so the counts are numbers of entries.\<close>

lemma sessions_distinct:
  assumes "keys_distinct (sm_sessions s)"
  shows "keys_distinct (sm_sessions (register conn acc s))"
    and "keys_distinct (sm_sessions (snd (unregister conn s)))"
  using assms by (simp_all add: register_def unregister_def distinct_update distinct_delete)

lemma api_keys_distinct:
  assumes "keys_distinct (av_api_keys a)"
  shows "keys_distinct (av_api_keys (register_api_key key acc a))"
    and "keys_distinct (av_api_keys (snd (revoke_api_key key a)))"
  using assms by (simp_all add: register_api_key_def revoke_api_key_def distinct_update distinct_delete)

end
