(* ===== verification/GatewayPersistence.thy ===== *)
theory GatewayPersistence
  imports JournalFacts Snapshots
begin

text \<open>
  \<open>crates/gateway_server/src/persistence.rs\<close>: the journal of account creations, synced at every
  append, and the snapshots of the account table. Files live on the disk of \<open>Journal\<close>; the frame
  format and the reading loop are those of the engine's journal, at the payload type
  \<open>account_update\<close>.
\<close>

section \<open>The account journal\<close>

datatype account_update = CreateAccount account_id i64

record acct_journal_config =
  ac_batch_size :: nat
  ac_sync_interval :: nat

record acct_journal =
  aj_path :: string
  aj_batch_buffer :: "account_update list"
  aj_batch_size :: nat
  aj_last_sync :: nat
  aj_sync_interval :: nat
  aj_updates_written :: u64

record acct_journal_stats =
  at_updates_written :: u64
  at_pending_batch_size :: nat

definition default_acct_journal_config :: acct_journal_config where
  "default_acct_journal_config = \<lparr>ac_batch_size = 100, ac_sync_interval = 100 * 1000000\<rparr>"

text \<open>The first call creates the parent directory.\<close>

definition acct_open_with_config ::
  "nat \<Rightarrow> string \<Rightarrow> acct_journal_config \<Rightarrow> disk \<Rightarrow> (io_err + acct_journal) \<times> disk"
where
  "acct_open_with_config now path config d =
     io_bind (os_unit d) (\<lambda>_ d1.
     io_bind (open_create path d1) (\<lambda>_ d2.
       (Inr \<lparr>aj_path = path, aj_batch_buffer = [], aj_batch_size = ac_batch_size config,
             aj_last_sync = now, aj_sync_interval = ac_sync_interval config,
             aj_updates_written = 0\<rparr>, d2)))"

definition acct_open :: "nat \<Rightarrow> string \<Rightarrow> disk \<Rightarrow> (io_err + acct_journal) \<times> disk" where
  "acct_open now path d = acct_open_with_config now path default_acct_journal_config d"

definition acct_write_frame ::
  "account_update serde \<Rightarrow> (u8 list \<Rightarrow> u32) \<Rightarrow> account_update \<Rightarrow> acct_journal \<Rightarrow> disk \<Rightarrow>
   (io_err + unit) \<times> disk"
where
  "acct_write_frame P crc update j d =
     (case sd_to P update of
        None \<Rightarrow> (Inl SerializeError, d)
      | Some payload \<Rightarrow>
          io_bind (write_all (aj_path j) (to_le (of_nat (length payload) :: u32)) d) (\<lambda>_ d1.
          io_bind (write_all (aj_path j) payload d1) (\<lambda>_ d2.
          write_all (aj_path j) (to_le (crc payload)) d2)))"

text \<open>\<open>append\<close> writes its frame at once and syncs.\<close>

definition acct_append ::
  "account_update serde \<Rightarrow> (u8 list \<Rightarrow> u32) \<Rightarrow> nat \<Rightarrow> account_update \<Rightarrow> acct_journal \<Rightarrow> disk \<Rightarrow>
   (io_err + unit) \<times> acct_journal \<times> disk"
where
  "acct_append P crc now update j d =
     (case acct_write_frame P crc update j d of
        (Inl e, d1) \<Rightarrow> (Inl e, j, d1)
      | (Inr _, d1) \<Rightarrow>
          let j1 = j\<lparr>aj_updates_written := aj_updates_written j + 1\<rparr>
          in case os_unit d1 of
               (Inl e, d2) \<Rightarrow> (Inl e, j1, d2)
             | (Inr _, d2) \<Rightarrow> (Inr (), j1\<lparr>aj_last_sync := now\<rparr>, d2))"

fun acct_write_frames ::
  "account_update serde \<Rightarrow> (u8 list \<Rightarrow> u32) \<Rightarrow> account_update list \<Rightarrow> acct_journal \<Rightarrow> disk \<Rightarrow>
   (io_err + unit) \<times> acct_journal \<times> disk"
where
  "acct_write_frames P crc [] j d = (Inr (), j, d)"
| "acct_write_frames P crc (u # us) j d =
     (case acct_write_frame P crc u j d of
        (Inl e, d1) \<Rightarrow> (Inl e, j, d1)
      | (Inr _, d1) \<Rightarrow>
          acct_write_frames P crc us (j\<lparr>aj_updates_written := aj_updates_written j + 1\<rparr>) d1)"

definition acct_flush ::
  "account_update serde \<Rightarrow> (u8 list \<Rightarrow> u32) \<Rightarrow> nat \<Rightarrow> acct_journal \<Rightarrow> disk \<Rightarrow>
   (io_err + unit) \<times> acct_journal \<times> disk"
where
  "acct_flush P crc now j d =
     (if aj_batch_buffer j = [] then (Inr (), j, d)
      else
        case acct_write_frames P crc (aj_batch_buffer j) (j\<lparr>aj_batch_buffer := []\<rparr>) d of
          (Inl e, j1, d1) \<Rightarrow> (Inl e, j1, d1)
        | (Inr _, j1, d1) \<Rightarrow>
            (case os_unit d1 of
               (Inl e, d2) \<Rightarrow> (Inl e, j1, d2)
             | (Inr _, d2) \<Rightarrow> (Inr (), j1\<lparr>aj_last_sync := now\<rparr>, d2)))"

text \<open>Reading starts and ends with a seek; the result of the last one is dropped.\<close>

definition acct_read_all ::
  "account_update serde \<Rightarrow> (u8 list \<Rightarrow> u32) \<Rightarrow> acct_journal \<Rightarrow> disk \<Rightarrow>
   (io_err + account_update list) \<times> disk"
where
  "acct_read_all P crc j d = io_bind (os_unit d) (\<lambda>_ d1.
     case read_frames P crc (file_bytes d1 (aj_path j)) of
       Inl e \<Rightarrow> (Inl e, d1)
     | Inr us \<Rightarrow> (Inr us, snd (os_unit d1)))"

definition acct_stats :: "acct_journal \<Rightarrow> acct_journal_stats" where
  "acct_stats j = \<lparr>at_updates_written = aj_updates_written j,
     at_pending_batch_size = length (aj_batch_buffer j)\<rparr>"

section \<open>Snapshots of the account table\<close>

record acct_state_snapshot =
  ss_account_id :: account_id
  ss_buying_power :: i64
  ss_positions :: "(symbol_id \<times> position) list"
  ss_risk_limits :: "(symbol_id \<times> risk_limits) list"

record acct_snapshot =
  sp_sequence :: u64
  sp_accounts :: "acct_state_snapshot list"

definition acct_snapshot_name :: "u64 \<Rightarrow> string" where
  "acct_snapshot_name seq' = ''account_snapshot_'' @ pad0 12 (unat seq') @ ''.bin''"

definition is_acct_snapshot_name :: "string \<Rightarrow> bool" where
  "is_acct_snapshot_name n \<longleftrightarrow>
     take 17 n = ''account_snapshot_'' \<and> 4 \<le> length n \<and> drop (length n - 4) n = ''.bin''"

text \<open>The file is created before the snapshot is serialized.\<close>

definition save_acct_snapshot ::
  "acct_snapshot serde \<Rightarrow> (u8 list \<Rightarrow> u32) \<Rightarrow> acct_snapshot \<Rightarrow> disk \<Rightarrow> (io_err + string) \<times> disk"
where
  "save_acct_snapshot P crc sn d =
     (let name = acct_snapshot_name (sp_sequence sn)
      in io_bind (os_unit d) (\<lambda>_ d1.
         io_bind (create_file name d1) (\<lambda>_ d2.
         case sd_to P sn of
           None \<Rightarrow> (Inl SerializeError, d2)
         | Some content \<Rightarrow>
             io_bind (write_all name (to_le (sp_sequence sn)) d2) (\<lambda>_ d3.
             io_bind (write_all name (to_le (of_nat (length content) :: u32)) d3) (\<lambda>_ d4.
             io_bind (write_all name content d4) (\<lambda>_ d5.
             io_bind (write_all name (to_le (crc content)) d5) (\<lambda>_ d6.
             io_bind (os_unit d6) (\<lambda>_ d7. (Inr name, d7)))))))))"

text \<open>The bytes of the file are those of an engine snapshot; the content is then deserialized.\<close>

definition parse_acct_snapshot ::
  "acct_snapshot serde \<Rightarrow> (u8 list \<Rightarrow> u32) \<Rightarrow> u8 list \<Rightarrow> io_err + acct_snapshot"
where
  "parse_acct_snapshot P crc bs =
     (case parse_snapshot crc bs of
        Inl e \<Rightarrow> Inl e
      | Inr sn \<Rightarrow>
          (case sd_from P (sn_data sn) of None \<Rightarrow> Inl DeserializeError | Some s \<Rightarrow> Inr s))"

definition load_acct_from_file ::
  "acct_snapshot serde \<Rightarrow> (u8 list \<Rightarrow> u32) \<Rightarrow> string \<Rightarrow> disk \<Rightarrow> (io_err + acct_snapshot option) \<times> disk"
where
  "load_acct_from_file P crc name d = io_bind (os_unit d) (\<lambda>_ d1.
     case map_of (dk_files d1) name of
       None \<Rightarrow> (Inl IoError, d1)
     | Some bs \<Rightarrow> (map_sum id Some (parse_acct_snapshot P crc bs), d1))"

definition acct_snapshot_entries :: "disk \<Rightarrow> string list" where
  "acct_snapshot_entries d = filter is_acct_snapshot_name (map fst (dk_files d))"

definition load_latest_acct ::
  "acct_snapshot serde \<Rightarrow> (u8 list \<Rightarrow> u32) \<Rightarrow> disk \<Rightarrow> (io_err + acct_snapshot option) \<times> disk"
where
  "load_latest_acct P crc d =
     (if dk_files d = [] then (Inr None, d)
      else io_bind (os_unit d) (\<lambda>_ d1.
        if acct_snapshot_entries d1 = [] then (Inr None, d1)
        else load_acct_from_file P crc (last (sort (acct_snapshot_entries d1))) d1))"

definition cleanup_old_acct :: "nat \<Rightarrow> disk \<Rightarrow> (io_err + nat) \<times> disk" where
  "cleanup_old_acct keep d =
     (if dk_files d = [] then (Inr 0, d)
      else io_bind (os_unit d) (\<lambda>_ d1.
        let entries = acct_snapshot_entries d1
        in if length entries \<le> keep then (Inr 0, d1)
           else
             (case remove_files (take (length entries - keep) (sort entries)) d1 of
                (r, d2) \<Rightarrow> (Inr r, d2))))"

section \<open>Facts\<close>

text \<open>The file of the journal holds the frames of these updates.\<close>

definition acct_logged ::
  "account_update serde \<Rightarrow> (u8 list \<Rightarrow> u32) \<Rightarrow> acct_journal \<Rightarrow> disk \<Rightarrow> account_update list \<Rightarrow> bool"
where
  "acct_logged P crc j d us \<longleftrightarrow> dk_faults d = [] \<and> (\<forall>u \<in> set us. framable P u) \<and>
     map_of (dk_files d) (aj_path j) = Some (frames P crc us)"

lemma acct_append_ok:
  assumes "acct_logged P crc j d us" and "framable P u"
  shows "\<exists>j' d'. acct_append P crc now u j d = (Inr (), j', d') \<and> acct_logged P crc j' d' (us @ [u]) \<and>
    aj_path j' = aj_path j"
proof -
  obtain p where p: "sd_to P u = Some p" using assms(2) by (rule framableE)
  have f: "file_bytes d (aj_path j) = frames P crc us"
    using assms(1) by (simp add: acct_logged_def file_bytes_Some)
  show ?thesis
    using assms by (simp add: acct_append_def acct_write_frame_def acct_logged_def io_bind_def os_unit_def
        os_call_def write_all_def p frame_def file_bytes_Some Let_def)
qed

lemma acct_read_all_ok:
  assumes "serde P" and "acct_logged P crc j d us"
  shows "\<exists>d'. acct_read_all P crc j d = (Inr us, d') \<and> acct_logged P crc j d' us"
proof -
  have "read_frames P crc (frames P crc us) = Inr us"
    using assms(2) by (intro journal_codec.read_frames_all)
      (auto simp: acct_logged_def journal_codec_def assms(1))
  then show ?thesis
    using assms(2) by (simp add: acct_read_all_def acct_logged_def io_bind_def os_unit_def os_call_def
        file_bytes_Some)
qed

lemma save_acct_snapshot_ok:
  assumes "dk_faults d = []" and "sd_to P sn = Some c"
  shows "\<exists>d'. save_acct_snapshot P crc sn d = (Inr (acct_snapshot_name (sp_sequence sn)), d') \<and>
    dk_faults d' = [] \<and> dk_files d' = AList.update (acct_snapshot_name (sp_sequence sn))
      (to_le (sp_sequence sn) @ to_le (of_nat (length c) :: u32) @ c @ to_le (crc c)) (dk_files d)"
  using assms
  by (simp add: save_acct_snapshot_def Let_def io_bind_def create_file_def os_unit_def os_call_def
      write_all_def file_bytes_def update_twice)

lemma parse_acct_snapshot_ok:
  assumes "serde P" and "sd_to P sn = Some c" and "length c < 2 ^ 32"
  shows "parse_acct_snapshot P crc
    (to_le (sp_sequence sn) @ to_le (of_nat (length c) :: u32) @ c @ to_le (crc c)) = Inr sn"
proof -
  have "sd_from P c = Some sn" by (rule serde.from_to [OF assms(1,2)])
  then show ?thesis
    using parse_snapshot_ok [of "\<lparr>sn_sequence = sp_sequence sn, sn_data = c\<rparr>" crc] assms(3)
    by (simp add: parse_acct_snapshot_def)
qed

lemma save_load_acct:
  assumes "serde P" and "sd_to P sn = Some c" and "length c < 2 ^ 32" and "dk_faults d = []"
  shows "\<exists>d' d''. save_acct_snapshot P crc sn d = (Inr (acct_snapshot_name (sp_sequence sn)), d') \<and>
    load_acct_from_file P crc (acct_snapshot_name (sp_sequence sn)) d' = (Inr (Some sn), d'')"
proof -
  obtain d' where d': "save_acct_snapshot P crc sn d = (Inr (acct_snapshot_name (sp_sequence sn)), d')"
    "dk_faults d' = []" "dk_files d' = AList.update (acct_snapshot_name (sp_sequence sn))
      (to_le (sp_sequence sn) @ to_le (of_nat (length c) :: u32) @ c @ to_le (crc c)) (dk_files d)"
    using save_acct_snapshot_ok [OF assms(4,2), of crc] by blast
  then show ?thesis
    by (simp add: load_acct_from_file_def io_bind_def os_unit_def os_call_def
        parse_acct_snapshot_ok [OF assms(1-3)])
qed

section \<open>Wire formats\<close>

definition w_account_update :: "account_update wire" where
  "w_account_update = w_map (\<lambda>u. case u of CreateAccount a bp \<Rightarrow> (a, bp)) (\<lambda>(a, bp). CreateAccount a bp)
     (w_pair w_word w_int)"

definition w_state_snapshot :: "acct_state_snapshot wire" where
  "w_state_snapshot = w_map (\<lambda>s. (ss_account_id s, ss_buying_power s, ss_positions s, ss_risk_limits s))
     (\<lambda>(a, b, c, d). \<lparr>ss_account_id = a, ss_buying_power = b, ss_positions = c, ss_risk_limits = d\<rparr>)
     (w_pair w_word (w_pair w_int (w_pair (w_list (w_pair w_word w_position))
        (w_list (w_pair w_word w_limits)))))"

definition w_acct_snapshot :: "acct_snapshot wire" where
  "w_acct_snapshot = w_map (\<lambda>s. (sp_sequence s, sp_accounts s))
     (\<lambda>(a, b). \<lparr>sp_sequence = a, sp_accounts = b\<rparr>) (w_pair w_word (w_list w_state_snapshot))"

lemma wire_account_update: "wire w_account_update"
  unfolding w_account_update_def by (rule wire_map) (auto intro!: wires split: account_update.split)

lemma wire_state_snapshot: "wire w_state_snapshot"
  unfolding w_state_snapshot_def by (rule wire_map) (auto intro!: wires wire_position wire_limits)

lemma wire_acct_snapshot: "wire w_acct_snapshot"
  unfolding w_acct_snapshot_def by (rule wire_map) (auto intro!: wires wire_state_snapshot)

definition update_serde :: "account_update serde" where
  "update_serde = serde_of w_account_update"

definition acct_snapshot_serde :: "acct_snapshot serde" where
  "acct_snapshot_serde = serde_of w_acct_snapshot"

interpretation update_wire: wire w_account_update
  by (rule wire_account_update)

interpretation acct_snapshot_wire: wire w_acct_snapshot
  by (rule wire_acct_snapshot)

interpretation update_serde: serde update_serde
  unfolding update_serde_def by (rule update_wire.wire_serde.serde_axioms)

interpretation acct_snapshot_serde: serde acct_snapshot_serde
  unfolding acct_snapshot_serde_def by (rule acct_snapshot_wire.wire_serde.serde_axioms)

interpretation acct_frames: journal_codec update_serde "\<lambda>_. 0"
  by unfold_locales

end
