(* ===== verification/GatewayAccounts.thy ===== *)
theory GatewayAccounts
  imports GatewayPersistence
begin

text \<open>
  \<open>crates/gateway_server/src/account_manager.rs\<close>: buying power, positions and the reservations that
  back open orders. The table is a \<open>DashMap\<close>; every operation holds the lock of its one account
  from its check to its write, so it is one step here.
\<close>

section \<open>State\<close>

record gw_account =
  ga_account_id :: account_id
  ga_buying_power :: i64
  ga_tentative_reserved :: i64
  ga_positions :: "(symbol_id, position) hashmap"
  ga_risk_limits :: "(symbol_id, risk_limits) hashmap"

definition new_gw_account :: "account_id \<Rightarrow> i64 \<Rightarrow> gw_account" where
  "new_gw_account acc bp =
     \<lparr>ga_account_id = acc, ga_buying_power = bp, ga_tentative_reserved = 0, ga_positions = [],
      ga_risk_limits = []\<rparr>"

definition ga_get_risk_limits :: "gw_account \<Rightarrow> symbol_id \<Rightarrow> risk_limits" where
  "ga_get_risk_limits a symb = get_or default_risk_limits (ga_risk_limits a) symb"

definition ga_get_position :: "gw_account \<Rightarrow> symbol_id \<Rightarrow> position" where
  "ga_get_position a symb = get_or default_position (ga_positions a) symb"

record reservation_token =
  tk_account_id :: account_id
  tk_symbol_id :: symbol_id
  tk_amount :: i64
  tk_order_id :: u64

datatype risk_violation =
    InsufficientFunds
  | PositionLimitExceeded
  | OrderSizeTooLarge
  | AccountNotFound

record account_table =
  gm_accounts :: "(account_id, gw_account) hashmap"
  gm_next_seq :: u64
  gm_journal :: "acct_journal option"

definition new_account_table :: account_table where
  "new_account_table = \<lparr>gm_accounts = [], gm_next_seq = 1, gm_journal = None\<rparr>"

definition with_journal :: "acct_journal \<Rightarrow> account_table" where
  "with_journal j = \<lparr>gm_accounts = [], gm_next_seq = 1, gm_journal = Some j\<rparr>"

text \<open>\<open>insert\<close> into the table, and the write through \<open>get_mut\<close>, which does nothing for an unknown
  account.\<close>

definition put_account :: "account_id \<Rightarrow> gw_account \<Rightarrow> account_table \<Rightarrow> account_table" where
  "put_account acc a m = m\<lparr>gm_accounts := AList.update acc a (gm_accounts m)\<rparr>"

definition amend :: "account_id \<Rightarrow> (gw_account \<Rightarrow> gw_account) \<Rightarrow> account_table \<Rightarrow> account_table" where
  "amend acc f m =
     (case map_of (gm_accounts m) acc of None \<Rightarrow> m | Some a \<Rightarrow> put_account acc (f a) m)"

section \<open>Operations\<close>

text \<open>A failed append is only logged.\<close>

definition log_update ::
  "account_update serde \<Rightarrow> (u8 list \<Rightarrow> u32) \<Rightarrow> nat \<Rightarrow> account_update \<Rightarrow> account_table \<Rightarrow> disk \<Rightarrow>
   account_table \<times> disk"
where
  "log_update P crc now u m d =
     (case gm_journal m of
        None \<Rightarrow> (m, d)
      | Some j \<Rightarrow>
          (case acct_append P crc now u j d of (_, j1, d1) \<Rightarrow> (m\<lparr>gm_journal := Some j1\<rparr>, d1)))"

definition flush_journal ::
  "account_update serde \<Rightarrow> (u8 list \<Rightarrow> u32) \<Rightarrow> nat \<Rightarrow> account_table \<Rightarrow> disk \<Rightarrow>
   (io_err + unit) \<times> account_table \<times> disk"
where
  "flush_journal P crc now m d =
     (case gm_journal m of
        None \<Rightarrow> (Inr (), m, d)
      | Some j \<Rightarrow>
          (case acct_flush P crc now j d of (r, j1, d1) \<Rightarrow> (r, m\<lparr>gm_journal := Some j1\<rparr>, d1)))"

definition create_account ::
  "account_update serde \<Rightarrow> (u8 list \<Rightarrow> u32) \<Rightarrow> nat \<Rightarrow> account_id \<Rightarrow> i64 \<Rightarrow> account_table \<Rightarrow> disk \<Rightarrow>
   account_table \<times> disk"
where
  "create_account P crc now acc bp m d =
     log_update P crc now (CreateAccount acc bp) (put_account acc (new_gw_account acc bp) m) d"

definition gw_next_seq :: "account_table \<Rightarrow> u64 \<times> account_table" where
  "gw_next_seq m = (gm_next_seq m, m\<lparr>gm_next_seq := gm_next_seq m + 1\<rparr>)"

fun extract_account_id :: "command \<Rightarrow> account_id" where
  "extract_account_id (NewOrder n) = no_account_id n"
| "extract_account_id (Cancel c) = ca_account_id c"
| "extract_account_id (Replace r) = re_account_id r"
| "extract_account_id (SetRiskLimits s) = sr_account_id s"
| "extract_account_id (QueryAccount q) = qa_account_id q"
| "extract_account_id (Authenticate _) = 0"

fun extract_symbol_id :: "command \<Rightarrow> symbol_id" where
  "extract_symbol_id (NewOrder n) = no_symbol_id n"
| "extract_symbol_id (Cancel c) = ca_symbol_id c"
| "extract_symbol_id (Replace r) = re_symbol_id r"
| "extract_symbol_id (SetRiskLimits s) = sr_symbol_id s"
| "extract_symbol_id (QueryAccount q) = qa_symbol_id q"
| "extract_symbol_id (Authenticate _) = 0"

definition reserve_more :: "i64 \<Rightarrow> gw_account \<Rightarrow> gw_account" where
  "reserve_more x a = a\<lparr>ga_tentative_reserved := add64 (ga_tentative_reserved a) x\<rparr>"

definition check_and_reserve_order ::
  "new_order \<Rightarrow> account_table \<Rightarrow> (risk_violation + reservation_token) \<times> account_table"
where
  "check_and_reserve_order n m =
     (case map_of (gm_accounts m) (no_account_id n) of
        None \<Rightarrow> (Inl AccountNotFound, m)
      | Some a \<Rightarrow>
          let limits = ga_get_risk_limits a (no_symbol_id n)
          in if abs64 (no_qty n) > max_order_size limits then (Inl OrderSizeTooLarge, m)
             else
               let pos = ga_get_position a (no_symbol_id n);
                   new_position =
                     (case no_side n of Buy \<Rightarrow> add64 (net_position pos) (no_qty n)
                      | Sell \<Rightarrow> sub64 (net_position pos) (no_qty n))
               in if new_position > max_long_position limits then (Inl PositionLimitExceeded, m)
                  else if new_position < neg64 (max_short_position limits)
                  then (Inl PositionLimitExceeded, m)
                  else
                    let required =
                          (case no_side n of Buy \<Rightarrow> mul64 (no_price n) (no_qty n) | Sell \<Rightarrow> 0);
                        available = sub64 (ga_buying_power a) (ga_tentative_reserved a)
                    in if required > available then (Inl InsufficientFunds, m)
                       else
                         (Inr \<lparr>tk_account_id = no_account_id n, tk_symbol_id = no_symbol_id n,
                               tk_amount = required, tk_order_id = no_order_id n\<rparr>,
                          put_account (no_account_id n) (reserve_more required a) m))"

definition check_and_reserve_replace ::
  "replace_cmd \<Rightarrow> account_table \<Rightarrow> (risk_violation + reservation_token) \<times> account_table"
where
  "check_and_reserve_replace r m =
     (case map_of (gm_accounts m) (re_account_id r) of
        None \<Rightarrow> (Inl AccountNotFound, m)
      | Some a \<Rightarrow>
          let limits = ga_get_risk_limits a (re_symbol_id r)
          in if abs64 (re_new_qty r) > max_order_size limits then (Inl OrderSizeTooLarge, m)
             else
               let new_amount = mul64 (re_new_price r) (re_new_qty r);
                   available = sub64 (ga_buying_power a) (ga_tentative_reserved a)
               in if new_amount > available then (Inl InsufficientFunds, m)
                  else
                    (Inr \<lparr>tk_account_id = re_account_id r, tk_symbol_id = re_symbol_id r,
                          tk_amount = new_amount, tk_order_id = re_order_id r\<rparr>,
                     put_account (re_account_id r) (reserve_more new_amount a) m))"

definition check_and_reserve ::
  "command \<Rightarrow> account_table \<Rightarrow> (risk_violation + reservation_token) \<times> account_table"
where
  "check_and_reserve cmd m =
     (case cmd of
        NewOrder n \<Rightarrow> check_and_reserve_order n m
      | Replace r \<Rightarrow> check_and_reserve_replace r m
      | _ \<Rightarrow> (Inr \<lparr>tk_account_id = extract_account_id cmd, tk_symbol_id = extract_symbol_id cmd,
                  tk_amount = 0, tk_order_id = 0\<rparr>, m))"

text \<open>The old reservation is given back and the new one taken under one lock.\<close>

definition adjust_reservation ::
  "reservation_token \<Rightarrow> replace_cmd \<Rightarrow> account_table \<Rightarrow>
   (risk_violation + reservation_token) \<times> account_table"
where
  "adjust_reservation old r m =
     (case map_of (gm_accounts m) (re_account_id r) of
        None \<Rightarrow> (Inl AccountNotFound, m)
      | Some a \<Rightarrow>
          let limits = ga_get_risk_limits a (re_symbol_id r)
          in if abs64 (re_new_qty r) > max_order_size limits then (Inl OrderSizeTooLarge, m)
             else
               let new_amount = mul64 (re_new_price r) (re_new_qty r);
                   available = add64 (sub64 (ga_buying_power a) (ga_tentative_reserved a)) (tk_amount old)
               in if new_amount > available then (Inl InsufficientFunds, m)
                  else
                    (Inr \<lparr>tk_account_id = re_account_id r, tk_symbol_id = re_symbol_id r,
                          tk_amount = new_amount, tk_order_id = re_order_id r\<rparr>,
                     put_account (re_account_id r)
                       (a\<lparr>ga_tentative_reserved :=
                            add64 (sub64 (ga_tentative_reserved a) (tk_amount old)) new_amount\<rparr>) m))"

definition release_amount :: "i64 \<Rightarrow> gw_account \<Rightarrow> gw_account" where
  "release_amount x a = a\<lparr>ga_tentative_reserved := sub64 (ga_tentative_reserved a) x\<rparr>"

definition release_reservation :: "reservation_token \<Rightarrow> account_table \<Rightarrow> account_table" where
  "release_reservation t m = amend (tk_account_id t) (release_amount (tk_amount t)) m"

text \<open>The position entry after a fill: the average price is the last price unless the position is flat.\<close>

definition fill_position :: "fill \<Rightarrow> bool \<Rightarrow> position \<Rightarrow> position" where
  "fill_position f is_buy pos =
     (let net = (if is_buy then add64 (net_position pos) (fi_qty f)
                 else sub64 (net_position pos) (fi_qty f))
      in pos\<lparr>net_position := net, avg_price := (if net \<noteq> 0 then fi_price f else avg_price pos)\<rparr>)"

definition fill_account :: "fill \<Rightarrow> i64 \<Rightarrow> bool \<Rightarrow> gw_account \<Rightarrow> gw_account" where
  "fill_account f amount is_buy a =
     (let actual_cost = mul64 (fi_price f) (fi_qty f)
      in a\<lparr>ga_tentative_reserved := sub64 (ga_tentative_reserved a) amount,
           ga_buying_power := (if is_buy then sub64 (ga_buying_power a) actual_cost
                               else add64 (ga_buying_power a) actual_cost),
           ga_positions := AList.update (fi_symbol_id f)
             (fill_position f is_buy (get_or default_position (ga_positions a) (fi_symbol_id f)))
             (ga_positions a)\<rparr>)"

definition gw_apply_fill ::
  "event \<Rightarrow> reservation_token \<Rightarrow> bool \<Rightarrow> account_table \<Rightarrow> account_table"
where
  "gw_apply_fill ev t is_buy m =
     (case ev of
        EvFill f \<Rightarrow> amend (tk_account_id t) (fill_account f (tk_amount t) is_buy) m
      | _ \<Rightarrow> m)"

definition get_account :: "account_table \<Rightarrow> account_id \<Rightarrow> gw_account option" where
  "get_account m acc = map_of (gm_accounts m) acc"

definition set_tentative_reserved :: "account_id \<Rightarrow> i64 \<Rightarrow> account_table \<Rightarrow> account_table" where
  "set_tentative_reserved acc amount m = amend acc (\<lambda>a. a\<lparr>ga_tentative_reserved := amount\<rparr>) m"

definition get_tentative_reserved :: "account_table \<Rightarrow> account_id \<Rightarrow> i64" where
  "get_tentative_reserved m acc =
     (case map_of (gm_accounts m) acc of None \<Rightarrow> 0 | Some a \<Rightarrow> ga_tentative_reserved a)"

section \<open>Snapshots and replay\<close>

definition create_snapshot :: "u64 \<Rightarrow> account_table \<Rightarrow> acct_snapshot" where
  "create_snapshot seq' m =
     \<lparr>sp_sequence = seq',
      sp_accounts = map (\<lambda>(_, a). \<lparr>ss_account_id = ga_account_id a, ss_buying_power = ga_buying_power a,
        ss_positions = ga_positions a, ss_risk_limits = ga_risk_limits a\<rparr>) (gm_accounts m)\<rparr>"

definition insert_all :: "('k \<times> 'v) list \<Rightarrow> ('k, 'v) hashmap \<Rightarrow> ('k, 'v) hashmap" where
  "insert_all xs m = foldl (\<lambda>m (k, v). AList.update k v m) m xs"

definition restore_account :: "acct_state_snapshot \<Rightarrow> gw_account" where
  "restore_account s =
     (new_gw_account (ss_account_id s) (ss_buying_power s))
       \<lparr>ga_positions := insert_all (ss_positions s) [], ga_risk_limits := insert_all (ss_risk_limits s) []\<rparr>"

definition restore_accounts :: "acct_snapshot \<Rightarrow> account_table \<Rightarrow> account_table" where
  "restore_accounts sn m =
     foldl (\<lambda>m s. put_account (ss_account_id s) (restore_account s) m) (m\<lparr>gm_accounts := []\<rparr>)
       (sp_accounts sn)"

definition replay_journal :: "account_update list \<Rightarrow> account_table \<Rightarrow> account_table" where
  "replay_journal us m =
     foldl (\<lambda>m u. case u of CreateAccount acc bp \<Rightarrow> put_account acc (new_gw_account acc bp) m) m us"

end
