(* ===== verification/EngineRouter.thy ===== *)
theory EngineRouter
  imports GatewayAccounts
begin

text \<open>
  \<open>crates/gateway_server/src/engine_router.rs\<close> and \<open>reconciliation.rs\<close>: the connections to the
  engines, and the reservations rebuilt from what the engines report.

  A connection is the framed write half: \<open>feed\<close> puts a frame into its buffer, \<open>flush\<close> hands the
  buffer over. The network is a schedule of outcomes: each \<open>feed\<close> and \<open>flush\<close> takes the next one,
  \<open>True\<close> for a failure, and an empty schedule is a network without failures. A frame whose flush
  failed stays in the buffer; nothing is said of whether it was delivered.
\<close>

section \<open>Connections\<close>

record engine_conn_config =
  nc_symbol_id :: symbol_id
  nc_symbol_name :: string
  nc_address :: string

record engine_sink =
  sk_fed :: "u8 list list"
  sk_sent :: "u8 list list"

record engine_router =
  er_senders :: "(symbol_id, engine_sink) hashmap"
  er_faults :: "bool list"

datatype route_err =
    SerializeFailed
  | NoEngine symbol_id
  | FeedFailed
  | FlushFailed
  | ConnectFailed string
  | QueryClosed
  | QueryTimeout

definition net_call :: "engine_router \<Rightarrow> bool \<times> engine_router" where
  "net_call r = (case er_faults r of [] \<Rightarrow> (True, r) | f # fs \<Rightarrow> (\<not> f, r\<lparr>er_faults := fs\<rparr>))"

definition put_sink :: "symbol_id \<Rightarrow> engine_sink \<Rightarrow> engine_router \<Rightarrow> engine_router" where
  "put_sink symb sk r = r\<lparr>er_senders := AList.update symb sk (er_senders r)\<rparr>"

text \<open>\<open>reach\<close> says whether an address parses and can be connected to.\<close>

definition connect_to_engine ::
  "(string \<Rightarrow> bool) \<Rightarrow> engine_conn_config \<Rightarrow> engine_router \<Rightarrow> route_err + engine_router"
where
  "connect_to_engine reach config r =
     (if reach (nc_address config)
      then Inr (put_sink (nc_symbol_id config) \<lparr>sk_fed = [], sk_sent = []\<rparr> r)
      else Inl (ConnectFailed (nc_address config)))"

fun connect_all ::
  "(string \<Rightarrow> bool) \<Rightarrow> engine_conn_config list \<Rightarrow> engine_router \<Rightarrow> route_err + engine_router"
where
  "connect_all reach [] r = Inr r"
| "connect_all reach (c # cs) r =
     (case connect_to_engine reach c r of Inl e \<Rightarrow> Inl e | Inr r1 \<Rightarrow> connect_all reach cs r1)"

definition new_router ::
  "(string \<Rightarrow> bool) \<Rightarrow> bool list \<Rightarrow> engine_conn_config list \<Rightarrow> route_err + engine_router"
where
  "new_router reach faults configs =
     connect_all reach configs \<lparr>er_senders = [], er_faults = faults\<rparr>"

definition num_connections :: "engine_router \<Rightarrow> nat" where
  "num_connections r = length (er_senders r)"

section \<open>Routing\<close>

definition route_to_engine ::
  "gateway_to_engine serde \<Rightarrow> gateway_to_engine \<Rightarrow> symbol_id \<Rightarrow> engine_router \<Rightarrow>
   (route_err + unit) \<times> engine_router"
where
  "route_to_engine P msg symb r =
     (case sd_to P msg of
        None \<Rightarrow> (Inl SerializeFailed, r)
      | Some bytes \<Rightarrow>
          (case map_of (er_senders r) symb of
             None \<Rightarrow> (Inl (NoEngine symb), r)
           | Some sk \<Rightarrow>
               (case net_call r of
                  (False, r1) \<Rightarrow> (Inl FeedFailed, r1)
                | (True, r1) \<Rightarrow>
                    let fed = sk_fed sk @ [bytes]
                    in (case net_call (put_sink symb (sk\<lparr>sk_fed := fed\<rparr>) r1) of
                          (False, r2) \<Rightarrow> (Inl FlushFailed, r2)
                        | (True, r2) \<Rightarrow>
                            (Inr (), put_sink symb \<lparr>sk_fed = [], sk_sent = sk_sent sk @ fed\<rparr> r2)))))"

text \<open>The reader task forwards the frames that deserialize and logs the others.\<close>

definition engine_reader :: "engine_to_gateway serde \<Rightarrow> u8 list list \<Rightarrow> engine_to_gateway list" where
  "engine_reader P bss = List.map_filter (sd_from P) bss"

section \<open>Asking the engines for their orders\<close>

text \<open>What one call of \<open>recv_event\<close> under the timeout gives.\<close>

datatype arrival =
    Arrived engine_to_gateway
  | ChannelClosed
  | TimedOut

fun send_queries ::
  "gateway_to_engine serde \<Rightarrow> symbol_id list \<Rightarrow> engine_router \<Rightarrow> (route_err + unit) \<times> engine_router"
where
  "send_queries P [] r = (Inr (), r)"
| "send_queries P (symb # symbs) r =
     (case route_to_engine P QueryAllOrders symb r of
        (Inl e, r1) \<Rightarrow> (Inl e, r1)
      | (Inr _, r1) \<Rightarrow> send_queries P symbs r1)"

text \<open>The collecting loop waits as often as there are engines; an event of another kind uses up
  one of the waits. When the given arrivals are over, the wait times out.\<close>

fun collect_orders :: "nat \<Rightarrow> arrival list \<Rightarrow> route_err + order_snapshot list" where
  "collect_orders 0 arrivals = Inr []"
| "collect_orders (Suc n) [] = Inl QueryTimeout"
| "collect_orders (Suc n) (a # as) =
     (case a of
        Arrived ev \<Rightarrow>
          (case ev of
             AllOrders orders \<Rightarrow> map_sum id (\<lambda>os. orders @ os) (collect_orders n as)
           | _ \<Rightarrow> collect_orders n as)
      | ChannelClosed \<Rightarrow> Inl QueryClosed
      | TimedOut \<Rightarrow> Inl QueryTimeout)"

definition query_all_engines_for_orders ::
  "gateway_to_engine serde \<Rightarrow> arrival list \<Rightarrow> engine_router \<Rightarrow>
   (route_err + order_snapshot list) \<times> engine_router"
where
  "query_all_engines_for_orders P arrivals r =
     (let symbol_ids = map fst (er_senders r)
      in case send_queries P symbol_ids r of
           (Inl e, r1) \<Rightarrow> (Inl e, r1)
         | (Inr _, r1) \<Rightarrow> (collect_orders (length symbol_ids) arrivals, r1))"

section \<open>Reconciliation\<close>

text \<open>The reserved amounts summed per account, then written into the accounts.\<close>

definition reservations_by_account :: "order_snapshot list \<Rightarrow> (account_id, i64) hashmap" where
  "reservations_by_account orders =
     foldl (\<lambda>m x. AList.update (os_account_id x)
              (add64 (get_or 0 m (os_account_id x)) (os_reserved_amount x)) m) [] orders"

definition set_reservations :: "(account_id, i64) hashmap \<Rightarrow> account_table \<Rightarrow> account_table" where
  "set_reservations sums m = foldl (\<lambda>m (acc, amount). set_tentative_reserved acc amount m) m sums"

definition rebuild_reservations ::
  "gateway_to_engine serde \<Rightarrow> arrival list \<Rightarrow> account_table \<Rightarrow> engine_router \<Rightarrow>
   (route_err + unit) \<times> account_table \<times> engine_router"
where
  "rebuild_reservations P arrivals m r =
     (case query_all_engines_for_orders P arrivals r of
        (Inl e, r1) \<Rightarrow> (Inl e, m, r1)
      | (Inr orders, r1) \<Rightarrow> (Inr (), set_reservations (reservations_by_account orders) m, r1))"

text \<open>The handler of a restarted engine is a stub that only logs.\<close>

definition reconcile_engine_restart :: "symbol_id \<Rightarrow> order_snapshot list \<Rightarrow> account_table \<Rightarrow> account_table" where
  "reconcile_engine_restart symb orders m = m"

end
