(* ===== verification/Gateway.thy ===== *)
theory Gateway
  imports GatewaySessions EngineRouter Metrics Codec "HOL-Library.Sublist"
begin

text \<open>
  \<open>crates/gateway_server/src/client_handler.rs\<close>: the read loop of a client connection and the task
  that handles the engines' responses. A step is the handling of one frame or of one response, run
  without interruption; the steps of different connections and of the response task interleave.
  Frames sent to clients are recorded in order in \<open>gw_sent\<close>.
\<close>

section \<open>State\<close>

datatype pending_operation = Active | CancelPending

record order_metadata =
  md_token :: reservation_token
  md_side :: side
  md_operation :: pending_operation
  md_conn_id :: u64

text \<open>A codec object: \<open>cc_encode\<close> gives the bytes written into an empty buffer.\<close>

record client_codec =
  cc_name :: string
  cc_encode :: "event \<Rightarrow> proto_error + u8 list"
  cc_decode :: "u8 list \<Rightarrow> proto_error + command"

definition binary_codec :: "bytes_crate \<Rightarrow> client_codec" where
  "binary_codec B = \<lparr>cc_name = ''binary'', cc_encode = (\<lambda>ev. Inr (encode_event B ev [])),
     cc_decode = decode_command B\<rparr>"

definition json_codec ::
  "(event \<Rightarrow> u8 list option) \<Rightarrow> (u8 list \<Rightarrow> command option) \<Rightarrow> client_codec"
where
  "json_codec to_writer from_slice =
     \<lparr>cc_name = ''json'', cc_encode = (\<lambda>ev. json_encode_event to_writer ev []),
      cc_decode = json_decode_command from_slice\<rparr>"

record client_info =
  ci_codec :: client_codec

record gateway =
  gw_table :: account_table
  gw_router :: engine_router
  gw_auth :: auth_service
  gw_sessions :: session_manager
  gw_metrics :: metrics
  gw_pending :: "(order_id, order_metadata) hashmap"
  gw_clients :: "(u64, client_info) hashmap"
  gw_sent :: "(u64 \<times> u8 list) list"

text \<open>The orders of one connection, kept by its read loop.\<close>

type_synonym local_orders = "(order_id, reservation_token \<times> bool \<times> pending_operation) hashmap"

section \<open>Answers\<close>

definition respond :: "client_codec \<Rightarrow> u64 \<Rightarrow> event \<Rightarrow> gateway \<Rightarrow> gateway" where
  "respond codec conn ev g =
     (case cc_encode codec ev of
        Inl _ \<Rightarrow> g
      | Inr payload \<Rightarrow>
          g\<lparr>gw_sent := gw_sent g @ [(conn, payload)], gw_metrics := inc_frames_out (gw_metrics g)\<rparr>)"

definition take_seq :: "gateway \<Rightarrow> u64 \<times> gateway" where
  "take_seq g = (case gw_next_seq (gw_table g) of (sq, t) \<Rightarrow> (sq, g\<lparr>gw_table := t\<rparr>))"

definition reject_client ::
  "client_codec \<Rightarrow> u64 \<Rightarrow> u64 \<Rightarrow> order_id option \<Rightarrow> reject_reason \<Rightarrow> gateway \<Rightarrow> gateway"
where
  "reject_client codec conn client_seq oid reason g =
     (case take_seq g of
        (sq, g1) \<Rightarrow>
          respond codec conn
            (EvReject \<lparr>rj_server_seq = sq, rj_client_seq = client_seq, rj_order_id = oid,
                       rj_reason = reason\<rparr>) g1)"

section \<open>Connections\<close>

definition client_connect :: "client_codec \<Rightarrow> u64 \<Rightarrow> gateway \<Rightarrow> gateway" where
  "client_connect codec conn g =
     g\<lparr>gw_metrics := inc_connections (gw_metrics g),
       gw_clients := AList.update conn \<lparr>ci_codec = codec\<rparr> (gw_clients g)\<rparr>"

definition client_disconnect :: "u64 \<Rightarrow> gateway \<Rightarrow> gateway" where
  "client_disconnect conn g =
     g\<lparr>gw_clients := AList.delete conn (gw_clients g),
       gw_sessions := snd (unregister conn (gw_sessions g))\<rparr>"

section \<open>Commands the gateway answers itself\<close>

definition answer_query :: "client_codec \<Rightarrow> u64 \<Rightarrow> query_account \<Rightarrow> gateway \<Rightarrow> gateway" where
  "answer_query codec conn q g =
     (case get_account (gw_table g) (qa_account_id q) of
        Some a \<Rightarrow>
          (case take_seq g of
             (sq, g1) \<Rightarrow>
               respond codec conn
                 (EvAccountState
                    \<lparr>as_server_seq = sq, as_client_seq = qa_client_seq q, as_account_id = qa_account_id q,
                     as_symbol_id = qa_symbol_id q,
                     as_position = get_or default_position (ga_positions a) (qa_symbol_id q),
                     as_risk_limits = get_or default_risk_limits (ga_risk_limits a) (qa_symbol_id q)\<rparr>) g1)
      | None \<Rightarrow> reject_client codec conn (qa_client_seq q) None NotFound g)"

definition answer_auth :: "client_codec \<Rightarrow> u64 \<Rightarrow> authenticate_cmd \<Rightarrow> gateway \<Rightarrow> gateway" where
  "answer_auth codec conn a g =
     (case authenticate (gw_auth g) (au_api_key a) of
        Inr acc \<Rightarrow>
          respond codec conn (EvAuthSuccess \<lparr>ok_account_id = acc\<rparr>)
            (g\<lparr>gw_sessions := register conn acc (gw_sessions g)\<rparr>)
      | Inl err \<Rightarrow>
          respond codec conn (EvAuthFailure \<lparr>fa_reason = ''Authentication failed: '' @ err\<rparr>) g)"

section \<open>Commands for an engine\<close>

text \<open>The \<open>insert\<close> of a changed operation for an order that is present, in the connection's own map
  and in the shared one.\<close>

definition mark_local :: "pending_operation \<Rightarrow> order_id \<Rightarrow> local_orders \<Rightarrow> local_orders" where
  "mark_local operation oid loc =
     (case map_of loc oid of
        None \<Rightarrow> loc
      | Some (t, is_buy, _) \<Rightarrow> AList.update oid (t, is_buy, operation) loc)"

definition mark_pending :: "pending_operation \<Rightarrow> order_id \<Rightarrow> gateway \<Rightarrow> gateway" where
  "mark_pending operation oid g =
     (case map_of (gw_pending g) oid of
        None \<Rightarrow> g
      | Some md \<Rightarrow> g\<lparr>gw_pending := AList.update oid (md\<lparr>md_operation := operation\<rparr>) (gw_pending g)\<rparr>)"

text \<open>\<open>execute\<close> with the risk token, then \<open>route_to_engine\<close>.\<close>

definition send_command ::
  "gateway_to_engine serde \<Rightarrow> command \<Rightarrow> u64 \<Rightarrow> account_id \<Rightarrow> i64 \<Rightarrow> symbol_id \<Rightarrow> gateway \<Rightarrow>
   (route_err + unit) \<times> gateway"
where
  "send_command P cmd conn acc amount symb g =
     (case take_seq g of
        (sq, g1) \<Rightarrow>
          (case route_to_engine P
                  (execute cmd conn \<lparr>rt_account_id = acc, rt_reserved_amount = amount, rt_gateway_seq = sq\<rparr>)
                  symb (gw_router g1) of
             (r, router) \<Rightarrow> (r, g1\<lparr>gw_router := router\<rparr>)))"

definition handle_cancel ::
  "gateway_to_engine serde \<Rightarrow> client_codec \<Rightarrow> u64 \<Rightarrow> cancel_cmd \<Rightarrow> symbol_id \<Rightarrow> local_orders \<Rightarrow> gateway \<Rightarrow>
   local_orders \<times> gateway"
where
  "handle_cancel P codec conn c symb loc g =
     (let loc1 = mark_local CancelPending (ca_order_id c) loc;
          g1 = mark_pending CancelPending (ca_order_id c) g
      in case send_command P (Cancel c) conn (ca_account_id c) 0 symb g1 of
           (Inr _, g2) \<Rightarrow> (loc1, g2)
         | (Inl _, g2) \<Rightarrow>
             (mark_local Active (ca_order_id c) loc1,
              reject_client codec conn (ca_client_seq c) (Some (ca_order_id c)) Overloaded
                (mark_pending Active (ca_order_id c) g2)))"

text \<open>The reservation of a command: a replace adjusts the one its order has, everything else is
  checked. \<open>None\<close> means that the command was rejected.\<close>

definition on_table ::
  "(account_table \<Rightarrow> 'r \<times> account_table) \<Rightarrow> gateway \<Rightarrow> 'r \<times> gateway"
where
  "on_table f g = (case f (gw_table g) of (r, t) \<Rightarrow> (r, g\<lparr>gw_table := t\<rparr>))"

fun new_order_ids :: "command \<Rightarrow> u64 \<times> order_id option" where
  "new_order_ids (NewOrder n) = (no_client_seq n, Some (no_order_id n))"
| "new_order_ids _ = (0, None)"

definition reserve_for ::
  "client_codec \<Rightarrow> u64 \<Rightarrow> command \<Rightarrow> gateway \<Rightarrow> reservation_token option \<times> gateway"
where
  "reserve_for codec conn cmd g =
     (case cmd of
        Replace r \<Rightarrow>
          (case map_of (gw_pending g) (re_order_id r) of
             Some md \<Rightarrow>
               (case on_table (adjust_reservation (md_token md) r) g of
                  (Inr token, g1) \<Rightarrow> (Some token, g1)
                | (Inl _, g1) \<Rightarrow>
                    (None, reject_client codec conn (re_client_seq r) (Some (re_order_id r)) Risk g1))
           | None \<Rightarrow>
               (None, reject_client codec conn (re_client_seq r) (Some (re_order_id r)) NotFound g))
      | _ \<Rightarrow>
          (case on_table (check_and_reserve cmd) g of
             (Inr token, g1) \<Rightarrow> (Some token, g1)
           | (Inl _, g1) \<Rightarrow>
               (case new_order_ids cmd of
                  (client_seq, oid) \<Rightarrow> (None, reject_client codec conn client_seq oid Risk g1))))"

definition track_order ::
  "u64 \<Rightarrow> command \<Rightarrow> bool \<Rightarrow> reservation_token \<Rightarrow> local_orders \<Rightarrow> gateway \<Rightarrow> local_orders \<times> gateway"
where
  "track_order conn cmd is_buy token loc g =
     (case cmd of
        NewOrder n \<Rightarrow>
          (AList.update (no_order_id n) (token, is_buy, Active) loc,
           g\<lparr>gw_pending := AList.update (no_order_id n)
              \<lparr>md_token = token, md_side = (if is_buy then Buy else Sell), md_operation = Active,
               md_conn_id = conn\<rparr> (gw_pending g)\<rparr>)
      | Replace r \<Rightarrow>
          (case map_of loc (re_order_id r) of
             None \<Rightarrow> (loc, g)
           | Some (_, was_buy, _) \<Rightarrow>
               (AList.update (re_order_id r) (token, was_buy, Active) loc,
                g\<lparr>gw_pending := AList.update (re_order_id r)
                   \<lparr>md_token = token, md_side = (if was_buy then Buy else Sell), md_operation = Active,
                    md_conn_id = conn\<rparr> (gw_pending g)\<rparr>))
      | _ \<Rightarrow> (loc, g))"

fun reject_ids :: "command \<Rightarrow> u64 \<times> order_id option" where
  "reject_ids (NewOrder n) = (no_client_seq n, Some (no_order_id n))"
| "reject_ids (Cancel c) = (ca_client_seq c, Some (ca_order_id c))"
| "reject_ids (Replace r) = (re_client_seq r, Some (re_order_id r))"
| "reject_ids _ = (0, None)"

text \<open>When the command cannot be routed, the reservation is released and the client told; the order
  leaves the connection's own map, not the shared one.\<close>

definition unroutable ::
  "client_codec \<Rightarrow> u64 \<Rightarrow> command \<Rightarrow> reservation_token \<Rightarrow> local_orders \<Rightarrow> gateway \<Rightarrow> local_orders \<times> gateway"
where
  "unroutable codec conn cmd token loc g =
     ((case cmd of NewOrder n \<Rightarrow> AList.delete (no_order_id n) loc | _ \<Rightarrow> loc),
      (case reject_ids cmd of
         (client_seq, oid) \<Rightarrow>
           reject_client codec conn client_seq oid Overloaded
             (g\<lparr>gw_table := release_reservation token (gw_table g)\<rparr>)))"

definition handle_order ::
  "gateway_to_engine serde \<Rightarrow> client_codec \<Rightarrow> u64 \<Rightarrow> command \<Rightarrow> symbol_id \<Rightarrow> local_orders \<Rightarrow> gateway \<Rightarrow>
   local_orders \<times> gateway"
where
  "handle_order P codec conn cmd symb loc g =
     (let is_buy = (case cmd of NewOrder n \<Rightarrow> no_side n = Buy | _ \<Rightarrow> False)
      in case reserve_for codec conn cmd g of
           (None, g1) \<Rightarrow> (loc, g1)
         | (Some token, g1) \<Rightarrow>
             (case track_order conn cmd is_buy token loc g1 of
                (loc1, g2) \<Rightarrow>
                  (case send_command P cmd conn (tk_account_id token) (tk_amount token) symb g2 of
                     (Inr _, g3) \<Rightarrow> (loc1, g3)
                   | (Inl _, g3) \<Rightarrow> unroutable codec conn cmd token loc1 g3)))"

section \<open>The read loop\<close>

text \<open>One frame. Everything but queries and authentication needs an authenticated connection. The
  missing symbol of \<open>Authenticate\<close> cannot occur in the last case (\<open>expect\<close> in the code).\<close>

definition handle_command ::
  "gateway_to_engine serde \<Rightarrow> client_codec \<Rightarrow> u64 \<Rightarrow> command \<Rightarrow> local_orders \<Rightarrow> gateway \<Rightarrow>
   local_orders \<times> gateway"
where
  "handle_command P codec conn cmd loc g =
     (case cmd of
        QueryAccount q \<Rightarrow> (loc, answer_query codec conn q g)
      | Authenticate a \<Rightarrow> (loc, answer_auth codec conn a g)
      | _ \<Rightarrow>
          if \<not> is_authenticated (gw_sessions g) conn then
            (loc, reject_client codec conn 0 None Invalid g)
          else
            (case command_symbol_id cmd of
               None \<Rightarrow> (loc, g)
             | Some symb \<Rightarrow>
                 (case cmd of
                    Cancel c \<Rightarrow> handle_cancel P codec conn c symb loc g
                  | _ \<Rightarrow> handle_order P codec conn cmd symb loc g)))"

definition client_frame ::
  "gateway_to_engine serde \<Rightarrow> client_codec \<Rightarrow> u64 \<Rightarrow> u8 list \<Rightarrow> local_orders \<Rightarrow> gateway \<Rightarrow>
   local_orders \<times> gateway"
where
  "client_frame P codec conn bytes loc g =
     (let g1 = g\<lparr>gw_metrics := inc_frames_in (gw_metrics g)\<rparr>
      in case cc_decode codec bytes of
           Inl _ \<Rightarrow> (loc, g1)
         | Inr cmd \<Rightarrow> handle_command P codec conn cmd loc g1)"

fun client_read_loop ::
  "gateway_to_engine serde \<Rightarrow> client_codec \<Rightarrow> u64 \<Rightarrow> u8 list list \<Rightarrow> local_orders \<Rightarrow> gateway \<Rightarrow>
   local_orders \<times> gateway"
where
  "client_read_loop P codec conn [] loc g = (loc, g)"
| "client_read_loop P codec conn (bytes # rest) loc g =
     (case client_frame P codec conn bytes loc g of
        (loc1, g1) \<Rightarrow> client_read_loop P codec conn rest loc1 g1)"

text \<open>A connection from its registration to its end, with nothing else in between.\<close>

definition handle_client_connection ::
  "gateway_to_engine serde \<Rightarrow> client_codec \<Rightarrow> u64 \<Rightarrow> u8 list list \<Rightarrow> gateway \<Rightarrow> gateway"
where
  "handle_client_connection P codec conn bss g =
     client_disconnect conn (snd (client_read_loop P codec conn bss [] (client_connect codec conn g)))"

section \<open>The responses of the engines\<close>

definition deliver :: "u64 \<Rightarrow> event \<Rightarrow> gateway \<Rightarrow> gateway" where
  "deliver conn ev g =
     (case map_of (gw_clients g) conn of None \<Rightarrow> g | Some info \<Rightarrow> respond (ci_codec info) conn ev g)"

text \<open>One side of a fill: the account is settled and the order leaves the shared map.\<close>

definition settle :: "fill \<Rightarrow> order_id \<Rightarrow> order_metadata option \<Rightarrow> gateway \<Rightarrow> gateway" where
  "settle f oid md g =
     (case md of
        None \<Rightarrow> g
      | Some m \<Rightarrow>
          g\<lparr>gw_table := gw_apply_fill (EvFill f) (md_token m) (md_side m = Buy) (gw_table g),
            gw_pending := AList.delete oid (gw_pending g)\<rparr>)"

definition handle_fill :: "u64 \<Rightarrow> fill \<Rightarrow> gateway \<Rightarrow> gateway" where
  "handle_fill conn f g =
     (let maker = map_of (gw_pending g) (fi_maker_order_id f);
          taker = map_of (gw_pending g) (fi_taker_order_id f);
          g1 = settle f (fi_maker_order_id f) maker g;
          g2 = settle f (fi_taker_order_id f) taker g1;
          g3 = (case maker of None \<Rightarrow> g2 | Some m \<Rightarrow> deliver (md_conn_id m) (EvFill f) g2)
      in deliver conn (EvFill f) g3)"

definition release_pending :: "order_id \<Rightarrow> gateway \<Rightarrow> gateway" where
  "release_pending oid g =
     (case map_of (gw_pending g) oid of
        None \<Rightarrow> g
      | Some md \<Rightarrow>
          g\<lparr>gw_table := release_reservation (md_token md) (gw_table g),
            gw_pending := AList.delete oid (gw_pending g)\<rparr>)"

definition handle_ack :: "ack \<Rightarrow> gateway \<Rightarrow> gateway" where
  "handle_ack a g =
     (case map_of (gw_pending g) (ak_order_id a) of
        None \<Rightarrow> g
      | Some md \<Rightarrow>
          (case md_operation md of
             CancelPending \<Rightarrow> release_pending (ak_order_id a) g
           | Active \<Rightarrow> g))"

definition handle_reject :: "reject \<Rightarrow> gateway \<Rightarrow> gateway" where
  "handle_reject r g =
     (case rj_order_id r of None \<Rightarrow> g | Some oid \<Rightarrow> release_pending oid g)"

fun engine_response :: "engine_to_gateway \<Rightarrow> gateway \<Rightarrow> gateway" where
  "engine_response (ClientEvent conn ev token) g =
     (case ev of
        EvFill f \<Rightarrow> handle_fill conn f g
      | EvAck a \<Rightarrow> deliver conn ev (handle_ack a g)
      | EvReject r \<Rightarrow> deliver conn ev (handle_reject r g)
      | _ \<Rightarrow> deliver conn ev g)"
| "engine_response (MarketData symb ev) g = g"
| "engine_response (Pong symb n) g = g"
| "engine_response (AllOrders orders) g = g"
| "engine_response (EngineReady symb orders) g = g"

definition handle_engine_responses :: "engine_to_gateway list \<Rightarrow> gateway \<Rightarrow> gateway" where
  "handle_engine_responses events g = fold engine_response events g"

section \<open>The write task of a client\<close>

text \<open>The task takes the frames that are waiting, feeds them one after the other and flushes once. A batch
  is what the channel holds when the task looks; the schedule of faults is that of \<open>EngineRouter\<close>. The
  result is what has been flushed when the task ends.\<close>

fun feed_frames :: "bool list \<Rightarrow> u8 list list \<Rightarrow> u8 list list option \<times> bool list" where
  "feed_frames faults [] = (Some [], faults)"
| "feed_frames faults (f # fs) =
     (case faults of
        True # faults1 \<Rightarrow> (None, faults1)
      | _ \<Rightarrow> (case feed_frames (tl faults) fs of
                (fed, faults1) \<Rightarrow> (map_option (Cons f) fed, faults1)))"

fun client_write_loop :: "bool list \<Rightarrow> u8 list list list \<Rightarrow> u8 list list" where
  "client_write_loop faults [] = []"
| "client_write_loop faults (batch # batches) =
     (case feed_frames faults batch of
        (None, _) \<Rightarrow> []
      | (Some fed, faults1) \<Rightarrow>
          (case faults1 of
             True # _ \<Rightarrow> []
           | _ \<Rightarrow> fed @ client_write_loop (tl faults1) batches))"

lemma feed_frames_Some: "feed_frames faults fs = (Some fed, faults1) \<Longrightarrow> fed = fs"
  by (induction faults fs arbitrary: fed faults1 rule: feed_frames.induct)
    (auto split: list.splits bool.splits prod.splits)

lemma feed_frames_ok: "feed_frames [] fs = (Some fs, [])"
  by (induction fs) auto

text \<open>However the frames fall into batches, the client gets them in order: all of them without faults, a
  prefix of them with any.\<close>

lemma client_write_ok: "client_write_loop [] batches = concat batches"
  by (induction batches) (auto simp: feed_frames_ok)

lemma client_write_prefix: "prefix (client_write_loop faults batches) (concat batches)"
proof (induction batches arbitrary: faults)
  case (Cons batch batches)
  then show ?case
    by (auto split: option.splits list.splits bool.splits prod.splits dest: feed_frames_Some)
qed simp

end
