(* ===== verification/GatewayLedger.thy ===== *)
theory GatewayLedger
  imports GatewayAccounts "HOL-Library.Multiset"
begin

text \<open>
  The reservations as a ledger: what an account holds back is the sum of the tokens that were taken
  and not given back, modulo the width of the integers. The locale \<open>ledger\<close> states what the
  gateway's bookkeeping relies on; the account table provides it twice, with tokens given back by a
  release and with tokens given back by a fill.
\<close>

section \<open>Tokens and what they owe\<close>

definition owed :: "reservation_token multiset \<Rightarrow> account_id \<Rightarrow> int" where
  "owed T acc = (\<Sum>t \<in># filter_mset (\<lambda>t. tk_account_id t = acc) T. tk_amount t)"

lemma owed_empty [simp]: "owed {#} acc = 0"
  by (simp add: owed_def)

lemma owed_add [simp]:
  "owed (add_mset t T) acc = (if tk_account_id t = acc then owed T acc + tk_amount t else owed T acc)"
  by (simp add: owed_def add.commute)

lemma owed_remove:
  assumes "t \<in># T"
  shows "owed (T - {#t#}) acc = (if tk_account_id t = acc then owed T acc - tk_amount t else owed T acc)"
proof -
  obtain U where "T = add_mset t U" using assms by (rule mset_add)
  then show ?thesis by simp
qed

text \<open>What the accounts hold is what is owed to them.\<close>

definition balanced :: "(account_id \<Rightarrow> i64 option) \<Rightarrow> reservation_token multiset \<Rightarrow> bool" where
  "balanced held T \<longleftrightarrow> (\<forall>acc x. held acc = Some x \<longrightarrow> x = wrap64 (owed T acc))"

text \<open>One account's holding changed by a function.\<close>

definition shift :: "account_id \<Rightarrow> (i64 \<Rightarrow> i64) \<Rightarrow> (account_id \<Rightarrow> i64 option) \<Rightarrow> account_id \<Rightarrow> i64 option" where
  "shift acc f held = held(acc := map_option f (held acc))"

lemma shift_apply: "shift acc f held a = (if a = acc then map_option f (held acc) else held a)"
  by (simp add: shift_def)

lemma wrap64_wrap64_add: "wrap64 (wrap64 a + b) = wrap64 (a + b)"
  by (simp add: wrap64_def mod_simps algebra_simps)

lemma wrap64_wrap64_sub: "wrap64 (wrap64 a - b) = wrap64 (a - b)"
  using wrap64_wrap64_add [of a "- b"] by simp

lemma balanced_shift:
  assumes "balanced held T" and "\<And>acc. acc \<noteq> a \<Longrightarrow> owed T' acc = owed T acc"
    and "f (wrap64 (owed T a)) = wrap64 (owed T' a)"
  shows "balanced (shift a f held) T'"
  unfolding balanced_def
proof (intro allI impI)
  fix acc x assume x: "shift a f held acc = Some x"
  show "x = wrap64 (owed T' acc)"
  proof (cases "acc = a")
    case True
    with x obtain z where "held a = Some z" "x = f z" by (auto simp: shift_apply)
    with True assms(1,3) show ?thesis by (auto simp: balanced_def)
  next
    case False
    with x assms(1,2) show ?thesis by (auto simp: balanced_def shift_apply)
  qed
qed

lemma balanced_take:
  "balanced held T \<Longrightarrow> balanced (shift (tk_account_id t) (\<lambda>x. add64 x (tk_amount t)) held) (add_mset t T)"
  by (rule balanced_shift) (auto simp: add64_def wrap64_wrap64_add)

lemma balanced_give:
  "balanced held T \<Longrightarrow> t \<in># T \<Longrightarrow>
   balanced (shift (tk_account_id t) (\<lambda>x. sub64 x (tk_amount t)) held) (T - {#t#})"
  by (rule balanced_shift) (auto simp: sub64_def wrap64_wrap64_sub owed_remove)

section \<open>The interface\<close>

locale ledger =
  fixes held :: "'m \<Rightarrow> account_id \<Rightarrow> i64 option"
    and reserve :: "'r \<Rightarrow> 'm \<Rightarrow> (risk_violation + reservation_token) \<times> 'm"
    and give_back :: "'x \<Rightarrow> reservation_token \<Rightarrow> 'm \<Rightarrow> 'm"
  assumes refused: "reserve r m = (Inl e, m') \<Longrightarrow> held m' = held m"
    and granted: "reserve r m = (Inr t, m') \<Longrightarrow>
      held m' = shift (tk_account_id t) (\<lambda>x. add64 x (tk_amount t)) (held m)"
    and given_back: "held (give_back x t m) = shift (tk_account_id t) (\<lambda>x. sub64 x (tk_amount t)) (held m)"
begin

lemma reserve_balanced:
  "balanced (held m) T \<Longrightarrow> reserve r m = (Inr t, m') \<Longrightarrow> balanced (held m') (add_mset t T)"
  by (simp add: granted balanced_take)

lemma give_back_balanced:
  "balanced (held m) T \<Longrightarrow> t \<in># T \<Longrightarrow> balanced (held (give_back x t m)) (T - {#t#})"
  by (simp add: given_back balanced_give)

text \<open>A token given back right after it was taken leaves no trace.\<close>

lemma reserve_give_back:
  assumes "reserve r m = (Inr t, m')" and "\<forall>acc x. held m acc = Some x \<longrightarrow> i64_ok x"
  shows "held (give_back x t m') = held m"
proof
  fix acc
  have "wrap64 (wrap64 (z + tk_amount t) - tk_amount t) = z" if "held m acc = Some z" for z
    using assms(2) that by (simp add: wrap64_wrap64_sub wrap64_id)
  then show "held (give_back x t m') acc = held m acc"
    by (cases "held m acc")
      (auto simp: given_back granted [OF assms(1)] shift_apply add64_def sub64_def)
qed

end

text \<open>A ledger in which a token can be exchanged for another one of the same account.\<close>

locale exchange_ledger = ledger +
  fixes exchange :: "reservation_token \<Rightarrow> 'q \<Rightarrow> 'm \<Rightarrow> (risk_violation + reservation_token) \<times> 'm"
  assumes exchange_refused: "exchange t q m = (Inl e, m') \<Longrightarrow> held m' = held m"
    and exchanged: "exchange t q m = (Inr t', m') \<Longrightarrow> tk_account_id t' = tk_account_id t \<Longrightarrow>
      held m' = shift (tk_account_id t) (\<lambda>x. add64 (sub64 x (tk_amount t)) (tk_amount t')) (held m)"
begin

lemma exchange_balanced:
  assumes "balanced (held m) T" and "t \<in># T" and "exchange t q m = (Inr t', m')"
    and "tk_account_id t' = tk_account_id t"
  shows "balanced (held m') (add_mset t' (T - {#t#}))"
proof -
  have "held m' = shift (tk_account_id t') (\<lambda>x. add64 x (tk_amount t'))
      (shift (tk_account_id t) (\<lambda>x. sub64 x (tk_amount t)) (held m))"
    unfolding exchanged [OF assms(3,4)] by (rule ext) (simp add: shift_apply assms(4) option.map_comp comp_def)
  then show ?thesis using balanced_take [OF balanced_give [OF assms(1,2)]] by simp
qed

end

section \<open>The account table as a ledger\<close>

definition held :: "account_table \<Rightarrow> account_id \<Rightarrow> i64 option" where
  "held m acc = map_option ga_tentative_reserved (map_of (gm_accounts m) acc)"

lemma held_put [simp]: "held (put_account acc a m) = (held m)(acc \<mapsto> ga_tentative_reserved a)"
  by (auto simp: held_def put_account_def)

lemma held_next_seq [simp]: "held (snd (gw_next_seq m)) = held m" "held (m\<lparr>gm_next_seq := n\<rparr>) = held m"
  by (auto simp: held_def gw_next_seq_def)

lemma held_amend:
  assumes "\<And>a. ga_tentative_reserved (f a) = g (ga_tentative_reserved a)"
  shows "held (amend acc f m) = shift acc g (held m)"
  by (rule ext) (auto simp: amend_def held_def put_account_def shift_apply assms split: option.split)

lemma held_fill:
  "held (gw_apply_fill (EvFill f) t is_buy m) = shift (tk_account_id t) (\<lambda>x. sub64 x (tk_amount t)) (held m)"
  by (simp add: gw_apply_fill_def held_amend [where g = "\<lambda>x. sub64 x (tk_amount t)"] fill_account_def Let_def)

lemma check_order_cases:
  "check_and_reserve_order n m = (Inl e, m') \<Longrightarrow> m' = m"
  "check_and_reserve_order n m = (Inr t, m') \<Longrightarrow>
   \<exists>a. map_of (gm_accounts m) (no_account_id n) = Some a \<and> tk_account_id t = no_account_id n \<and>
     tk_amount t = (case no_side n of Buy \<Rightarrow> mul64 (no_price n) (no_qty n) | Sell \<Rightarrow> 0) \<and>
     \<not> tk_amount t > sub64 (ga_buying_power a) (ga_tentative_reserved a) \<and>
     m' = put_account (no_account_id n) (reserve_more (tk_amount t) a) m"
  by (auto simp: check_and_reserve_order_def Let_def split: option.splits if_splits)

lemma adjust_cases:
  "adjust_reservation t r m = (Inl e, m') \<Longrightarrow> m' = m"
  "adjust_reservation t r m = (Inr t', m') \<Longrightarrow>
   \<exists>a. map_of (gm_accounts m) (re_account_id r) = Some a \<and> tk_account_id t' = re_account_id r \<and>
     tk_amount t' = mul64 (re_new_price r) (re_new_qty r) \<and>
     \<not> tk_amount t' > add64 (sub64 (ga_buying_power a) (ga_tentative_reserved a)) (tk_amount t) \<and>
     m' = put_account (re_account_id r)
       (a\<lparr>ga_tentative_reserved := add64 (sub64 (ga_tentative_reserved a) (tk_amount t)) (tk_amount t')\<rparr>) m"
  by (auto simp: adjust_reservation_def Let_def split: option.splits if_splits)

interpretation orders: exchange_ledger held check_and_reserve_order "\<lambda>_ :: unit. release_reservation"
  adjust_reservation
proof
  fix n m e m' assume "check_and_reserve_order n m = (Inl e, m')"
  then show "held m' = held m" using check_order_cases(1) by blast
next
  fix n m t m' assume "check_and_reserve_order n m = (Inr t, m')"
  from check_order_cases(2) [OF this]
  show "held m' = shift (tk_account_id t) (\<lambda>x. add64 x (tk_amount t)) (held m)"
    by (auto simp: shift_def reserve_more_def held_def)
next
  fix t m
  show "held (release_reservation t m) = shift (tk_account_id t) (\<lambda>x. sub64 x (tk_amount t)) (held m)"
    by (simp add: release_reservation_def held_amend [where g = "\<lambda>x. sub64 x (tk_amount t)"] release_amount_def)
next
  fix t r m e m' assume "adjust_reservation t r m = (Inl e, m')"
  then show "held m' = held m" using adjust_cases(1) by blast
next
  fix t r m t' m' assume "adjust_reservation t r m = (Inr t', m')" "tk_account_id t' = tk_account_id t"
  with adjust_cases(2) [OF this(1)]
  show "held m' = shift (tk_account_id t) (\<lambda>x. add64 (sub64 x (tk_amount t)) (tk_amount t')) (held m)"
    by (auto simp: shift_def held_def)
qed

interpretation fills: ledger held check_and_reserve_order
  "\<lambda>(f, is_buy) t. gw_apply_fill (EvFill f) t is_buy"
proof
  fix n m e m' assume "check_and_reserve_order n m = (Inl e, m')"
  then show "held m' = held m" by (rule orders.refused)
next
  fix n m t m' assume "check_and_reserve_order n m = (Inr t, m')"
  then show "held m' = shift (tk_account_id t) (\<lambda>x. add64 x (tk_amount t)) (held m)"
    by (rule orders.granted)
next
  fix x t m
  show "held ((\<lambda>(f, is_buy) t. gw_apply_fill (EvFill f) t is_buy) x t m) =
      shift (tk_account_id t) (\<lambda>x. sub64 x (tk_amount t)) (held m)"
    by (cases x) (simp add: held_fill)
qed

section \<open>No double spend\<close>

text \<open>A buyer's notional that fits, and an account whose funds cover what it holds back.\<close>

definition sane_order :: "new_order \<Rightarrow> bool" where
  "sane_order n \<longleftrightarrow> 0 \<le> no_price n \<and> 0 \<le> no_qty n \<and> i64_ok (no_price n * no_qty n)"

definition solvent :: "gw_account \<Rightarrow> bool" where
  "solvent a \<longleftrightarrow> 0 \<le> ga_tentative_reserved a \<and> ga_tentative_reserved a \<le> ga_buying_power a \<and>
     i64_ok (ga_buying_power a)"

lemma solvent_bounds:
  assumes "solvent a"
  shows "i64_ok (ga_tentative_reserved a)" "i64_ok (ga_buying_power a - ga_tentative_reserved a)"
  using assms by (auto simp: solvent_def i64_ok_def i64_min_def i64_max_def)

lemma check_order_solvent:
  assumes "check_and_reserve_order n m = (Inr t, m')" and "sane_order n"
    and "map_of (gm_accounts m) (no_account_id n) = Some a" and "solvent a"
  shows "\<exists>a'. m' = put_account (no_account_id n) a' m \<and> solvent a' \<and> 0 \<le> tk_amount t \<and>
    tk_account_id t = no_account_id n \<and> ga_buying_power a' = ga_buying_power a \<and>
    ga_tentative_reserved a' = ga_tentative_reserved a + tk_amount t"
proof -
  note c = check_order_cases(2) [OF assms(1)]
  have amount: "0 \<le> tk_amount t"
    using c assms(2) by (auto simp: sane_order_def mul64_id split: side.splits)
  have le: "tk_amount t \<le> ga_buying_power a - ga_tentative_reserved a"
    using c assms(3) solvent_bounds [OF assms(4)] by (auto simp: sub64_id)
  have "i64_ok (ga_tentative_reserved a + tk_amount t)"
    using amount le assms(4) by (auto simp: solvent_def i64_ok_def i64_min_def)
  then have "ga_tentative_reserved (reserve_more (tk_amount t) a) = ga_tentative_reserved a + tk_amount t"
    by (simp add: reserve_more_def add64_id)
  moreover have "solvent (reserve_more (tk_amount t) a)"
    using calculation amount le assms(4) by (simp add: solvent_def reserve_more_def)
  ultimately show ?thesis using c assms(3) amount by (auto simp: reserve_more_def)
qed

text \<open>A burst of orders, each checked in turn: the tokens granted and the table left.\<close>

fun reserve_all :: "new_order list \<Rightarrow> account_table \<Rightarrow> reservation_token list \<times> account_table" where
  "reserve_all [] m = ([], m)"
| "reserve_all (n # ns) m =
     (case check_and_reserve_order n m of
        (Inl _, m1) \<Rightarrow> reserve_all ns m1
      | (Inr t, m1) \<Rightarrow> (case reserve_all ns m1 of (ts, m2) \<Rightarrow> (t # ts, m2)))"

definition all_solvent :: "account_table \<Rightarrow> bool" where
  "all_solvent m \<longleftrightarrow> (\<forall>acc a. map_of (gm_accounts m) acc = Some a \<longrightarrow> solvent a)"

lemma reserve_all_solvent:
  assumes "all_solvent m" and "\<forall>n \<in> set ns. sane_order n" and "reserve_all ns m = (ts, m')"
    and "map_of (gm_accounts m) acc = Some a"
  shows "all_solvent m' \<and> (\<exists>a'. map_of (gm_accounts m') acc = Some a' \<and>
    ga_buying_power a' = ga_buying_power a \<and>
    ga_tentative_reserved a' = ga_tentative_reserved a + owed (mset ts) acc)"
  using assms
proof (induction ns arbitrary: m a ts)
  case (Cons n ns)
  show ?case
  proof (cases "check_and_reserve_order n m")
    case (Pair r m1)
    show ?thesis
    proof (cases r)
      case (Inl e)
      with Pair have "m1 = m" using check_order_cases(1) by blast
      with Inl Pair Cons show ?thesis by simp
    next
      case (Inr t)
      note run = Pair [unfolded Inr]
      from check_order_cases(2) [OF run] obtain b where b: "map_of (gm_accounts m) (no_account_id n) = Some b"
        by blast
      have "solvent b" using Cons.prems(1) b by (auto simp: all_solvent_def)
      moreover have "sane_order n" using Cons.prems(2) by simp
      ultimately obtain b' where b': "m1 = put_account (no_account_id n) b' m" "solvent b'"
        "tk_account_id t = no_account_id n" "ga_buying_power b' = ga_buying_power b"
        "ga_tentative_reserved b' = ga_tentative_reserved b + tk_amount t"
        using check_order_solvent [OF run _ b] by blast
      have s1: "all_solvent m1" using Cons.prems(1) b'(1,2) by (auto simp: all_solvent_def put_account_def)
      obtain ts1 where ts: "reserve_all ns m1 = (ts1, m')" "ts = t # ts1"
        using Cons.prems(3) run by (auto split: prod.splits)
      have ns: "\<forall>n \<in> set ns. sane_order n" using Cons.prems(2) by simp
      obtain a1 where a1: "map_of (gm_accounts m1) acc = Some a1" "ga_buying_power a1 = ga_buying_power a"
        "ga_tentative_reserved a1 =
          ga_tentative_reserved a + (if tk_account_id t = acc then tk_amount t else 0)"
        using b b' Cons.prems(4) by (cases "acc = no_account_id n") (auto simp: put_account_def)
      from Cons.IH [OF s1 ns ts(1) a1(1)] show ?thesis using a1(2,3) ts(2) by auto
    qed
  qed
qed simp

end
