(* ===== verification/GatewaySystem.thy ===== *)
theory GatewaySystem
  imports Gateway GatewayLedger
begin

text \<open>
  The gateway as a system: connections open and close, clients send frames, engines respond, in any
  order. The invariant is the ledger: in a run of orderly steps every account holds back exactly
  what the tokens of the pending orders add up to.
\<close>

section \<open>Actions\<close>

record gw_system =
  sy_gateway :: gateway
  sy_locals :: "u64 \<Rightarrow> local_orders"

datatype gw_action =
    Connect client_codec u64
  | Frame u64 "u8 list"
  | Response engine_to_gateway
  | Disconnect u64

text \<open>A frame of a connection that is not registered does not occur and changes nothing.\<close>

fun gw_act :: "gateway_to_engine serde \<Rightarrow> gw_action \<Rightarrow> gw_system \<Rightarrow> gw_system" where
  "gw_act P (Connect codec conn) s =
     \<lparr>sy_gateway = client_connect codec conn (sy_gateway s), sy_locals = (sy_locals s)(conn := [])\<rparr>"
| "gw_act P (Frame conn bytes) s =
     (case map_of (gw_clients (sy_gateway s)) conn of
        None \<Rightarrow> s
      | Some info \<Rightarrow>
          (case client_frame P (ci_codec info) conn bytes (sy_locals s conn) (sy_gateway s) of
             (loc, g) \<Rightarrow> \<lparr>sy_gateway = g, sy_locals = (sy_locals s)(conn := loc)\<rparr>))"
| "gw_act P (Response ev) s = s\<lparr>sy_gateway := engine_response ev (sy_gateway s)\<rparr>"
| "gw_act P (Disconnect conn) s = s\<lparr>sy_gateway := client_disconnect conn (sy_gateway s)\<rparr>"

text \<open>
  What makes a step orderly: a new order's number is not pending and its engine can be reached; a
  replace names the account of its order, comes from the connection that placed it, and its engine
  can be reached; a fill is between two orders. Everything else is free: cancels, queries, refused
  checks, unknown orders, commands for engines that cannot be reached, any response but such a fill.
\<close>

definition routable :: "gateway_to_engine serde \<Rightarrow> symbol_id \<Rightarrow> gateway \<Rightarrow> bool" where
  "routable P symb g \<longleftrightarrow> er_faults (gw_router g) = [] \<and>
     map_of (er_senders (gw_router g)) symb \<noteq> None \<and> (\<forall>msg. sd_to P msg \<noteq> None)"

fun orderly_command :: "gateway_to_engine serde \<Rightarrow> command \<Rightarrow> local_orders \<Rightarrow> gateway \<Rightarrow> bool" where
  "orderly_command P (NewOrder n) loc g \<longleftrightarrow>
     map_of (gw_pending g) (no_order_id n) = None \<and> routable P (no_symbol_id n) g"
| "orderly_command P (Replace r) loc g \<longleftrightarrow>
     (\<forall>md. map_of (gw_pending g) (re_order_id r) = Some md \<longrightarrow>
        tk_account_id (md_token md) = re_account_id r \<and> map_of loc (re_order_id r) \<noteq> None \<and>
        routable P (re_symbol_id r) g)"
| "orderly_command P _ loc g \<longleftrightarrow> True"

fun orderly :: "gateway_to_engine serde \<Rightarrow> gw_action \<Rightarrow> gw_system \<Rightarrow> bool" where
  "orderly P (Frame conn bytes) s \<longleftrightarrow>
     (\<forall>info cmd. map_of (gw_clients (sy_gateway s)) conn = Some info \<longrightarrow>
        cc_decode (ci_codec info) bytes = Inr cmd \<longrightarrow>
        orderly_command P cmd (sy_locals s conn) (sy_gateway s))"
| "orderly P (Response (ClientEvent conn (EvFill f) token)) s \<longleftrightarrow> fi_maker_order_id f \<noteq> fi_taker_order_id f"
| "orderly P _ s \<longleftrightarrow> True"

inductive orderly_reach :: "gateway_to_engine serde \<Rightarrow> gw_system \<Rightarrow> gw_system \<Rightarrow> bool"
  for P :: "gateway_to_engine serde" and s0 :: gw_system
where
  start: "orderly_reach P s0 s0"
| step: "orderly_reach P s0 s \<Longrightarrow> orderly P a s \<Longrightarrow> orderly_reach P s0 (gw_act P a s)"

section \<open>The tokens of the pending orders\<close>

definition pend_tokens :: "(order_id, order_metadata) hashmap \<Rightarrow> reservation_token multiset" where
  "pend_tokens p = image_mset (\<lambda>e. md_token (snd e)) (mset p)"

lemma mset_delete:
  "keys_distinct m \<Longrightarrow> map_of m k = Some v \<Longrightarrow> mset m = add_mset (k, v) (mset (AList.delete k m))"
proof (induction m)
  case (Cons e m)
  show ?case
  proof (cases "fst e = k")
    case True
    then have "AList.delete k m = m"
      using Cons.prems(1) by (auto intro!: delete_idem simp: dom_map_of_conv_image_fst)
    then show ?thesis using True Cons.prems(2) by (cases e) auto
  next
    case False
    then have "mset m = add_mset (k, v) (mset (AList.delete k m))"
      using Cons by (intro Cons.IH) auto
    then show ?thesis using False by (cases e) (simp add: AList.delete_eq)
  qed
qed simp

lemma mset_update_new: "map_of m k = None \<Longrightarrow> mset (AList.update k v m) = add_mset (k, v) (mset m)"
  by (induction m) auto

lemma mset_update_old:
  "keys_distinct m \<Longrightarrow> map_of m k = Some w \<Longrightarrow>
   mset (AList.update k v m) = add_mset (k, v) (mset (AList.delete k m))"
proof (induction m)
  case (Cons e m)
  show ?case
  proof (cases "fst e = k")
    case True
    then have "AList.delete k m = m"
      using Cons.prems(1) by (auto intro!: delete_idem simp: dom_map_of_conv_image_fst)
    then show ?thesis using True by (cases e) (auto simp: AList.delete_eq)
  next
    case False
    then have "mset (AList.update k v m) = add_mset (k, v) (mset (AList.delete k m))"
      using Cons by (intro Cons.IH) auto
    then show ?thesis using False by (cases e) (simp add: AList.delete_eq)
  qed
qed simp

lemma tokens_delete:
  assumes "keys_distinct p" and "map_of p oid = Some md"
  shows "md_token md \<in># pend_tokens p" "pend_tokens (AList.delete oid p) = pend_tokens p - {#md_token md#}"
  using mset_delete [OF assms] by (simp_all add: pend_tokens_def)

lemma tokens_new:
  "map_of p oid = None \<Longrightarrow> pend_tokens (AList.update oid md p) = add_mset (md_token md) (pend_tokens p)"
  by (simp add: pend_tokens_def mset_update_new)

lemma tokens_update:
  assumes "keys_distinct p" and "map_of p oid = Some md"
  shows "pend_tokens (AList.update oid md' p) = add_mset (md_token md') (pend_tokens p - {#md_token md#})"
  using mset_update_old [OF assms, of md'] mset_delete [OF assms] by (simp add: pend_tokens_def)

section \<open>The ledger of the gateway\<close>

definition ledger_ok :: "(account_id \<Rightarrow> i64 option) \<Rightarrow> (order_id, order_metadata) hashmap \<Rightarrow> bool" where
  "ledger_ok h p \<longleftrightarrow> keys_distinct p \<and> balanced h (pend_tokens p)"

definition gw_ok :: "gateway \<Rightarrow> bool" where
  "gw_ok g \<longleftrightarrow> ledger_ok (held (gw_table g)) (gw_pending g)"

text \<open>Answers do not touch it.\<close>

lemma respond_simps [simp]:
  "gw_table (respond codec conn ev g) = gw_table g" "gw_pending (respond codec conn ev g) = gw_pending g"
  "gw_router (respond codec conn ev g) = gw_router g" "gw_sessions (respond codec conn ev g) = gw_sessions g"
  "gw_clients (respond codec conn ev g) = gw_clients g" "gw_auth (respond codec conn ev g) = gw_auth g"
  by (simp_all add: respond_def split: sum.split)

lemma take_seq_simps [simp]:
  "held (gw_table (snd (take_seq g))) = held (gw_table g)" "gw_pending (snd (take_seq g)) = gw_pending g"
  "gm_accounts (gw_table (snd (take_seq g))) = gm_accounts (gw_table g)"
  "gw_router (snd (take_seq g)) = gw_router g" "gw_sessions (snd (take_seq g)) = gw_sessions g"
  "gw_clients (snd (take_seq g)) = gw_clients g" "gw_auth (snd (take_seq g)) = gw_auth g"
  by (simp_all add: take_seq_def gw_next_seq_def)

lemma reject_simps [simp]:
  "held (gw_table (reject_client codec conn sq oid reason g)) = held (gw_table g)"
  "gm_accounts (gw_table (reject_client codec conn sq oid reason g)) = gm_accounts (gw_table g)"
  "gw_pending (reject_client codec conn sq oid reason g) = gw_pending g"
  "gw_router (reject_client codec conn sq oid reason g) = gw_router g"
  "gw_sessions (reject_client codec conn sq oid reason g) = gw_sessions g"
  "gw_clients (reject_client codec conn sq oid reason g) = gw_clients g"
  "gw_auth (reject_client codec conn sq oid reason g) = gw_auth g"
  using take_seq_simps [of g] by (cases "take_seq g"; simp add: reject_client_def)+

lemma deliver_simps [simp]:
  "gw_table (deliver conn ev g) = gw_table g" "gw_pending (deliver conn ev g) = gw_pending g"
  "gw_sessions (deliver conn ev g) = gw_sessions g" "gw_clients (deliver conn ev g) = gw_clients g"
  by (simp_all add: deliver_def split: option.split)

lemma gw_ok_reject [simp]: "gw_ok (reject_client codec conn sq oid reason g) \<longleftrightarrow> gw_ok g"
  by (simp add: gw_ok_def)

lemma gw_ok_respond [simp]: "gw_ok (respond codec conn ev g) \<longleftrightarrow> gw_ok g"
  by (simp add: gw_ok_def)

lemma gw_ok_deliver [simp]: "gw_ok (deliver conn ev g) \<longleftrightarrow> gw_ok g"
  by (simp add: gw_ok_def)

lemma answer_query_ok: "gw_ok g \<Longrightarrow> gw_ok (answer_query codec conn q g)"
  using take_seq_simps [of g]
  by (cases "take_seq g") (simp add: answer_query_def gw_ok_def split: option.split)

lemma answer_auth_ok: "gw_ok g \<Longrightarrow> gw_ok (answer_auth codec conn a g)"
  by (simp add: answer_auth_def gw_ok_def split: sum.split)

lemma mark_pending_ok: "gw_ok g \<Longrightarrow> gw_ok (mark_pending operation oid g)"
proof (cases "map_of (gw_pending g) oid")
  case (Some md)
  assume ok: "gw_ok g"
  then have "pend_tokens (AList.update oid (md\<lparr>md_operation := operation\<rparr>) (gw_pending g)) =
      pend_tokens (gw_pending g)"
    using Some tokens_update [of "gw_pending g" oid md] tokens_delete(1) [of "gw_pending g" oid md]
    by (simp add: gw_ok_def ledger_ok_def)
  with ok Some show ?thesis by (simp add: mark_pending_def gw_ok_def ledger_ok_def distinct_update)
qed (simp add: mark_pending_def)

text \<open>Routing leaves the accounts alone, and succeeds when the engine can be reached.\<close>

lemma send_command_simps [simp]:
  "held (gw_table (snd (send_command P cmd conn acc amount symb g))) = held (gw_table g)"
  "gw_pending (snd (send_command P cmd conn acc amount symb g)) = gw_pending g"
  "gw_sessions (snd (send_command P cmd conn acc amount symb g)) = gw_sessions g"
  "gw_clients (snd (send_command P cmd conn acc amount symb g)) = gw_clients g"
  using take_seq_simps [of g] by (cases "take_seq g"; simp add: send_command_def split: prod.split)+

lemma route_ok:
  assumes "er_faults r = []" and "map_of (er_senders r) symb = Some sk" and "sd_to P msg = Some bytes"
  shows "route_to_engine P msg symb r =
    (Inr (), put_sink symb \<lparr>sk_fed = [], sk_sent = sk_sent sk @ sk_fed sk @ [bytes]\<rparr>
               (put_sink symb (sk\<lparr>sk_fed := sk_fed sk @ [bytes]\<rparr>) r))"
  using assms by (simp add: route_to_engine_def net_call_def put_sink_def Let_def)

lemma send_command_ok:
  assumes "routable P symb g"
  shows "\<exists>g'. send_command P cmd conn acc amount symb g = (Inr (), g')"
proof -
  obtain sk where sk: "map_of (er_senders (gw_router g)) symb = Some sk"
    using assms by (auto simp: routable_def)
  have tot: "\<exists>b. sd_to P msg = Some b" for msg using assms by (auto simp: routable_def)
  have faults: "er_faults (gw_router g) = []" using assms by (simp add: routable_def)
  obtain sq g1 where t: "take_seq g = (sq, g1)" by fastforce
  then have r: "gw_router g1 = gw_router g" using take_seq_simps [of g] by simp
  obtain b where "sd_to P (execute cmd conn
      \<lparr>rt_account_id = acc, rt_reserved_amount = amount, rt_gateway_seq = sq\<rparr>) = Some b"
    using tot by blast
  from route_ok [OF faults sk this] show ?thesis by (simp add: send_command_def t r)
qed

section \<open>Every orderly step keeps the ledger\<close>

lemma handle_cancel_ok: "gw_ok g \<Longrightarrow> gw_ok (snd (handle_cancel P codec conn c symb loc g))"
proof -
  assume ok: "gw_ok g"
  obtain r g1 where s: "send_command P (Cancel c) conn (ca_account_id c) 0 symb
      (mark_pending CancelPending (ca_order_id c) g) = (r, g1)" by fastforce
  have "gw_ok g1"
    using mark_pending_ok [OF ok, of CancelPending "ca_order_id c"]
      send_command_simps(1,2) [of P "Cancel c" conn "ca_account_id c" 0 symb
        "mark_pending CancelPending (ca_order_id c) g"]
    by (simp add: s gw_ok_def)
  then show ?thesis by (simp add: handle_cancel_def Let_def s mark_pending_ok split: sum.split)
qed

lemma ledger_release:
  assumes "ledger_ok (held t) p" and "map_of p oid = Some md"
  shows "ledger_ok (held (release_reservation (md_token md) t)) (AList.delete oid p)"
    and "ledger_ok (held (gw_apply_fill (EvFill f) (md_token md) is_buy t)) (AList.delete oid p)"
  using assms orders.give_back_balanced [of t "pend_tokens p" "md_token md"]
    fills.give_back_balanced [of t "pend_tokens p" "md_token md" "(f, is_buy)"]
    tokens_delete [of p oid md]
  by (auto simp: ledger_ok_def distinct_delete)

lemma release_pending_ok: "gw_ok g \<Longrightarrow> gw_ok (release_pending oid g)"
  by (simp add: release_pending_def gw_ok_def ledger_release(1) split: option.split)

lemma settle_ok: "gw_ok g \<Longrightarrow> md = map_of (gw_pending g) oid \<Longrightarrow> gw_ok (settle f oid md g)"
  by (simp add: settle_def gw_ok_def ledger_release(2) split: option.split)

lemma handle_fill_ok:
  assumes "gw_ok g" and "fi_maker_order_id f \<noteq> fi_taker_order_id f"
  shows "gw_ok (handle_fill conn f g)"
proof -
  let ?g1 = "settle f (fi_maker_order_id f) (map_of (gw_pending g) (fi_maker_order_id f)) g"
  have "gw_ok ?g1" by (rule settle_ok [OF assms(1) refl])
  moreover have "map_of (gw_pending ?g1) (fi_taker_order_id f) = map_of (gw_pending g) (fi_taker_order_id f)"
    using assms(2) by (simp add: settle_def split: option.split)
  ultimately show ?thesis
    using settle_ok [of ?g1 _ "fi_taker_order_id f" f]
    by (cases "map_of (gw_pending g) (fi_maker_order_id f)") (simp_all add: handle_fill_def Let_def)
qed

lemma engine_response_ok:
  assumes "gw_ok g" and "orderly P (Response ev) s"
  shows "gw_ok (engine_response ev g)"
proof (cases ev)
  case (ClientEvent conn e token)
  then show ?thesis
    using assms by (cases e) (auto simp: handle_fill_ok handle_ack_def handle_reject_def release_pending_ok
        split: option.splits pending_operation.splits)
qed (use assms in simp_all)

text \<open>A token that reserves nothing leaves a balanced ledger balanced when it is released.\<close>

lemma release_nothing:
  "gw_ok g \<Longrightarrow> tk_amount t = 0 \<Longrightarrow> gw_ok (g\<lparr>gw_table := release_reservation t (gw_table g)\<rparr>)"
  using balanced_shift [of "held (gw_table g)" "pend_tokens (gw_pending g)" "tk_account_id t"
      "pend_tokens (gw_pending g)" "\<lambda>x. sub64 x (tk_amount t)"]
  by (simp add: gw_ok_def ledger_ok_def orders.given_back sub64_def wrap64_wrap64_sub [where b = 0, simplified])

lemma send_ok:
  assumes "gw_ok g" and "routable P symb g"
  obtains g3 where "send_command P cmd conn acc amount symb g = (Inr (), g3)" and "gw_ok g3"
proof -
  obtain g3 where s: "send_command P cmd conn acc amount symb g = (Inr (), g3)"
    using send_command_ok [OF assms(2)] by blast
  moreover have "gw_ok g3"
    using assms(1) send_command_simps(1,2) [of P cmd conn acc amount symb g] by (simp add: s gw_ok_def)
  ultimately show thesis by (rule that)
qed

lemma handle_new_order_ok:
  assumes ok: "gw_ok g" and ord: "orderly_command P (NewOrder n) loc g"
  shows "gw_ok (snd (handle_order P codec conn (NewOrder n) (no_symbol_id n) loc g))"
proof (cases "check_and_reserve_order n (gw_table g)")
  case (Pair r t)
  show ?thesis
  proof (cases r)
    case (Inl e)
    with Pair have "held t = held (gw_table g)" using orders.refused by blast
    with ok Pair Inl show ?thesis
      by (simp add: handle_order_def reserve_for_def on_table_def check_and_reserve_def gw_ok_def)
  next
    case (Inr tok)
    define g2 where "g2 = snd (track_order conn (NewOrder n) (no_side n = Buy) tok loc (g\<lparr>gw_table := t\<rparr>))"
    have "balanced (held t) (add_mset tok (pend_tokens (gw_pending g)))"
      using ok Pair Inr orders.reserve_balanced by (auto simp: gw_ok_def ledger_ok_def)
    then have "gw_ok g2"
      using ok ord by (simp add: g2_def track_order_def gw_ok_def ledger_ok_def tokens_new distinct_update)
    moreover have "routable P (no_symbol_id n) g2"
      using ord by (simp add: g2_def track_order_def routable_def)
    ultimately obtain g3 where "send_command P (NewOrder n) conn (tk_account_id tok) (tk_amount tok)
        (no_symbol_id n) g2 = (Inr (), g3)" "gw_ok g3" by (rule send_ok)
    with Pair Inr show ?thesis
      by (simp add: handle_order_def reserve_for_def on_table_def check_and_reserve_def g2_def
          track_order_def Let_def)
  qed
qed

lemma handle_replace_ok:
  assumes ok: "gw_ok g" and ord: "orderly_command P (Replace r) loc g"
  shows "gw_ok (snd (handle_order P codec conn (Replace r) (re_symbol_id r) loc g))"
proof (cases "map_of (gw_pending g) (re_order_id r)")
  case None
  with ok show ?thesis by (simp add: handle_order_def reserve_for_def)
next
  case (Some md)
  obtain res t where adj: "adjust_reservation (md_token md) r (gw_table g) = (res, t)" by fastforce
  show ?thesis
  proof (cases res)
    case (Inl e)
    with adj have "held t = held (gw_table g)" using orders.exchange_refused by blast
    with ok Some adj Inl show ?thesis
      by (simp add: handle_order_def reserve_for_def on_table_def gw_ok_def)
  next
    case (Inr tok)
    obtain old was_buy op where loc: "map_of loc (re_order_id r) = Some (old, was_buy, op)"
      using ord Some by (auto simp: prod_cases3)
    have acc: "tk_account_id tok = tk_account_id (md_token md)"
      using adjust_cases(2) [OF adj [unfolded Inr]] ord Some by auto
    have keys: "keys_distinct (gw_pending g)" using ok by (simp add: gw_ok_def ledger_ok_def)
    define g2 where "g2 = snd (track_order conn (Replace r) False tok loc (g\<lparr>gw_table := t\<rparr>))"
    have "balanced (held t) (add_mset tok (pend_tokens (gw_pending g) - {#md_token md#}))"
      using ok tokens_delete(1) [OF keys Some] adj [unfolded Inr] acc
      by (intro orders.exchange_balanced) (auto simp: gw_ok_def ledger_ok_def)
    then have "gw_ok g2"
      by (simp add: g2_def track_order_def loc gw_ok_def ledger_ok_def tokens_update [OF keys Some]
          distinct_update keys)
    moreover have "routable P (re_symbol_id r) g2"
      using ord Some by (simp add: g2_def track_order_def loc routable_def)
    ultimately obtain g3 where "send_command P (Replace r) conn (tk_account_id tok) (tk_amount tok)
        (re_symbol_id r) g2 = (Inr (), g3)" "gw_ok g3" by (rule send_ok)
    with Some adj Inr show ?thesis
      by (simp add: handle_order_def reserve_for_def on_table_def g2_def track_order_def loc)
  qed
qed

lemma handle_limits_ok:
  assumes ok: "gw_ok g"
  shows "gw_ok (snd (handle_order P codec conn (SetRiskLimits l) symb loc g))"
proof -
  obtain r g3 where s: "send_command P (SetRiskLimits l) conn (sr_account_id l) 0 symb g = (r, g3)"
    by fastforce
  have "gw_ok g3"
    using ok send_command_simps(1,2) [of P "SetRiskLimits l" conn "sr_account_id l" 0 symb g]
    by (simp add: s gw_ok_def)
  then show ?thesis
    using release_nothing [of g3]
    by (cases r) (simp_all add: handle_order_def reserve_for_def on_table_def check_and_reserve_def
        track_order_def unroutable_def s)
qed

lemma handle_command_ok:
  assumes "gw_ok g" and "orderly_command P cmd loc g"
  shows "gw_ok (snd (handle_command P codec conn cmd loc g))"
  using assms
  by (cases cmd) (auto simp: handle_command_def answer_query_ok answer_auth_ok handle_cancel_ok
      handle_new_order_ok handle_replace_ok handle_limits_ok simp del: orderly_command.simps)

lemma orderly_command_metrics [simp]:
  "orderly_command P cmd loc (g\<lparr>gw_metrics := m\<rparr>) = orderly_command P cmd loc g"
  by (cases cmd) (simp_all add: routable_def)

lemma gw_ok_updates [simp]:
  "gw_ok (g\<lparr>gw_metrics := m\<rparr>) = gw_ok g" "gw_ok (g\<lparr>gw_clients := c\<rparr>) = gw_ok g"
  "gw_ok (g\<lparr>gw_sessions := x\<rparr>) = gw_ok g"
  by (simp_all add: gw_ok_def)

lemma client_frame_ok:
  assumes "gw_ok g" and "\<And>cmd. cc_decode codec bytes = Inr cmd \<Longrightarrow> orderly_command P cmd loc g"
  shows "gw_ok (snd (client_frame P codec conn bytes loc g))"
  using assms by (auto simp: client_frame_def Let_def handle_command_ok split: sum.split)

lemma gw_act_ok:
  assumes ok: "gw_ok (sy_gateway s)" and ord: "orderly P a s"
  shows "gw_ok (sy_gateway (gw_act P a s))"
proof (cases a)
  case (Frame conn bytes)
  show ?thesis
  proof (cases "map_of (gw_clients (sy_gateway s)) conn")
    case (Some info)
    have "gw_ok (snd (client_frame P (ci_codec info) conn bytes (sy_locals s conn) (sy_gateway s)))"
      using ord Frame Some by (intro client_frame_ok [OF ok]) simp
    then show ?thesis
      by (cases "client_frame P (ci_codec info) conn bytes (sy_locals s conn) (sy_gateway s)")
        (simp add: Frame Some)
  qed (simp add: Frame ok)
next
  case (Response ev)
  with ord show ?thesis using engine_response_ok [OF ok] by simp
qed (simp_all add: client_connect_def client_disconnect_def ok)

lemma orderly_reach_ok:
  "orderly_reach P s0 s \<Longrightarrow> gw_ok (sy_gateway s0) \<Longrightarrow> gw_ok (sy_gateway s)"
  by (induction rule: orderly_reach.induct) (auto intro: gw_act_ok)

section \<open>Sessions\<close>

text \<open>A connection becomes authenticated only by a frame of its own with a key that opens an account.\<close>

lemma send_command_keeps:
  assumes "send_command P cmd conn acc amount symb g = (r, g')"
  shows "gw_sessions g' = gw_sessions g" "gw_pending g' = gw_pending g"
  using send_command_simps(2,3) [of P cmd conn acc amount symb g] assms by simp_all

lemma handle_cancel_sessions: "gw_sessions (snd (handle_cancel P codec conn c symb loc g)) = gw_sessions g"
proof -
  have m: "gw_sessions (mark_pending operation oid h) = gw_sessions h" for operation oid h
    by (simp add: mark_pending_def split: option.split)
  show ?thesis
    by (auto simp: handle_cancel_def Let_def m dest: send_command_keeps split: prod.split sum.split)
qed

lemma reserve_for_sessions: "reserve_for codec conn cmd g = (t, g') \<Longrightarrow> gw_sessions g' = gw_sessions g"
  by (auto simp: reserve_for_def on_table_def split: command.splits option.splits prod.splits sum.splits)

lemma track_order_sessions: "track_order conn cmd b t loc g = (l, g') \<Longrightarrow> gw_sessions g' = gw_sessions g"
  by (auto simp: track_order_def split: command.splits option.splits)

lemma handle_order_sessions: "gw_sessions (snd (handle_order P codec conn cmd symb loc g)) = gw_sessions g"
proof -
  have u: "gw_sessions (snd (unroutable codec conn cmd t l h)) = gw_sessions h" for t l h
    by (simp add: unroutable_def split: prod.split)
  show ?thesis
    by (auto simp: handle_order_def Let_def u
        dest!: reserve_for_sessions track_order_sessions send_command_keeps(1)
        split: prod.split option.split sum.split)
qed

lemma handle_command_sessions:
  "gw_sessions (snd (handle_command P codec conn cmd loc g)) =
   (case cmd of
      Authenticate a \<Rightarrow>
        (case authenticate (gw_auth g) (au_api_key a) of
           Inr acc \<Rightarrow> register conn acc (gw_sessions g) | Inl _ \<Rightarrow> gw_sessions g)
    | _ \<Rightarrow> gw_sessions g)"
proof -
  have q: "gw_sessions (answer_query codec conn q g) = gw_sessions g" for q
    using take_seq_simps(5) [of g]
    by (cases "take_seq g") (simp add: answer_query_def split: option.split)
  have a: "gw_sessions (answer_auth codec conn a g) =
      (case authenticate (gw_auth g) (au_api_key a) of
         Inr acc \<Rightarrow> register conn acc (gw_sessions g) | Inl _ \<Rightarrow> gw_sessions g)" for a
    by (simp add: answer_auth_def split: sum.split)
  show ?thesis
    by (cases cmd) (simp_all add: handle_command_def q a handle_cancel_sessions handle_order_sessions)
qed

lemma engine_response_sessions [simp]: "gw_sessions (engine_response ev g) = gw_sessions g"
proof -
  have r: "gw_sessions (release_pending oid h) = gw_sessions h" for oid h
    by (simp add: release_pending_def split: option.split)
  have s: "gw_sessions (settle f oid md h) = gw_sessions h" for f oid md h
    by (simp add: settle_def split: option.split)
  have f: "gw_sessions (handle_fill conn f g) = gw_sessions g" for conn f
    by (cases "map_of (gw_pending g) (fi_maker_order_id f)") (simp_all add: handle_fill_def Let_def s)
  show ?thesis
  proof (cases ev)
    case (ClientEvent conn e token)
    then show ?thesis
      by (cases e) (auto simp: f r handle_ack_def handle_reject_def split: option.split pending_operation.split)
  qed simp_all
qed

text \<open>A frame of a connection that is not authenticated can only be answered.\<close>

lemma handle_command_unauthenticated:
  assumes "\<not> is_authenticated (gw_sessions g) conn"
  shows "fst (handle_command P codec conn cmd loc g) = loc"
    and "gw_router (snd (handle_command P codec conn cmd loc g)) = gw_router g"
    and "gw_pending (snd (handle_command P codec conn cmd loc g)) = gw_pending g"
    and "gm_accounts (gw_table (snd (handle_command P codec conn cmd loc g))) = gm_accounts (gw_table g)"
proof -
  have q: "gw_router (answer_query codec conn q g) = gw_router g"
    "gw_pending (answer_query codec conn q g) = gw_pending g"
    "gm_accounts (gw_table (answer_query codec conn q g)) = gm_accounts (gw_table g)" for q
    using take_seq_simps [of g]
    by (cases "take_seq g"; simp add: answer_query_def split: option.split)+
  have a: "gw_router (answer_auth codec conn a g) = gw_router g"
    "gw_pending (answer_auth codec conn a g) = gw_pending g"
    "gw_table (answer_auth codec conn a g) = gw_table g" for a
    by (simp_all add: answer_auth_def split: sum.split)
  show "fst (handle_command P codec conn cmd loc g) = loc"
    "gw_router (snd (handle_command P codec conn cmd loc g)) = gw_router g"
    "gw_pending (snd (handle_command P codec conn cmd loc g)) = gw_pending g"
    "gm_accounts (gw_table (snd (handle_command P codec conn cmd loc g))) = gm_accounts (gw_table g)"
    using assms by (cases cmd; simp add: handle_command_def q a)+
qed

end
