(* ===== verification/GatewayMain.thy ===== *)
theory GatewayMain
  imports GatewaySystem
begin

text \<open>
  \<open>crates/gateway_server/src/main.rs\<close>: the start of the gateway (accounts from the newest snapshot
  and the journal, test accounts and keys, connections, reconciliation) and the periodic snapshot.
\<close>

section \<open>Recovering the accounts\<close>

definition recover_accounts ::
  "account_update serde \<Rightarrow> acct_snapshot serde \<Rightarrow> (u8 list \<Rightarrow> u32) \<Rightarrow> nat \<Rightarrow> string \<Rightarrow>
   acct_journal_config \<Rightarrow> disk \<Rightarrow> disk \<Rightarrow> (io_err + account_table) \<times> disk \<times> disk"
where
  "recover_accounts P Q crc now path config d snaps =
     (case acct_open_with_config now path config d of
        (Inl e, d1) \<Rightarrow> (Inl e, d1, snaps)
      | (Inr j, d1) \<Rightarrow>
          (case load_latest_acct Q crc snaps of
             (Inl e, snaps1) \<Rightarrow> (Inl e, d1, snaps1)
           | (Inr sn, snaps1) \<Rightarrow>
               (case acct_read_all P crc j d1 of
                  (Inl e, d2) \<Rightarrow> (Inl e, d2, snaps1)
                | (Inr updates, d2) \<Rightarrow>
                    let mgr = with_journal j;
                        restored = (case sn of None \<Rightarrow> mgr | Some s \<Rightarrow> restore_accounts s mgr)
                    in (Inr (replay_journal updates restored), d2, snaps1))))"

text \<open>The ten test accounts and their keys.\<close>

definition test_key :: "nat \<Rightarrow> string" where
  "test_key i = ''test-key-'' @ show_nat i"

definition register_test_keys :: "auth_service \<Rightarrow> auth_service" where
  "register_test_keys a = fold (\<lambda>i. register_api_key (test_key i) (of_nat i)) [1..<11] a"

definition create_test_accounts ::
  "account_update serde \<Rightarrow> (u8 list \<Rightarrow> u32) \<Rightarrow> nat \<Rightarrow> account_table \<Rightarrow> disk \<Rightarrow> account_table \<times> disk"
where
  "create_test_accounts P crc now m d =
     fold (\<lambda>i (m, d). create_account P crc now (of_nat i) 1000000 m d) [1..<11] (m, d)"

definition seed_accounts ::
  "account_update serde \<Rightarrow> (u8 list \<Rightarrow> u32) \<Rightarrow> nat \<Rightarrow> account_table \<Rightarrow> auth_service \<Rightarrow> disk \<Rightarrow>
   account_table \<times> auth_service \<times> disk"
where
  "seed_accounts P crc now m a d =
     (if sp_accounts (create_snapshot 0 m) = [] then
        (case create_test_accounts P crc now m d of (m1, d1) \<Rightarrow> (m1, register_test_keys a, d1))
      else (m, register_test_keys a, d))"

text \<open>The file that lists the engines. \<open>toml\<close> stands for the parser; \<open>read_to_string\<close> refuses a file that
  is not UTF-8.\<close>

record engines_config =
  ns_engines :: "engine_conn_config list"

datatype start_err = StartIo io_err | StartParse | StartConnect route_err

definition engines_from_file ::
  "(u8 list \<Rightarrow> engines_config option) \<Rightarrow> string \<Rightarrow> disk \<Rightarrow> (start_err + engines_config) \<times> disk"
where
  "engines_from_file toml path d =
     (case os_unit d of
        (Inl e, d1) \<Rightarrow> (Inl (StartIo e), d1)
      | (Inr _, d1) \<Rightarrow>
          (case map_of (dk_files d1) path of
             None \<Rightarrow> (Inl (StartIo IoError), d1)
           | Some contents \<Rightarrow>
               if \<not> utf8_valid contents then (Inl (StartIo IoError), d1)
               else (case toml contents of
                       None \<Rightarrow> (Inl StartParse, d1)
                     | Some config \<Rightarrow> (Inr config, d1))))"

text \<open>The start. A reconciliation that fails is only logged.\<close>

definition start_gateway ::
  "account_update serde \<Rightarrow> acct_snapshot serde \<Rightarrow> gateway_to_engine serde \<Rightarrow> (u8 list \<Rightarrow> u32) \<Rightarrow> nat \<Rightarrow>
   string \<Rightarrow> acct_journal_config \<Rightarrow> (u8 list \<Rightarrow> engines_config option) \<Rightarrow> string \<Rightarrow> (string \<Rightarrow> bool) \<Rightarrow>
   bool list \<Rightarrow> arrival list \<Rightarrow> disk \<Rightarrow> disk \<Rightarrow> (start_err + gateway) \<times> disk \<times> disk"
where
  "start_gateway P Q G crc now path config toml engines_path reach faults arrivals d snaps =
     (case recover_accounts P Q crc now path config d snaps of
        (Inl e, d1, snaps1) \<Rightarrow> (Inl (StartIo e), d1, snaps1)
      | (Inr m, d1, snaps1) \<Rightarrow>
          (case seed_accounts P crc now m new_auth_service d1 of
             (m1, auth, d2) \<Rightarrow>
               (case engines_from_file toml engines_path d2 of
                  (Inl e, d3) \<Rightarrow> (Inl e, d3, snaps1)
                | (Inr engines, d3) \<Rightarrow>
                    (case new_router reach faults (ns_engines engines) of
                       Inl e \<Rightarrow> (Inl (StartConnect e), d3, snaps1)
                     | Inr router \<Rightarrow>
                         (case rebuild_reservations G arrivals m1 router of
                            (_, m2, router1) \<Rightarrow>
                              (Inr \<lparr>gw_table = m2, gw_router = router1, gw_auth = auth,
                                    gw_sessions = new_session_manager, gw_metrics = default_metrics,
                                    gw_pending = [], gw_clients = [], gw_sent = []\<rparr>, d3, snaps1))))))"

text \<open>Whatever the disk and the network do, a gateway that starts has no pending order, no client and no
  session.\<close>

lemma start_gateway_fresh:
  "start_gateway P Q G crc now path config toml engines_path reach faults arrivals d snaps =
     (Inr g, d1, snaps1) \<Longrightarrow>
   gw_pending g = [] \<and> gw_clients g = [] \<and> \<not> is_authenticated (gw_sessions g) conn"
  by (auto simp: start_gateway_def not_authenticated_new split: sum.splits prod.splits)

section \<open>The snapshot task\<close>

text \<open>A tick every sixty seconds. The sequence number of a snapshot is the count of ticks since the
  last one that was saved.\<close>

definition snapshot_tick ::
  "account_update serde \<Rightarrow> acct_snapshot serde \<Rightarrow> (u8 list \<Rightarrow> u32) \<Rightarrow> nat \<Rightarrow> u64 \<Rightarrow> u64 \<Rightarrow>
   account_table \<Rightarrow> disk \<Rightarrow> disk \<Rightarrow> u64 \<times> account_table \<times> disk \<times> disk"
where
  "snapshot_tick P Q crc now interval ticks m d snaps =
     (let ticks1 = ticks + 1
      in if interval div 60 \<le> ticks1 then
           (case save_acct_snapshot Q crc (create_snapshot ticks1 m) snaps of
              (r, snaps1) \<Rightarrow>
                let snaps2 = (case r of Inr _ \<Rightarrow> snd (cleanup_old_acct 3 snaps1) | Inl _ \<Rightarrow> snaps1);
                    ticks2 = (case r of Inr _ \<Rightarrow> 0 | Inl _ \<Rightarrow> ticks1)
                in case flush_journal P crc now m d of (_, m1, d1) \<Rightarrow> (ticks2, m1, d1, snaps2))
         else (ticks1, m, d, snaps))"

section \<open>What is recovered\<close>

lemma foldl_put_account:
  "map_of (gm_accounts (foldl (\<lambda>m x. put_account (k x) (f x) m) m xs)) acc =
   (case map_of (rev (map (\<lambda>x. (k x, f x)) xs)) acc of None \<Rightarrow> map_of (gm_accounts m) acc | Some a \<Rightarrow> Some a)"
  by (induction xs arbitrary: m) (auto simp: put_account_def map_of_append map_add_def split: option.split)

fun update_entry :: "account_update \<Rightarrow> account_id \<times> gw_account" where
  "update_entry (CreateAccount acc bp) = (acc, new_gw_account acc bp)"

lemma replay_lookup:
  "map_of (gm_accounts (replay_journal us m)) acc =
   (case map_of (rev (map update_entry us)) acc of None \<Rightarrow> map_of (gm_accounts m) acc | Some a \<Rightarrow> Some a)"
proof -
  have "(case u of CreateAccount acc bp \<Rightarrow> put_account acc (new_gw_account acc bp) m) =
      put_account (fst (update_entry u)) (snd (update_entry u)) m" for u m
    by (cases u) simp
  then show ?thesis
    using foldl_put_account [of "fst \<circ> update_entry" "snd \<circ> update_entry" m us acc]
    by (simp add: replay_journal_def comp_def)
qed

lemma restore_lookup:
  "map_of (gm_accounts (restore_accounts sn m)) acc =
   map_of (rev (map (\<lambda>s. (ss_account_id s, restore_account s)) (sp_accounts sn))) acc"
  by (simp add: restore_accounts_def foldl_put_account split: option.split)

lemma replay_keeps [simp]: "gm_journal (replay_journal us m) = gm_journal m"
proof (induction us arbitrary: m)
  case (Cons u us)
  then show ?case by (cases u) (simp add: replay_journal_def put_account_def)
qed (simp add: replay_journal_def)

lemma open_logged:
  assumes "dk_faults d = []" and "map_of (dk_files d) path = Some (frames P crc us)"
    and "\<forall>u \<in> set us. framable P u"
  shows "\<exists>j. acct_open_with_config now path config d = (Inr j, d) \<and> acct_logged P crc j d us \<and>
    aj_path j = path"
  using assms by (simp add: acct_open_with_config_def io_bind_def os_unit_def os_call_def open_create_def
      acct_logged_def)

text \<open>Starting from a journal of account creations: whatever the snapshot says, an account in the
  journal is what its last creation made it.\<close>

lemma recover_lookup:
  assumes "serde P" and "dk_faults d = []" and "map_of (dk_files d) path = Some (frames P crc us)"
    and "\<forall>u \<in> set us. framable P u" and "load_latest_acct Q crc snaps = (Inr sn, snaps1)"
  shows "\<exists>m d'. recover_accounts P Q crc now path config d snaps = (Inr m, d', snaps1) \<and>
    (\<forall>acc. map_of (gm_accounts m) acc =
      (case map_of (rev (map update_entry us)) acc of
         Some a \<Rightarrow> Some a
       | None \<Rightarrow> (case sn of None \<Rightarrow> None
                  | Some s \<Rightarrow> map_of (gm_accounts (restore_accounts s new_account_table)) acc)))"
proof -
  obtain j where j: "acct_open_with_config now path config d = (Inr j, d)" "acct_logged P crc j d us"
    using open_logged [OF assms(2-4)] by blast
  obtain d' where d': "acct_read_all P crc j d = (Inr us, d')"
    using acct_read_all_ok [OF assms(1) j(2)] by blast
  have "map_of (gm_accounts (restore_accounts s (with_journal j))) acc =
      map_of (gm_accounts (restore_accounts s new_account_table)) acc" for s acc
    by (simp add: restore_lookup)
  then show ?thesis
    by (auto simp: recover_accounts_def j d' assms(5) replay_lookup with_journal_def Let_def
        split: option.split)
qed

end
