(* ===== verification/ProtocolWire.thy ===== *)
theory ProtocolWire
  imports Bytes
begin

text \<open>
  Serializers for the messages between gateway and engine that meet the contract, for concrete runs.
\<close>

definition w_unit :: "unit wire" where
  "w_unit = \<lparr>w_enc = (\<lambda>_. []), w_dec = (\<lambda>bs. Some ((), bs))\<rparr>"

definition w_opt :: "'a wire \<Rightarrow> 'a option wire" where
  "w_opt W = w_map (\<lambda>v. case v of None \<Rightarrow> Inl () | Some x \<Rightarrow> Inr x)
     (\<lambda>v. case v of Inl _ \<Rightarrow> None | Inr x \<Rightarrow> Some x) (w_sum w_unit W)"

definition w_token :: "risk_token wire" where
  "w_token = w_map (\<lambda>t. (rt_account_id t, rt_reserved_amount t, rt_gateway_seq t))
     (\<lambda>(a, b, c). \<lparr>rt_account_id = a, rt_reserved_amount = b, rt_gateway_seq = c\<rparr>)
     (w_pair w_word (w_pair w_int w_word))"

definition w_execute :: "execute_command wire" where
  "w_execute = w_map (\<lambda>x. (ex_command x, ex_conn_id x, ex_risk_token x))
     (\<lambda>(a, b, c). \<lparr>ex_command = a, ex_conn_id = b, ex_risk_token = c\<rparr>)
     (w_pair w_command (w_pair w_word w_token))"

definition w_to_engine :: "gateway_to_engine wire" where
  "w_to_engine = w_map
     (\<lambda>m. case m of Execute x \<Rightarrow> Inl x | Ping \<Rightarrow> Inr (Inl ()) | QueryAllOrders \<Rightarrow> Inr (Inr ()))
     (\<lambda>v. case v of Inl x \<Rightarrow> Execute x | Inr (Inl _) \<Rightarrow> Ping | Inr (Inr _) \<Rightarrow> QueryAllOrders)
     (w_sum w_execute (w_sum w_unit w_unit))"

definition reasons :: "reject_reason list" where
  "reasons = [Invalid, Risk, Overloaded, NotFound, PostOnlyWouldCross, RateLimitExceeded]"

fun reason_index :: "reject_reason \<Rightarrow> nat" where
  "reason_index Invalid = 0"
| "reason_index Risk = 1"
| "reason_index Overloaded = 2"
| "reason_index NotFound = 3"
| "reason_index PostOnlyWouldCross = 4"
| "reason_index RateLimitExceeded = 5"

definition w_reason :: "reject_reason wire" where
  "w_reason = w_map reason_index (\<lambda>n. reasons ! n) w_nat"

definition w_ack :: "ack wire" where
  "w_ack = w_map (\<lambda>a. (ak_server_seq a, ak_client_seq a, ak_order_id a))
     (\<lambda>(a, b, c). \<lparr>ak_server_seq = a, ak_client_seq = b, ak_order_id = c\<rparr>)
     (w_pair w_word (w_pair w_word w_word))"

definition w_reject :: "reject wire" where
  "w_reject = w_map (\<lambda>r. (rj_server_seq r, rj_client_seq r, rj_order_id r, rj_reason r))
     (\<lambda>(a, b, c, d). \<lparr>rj_server_seq = a, rj_client_seq = b, rj_order_id = c, rj_reason = d\<rparr>)
     (w_pair w_word (w_pair w_word (w_pair (w_opt w_word) w_reason)))"

definition w_fill :: "fill wire" where
  "w_fill = w_map (\<lambda>f. (fi_server_seq f, fi_client_seq f, fi_symbol_id f, fi_taker_order_id f,
       fi_maker_order_id f, fi_price f, fi_qty f))
     (\<lambda>(a, b, c, d, e, f, g). \<lparr>fi_server_seq = a, fi_client_seq = b, fi_symbol_id = c,
        fi_taker_order_id = d, fi_maker_order_id = e, fi_price = f, fi_qty = g\<rparr>)
     (w_pair w_word (w_pair w_word (w_pair w_word (w_pair w_word (w_pair w_word (w_pair w_int w_int))))))"

definition w_book_top :: "book_top wire" where
  "w_book_top = w_map (\<lambda>t. (bt_server_seq t, bt_symbol_id t, bt_best_bid_px t, bt_best_bid_qty t,
       bt_best_ask_px t, bt_best_ask_qty t))
     (\<lambda>(a, b, c, d, e, f). \<lparr>bt_server_seq = a, bt_symbol_id = b, bt_best_bid_px = c,
        bt_best_bid_qty = d, bt_best_ask_px = e, bt_best_ask_qty = f\<rparr>)
     (w_pair w_word (w_pair w_word (w_pair (w_opt w_int) (w_pair (w_opt w_int)
        (w_pair (w_opt w_int) (w_opt w_int))))))"

definition w_account_state :: "account_state_ev wire" where
  "w_account_state = w_map (\<lambda>s. (as_server_seq s, as_client_seq s, as_account_id s, as_symbol_id s,
       as_position s, as_risk_limits s))
     (\<lambda>(a, b, c, d, e, f). \<lparr>as_server_seq = a, as_client_seq = b, as_account_id = c,
        as_symbol_id = d, as_position = e, as_risk_limits = f\<rparr>)
     (w_pair w_word (w_pair w_word (w_pair w_word (w_pair w_word (w_pair w_position w_limits)))))"

definition w_auth_success :: "auth_success wire" where
  "w_auth_success = w_map ok_account_id (\<lambda>a. \<lparr>ok_account_id = a\<rparr>) w_word"

definition w_auth_failure :: "auth_failure wire" where
  "w_auth_failure = w_map (\<lambda>a. map of_char (fa_reason a)) (\<lambda>ns. \<lparr>fa_reason = map char_of ns\<rparr>) (w_list w_nat)"

definition w_event :: "event wire" where
  "w_event = w_map
     (\<lambda>e. case e of EvAck a \<Rightarrow> Inl a | EvReject r \<Rightarrow> Inr (Inl r) | EvFill f \<Rightarrow> Inr (Inr (Inl f))
        | EvBookTop t \<Rightarrow> Inr (Inr (Inr (Inl t))) | EvAccountState s \<Rightarrow> Inr (Inr (Inr (Inr (Inl s))))
        | EvAuthSuccess a \<Rightarrow> Inr (Inr (Inr (Inr (Inr (Inl a)))))
        | EvAuthFailure a \<Rightarrow> Inr (Inr (Inr (Inr (Inr (Inr a))))))
     (\<lambda>v. case v of Inl a \<Rightarrow> EvAck a | Inr (Inl r) \<Rightarrow> EvReject r | Inr (Inr (Inl f)) \<Rightarrow> EvFill f
        | Inr (Inr (Inr (Inl t))) \<Rightarrow> EvBookTop t | Inr (Inr (Inr (Inr (Inl s)))) \<Rightarrow> EvAccountState s
        | Inr (Inr (Inr (Inr (Inr (Inl a))))) \<Rightarrow> EvAuthSuccess a
        | Inr (Inr (Inr (Inr (Inr (Inr a))))) \<Rightarrow> EvAuthFailure a)
     (w_sum w_ack (w_sum w_reject (w_sum w_fill (w_sum w_book_top (w_sum w_account_state
        (w_sum w_auth_success w_auth_failure))))))"

definition w_order_snapshot :: "order_snapshot wire" where
  "w_order_snapshot = w_map (\<lambda>x. (os_order_id x, os_account_id x, os_symbol_id x, os_side x, os_price x,
       os_qty_rem x, os_reserved_amount x))
     (\<lambda>(a, b, c, d, e, f, g). \<lparr>os_order_id = a, os_account_id = b, os_symbol_id = c, os_side = d,
        os_price = e, os_qty_rem = f, os_reserved_amount = g\<rparr>)
     (w_pair w_word (w_pair w_word (w_pair w_word (w_pair w_side (w_pair w_int (w_pair w_int w_int))))))"

definition w_to_gateway :: "engine_to_gateway wire" where
  "w_to_gateway = w_map
     (\<lambda>m. case m of ClientEvent c e t \<Rightarrow> Inl (c, e, t) | Pong s n \<Rightarrow> Inr (Inl (s, n))
        | MarketData s e \<Rightarrow> Inr (Inr (Inl (s, e))) | AllOrders os \<Rightarrow> Inr (Inr (Inr (Inl os)))
        | EngineReady s os \<Rightarrow> Inr (Inr (Inr (Inr (s, os)))))
     (\<lambda>v. case v of Inl (c, e, t) \<Rightarrow> ClientEvent c e t | Inr (Inl (s, n)) \<Rightarrow> Pong s n
        | Inr (Inr (Inl (s, e))) \<Rightarrow> MarketData s e | Inr (Inr (Inr (Inl os))) \<Rightarrow> AllOrders os
        | Inr (Inr (Inr (Inr (s, os)))) \<Rightarrow> EngineReady s os)
     (w_sum (w_pair w_word (w_pair w_event (w_opt w_token))) (w_sum (w_pair w_word w_nat)
        (w_sum (w_pair w_word w_event) (w_sum (w_list w_order_snapshot)
          (w_pair w_word (w_list w_order_snapshot))))))"

lemma wire_unit: "wire w_unit"
  by unfold_locales (simp add: w_unit_def)

lemma wire_opt: "wire W \<Longrightarrow> wire (w_opt W)"
  unfolding w_opt_def by (rule wire_map) (auto intro!: wires wire_unit split: option.split)

lemma wire_token: "wire w_token"
  unfolding w_token_def by (rule wire_map) (auto intro!: wires)

lemma wire_execute: "wire w_execute"
  unfolding w_execute_def by (rule wire_map) (auto intro!: wires wire_command wire_token)

lemma wire_to_engine: "wire w_to_engine"
  unfolding w_to_engine_def
  by (rule wire_map) (auto intro!: wires wire_execute wire_unit split: gateway_to_engine.split)

lemma wire_reason: "wire w_reason"
  unfolding w_reason_def
proof (rule wire_map [OF wire_nat])
  fix r show "reasons ! reason_index r = r" by (cases r) (simp_all add: reasons_def)
qed

lemma wire_ack: "wire w_ack"
  unfolding w_ack_def by (rule wire_map) (auto intro!: wires)

lemma wire_reject: "wire w_reject"
  unfolding w_reject_def by (rule wire_map) (auto intro!: wires wire_opt wire_reason)

lemma wire_fill: "wire w_fill"
  unfolding w_fill_def by (rule wire_map) (auto intro!: wires)

lemma wire_book_top: "wire w_book_top"
  unfolding w_book_top_def by (rule wire_map) (auto intro!: wires wire_opt)

lemma wire_account_state: "wire w_account_state"
  unfolding w_account_state_def by (rule wire_map) (auto intro!: wires wire_position wire_limits)

lemma wire_auth_success: "wire w_auth_success"
  unfolding w_auth_success_def by (rule wire_map) (auto intro!: wires)

lemma wire_auth_failure: "wire w_auth_failure"
  unfolding w_auth_failure_def by (rule wire_map) (auto intro!: wires simp: comp_def map_idI)

lemma wire_event: "wire w_event"
  unfolding w_event_def
  by (rule wire_map)
    (auto intro!: wires wire_ack wire_reject wire_fill wire_book_top wire_account_state
      wire_auth_success wire_auth_failure split: event.split)

lemma wire_order_snapshot: "wire w_order_snapshot"
  unfolding w_order_snapshot_def by (rule wire_map) (auto intro!: wires wire_side)

lemma wire_to_gateway: "wire w_to_gateway"
  unfolding w_to_gateway_def
  by (rule wire_map)
    (auto intro!: wires wire_event wire_opt wire_token wire_order_snapshot split: engine_to_gateway.split)

definition to_engine_serde :: "gateway_to_engine serde" where
  "to_engine_serde = serde_of w_to_engine"

definition to_gateway_serde :: "engine_to_gateway serde" where
  "to_gateway_serde = serde_of w_to_gateway"

interpretation to_engine_wire: wire w_to_engine
  by (rule wire_to_engine)

interpretation to_gateway_wire: wire w_to_gateway
  by (rule wire_to_gateway)

interpretation to_engine: serde to_engine_serde
  unfolding to_engine_serde_def by (rule to_engine_wire.wire_serde.serde_axioms)

interpretation to_gateway: serde to_gateway_serde
  unfolding to_gateway_serde_def by (rule to_gateway_wire.wire_serde.serde_axioms)

lemma to_engine_bytes: "sd_to to_engine_serde m = Some (w_enc w_to_engine m)"
  by (simp add: to_engine_serde_def serde_of_def)

lemma to_gateway_bytes: "sd_to to_gateway_serde m = Some (w_enc w_to_gateway m)"
  by (simp add: to_gateway_serde_def serde_of_def)

lemma protocol_serdes_total [simp]: "sd_to to_engine_serde m \<noteq> None" "sd_to to_gateway_serde n \<noteq> None"
  by (simp_all add: to_engine_bytes to_gateway_bytes)

end
