(* ===== verification/GatewayProps.thy ===== *)
theory GatewayProps
  imports GatewayMain CodecFacts ProtocolWire
begin

text \<open>
  Properties of the gateway: the ledger of reservations, sessions, recovery and reconciliation, each
  with a run on a small gateway.
\<close>

section \<open>A concrete gateway\<close>

definition ex_gw_order :: "symbol_id \<Rightarrow> price \<Rightarrow> qty \<Rightarrow> new_order" where
  "ex_gw_order symb px q =
     \<lparr>no_client_seq = 1, no_order_id = 5, no_account_id = 1, no_symbol_id = symb, no_side = Buy,
      no_price = px, no_qty = q, no_tif = Gtc, no_flags = \<lparr>post_only = False\<rparr>\<rparr>"

lemma ex_gw_order_sel [simp]:
  "no_client_seq (ex_gw_order symb px q) = 1" "no_order_id (ex_gw_order symb px q) = 5"
  "no_account_id (ex_gw_order symb px q) = 1" "no_symbol_id (ex_gw_order symb px q) = symb"
  "no_side (ex_gw_order symb px q) = Buy" "no_price (ex_gw_order symb px q) = px"
  "no_qty (ex_gw_order symb px q) = q"
  by (simp_all add: ex_gw_order_def)

definition ex_table :: account_table where
  "ex_table = \<lparr>gm_accounts = [(1, new_gw_account 1 1000)], gm_next_seq = 1, gm_journal = None\<rparr>"

lemma ex_table_sel [simp]: "gm_accounts ex_table = [(1, new_gw_account 1 1000)]"
  by (simp add: ex_table_def)

definition ex_gateway :: gateway where
  "ex_gateway =
     \<lparr>gw_table = ex_table,
      gw_router = \<lparr>er_senders = [(1, \<lparr>sk_fed = [], sk_sent = []\<rparr>)], er_faults = []\<rparr>,
      gw_auth = \<lparr>av_api_keys = [(''key'', 1)]\<rparr>, gw_sessions = \<lparr>sm_sessions = [(7, 1)]\<rparr>,
      gw_metrics = default_metrics, gw_pending = [],
      gw_clients = [(7, \<lparr>ci_codec = binary_codec le_crate\<rparr>)], gw_sent = []\<rparr>"

definition ex_system :: gw_system where
  "ex_system = \<lparr>sy_gateway = ex_gateway, sy_locals = (\<lambda>_. [])\<rparr>"

lemma ex_decode: "command_wf cmd \<Longrightarrow> cc_decode (binary_codec le_crate) (command_bytes cmd) = Inr cmd"
  unfolding binary_codec_def by (simp add: le.decode_command_iff)

lemma ex_encode: "cc_encode (binary_codec le_crate) ev = Inr (event_bytes ev)"
  by (simp add: binary_codec_def le.encode_event_bytes)

lemma ex_gateway_sel [simp]:
  "gw_table ex_gateway = ex_table" "gw_pending ex_gateway = []" "gw_sessions ex_gateway = \<lparr>sm_sessions = [(7, 1)]\<rparr>"
  "gw_router ex_gateway = \<lparr>er_senders = [(1, \<lparr>sk_fed = [], sk_sent = []\<rparr>)], er_faults = []\<rparr>"
  "gw_clients ex_gateway = [(7, \<lparr>ci_codec = binary_codec le_crate\<rparr>)]"
  "gw_auth ex_gateway = \<lparr>av_api_keys = [(''key'', 1)]\<rparr>"
  by (simp_all add: ex_gateway_def)

lemma ex_system_sel [simp]: "sy_gateway ex_system = ex_gateway" "sy_locals ex_system c = []"
  by (simp_all add: ex_system_def)

lemma ex_ok: "gw_ok (sy_gateway ex_system)"
  by (simp add: ex_table_def gw_ok_def ledger_ok_def balanced_def held_def pend_tokens_def new_gw_account_def)

lemma ex_small [simp]: "i64_ok 50" "i64_ok 10" "i64_ok 500" "i64_ok 1000" "i64_ok 10000"
  "i64_ok (- 10000)" "i64_ok (- 500)"
  by (simp_all add: i64_ok_def i64_min_def i64_max_def)

definition ex_buy :: "symbol_id \<Rightarrow> command" where
  "ex_buy symb = NewOrder (ex_gw_order symb 50 10)"

lemma ex_buy_decode [simp]: "cc_decode (binary_codec le_crate) (command_bytes (ex_buy symb)) = Inr (ex_buy symb)"
  by (rule ex_decode) (simp add: ex_buy_def ex_gw_order_def)

definition ex_token :: "symbol_id \<Rightarrow> reservation_token" where
  "ex_token symb = \<lparr>tk_account_id = 1, tk_symbol_id = symb, tk_amount = 500, tk_order_id = 5\<rparr>"

lemma ex_token_sel [simp]:
  "tk_account_id (ex_token symb) = 1" "tk_amount (ex_token symb) = 500"
  by (simp_all add: ex_token_def)

lemma ex_reserved:
  "check_and_reserve_order (ex_gw_order symb 50 10) ex_table =
   (Inr (ex_token symb), put_account 1 (reserve_more 500 (new_gw_account 1 1000)) ex_table)"
  by (simp add: check_and_reserve_order_def ex_gw_order_def ex_table_def new_gw_account_def ga_get_risk_limits_def
      get_or_def default_risk_limits_def abs64_def ga_get_position_def default_position_def ex_token_def
      add64_id mul64_id sub64_id neg64_id Let_def)

definition ex_frame :: gw_action where
  "ex_frame = Frame 7 (command_bytes (ex_buy 1))"

lemma ex_frame_orderly: "orderly to_engine_serde ex_frame ex_system"
  by (simp add: ex_frame_def) (simp add: ex_buy_def ex_gw_order_def routable_def)

lemma ex_after_frame:
  "map_of (gm_accounts (gw_table (sy_gateway (gw_act to_engine_serde ex_frame ex_system)))) 1 =
     Some (reserve_more 500 (new_gw_account 1 1000))"
  "pend_tokens (gw_pending (sy_gateway (gw_act to_engine_serde ex_frame ex_system))) = {#ex_token 1#}"
  by (simp_all add: ex_frame_def client_frame_def Let_def)
    (simp_all add: Let_def ex_buy_def handle_command_def is_authenticated_def
      handle_order_def reserve_for_def on_table_def check_and_reserve_def ex_reserved track_order_def
      send_command_def take_seq_def gw_next_seq_def route_to_engine_def net_call_def to_engine_bytes
      put_sink_def put_account_def pend_tokens_def)

section \<open>The ledger\<close>

text \<open>C4: whatever clients and engines do in orderly steps, every account holds back exactly the sum of
  the tokens of its pending orders (in the arithmetic of \<open>i64\<close>).\<close>

theorem ledger_stays_balanced:
  assumes "orderly_reach P s0 s" and "gw_ok (sy_gateway s0)"
    and "map_of (gm_accounts (gw_table (sy_gateway s))) acc = Some a"
  shows "ga_tentative_reserved a = wrap64 (owed (pend_tokens (gw_pending (sy_gateway s))) acc)"
  using orderly_reach_ok [OF assms(1,2)] assms(3)
  by (simp add: gw_ok_def ledger_ok_def balanced_def held_def)

theorem ledger_stays_balanced_witness:
  "\<exists>a. map_of (gm_accounts (gw_table (sy_gateway (gw_act to_engine_serde ex_frame ex_system)))) 1 = Some a \<and>
     ga_tentative_reserved a = 500"
  using ledger_stays_balanced [OF orderly_reach.step [OF orderly_reach.start ex_frame_orderly] ex_ok
      ex_after_frame(1)]
  by (simp add: ex_after_frame ex_token_def wrap64_id)

text \<open>C5: a burst of sane orders, checked one after the other, cannot reserve more than the account has:
  what it held back before and all tokens granted together are covered by its buying power.\<close>

theorem no_double_spend:
  assumes "all_solvent m" and "\<forall>n \<in> set ns. sane_order n" and "reserve_all ns m = (ts, m')"
    and "map_of (gm_accounts m) acc = Some a"
  shows "ga_tentative_reserved a + owed (mset ts) acc \<le> ga_buying_power a \<and> all_solvent m'"
proof -
  obtain a' where a': "map_of (gm_accounts m') acc = Some a'" "ga_buying_power a' = ga_buying_power a"
    "ga_tentative_reserved a' = ga_tentative_reserved a + owed (mset ts) acc"
    and s: "all_solvent m'"
    using reserve_all_solvent [OF assms] by blast
  then have "solvent a'" by (simp add: all_solvent_def)
  with a' s show ?thesis by (simp add: solvent_def)
qed

lemma ex_all_solvent: "all_solvent ex_table"
  by (simp add: all_solvent_def ex_table_def new_gw_account_def solvent_def)

lemma ex_sane: "sane_order (ex_gw_order 1 50 10)"
  by (simp add: sane_order_def)

theorem no_double_spend_witness:
  "owed (mset (fst (reserve_all (replicate 3 (ex_gw_order 1 50 10)) ex_table))) 1 \<le> 1000"
  using no_double_spend [OF ex_all_solvent, of "replicate 3 (ex_gw_order 1 50 10)" _ _ 1 "new_gw_account 1 1000"]
    ex_sane
  by (cases "reserve_all (replicate 3 (ex_gw_order 1 50 10)) ex_table")
    (simp add: ex_table_def new_gw_account_def)

section \<open>Sessions\<close>

text \<open>C26: a frame of a connection that is not authenticated, whatever it holds, is at most answered: no
  order is tracked, no account changes, nothing is sent to an engine.\<close>

theorem unauthenticated_frames_harmless:
  assumes "\<not> is_authenticated (gw_sessions (sy_gateway s)) conn"
  shows "gw_router (sy_gateway (gw_act P (Frame conn bytes) s)) = gw_router (sy_gateway s) \<and>
    gw_pending (sy_gateway (gw_act P (Frame conn bytes) s)) = gw_pending (sy_gateway s) \<and>
    gm_accounts (gw_table (sy_gateway (gw_act P (Frame conn bytes) s))) =
      gm_accounts (gw_table (sy_gateway s)) \<and>
    sy_locals (gw_act P (Frame conn bytes) s) = sy_locals s"
proof (cases "map_of (gw_clients (sy_gateway s)) conn")
  case (Some info)
  let ?g = "(sy_gateway s)\<lparr>gw_metrics := inc_frames_in (gw_metrics (sy_gateway s))\<rparr>"
  show ?thesis
  proof (cases "cc_decode (ci_codec info) bytes")
    case (Inr cmd)
    have "\<not> is_authenticated (gw_sessions ?g) conn" using assms by simp
    note u = handle_command_unauthenticated [OF this, of P "ci_codec info" cmd "sy_locals s conn"]
    then show ?thesis
      by (cases "handle_command P (ci_codec info) conn cmd (sy_locals s conn) ?g")
        (simp add: client_frame_def Some Inr)
  qed (simp add: client_frame_def Some)
qed simp

theorem unauthenticated_frames_harmless_witness:
  "gw_router (sy_gateway (gw_act to_engine_serde (Frame 8 (command_bytes (ex_buy 1)))
     (gw_act to_engine_serde (Connect (binary_codec le_crate) 8) ex_system))) = gw_router ex_gateway"
proof -
  let ?s = "gw_act to_engine_serde (Connect (binary_codec le_crate) 8) ex_system"
  have "\<not> is_authenticated (gw_sessions (sy_gateway ?s)) 8"
    by (simp add: client_connect_def is_authenticated_def)
  from unauthenticated_frames_harmless [OF this] show ?thesis by (simp add: client_connect_def)
qed

text \<open>C27: a connection becomes authenticated only by a frame of its own that holds a registered key.\<close>

theorem sessions_from_keys:
  assumes "is_authenticated (gw_sessions (sy_gateway (gw_act P a s))) conn"
    and "\<not> is_authenticated (gw_sessions (sy_gateway s)) conn"
  shows "\<exists>bytes info key acc. a = Frame conn bytes \<and>
    map_of (gw_clients (sy_gateway s)) conn = Some info \<and>
    cc_decode (ci_codec info) bytes = Inr (Authenticate key) \<and>
    authenticate (gw_auth (sy_gateway s)) (au_api_key key) = Inr acc"
proof (cases a)
  case (Frame c bytes)
  show ?thesis
  proof (cases "map_of (gw_clients (sy_gateway s)) c")
    case (Some info)
    let ?g = "(sy_gateway s)\<lparr>gw_metrics := inc_frames_in (gw_metrics (sy_gateway s))\<rparr>"
    have "gw_sessions (sy_gateway (gw_act P a s)) =
        gw_sessions (snd (client_frame P (ci_codec info) c bytes (sy_locals s c) (sy_gateway s)))"
      by (cases "client_frame P (ci_codec info) c bytes (sy_locals s c) (sy_gateway s)") (simp add: Frame Some)
    with assms show ?thesis
      using handle_command_sessions [of P "ci_codec info" c _ "sy_locals s c" ?g]
      by (auto simp: Frame Some client_frame_def Let_def split: sum.splits command.splits)
  qed (use assms Frame in simp)
qed (use assms in \<open>simp_all add: client_connect_def client_disconnect_def\<close>)

definition ex_login :: command where
  "ex_login = Authenticate \<lparr>au_api_key = ''key''\<rparr>"

lemma ex_login_decode [simp]: "cc_decode (binary_codec le_crate) (command_bytes ex_login) = Inr ex_login"
proof (rule ex_decode)
  have "utf8_valid (string_bytes ''key'')" by code_simp
  then show "command_wf ex_login" by (simp add: ex_login_def string_wf_def)
qed

definition ex_connected :: gw_system where
  "ex_connected = gw_act to_engine_serde (Connect (binary_codec le_crate) 8) ex_system"

lemma ex_logged_in:
  "is_authenticated (gw_sessions (sy_gateway
     (gw_act to_engine_serde (Frame 8 (command_bytes ex_login)) ex_connected))) 8"
  by (simp add: ex_connected_def client_connect_def client_frame_def Let_def)
    (simp add: ex_login_def handle_command_def answer_auth_def authenticate_def)

theorem sessions_from_keys_witness:
  "\<exists>key acc. cc_decode (binary_codec le_crate) (command_bytes ex_login) = Inr (Authenticate key) \<and>
     authenticate (gw_auth (sy_gateway ex_connected)) (au_api_key key) = Inr acc"
proof -
  have "\<not> is_authenticated (gw_sessions (sy_gateway ex_connected)) 8"
    by (simp add: ex_connected_def client_connect_def is_authenticated_def)
  from sessions_from_keys [OF ex_logged_in this] show ?thesis
    by (auto simp: ex_connected_def client_connect_def)
qed

section \<open>Errors that break the ledger\<close>

lemma send_no_engine:
  assumes "map_of (er_senders (gw_router g)) symb = None"
  shows "\<exists>e g'. send_command P cmd conn acc amount symb g = (Inl e, g')"
proof -
  have "gw_router (snd (take_seq g)) = gw_router g" by simp
  then show ?thesis
    using assms by (cases "take_seq g") (simp add: send_command_def route_to_engine_def split: option.split)
qed

text \<open>a new order that passes the check but whose engine is not connected is released and rejected,
  yet stays in the shared map with its token: whatever the map believes is reserved for it is not.\<close>

theorem unroutable_order_stays_pending:
  assumes "is_authenticated (gw_sessions g) conn"
    and "check_and_reserve_order n (gw_table g) = (Inr tok, t)"
    and "map_of (er_senders (gw_router g)) (no_symbol_id n) = None"
    and "\<forall>acc x. held (gw_table g) acc = Some x \<longrightarrow> i64_ok x"
  shows "\<exists>md. map_of (gw_pending (snd (handle_command P codec conn (NewOrder n) loc g))) (no_order_id n) = Some md \<and>
    md_token md = tok \<and>
    held (gw_table (snd (handle_command P codec conn (NewOrder n) loc g))) = held (gw_table g)"
proof -
  define g2 where "g2 = snd (track_order conn (NewOrder n) (no_side n = Buy) tok loc (g\<lparr>gw_table := t\<rparr>))"
  have "map_of (er_senders (gw_router g2)) (no_symbol_id n) = None"
    using assms(3) by (simp add: g2_def track_order_def)
  then obtain e g3 where s: "send_command P (NewOrder n) conn (tk_account_id tok) (tk_amount tok)
      (no_symbol_id n) g2 = (Inl e, g3)" using send_no_engine by blast
  have "held (gw_table g2) = held t" by (simp add: g2_def track_order_def)
  then have g3: "gw_pending g3 = gw_pending g2" "held (gw_table g3) = held t"
    using send_command_simps(1,2) [of P "NewOrder n" conn "tk_account_id tok" "tk_amount tok" "no_symbol_id n" g2]
    unfolding s by simp_all
  have "held (release_reservation tok (gw_table g3)) = held (gw_table g)"
    using orders.reserve_give_back [OF assms(2,4)] g3(2) by (simp add: orders.given_back)
  with assms(1,2) s g3(1) show ?thesis
    by (simp add: handle_command_def handle_order_def reserve_for_def on_table_def check_and_reserve_def
        g2_def track_order_def unroutable_def Let_def)
qed

theorem unroutable_order_stays_pending_witness:
  "gw_pending (snd (handle_command to_engine_serde (binary_codec le_crate) 7 (ex_buy 99) [] ex_gateway)) \<noteq> [] \<and>
   held (gw_table (snd (handle_command to_engine_serde (binary_codec le_crate) 7 (ex_buy 99) [] ex_gateway))) 1 =
     Some 0"
proof -
  have "is_authenticated (gw_sessions ex_gateway) 7" by (simp add: is_authenticated_def)
  moreover have "\<forall>acc x. held (gw_table ex_gateway) acc = Some x \<longrightarrow> i64_ok x"
    by (auto simp: held_def new_gw_account_def)
  moreover have "held (gw_table ex_gateway) 1 = Some 0" by (simp add: held_def new_gw_account_def)
  ultimately show ?thesis
    using unroutable_order_stays_pending [of ex_gateway 7 "ex_gw_order 99 50 10" "ex_token 99" _
        to_engine_serde "binary_codec le_crate" "[]"] ex_reserved [of 99]
    by (auto simp: ex_buy_def)
qed

text \<open>The token that stays behind is released once more by the answer to a later cancel of the same
  number, and the account holds back a negative amount: it can spend more than it has.\<close>

definition ex_cancel_5 :: command where
  "ex_cancel_5 = Cancel \<lparr>ca_client_seq = 2, ca_order_id = 5, ca_account_id = 1, ca_symbol_id = 1\<rparr>"

definition ex_not_found :: engine_to_gateway where
  "ex_not_found = ClientEvent 7 (EvReject \<lparr>rj_server_seq = 1, rj_client_seq = 2, rj_order_id = Some 5,
     rj_reason = NotFound\<rparr>) None"

lemma ex_cancel_decode [simp]:
  "cc_decode (binary_codec le_crate) (command_bytes ex_cancel_5) = Inr ex_cancel_5"
  by (rule ex_decode) (simp add: ex_cancel_5_def)

lemma unroutable_order_released_twice:
  "map_option ga_tentative_reserved (get_account (gw_table (sy_gateway
     (fold (gw_act to_engine_serde)
       [Frame 7 (command_bytes (ex_buy 99)), Frame 7 (command_bytes ex_cancel_5), Response ex_not_found]
       ex_system))) 1) = Some (- 500)"
  by (simp add: client_frame_def Let_def,
      simp add: Let_def ex_buy_def handle_command_def is_authenticated_def handle_order_def reserve_for_def
        on_table_def check_and_reserve_def ex_reserved track_order_def send_command_def take_seq_def
        gw_next_seq_def route_to_engine_def to_engine_bytes unroutable_def release_reservation_def amend_def
        put_account_def reject_client_def respond_def ex_encode,
      simp add: client_frame_def Let_def,
      simp add: ex_cancel_5_def handle_command_def is_authenticated_def handle_cancel_def Let_def
        mark_local_def mark_pending_def send_command_def take_seq_def gw_next_seq_def route_to_engine_def
        to_engine_bytes net_call_def put_sink_def,
      simp add: ex_not_found_def handle_reject_def release_pending_def release_reservation_def amend_def
        put_account_def get_account_def release_amount_def reserve_more_def new_gw_account_def add64_id sub64_id)

text \<open>A fill of any size ends the tracking of the orders it names: what is left of them in the book has
  no entry and no reservation, and its later fills are not booked.\<close>

lemma partial_fill_untracks:
  "map_of (gw_pending (handle_fill conn f g)) (fi_taker_order_id f) = None"
  "map_of (gw_pending (handle_fill conn f g)) (fi_maker_order_id f) = None"
  by (auto simp: handle_fill_def settle_def Let_def split: option.split)

lemma untracked_fill_not_booked:
  assumes "map_of (gw_pending g) (fi_taker_order_id f) = None"
    and "map_of (gw_pending g) (fi_maker_order_id f) = None"
  shows "gw_table (handle_fill conn f g) = gw_table g"
  using assms by (simp add: handle_fill_def settle_def Let_def)

section \<open>Recovery\<close>

text \<open>A list of accounts created one after the other.\<close>

definition create_accounts ::
  "account_update serde \<Rightarrow> (u8 list \<Rightarrow> u32) \<Rightarrow> nat \<Rightarrow> (account_id \<times> i64) list \<Rightarrow> account_table \<Rightarrow> disk \<Rightarrow>
   account_table \<times> disk"
where
  "create_accounts P crc now xs m d = fold (\<lambda>(acc, bp) (m, d). create_account P crc now acc bp m d) xs (m, d)"

lemma create_account_ok:
  assumes "gm_journal m = Some j" and "acct_logged P crc j d us" and "framable P (CreateAccount acc bp)"
  shows "\<exists>j' d'. create_account P crc now acc bp m d =
      ((put_account acc (new_gw_account acc bp) m)\<lparr>gm_journal := Some j'\<rparr>, d') \<and>
    acct_logged P crc j' d' (us @ [CreateAccount acc bp]) \<and> aj_path j' = aj_path j"
proof -
  obtain j' d' where "acct_append P crc now (CreateAccount acc bp) j d = (Inr (), j', d')"
    "acct_logged P crc j' d' (us @ [CreateAccount acc bp])" "aj_path j' = aj_path j"
    using acct_append_ok [OF assms(2,3)] by blast
  then show ?thesis
    using assms(1) by (intro exI [of _ j'] exI [of _ d']) (simp add: create_account_def log_update_def put_account_def)
qed

lemma replay_same:
  "gm_accounts a = gm_accounts b \<Longrightarrow> gm_accounts (replay_journal us a) = gm_accounts (replay_journal us b)"
proof (induction us arbitrary: a b)
  case (Cons u us)
  obtain acc bp where u: "u = CreateAccount acc bp" by (cases u)
  have "gm_accounts (put_account acc x a) = gm_accounts (put_account acc x b)" for x
    using Cons.prems by (simp add: put_account_def)
  from Cons.IH [OF this] show ?case by (simp add: u replay_journal_def)
qed (simp add: replay_journal_def)

lemma create_accounts_ok:
  assumes "gm_journal m = Some j" and "acct_logged P crc j d us"
    and "\<forall>x \<in> set xs. framable P (CreateAccount (fst x) (snd x))"
  shows "\<exists>m' j' d'. create_accounts P crc now xs m d = (m', d') \<and> gm_journal m' = Some j' \<and>
    acct_logged P crc j' d' (us @ map (\<lambda>x. CreateAccount (fst x) (snd x)) xs) \<and> aj_path j' = aj_path j \<and>
    gm_accounts m' = gm_accounts (replay_journal (map (\<lambda>x. CreateAccount (fst x) (snd x)) xs) m)"
  using assms
proof (induction xs arbitrary: m j d us)
  case Nil
  then show ?case by (simp add: create_accounts_def replay_journal_def)
next
  case (Cons x xs)
  let ?u = "CreateAccount (fst x) (snd x)"
  have fr: "framable P ?u" using Cons.prems(3) by simp
  obtain j1 d1 where c: "create_account P crc now (fst x) (snd x) m d =
      ((put_account (fst x) (new_gw_account (fst x) (snd x)) m)\<lparr>gm_journal := Some j1\<rparr>, d1)"
    "acct_logged P crc j1 d1 (us @ [?u])" "aj_path j1 = aj_path j"
    using create_account_ok [OF Cons.prems(1,2) fr] by blast
  let ?m1 = "(put_account (fst x) (new_gw_account (fst x) (snd x)) m)\<lparr>gm_journal := Some j1\<rparr>"
  have rest: "\<forall>y \<in> set xs. framable P (CreateAccount (fst y) (snd y))" using Cons.prems(3) by simp
  have jr: "gm_journal ?m1 = Some j1" by simp
  have same: "gm_accounts (replay_journal us ?m1) =
      gm_accounts (replay_journal us (put_account (fst x) (new_gw_account (fst x) (snd x)) m))" for us
    by (rule replay_same) simp
  have step: "create_accounts P crc now (x # xs) m d = create_accounts P crc now xs ?m1 d1"
    by (simp add: create_accounts_def split_beta c(1))
  have "replay_journal (?u # us) m =
      replay_journal us (put_account (fst x) (new_gw_account (fst x) (snd x)) m)" for us
    by (simp add: replay_journal_def)
  with Cons.IH [OF jr c(2) rest] c(3) show ?case
    unfolding step by (simp add: same)
qed

text \<open>C28: accounts that were created are there after a restart: from the journal alone, the start rebuilds
  the table the creations had built, with the buying power each account was created with.\<close>

theorem created_accounts_recovered:
  assumes "serde P" and "acct_logged P crc j d []"
    and "\<forall>x \<in> set xs. framable P (CreateAccount (fst x) (snd x))"
    and "create_accounts P crc now xs (with_journal j) d = (m, d1)"
    and "load_latest_acct Q crc snaps = (Inr None, snaps1)"
  shows "\<exists>m' d2. recover_accounts P Q crc later (aj_path j) config d1 snaps = (Inr m', d2, snaps1) \<and>
    map_of (gm_accounts m') = map_of (gm_accounts m)"
proof -
  have "gm_journal (with_journal j) = Some j" by (simp add: with_journal_def)
  from create_accounts_ok [OF this assms(2,3), of now] obtain j' where
    log: "acct_logged P crc j' d1 (map (\<lambda>x. CreateAccount (fst x) (snd x)) xs)" "aj_path j' = aj_path j"
    and m: "gm_accounts m = gm_accounts (replay_journal (map (\<lambda>x. CreateAccount (fst x) (snd x)) xs) (with_journal j))"
    using assms(4) by auto
  have "dk_faults d1 = []" "map_of (dk_files d1) (aj_path j) = Some (frames P crc (map (\<lambda>x. CreateAccount (fst x) (snd x)) xs))"
    "\<forall>u \<in> set (map (\<lambda>x. CreateAccount (fst x) (snd x)) xs). framable P u"
    using log by (simp_all add: acct_logged_def)
  from recover_lookup [OF assms(1) this assms(5), of later config] obtain m2 d2 where
    r: "recover_accounts P Q crc later (aj_path j) config d1 snaps = (Inr m2, d2, snaps1)"
    and l0: "\<forall>acc. map_of (gm_accounts m2) acc =
      (case map_of (rev (map update_entry (map (\<lambda>x. CreateAccount (fst x) (snd x)) xs))) acc of
         Some a \<Rightarrow> Some a
       | None \<Rightarrow> (case None of None \<Rightarrow> None
                  | Some s \<Rightarrow> map_of (gm_accounts (restore_accounts s new_account_table)) acc))"
    by blast
  have "map_of (gm_accounts m2) = map_of (gm_accounts m)"
    by (rule ext) (simp add: l0 m replay_lookup with_journal_def del: map_map split: option.split)
  with r show ?thesis by blast
qed

lemma create_framable:
  assumes "unat acc < 128" and "0 \<le> bp" and "bp < 64"
  shows "framable update_serde (CreateAccount acc bp)"
proof -
  have one: "length (varint n) = 1" if "n < 128" for n using that by (simp add: varint.simps [of n])
  have "zigzag bp < 128" using assms by (simp add: zigzag_def)
  with one assms(1) show ?thesis
    by (simp add: framable_def update_serde_def serde_of_def w_account_update_def w_map_def w_pair_def
        w_word_def w_int_def w_nat_def max_frame_def)
qed

definition ex_acct_disk :: disk where
  "ex_acct_disk = \<lparr>dk_files = [(''accounts.bin'', [])], dk_faults = []\<rparr>"

definition ex_acct_journal :: acct_journal where
  "ex_acct_journal = \<lparr>aj_path = ''accounts.bin'', aj_batch_buffer = [], aj_batch_size = 100, aj_last_sync = 0,
     aj_sync_interval = 1, aj_updates_written = 0\<rparr>"

theorem created_accounts_recovered_witness:
  "\<exists>m' d2. recover_accounts update_serde acct_snapshot_serde (\<lambda>_. 0) 9 ''accounts.bin'' default_acct_journal_config
     (snd (create_accounts update_serde (\<lambda>_. 0) 0 [(1, 50), (2, 60)] (with_journal ex_acct_journal) ex_acct_disk))
     \<lparr>dk_files = [], dk_faults = []\<rparr> = (Inr m', d2, \<lparr>dk_files = [], dk_faults = []\<rparr>) \<and>
   map_of (gm_accounts m') = map_of (gm_accounts (fst
     (create_accounts update_serde (\<lambda>_. 0) 0 [(1, 50), (2, 60)] (with_journal ex_acct_journal) ex_acct_disk)))"
proof -
  have "acct_logged update_serde (\<lambda>_. 0) ex_acct_journal ex_acct_disk []"
    by (simp add: acct_logged_def ex_acct_disk_def ex_acct_journal_def)
  moreover have "\<forall>x \<in> set [(1, 50), (2, 60)]. framable update_serde (CreateAccount (fst x) (snd x))"
    by (simp add: create_framable)
  moreover have "load_latest_acct acct_snapshot_serde (\<lambda>_. 0) \<lparr>dk_files = [], dk_faults = []\<rparr> =
      (Inr None, \<lparr>dk_files = [], dk_faults = []\<rparr>)" by (simp add: load_latest_acct_def)
  moreover have "aj_path ex_acct_journal = ''accounts.bin''" by (simp add: ex_acct_journal_def)
  ultimately show ?thesis
    using created_accounts_recovered [OF update_serde.serde_axioms, of "\<lambda>_. 0" ex_acct_journal ex_acct_disk
        "[(1, 50), (2, 60)]" 0 _ _ acct_snapshot_serde "\<lparr>dk_files = [], dk_faults = []\<rparr>"
        "\<lparr>dk_files = [], dk_faults = []\<rparr>" 9 default_acct_journal_config, OF _ _ prod.collapse [symmetric]]
    by simp
qed

text \<open>With a snapshot the journal still has the last word: every account whose creation is in the journal
  is set back to its initial buying power, without positions or limits, whatever the snapshot holds.\<close>

lemma journaled_accounts_reset:
  assumes "serde P" and "dk_faults d = []" and "map_of (dk_files d) path = Some (frames P crc us)"
    and "\<forall>u \<in> set us. framable P u" and "load_latest_acct Q crc snaps = (Inr (Some sn), snaps1)"
    and "CreateAccount acc bp \<in> set us"
  shows "\<exists>m d' bp'. recover_accounts P Q crc now path config d snaps = (Inr m, d', snaps1) \<and>
    map_of (gm_accounts m) acc = Some (new_gw_account acc bp') \<and> CreateAccount acc bp' \<in> set us"
proof -
  have "map_of (rev (map update_entry us)) acc \<noteq> None"
    using assms(6) weak_map_of_SomeI [of acc "new_gw_account acc bp" "rev (map update_entry us)"]
    by (force intro: rev_image_eqI)
  then obtain a where a: "map_of (rev (map update_entry us)) acc = Some a" by blast
  then obtain u where "u \<in> set us" "update_entry u = (acc, a)" by (auto dest!: map_of_SomeD)
  moreover obtain c bp' where "u = CreateAccount c bp'" by (cases u)
  ultimately have "a = new_gw_account acc bp'" "CreateAccount acc bp' \<in> set us" by auto
  with recover_lookup [OF assms(1-5), of now config] a show ?thesis by fastforce
qed

end
