(* ===== verification/ReconcileProps.thy ===== *)
theory ReconcileProps
  imports GatewayLedger EngineRouter ProtocolWire
begin

text \<open>
  Reconciliation at the start of the gateway (\<open>reconciliation.rs\<close>): the sums per account, the queries
  to all engines, and the amounts the accounts hold back afterwards.
\<close>

section \<open>The sums\<close>

definition reported :: "order_snapshot list \<Rightarrow> account_id \<Rightarrow> int" where
  "reported orders acc = (\<Sum>x \<leftarrow> filter (\<lambda>x. os_account_id x = acc) orders. os_reserved_amount x)"

lemma reservations_lookup:
  "map_of (reservations_by_account orders) acc =
   (if acc \<in> os_account_id ` set orders then Some (wrap64 (reported orders acc)) else None)"
proof (induction orders arbitrary: acc rule: rev_induct)
  case (snoc x xs)
  have "get_or 0 (reservations_by_account xs) (os_account_id x) = wrap64 (reported xs (os_account_id x))"
  proof (cases "os_account_id x \<in> os_account_id ` set xs")
    case False
    then have "filter (\<lambda>y. os_account_id y = os_account_id x) xs = []" by (auto simp: filter_empty_conv image_iff)
    with False snoc show ?thesis by (simp add: get_or_def reported_def)
  qed (use snoc in \<open>simp add: get_or_def\<close>)
  with snoc show ?case
    by (auto simp: reservations_by_account_def reported_def add64_def wrap64_wrap64_add update_conv)
qed (simp add: reservations_by_account_def)

lemma reservations_keys: "keys_distinct (reservations_by_account orders)"
  by (induction orders rule: rev_induct) (simp_all add: reservations_by_account_def distinct_update)

lemma held_set_tentative:
  "held (set_tentative_reserved k v m) acc = (if acc = k then map_option (\<lambda>_. v) (held m acc) else held m acc)"
  by (auto simp: set_tentative_reserved_def amend_def held_def put_account_def split: option.split)

lemma held_set_reservations:
  assumes "keys_distinct sums"
  shows "held (set_reservations sums m) acc =
    (case map_of sums acc of None \<Rightarrow> held m acc | Some v \<Rightarrow> map_option (\<lambda>_. v) (held m acc))"
  using assms
proof (induction sums arbitrary: m)
  case (Cons s sums)
  obtain k v where s: "s = (k, v)" by (cases s)
  from Cons have "held (set_reservations (s # sums) m) acc =
      (case map_of sums acc of None \<Rightarrow> held (set_tentative_reserved k v m) acc
       | Some u \<Rightarrow> map_option (\<lambda>_. u) (held (set_tentative_reserved k v m) acc))"
    by (simp add: set_reservations_def s)
  moreover have "map_of sums k = None" using Cons.prems by (auto simp: s map_of_eq_None_iff)
  ultimately show ?case by (auto simp: s held_set_tentative option.map_comp comp_def split: option.split)
qed (simp add: set_reservations_def)

section \<open>The queries\<close>

lemma query_routed:
  assumes "sd_to P msg = Some b" and "map_of (er_senders r) symb = Some sk" and "er_faults r = []"
  shows "\<exists>r'. route_to_engine P msg symb r = (Inr (), r') \<and> er_faults r' = [] \<and>
    dom (map_of (er_senders r')) = dom (map_of (er_senders r))"
  using assms by (auto simp: route_to_engine_def net_call_def put_sink_def Let_def)

lemma send_queries_ok:
  assumes "sd_to P QueryAllOrders = Some b" and "er_faults r = []"
    and "set symbs \<subseteq> dom (map_of (er_senders r))"
  shows "\<exists>r'. send_queries P symbs r = (Inr (), r')"
  using assms
proof (induction symbs arbitrary: r)
  case (Cons symb symbs)
  then obtain sk where "map_of (er_senders r) symb = Some sk" by auto
  from query_routed [OF Cons.prems(1) this Cons.prems(2)] obtain r1 where
    "route_to_engine P QueryAllOrders symb r = (Inr (), r1)" "er_faults r1 = []"
    "dom (map_of (er_senders r1)) = dom (map_of (er_senders r))" by blast
  with Cons.IH [of r1] Cons.prems show ?case by simp
qed simp

text \<open>The collecting loop takes what the engines report in the order in which it arrives, events of
  other kinds between two answers use up waits.\<close>

lemma collect_answers: "collect_orders (length oss) (map (Arrived \<circ> AllOrders) oss) = Inr (concat oss)"
  by (induction oss) simp_all

lemma collect_loses_answer:
  "collect_orders 1 [Arrived (ClientEvent c ev tok), Arrived (AllOrders orders)] = Inr []"
  by (simp add: One_nat_def)

section \<open>The property\<close>

text \<open>C29: when every engine answers its query, each account whose orders are reported holds back
  exactly the sum of their reserved amounts (in the arithmetic of \<open>i64\<close>), every other account what it
  held before.\<close>

theorem reconciliation_exact:
  assumes "sd_to P QueryAllOrders = Some b" and "er_faults r = []"
    and "length oss = length (er_senders r)"
  shows "\<exists>m' r'. rebuild_reservations P (map (Arrived \<circ> AllOrders) oss) m r = (Inr (), m', r') \<and>
    (\<forall>acc. held m' acc =
      (if acc \<in> os_account_id ` set (concat oss)
       then map_option (\<lambda>_. wrap64 (reported (concat oss) acc)) (held m acc)
       else held m acc))"
proof -
  obtain r' where "send_queries P (map fst (er_senders r)) r = (Inr (), r')"
    using send_queries_ok [OF assms(1,2), of "map fst (er_senders r)"] by (auto simp: dom_map_of_conv_image_fst)
  then have q: "query_all_engines_for_orders P (map (Arrived \<circ> AllOrders) oss) r = (Inr (concat oss), r')"
    using collect_answers [of oss] assms(3) by (simp add: query_all_engines_for_orders_def Let_def)
  show ?thesis
    by (simp only: rebuild_reservations_def q prod.case sum.case prod.inject simp_thms ex_simps
        held_set_reservations [OF reservations_keys] reservations_lookup)
      (auto split: option.split)
qed

definition ex_reported :: "account_id \<Rightarrow> i64 \<Rightarrow> order_snapshot" where
  "ex_reported acc amount = \<lparr>os_order_id = 1, os_account_id = acc, os_symbol_id = 1, os_side = Buy,
     os_price = amount, os_qty_rem = 1, os_reserved_amount = amount\<rparr>"

definition ex_two_engines :: engine_router where
  "ex_two_engines =
     \<lparr>er_senders = [(1, \<lparr>sk_fed = [], sk_sent = []\<rparr>), (2, \<lparr>sk_fed = [], sk_sent = []\<rparr>)], er_faults = []\<rparr>"

definition ex_two_accounts :: account_table where
  "ex_two_accounts =
     \<lparr>gm_accounts = [(1, new_gw_account 1 1000), (2, new_gw_account 2 1000)], gm_next_seq = 1,
      gm_journal = None\<rparr>"

theorem reconciliation_exact_witness:
  "\<exists>m' r'. rebuild_reservations to_engine_serde
       (map (Arrived \<circ> AllOrders) [[ex_reported 1 30, ex_reported 7 5], [ex_reported 1 12]])
       ex_two_accounts ex_two_engines = (Inr (), m', r') \<and>
     held m' 1 = Some 42 \<and> held m' 2 = Some 0 \<and> held m' 7 = None"
proof -
  have b: "sd_to to_engine_serde QueryAllOrders = Some (w_enc w_to_engine QueryAllOrders)"
    by (rule to_engine_bytes)
  have "er_faults ex_two_engines = []"
    "length [[ex_reported 1 30, ex_reported 7 5], [ex_reported 1 12]] = length (er_senders ex_two_engines)"
    by (simp_all add: ex_two_engines_def)
  from reconciliation_exact [OF b this, of ex_two_accounts] obtain m' r' where
    "rebuild_reservations to_engine_serde
       (map (Arrived \<circ> AllOrders) [[ex_reported 1 30, ex_reported 7 5], [ex_reported 1 12]])
       ex_two_accounts ex_two_engines = (Inr (), m', r')"
    and h: "\<forall>acc. held m' acc =
      (if acc \<in> os_account_id ` set (concat [[ex_reported 1 30, ex_reported 7 5], [ex_reported 1 12]])
       then map_option (\<lambda>_. wrap64 (reported (concat [[ex_reported 1 30, ex_reported 7 5], [ex_reported 1 12]]) acc))
         (held ex_two_accounts acc)
       else held ex_two_accounts acc)" by blast
  moreover have "i64_ok 42" by (simp add: i64_ok_def i64_min_def i64_max_def)
  ultimately show ?thesis
    by (intro exI [of _ m'] exI [of _ r'])
      (simp add: h ex_reported_def reported_def held_def ex_two_accounts_def new_gw_account_def wrap64_id)
qed

end
