(* ===== verification/EngineServer.thy ===== *)
theory EngineServer
  imports Engine EngineRouter
begin

text \<open>
  \<open>crates/engine_server\<close>: the process around an engine. Its read loop takes the gateway's frames
  into the engine's bounded queue, the engine thread handles one queued command at a time, its write
  loop sends the engine's events and the answers to queries back. The metrics are shared with the
  engine and live in its record. Here the connection to the gateway does not break (\<open>EngineLink\<close> has the
  faults and the interleaving); its frames are the arguments of \<open>server_receive\<close> and the entries of \<open>sv_frames\<close>.
\<close>

section \<open>State and start\<close>

record 's engine_server =
  sv_engine :: "'s engine"
  sv_queue :: "inbound list"
  sv_cap :: nat
  sv_outbound :: "outbound list"
  sv_responses :: "engine_to_gateway list"
  sv_frames :: "u8 list list"

text \<open>\<open>main\<close>: a restore that fails is only logged, the engine runs with what it has restored so far.
  \<open>None\<close> is a panic: the journal cannot be opened, or the replay divides by zero.\<close>

definition server_start ::
  "('s, order) slab_ops \<Rightarrow> codecs \<Rightarrow> nat \<Rightarrow> metrics \<Rightarrow> engine_config \<Rightarrow> disk \<Rightarrow> disk \<Rightarrow> nat \<Rightarrow>
   's engine_server option"
where
  "server_start S C now m config d snaps cap =
     (case new_engine S now m config d snaps of
        None \<Rightarrow> None
      | Some e \<Rightarrow>
          (case restore_from_persistence S C e of
             None \<Rightarrow> None
           | Some (_, e1) \<Rightarrow>
               Some \<lparr>sv_engine = e1, sv_queue = [], sv_cap = cap, sv_outbound = [], sv_responses = [],
                     sv_frames = []\<rparr>))"

text \<open>The arguments of the process (\<open>config.rs\<close>), less the addresses and the frame limit: the paths
  default to names that carry the symbol.\<close>

record server_args =
  sa_symbol_id :: symbol_id
  sa_symbol_name :: string
  sa_journal_path :: "string option"
  sa_snapshot_dir :: "string option"
  sa_journal_batch_size :: nat
  sa_snapshot_interval :: u64
  sa_ingress_cap :: nat

definition get_journal_path :: "server_args \<Rightarrow> string" where
  "get_journal_path a =
     (case sa_journal_path a of
        Some path \<Rightarrow> path
      | None \<Rightarrow> ''journal/engine_'' @ show_nat (unat (sa_symbol_id a)) @ ''_journal.bin'')"

definition get_snapshot_dir :: "server_args \<Rightarrow> string" where
  "get_snapshot_dir a =
     (case sa_snapshot_dir a of
        Some dir \<Rightarrow> dir
      | None \<Rightarrow> ''journal/engine_'' @ show_nat (unat (sa_symbol_id a)) @ ''_snapshots'')"

definition engine_config_of :: "server_args \<Rightarrow> engine_config" where
  "engine_config_of a =
     \<lparr>ec_journal_path = get_journal_path a, ec_snapshot_dir = get_snapshot_dir a,
      ec_journal_config = default_journal_config\<lparr>jc_batch_size := sa_journal_batch_size a\<rparr>,
      ec_snapshot_interval = sa_snapshot_interval a\<rparr>"

definition server_main ::
  "('s, order) slab_ops \<Rightarrow> codecs \<Rightarrow> nat \<Rightarrow> server_args \<Rightarrow> disk \<Rightarrow> disk \<Rightarrow> 's engine_server option"
where
  "server_main S C now a d snaps =
     server_start S C now default_metrics (engine_config_of a) d snaps (sa_ingress_cap a)"

definition on_metrics :: "(metrics \<Rightarrow> metrics) \<Rightarrow> 's engine_server \<Rightarrow> 's engine_server" where
  "on_metrics f s = s\<lparr>sv_engine := (sv_engine s)\<lparr>en_metrics := f (en_metrics (sv_engine s))\<rparr>\<rparr>"

section \<open>The read loop\<close>

text \<open>A command that finds the queue full is dropped with a warning; a ping is not answered; a query
  is answered by the engine thread between two commands.\<close>

definition server_receive ::
  "('s, order) slab_ops \<Rightarrow> gateway_to_engine serde \<Rightarrow> u8 list \<Rightarrow> 's engine_server \<Rightarrow> 's engine_server"
where
  "server_receive S P bytes s =
     (let s1 = on_metrics inc_frames_in s
      in case sd_from P bytes of
           None \<Rightarrow> s1
         | Some msg \<Rightarrow>
             (case msg of
                Execute ex \<Rightarrow>
                  if length (sv_queue s1) < sv_cap s1
                  then on_metrics queue_inc
                         (s1\<lparr>sv_queue := sv_queue s1 @
                              [\<lparr>in_conn_id = ex_conn_id ex, in_cmd = ex_command ex\<rparr>]\<rparr>)
                  else s1
              | Ping \<Rightarrow> s1
              | QueryAllOrders \<Rightarrow>
                  s1\<lparr>sv_responses := sv_responses s1 @ [AllOrders (query_all_orders S (sv_engine s1))]\<rparr>))"

section \<open>The engine thread\<close>

text \<open>One turn of the run loop on the queue; \<open>None\<close> is a panic.\<close>

definition server_engine ::
  "('s, order) slab_ops \<Rightarrow> codecs \<Rightarrow> nat \<Rightarrow> nat \<Rightarrow> 's engine_server \<Rightarrow> 's engine_server option"
where
  "server_engine S C now ts s =
     (case sv_queue s of
        [] \<Rightarrow> Some s
      | inb # queue \<Rightarrow>
          map_option (\<lambda>(outs, _, e).
              s\<lparr>sv_engine := e, sv_queue := queue, sv_outbound := sv_outbound s @ outs\<rparr>)
            (run_step S C now ts None inb (sv_engine s)))"

section \<open>The write loop\<close>

definition send_frame :: "engine_to_gateway serde \<Rightarrow> engine_to_gateway \<Rightarrow> 's engine_server \<Rightarrow> 's engine_server" where
  "send_frame Q msg s =
     (case sd_to Q msg of
        None \<Rightarrow> s
      | Some bytes \<Rightarrow> on_metrics inc_frames_out (s\<lparr>sv_frames := sv_frames s @ [bytes]\<rparr>))"

text \<open>A tick sends all events that are waiting, without a risk token.\<close>

definition server_tick :: "engine_to_gateway serde \<Rightarrow> 's engine_server \<Rightarrow> 's engine_server" where
  "server_tick Q s =
     foldl (\<lambda>s out. send_frame Q (client_event (out_conn_id out) (out_ev out) None) s)
       (s\<lparr>sv_outbound := []\<rparr>) (sv_outbound s)"

definition server_respond :: "engine_to_gateway serde \<Rightarrow> 's engine_server \<Rightarrow> 's engine_server" where
  "server_respond Q s =
     (case sv_responses s of
        [] \<Rightarrow> s
      | resp # rest \<Rightarrow> send_frame Q resp (s\<lparr>sv_responses := rest\<rparr>))"

section \<open>Facts\<close>

text \<open>Two engines that leave the paths to their defaults share a journal or a snapshot directory only
  when they serve the same symbol.\<close>

lemma default_paths_distinct:
  assumes "sa_journal_path a = None" and "sa_journal_path b = None"
    and "sa_snapshot_dir a = None" and "sa_snapshot_dir b = None"
  shows "get_journal_path a = get_journal_path b \<longleftrightarrow> sa_symbol_id a = sa_symbol_id b"
    and "get_snapshot_dir a = get_snapshot_dir b \<longleftrightarrow> sa_symbol_id a = sa_symbol_id b"
  using assms by (simp_all add: get_journal_path_def get_snapshot_dir_def word_unat_eq_iff)

lemma on_metrics_simps [simp]:
  "sv_queue (on_metrics f s) = sv_queue s" "sv_cap (on_metrics f s) = sv_cap s"
  "sv_outbound (on_metrics f s) = sv_outbound s" "sv_responses (on_metrics f s) = sv_responses s"
  "sv_frames (on_metrics f s) = sv_frames s"
  "en_book (sv_engine (on_metrics f s)) = en_book (sv_engine s)"
  "en_accounts (sv_engine (on_metrics f s)) = en_accounts (sv_engine s)"
  "en_server_seq (sv_engine (on_metrics f s)) = en_server_seq (sv_engine s)"
  by (simp_all add: on_metrics_def)

text \<open>What the gateway's reader makes of the frames.\<close>

lemma engine_reader_append [simp]: "engine_reader Q (xs @ ys) = engine_reader Q xs @ engine_reader Q ys"
  by (simp add: engine_reader_def List.map_filter_def)

lemma engine_reader_sent:
  assumes "serde Q" and "sd_to Q msg = Some b"
  shows "engine_reader Q [b] = [msg]"
  using serde.from_to [OF assms] by (simp add: engine_reader_def List.map_filter_simps)

lemma send_frame_reader:
  assumes "serde Q" and "\<And>m. sd_to Q m \<noteq> None"
  shows "engine_reader Q (sv_frames (send_frame Q msg s)) = engine_reader Q (sv_frames s) @ [msg]"
  using assms(2) [of msg] engine_reader_sent [OF assms(1), of msg] by (auto simp: send_frame_def)

lemma send_frames_reader:
  assumes "serde Q" and "\<And>m. sd_to Q m \<noteq> None"
  shows "engine_reader Q (sv_frames (foldl
      (\<lambda>s out. send_frame Q (client_event (out_conn_id out) (out_ev out) None) s) s outs)) =
    engine_reader Q (sv_frames s) @ map (\<lambda>out. ClientEvent (out_conn_id out) (out_ev out) None) outs"
  by (induction outs arbitrary: s) (simp_all add: send_frame_reader [OF assms] client_event_def)

lemma server_tick_reader:
  assumes "serde Q" and "\<And>m. sd_to Q m \<noteq> None"
  shows "engine_reader Q (sv_frames (server_tick Q s)) = engine_reader Q (sv_frames s) @
    map (\<lambda>out. ClientEvent (out_conn_id out) (out_ev out) None) (sv_outbound s)"
  by (simp add: server_tick_def send_frames_reader [OF assms])

lemma receive_execute:
  assumes "sd_from P bytes = Some (Execute ex)" and "length (sv_queue s) < sv_cap s"
  shows "sv_queue (server_receive S P bytes s) =
      sv_queue s @ [\<lparr>in_conn_id = ex_conn_id ex, in_cmd = ex_command ex\<rparr>]"
    and "sv_outbound (server_receive S P bytes s) = sv_outbound s"
    and "sv_frames (server_receive S P bytes s) = sv_frames s"
    and "en_book (sv_engine (server_receive S P bytes s)) = en_book (sv_engine s)"
    and "en_accounts (sv_engine (server_receive S P bytes s)) = en_accounts (sv_engine s)"
    and "en_server_seq (sv_engine (server_receive S P bytes s)) = en_server_seq (sv_engine s)"
  using assms by (simp_all add: server_receive_def Let_def)

text \<open>A full queue drops the command: nothing is queued and nothing is sent back.\<close>

lemma receive_dropped:
  assumes "sd_from P bytes = Some (Execute ex)" and "\<not> length (sv_queue s) < sv_cap s"
  shows "server_receive S P bytes s = on_metrics inc_frames_in s"
  using assms by (simp add: server_receive_def Let_def)

end
