(* ===== verification/Client.thy ===== *)
theory Client
  imports Codec Decimal
begin

text \<open>
  \<open>crates/bench/src/main.rs\<close>, the connection helpers: framing, commands written as JSON or in the
  binary format, events read back, and the loops that read up to an acknowledgement.

  The other end of a socket is a parameter: a state and what it answers to written bytes. Answers
  wait in the inbox until they are read. A read that finds too few bytes waits for ever, which is
  the error \<open>Waits\<close>: nothing more comes before the client writes again, and the other end does
  not close. What such a read has taken is gone when a timeout drops it.
\<close>

section \<open>Sockets\<close>

datatype client_err =
    Bail string
  | IoFailed
  | BadJson
  | Panicked
  | Waits

record 's network =
  nw_connect :: "string \<Rightarrow> 's \<Rightarrow> 's option"
  nw_write :: "u8 list \<Rightarrow> 's \<Rightarrow> (u8 list \<times> 's) option"
  nw_close :: "'s \<Rightarrow> 's"

record 's socket =
  so_peer :: 's
  so_inbox :: "u8 list"

text \<open>The \<open>?\<close> of the source.\<close>

definition client_bind ::
  "(client_err + 'a) \<times> 'x \<Rightarrow> ('a \<Rightarrow> 'x \<Rightarrow> (client_err + 'b) \<times> 'x) \<Rightarrow> (client_err + 'b) \<times> 'x"
where
  "client_bind r f = (case r of (Inl e, s) \<Rightarrow> (Inl e, s) | (Inr a, s) \<Rightarrow> f a s)"

definition socket_write :: "'s network \<Rightarrow> u8 list \<Rightarrow> 's socket \<Rightarrow> (client_err + unit) \<times> 's socket" where
  "socket_write N bs s =
     (case nw_write N bs (so_peer s) of
        None \<Rightarrow> (Inl IoFailed, s)
      | Some (answer, p) \<Rightarrow> (Inr (), s\<lparr>so_peer := p, so_inbox := so_inbox s @ answer\<rparr>))"

definition read_exact :: "nat \<Rightarrow> 's socket \<Rightarrow> (client_err + u8 list) \<times> 's socket" where
  "read_exact n s =
     (if n \<le> length (so_inbox s)
      then (Inr (take n (so_inbox s)), s\<lparr>so_inbox := drop n (so_inbox s)\<rparr>)
      else (Inl Waits, s\<lparr>so_inbox := []\<rparr>))"

text \<open>A connection is closed when its scenario is over; one that waits for ever is not.\<close>

definition with_connection ::
  "'s network \<Rightarrow> string \<Rightarrow> ('s socket \<Rightarrow> (client_err + 'a) \<times> 's socket) \<Rightarrow> 's \<Rightarrow> (client_err + 'a) \<times> 's"
where
  "with_connection N addr body p =
     (case nw_connect N addr p of
        None \<Rightarrow> (Inl IoFailed, p)
      | Some p1 \<Rightarrow>
          (case body \<lparr>so_peer = p1, so_inbox = []\<rparr> of
             (Inl Waits, s) \<Rightarrow> (Inl Waits, so_peer s)
           | (r, s) \<Rightarrow> (r, nw_close N (so_peer s))))"

text \<open>\<open>timeout\<close>: a read that waits is given up.\<close>

definition with_timeout :: "(client_err + 'a) \<times> 'x \<Rightarrow> (client_err + 'a) option \<times> 'x" where
  "with_timeout r = (case r of (Inl Waits, s) \<Rightarrow> (None, s) | (x, s) \<Rightarrow> (Some x, s))"

section \<open>Frames\<close>

definition frame_payload :: "u8 list \<Rightarrow> u8 list" where
  "frame_payload payload = to_le (of_nat (length payload) :: u32) @ payload"

definition read_one_frame :: "'s socket \<Rightarrow> (client_err + u8 list) \<times> 's socket" where
  "read_one_frame s = client_bind (read_exact 4 s) (\<lambda>hdr s1. read_exact (unat (from_le hdr :: u32)) s1)"

section \<open>Commands\<close>

record json_crate =
  js_to_vec :: "command \<Rightarrow> u8 list option"
  js_from_slice :: "u8 list \<Rightarrow> event option"

definition write_json_cmd ::
  "'s network \<Rightarrow> json_crate \<Rightarrow> command \<Rightarrow> 's socket \<Rightarrow> (client_err + unit) \<times> 's socket"
where
  "write_json_cmd N J cmd s =
     (case js_to_vec J cmd of
        None \<Rightarrow> (Inl BadJson, s)
      | Some payload \<Rightarrow> socket_write N (frame_payload payload) s)"

definition new_order_payload :: "bytes_crate \<Rightarrow> new_order \<Rightarrow> u8 list" where
  "new_order_payload B n =
     puts [put_u16_le B 1, put_u64_le B (no_client_seq n), put_u64_le B (no_order_id n),
           put_u32_le B (no_account_id n), put_u32_le B (no_symbol_id n),
           put_u8 B (case no_side n of Buy \<Rightarrow> 0 | Sell \<Rightarrow> 1),
           put_i64_le B (no_price n), put_i64_le B (no_qty n),
           put_u8 B (case no_tif n of Gtc \<Rightarrow> 0 | Ioc \<Rightarrow> 1),
           put_u8 B (if post_only (no_flags n) then 1 else 0)] []"

definition write_binary_cmd ::
  "'s network \<Rightarrow> bytes_crate \<Rightarrow> command \<Rightarrow> 's socket \<Rightarrow> (client_err + unit) \<times> 's socket"
where
  "write_binary_cmd N B cmd s =
     (case cmd of
        NewOrder n \<Rightarrow> socket_write N (frame_payload (new_order_payload B n)) s
      | _ \<Rightarrow> (Inl (Bail ''write_binary_cmd: unsupported command type''), s))"

section \<open>Events\<close>

definition parse_json_event :: "json_crate \<Rightarrow> u8 list \<Rightarrow> client_err + event" where
  "parse_json_event J bs = (case js_from_slice J bs of None \<Rightarrow> Inl BadJson | Some ev \<Rightarrow> Inr ev)"

text \<open>Slices at fixed places; one that is out of range is a panic. A book top is not read: all its
  fields are made up.\<close>

definition slice :: "nat \<Rightarrow> nat \<Rightarrow> u8 list \<Rightarrow> u8 list" where
  "slice i j b = take (j - i) (drop i b)"

definition i64_from_le :: "u8 list \<Rightarrow> i64" where
  "i64_from_le bs = sint (from_le bs :: u64)"

definition parse_binary_event :: "u8 list \<Rightarrow> client_err + event" where
  "parse_binary_event fr =
     (if length fr < 2 then Inl (Bail ''frame too short'')
      else
        let mt = (from_le (take 2 fr) :: u16); b = drop 2 fr
        in if mt = 101 then
             (if length b < 24 then Inl Panicked
              else Inr (EvAck \<lparr>ak_server_seq = from_le (slice 0 8 b), ak_client_seq = from_le (slice 8 16 b),
                               ak_order_id = from_le (slice 16 24 b)\<rparr>))
           else if mt = 103 then
             (if length b < 52 then Inl Panicked
              else Inr (EvFill \<lparr>fi_server_seq = from_le (slice 0 8 b), fi_client_seq = from_le (slice 8 16 b),
                                fi_symbol_id = from_le (slice 16 20 b),
                                fi_taker_order_id = from_le (slice 20 28 b),
                                fi_maker_order_id = from_le (slice 28 36 b),
                                fi_price = i64_from_le (slice 36 44 b), fi_qty = i64_from_le (slice 44 52 b)\<rparr>))
           else if mt = 104 then
             Inr (EvBookTop \<lparr>bt_server_seq = 0, bt_symbol_id = 0, bt_best_bid_px = None,
                             bt_best_bid_qty = None, bt_best_ask_px = None, bt_best_ask_qty = None\<rparr>)
           else Inl (Bail (''unknown event type: '' @ show_nat (unat mt))))"

definition read_event ::
  "(u8 list \<Rightarrow> client_err + event) \<Rightarrow> 's socket \<Rightarrow> (client_err + event) \<times> 's socket"
where
  "read_event parse s = client_bind (read_one_frame s) (\<lambda>bs s1. (parse bs, s1))"

definition read_json_event :: "json_crate \<Rightarrow> 's socket \<Rightarrow> (client_err + event) \<times> 's socket" where
  "read_json_event J = read_event (parse_json_event J)"

definition read_binary_event :: "'s socket \<Rightarrow> (client_err + event) \<times> 's socket" where
  "read_binary_event = read_event parse_binary_event"

text \<open>Every event read takes a header off the inbox, and nothing is written in between: reading up to an
  acknowledgement ends.\<close>

lemma read_exact_shrinks:
  "read_exact n s = (r, s1) \<Longrightarrow> length (so_inbox s1) \<le> length (so_inbox s)"
  "read_exact n s = (Inr bs, s1) \<Longrightarrow> length (so_inbox s1) + n = length (so_inbox s) \<and> so_peer s1 = so_peer s"
  by (auto simp: read_exact_def split: if_splits)

lemma read_event_shrinks:
  assumes "read_event parse s = (Inr ev, s1)"
  shows "length (so_inbox s1) < length (so_inbox s)"
proof -
  obtain hdr s0 bs where r: "read_exact 4 s = (Inr hdr, s0)" "read_exact (unat (from_le hdr :: u32)) s0 = (Inr bs, s1)"
    using assms by (auto simp: read_event_def read_one_frame_def client_bind_def split: prod.splits sum.splits)
  show ?thesis using read_exact_shrinks(2) [OF r(1)] read_exact_shrinks(2) [OF r(2)] by simp
qed

definition acks :: "u64 \<Rightarrow> event \<Rightarrow> bool" where
  "acks client_seq ev = (case ev of EvAck a \<Rightarrow> ak_client_seq a = client_seq | _ \<Rightarrow> False)"

function read_until_ack ::
  "(u8 list \<Rightarrow> client_err + event) \<Rightarrow> u64 \<Rightarrow> 's socket \<Rightarrow> (client_err + event list) \<times> 's socket"
where
  "read_until_ack parse client_seq s =
     (case read_event parse s of
        (Inl e, s1) \<Rightarrow> (Inl e, s1)
      | (Inr ev, s1) \<Rightarrow>
          if acks client_seq ev then (Inr [ev], s1)
          else (case read_until_ack parse client_seq s1 of
                  (Inl e, s2) \<Rightarrow> (Inl e, s2)
                | (Inr evs, s2) \<Rightarrow> (Inr (ev # evs), s2)))"
  by pat_completeness auto

termination
  by (relation "measure (\<lambda>(_, _, s). length (so_inbox s))") (auto dest: read_event_shrinks [OF sym])

declare read_until_ack.simps [simp del]

definition read_until_ack_json ::
  "json_crate \<Rightarrow> u64 \<Rightarrow> 's socket \<Rightarrow> (client_err + event list) \<times> 's socket"
where
  "read_until_ack_json J = read_until_ack (parse_json_event J)"

definition read_until_ack_binary :: "u64 \<Rightarrow> 's socket \<Rightarrow> (client_err + event list) \<times> 's socket" where
  "read_until_ack_binary = read_until_ack parse_binary_event"

fun read_n_events_json ::
  "json_crate \<Rightarrow> nat \<Rightarrow> 's socket \<Rightarrow> (client_err + event list) \<times> 's socket"
where
  "read_n_events_json J 0 s = (Inr [], s)"
| "read_n_events_json J (Suc n) s =
     client_bind (read_json_event J s) (\<lambda>ev s1.
     client_bind (read_n_events_json J n s1) (\<lambda>evs s2. (Inr (ev # evs), s2)))"

definition authenticate_json ::
  "'s network \<Rightarrow> json_crate \<Rightarrow> string \<Rightarrow> 's socket \<Rightarrow> (client_err + unit) \<times> 's socket"
where
  "authenticate_json N J api_key s =
     client_bind (write_json_cmd N J (Authenticate \<lparr>au_api_key = api_key\<rparr>) s) (\<lambda>_ s1.
     client_bind (read_json_event J s1) (\<lambda>ev s2.
       ((case ev of
           EvAuthSuccess _ \<Rightarrow> Inr ()
         | EvAuthFailure f \<Rightarrow> Inl (Bail (''Authentication failed: '' @ fa_reason f))
         | _ \<Rightarrow> Inl (Bail ''Unexpected event after authentication'')), s2)))"

end
