(* ===== verification/Scenarios.thy ===== *)
theory Scenarios
  imports Client
begin

text \<open>
  \<open>crates/bench/src/main.rs\<close>: the smoke scenarios and the benchmarks, run by mode. What they print and
  the times they measure are left out, in error messages too; a scenario succeeds or gives the error it
  ends with, a benchmark gives what its loop counts.
\<close>

section \<open>Helpers\<close>

text \<open>The orders of the scenarios are for symbol 1.\<close>

definition client_order ::
  "u64 \<Rightarrow> order_id \<Rightarrow> account_id \<Rightarrow> side \<Rightarrow> price \<Rightarrow> qty \<Rightarrow> time_in_force \<Rightarrow> bool \<Rightarrow> command"
where
  "client_order cs oid acc s px q tif po =
     NewOrder \<lparr>no_client_seq = cs, no_order_id = oid, no_account_id = acc, no_symbol_id = 1, no_side = s,
               no_price = px, no_qty = q, no_tif = tif, no_flags = \<lparr>post_only = po\<rparr>\<rparr>"

text \<open>A command and the events up to its acknowledgement.\<close>

definition send_json ::
  "'s network \<Rightarrow> json_crate \<Rightarrow> command \<Rightarrow> u64 \<Rightarrow> 's socket \<Rightarrow> (client_err + event list) \<times> 's socket"
where
  "send_json N J cmd cs s =
     client_bind (write_json_cmd N J cmd s) (\<lambda>_. read_until_ack_json J cs)"

definition send_binary ::
  "'s network \<Rightarrow> bytes_crate \<Rightarrow> command \<Rightarrow> u64 \<Rightarrow> 's socket \<Rightarrow> (client_err + event list) \<times> 's socket"
where
  "send_binary N B cmd cs s =
     client_bind (write_binary_cmd N B cmd s) (\<lambda>_. read_until_ack_binary cs)"

definition last_top :: "event list \<Rightarrow> book_top option" where
  "last_top evs =
     (case rev (List.map_filter (\<lambda>ev. case ev of EvBookTop t \<Rightarrow> Some t | _ \<Rightarrow> None) evs) of
        [] \<Rightarrow> None
      | t # _ \<Rightarrow> Some t)"

definition saw_ack :: "(ack \<Rightarrow> bool) \<Rightarrow> event list \<Rightarrow> bool" where
  "saw_ack p = list_ex (\<lambda>ev. case ev of EvAck a \<Rightarrow> p a | _ \<Rightarrow> False)"

definition saw_fill :: "(fill \<Rightarrow> bool) \<Rightarrow> event list \<Rightarrow> bool" where
  "saw_fill p = list_ex (\<lambda>ev. case ev of EvFill f \<Rightarrow> p f | _ \<Rightarrow> False)"

definition saw_reject :: "reject_reason \<Rightarrow> u64 \<Rightarrow> event list \<Rightarrow> bool" where
  "saw_reject reason cs =
     list_ex (\<lambda>ev. case ev of EvReject r \<Rightarrow> rj_reason r = reason \<and> rj_client_seq r = cs | _ \<Rightarrow> False)"

definition check_that :: "bool \<Rightarrow> string \<Rightarrow> client_err + unit" where
  "check_that ok msg = (if ok then Inr () else Inl (Bail msg))"

section \<open>Smoke scenarios\<close>

definition smoke_json :: "'s network \<Rightarrow> json_crate \<Rightarrow> string \<Rightarrow> 's \<Rightarrow> (client_err + unit) \<times> 's" where
  "smoke_json N J addr = with_connection N addr (\<lambda>s.
     client_bind (authenticate_json N J ''test-key-7'' s) (\<lambda>_ s.
     client_bind (send_json N J (client_order 1 1 7 Buy 100 10 Gtc False) 1 s) (\<lambda>_ s. (Inr (), s))))"

definition smoke_bin :: "'s network \<Rightarrow> bytes_crate \<Rightarrow> string \<Rightarrow> 's \<Rightarrow> (client_err + unit) \<times> 's" where
  "smoke_bin N B addr = with_connection N addr (\<lambda>s.
     let p = puts [put_u16_le B 1, put_u64_le B 1, put_u64_le B 1, put_u32_le B 7, put_u32_le B 1,
                   put_u8 B 0, put_i64_le B 100, put_i64_le B 10, put_u8 B 0, put_u8 B 0] []
     in client_bind (socket_write N (frame_payload p) s) (\<lambda>_ s.
        client_bind (read_one_frame s) (\<lambda>_ s. (Inr (), s))))"

definition smoke_match_json :: "'s network \<Rightarrow> json_crate \<Rightarrow> string \<Rightarrow> 's \<Rightarrow> (client_err + unit) \<times> 's" where
  "smoke_match_json N J addr = with_connection N addr (\<lambda>s.
     client_bind (authenticate_json N J ''test-key-7'' s) (\<lambda>_ s.
     client_bind (send_json N J (client_order 1 101 7 Sell 100 5 Gtc False) 1 s) (\<lambda>evs1 s.
     client_bind (send_json N J (client_order 2 202 7 Buy 110 3 Gtc False) 2 s) (\<lambda>evs2 s.
       let evs = evs1 @ evs2;
           filled = saw_fill (\<lambda>f. fi_price f = 100 \<and> fi_qty f = 3 \<and> fi_maker_order_id f = 101 \<and>
             fi_taker_order_id f = 202) evs
       in ((case last_top evs of
              None \<Rightarrow> Inl (Bail ''expected at least one BookTop'')
            | Some t \<Rightarrow>
                check_that (filled \<and> bt_best_ask_px t = Some 100 \<and> bt_best_ask_qty t = Some 2)
                  ''smoke-match failed''), s)))))"

definition smoke_postonly_json :: "'s network \<Rightarrow> json_crate \<Rightarrow> string \<Rightarrow> 's \<Rightarrow> (client_err + unit) \<times> 's" where
  "smoke_postonly_json N J addr = with_connection N addr (\<lambda>s.
     client_bind (authenticate_json N J ''test-key-7'' s) (\<lambda>_ s.
     client_bind (send_json N J (client_order 1 301 7 Sell 100 5 Gtc False) 1 s) (\<lambda>evs1 s.
     client_bind (write_json_cmd N J (client_order 2 302 7 Buy 110 1 Gtc True) s) (\<lambda>_ s.
     client_bind (read_n_events_json J 2 s) (\<lambda>evs2 s.
       (check_that (saw_reject PostOnlyWouldCross 2 (evs1 @ evs2)) ''smoke-postonly failed'', s))))))"

definition filled_qty :: "order_id \<Rightarrow> event list \<Rightarrow> i64" where
  "filled_qty taker evs =
     foldl add64 0 (List.map_filter (\<lambda>ev. case ev of
        EvFill f \<Rightarrow> if fi_taker_order_id f = taker then Some (fi_qty f) else None
      | _ \<Rightarrow> None) evs)"

definition smoke_ioc_json :: "'s network \<Rightarrow> json_crate \<Rightarrow> string \<Rightarrow> 's \<Rightarrow> (client_err + unit) \<times> 's" where
  "smoke_ioc_json N J addr = with_connection N addr (\<lambda>s.
     client_bind (authenticate_json N J ''test-key-7'' s) (\<lambda>_ s.
     client_bind (send_json N J (client_order 1 401 7 Sell 100 5 Gtc False) 1 s) (\<lambda>evs1 s.
     client_bind (send_json N J (client_order 2 402 7 Buy 110 10 Ioc False) 2 s) (\<lambda>evs2 s.
       let evs = evs1 @ evs2
       in ((case last_top evs of
              None \<Rightarrow> Inl (Bail ''expected BookTop'')
            | Some t \<Rightarrow>
                check_that (filled_qty 402 evs = 5 \<and> bt_best_ask_px t = None \<and> bt_best_bid_px t = None)
                  ''smoke-ioc failed''), s)))))"

definition smoke_cancel_json :: "'s network \<Rightarrow> json_crate \<Rightarrow> string \<Rightarrow> 's \<Rightarrow> (client_err + unit) \<times> 's" where
  "smoke_cancel_json N J addr = with_connection N addr (\<lambda>s.
     client_bind (authenticate_json N J ''test-key-5'' s) (\<lambda>_ s.
     client_bind (send_json N J (client_order 1 5001 5 Buy 50000 1 Gtc True) 1 s) (\<lambda>evs1 s.
     client_bind (send_json N J (Cancel \<lparr>ca_client_seq = 2, ca_order_id = 5001, ca_account_id = 5,
       ca_symbol_id = 1\<rparr>) 2 s) (\<lambda>evs2 s.
     client_bind (send_json N J (client_order 3 5002 5 Buy 50000 1 Gtc True) 3 s) (\<lambda>evs3 s.
       let evs = evs1 @ evs2 @ evs3
       in (check_that (saw_ack (\<lambda>a. ak_order_id a = 5001) evs \<and>
             saw_ack (\<lambda>a. ak_order_id a = 5001 \<and> ak_client_seq a = 2) evs \<and>
             saw_ack (\<lambda>a. ak_order_id a = 5002) evs) ''smoke-cancel failed'', s))))))"

definition smoke_replace_json :: "'s network \<Rightarrow> json_crate \<Rightarrow> string \<Rightarrow> 's \<Rightarrow> (client_err + unit) \<times> 's" where
  "smoke_replace_json N J addr = with_connection N addr (\<lambda>s.
     client_bind (authenticate_json N J ''test-key-6'' s) (\<lambda>_ s.
     client_bind (send_json N J (client_order 1 6001 6 Buy 40000 1 Gtc True) 1 s) (\<lambda>evs1 s.
     client_bind (send_json N J (Replace \<lparr>re_client_seq = 2, re_order_id = 6001, re_account_id = 6,
       re_symbol_id = 1, re_new_price = 60000, re_new_qty = 1\<rparr>) 2 s) (\<lambda>evs2 s.
     client_bind (send_json N J (Replace \<lparr>re_client_seq = 3, re_order_id = 6001, re_account_id = 6,
       re_symbol_id = 1, re_new_price = 30000, re_new_qty = 1\<rparr>) 3 s) (\<lambda>evs3 s.
       let evs = evs1 @ evs2 @ evs3
       in (check_that (saw_ack (\<lambda>a. ak_order_id a = 6001 \<and> ak_client_seq a = 1) evs \<and>
             saw_ack (\<lambda>a. ak_order_id a = 6001 \<and> ak_client_seq a = 2) evs \<and>
             saw_ack (\<lambda>a. ak_order_id a = 6001 \<and> ak_client_seq a = 3) evs) ''smoke-replace failed'', s))))))"

definition smoke_risk_json :: "'s network \<Rightarrow> json_crate \<Rightarrow> string \<Rightarrow> 's \<Rightarrow> (client_err + unit) \<times> 's" where
  "smoke_risk_json N J addr = with_connection N addr (\<lambda>s.
     client_bind (authenticate_json N J ''test-key-8'' s) (\<lambda>_ s.
     client_bind (write_json_cmd N J (client_order 1 8001 8 Buy 2000000 1 Gtc False) s) (\<lambda>_ s.
     client_bind (read_n_events_json J 1 s) (\<lambda>evs s.
       (check_that (saw_reject Risk 1 evs) ''smoke-risk failed'', s)))))"

definition smoke_replay_json :: "'s network \<Rightarrow> json_crate \<Rightarrow> string \<Rightarrow> 's \<Rightarrow> (client_err + unit) \<times> 's" where
  "smoke_replay_json N J addr = with_connection N addr (\<lambda>s.
     client_bind (send_json N J (client_order 1 9001 42 Buy 110 1 Gtc False) 1 s) (\<lambda>evs s.
       (check_that (saw_fill (\<lambda>f. fi_taker_order_id f = 9001 \<and> 1 \<le> fi_qty f) evs)
          ''smoke-replay failed: no fill observed (book likely not replayed)'', s)))"

section \<open>Benchmarks\<close>

text \<open>A \<open>for\<close> loop that can fail, with what its rounds give.\<close>

fun client_for ::
  "(nat \<Rightarrow> 's socket \<Rightarrow> (client_err + 'a) \<times> 's socket) \<Rightarrow> nat list \<Rightarrow> 's socket \<Rightarrow>
   (client_err + 'a list) \<times> 's socket"
where
  "client_for f [] s = (Inr [], s)"
| "client_for f (i # js) s =
     client_bind (f i s) (\<lambda>x s. client_bind (client_for f js s) (\<lambda>xs s. (Inr (x # xs), s)))"

text \<open>One order per round, answered by any one frame; the result has the answers whose times are
  recorded.\<close>

definition bench_bin ::
  "'s network \<Rightarrow> bytes_crate \<Rightarrow> string \<Rightarrow> u32 \<Rightarrow> 's \<Rightarrow> (client_err + u8 list list) \<times> 's"
where
  "bench_bin N B addr iters = with_connection N addr (client_for (\<lambda>i s.
     let p = puts [put_u16_le B 1, put_u64_le B (of_nat i + 1), put_u64_le B (of_nat i + 1000),
                   put_u32_le B 7, put_u32_le B 1, put_u8 B 0, put_i64_le B 100, put_i64_le B 10,
                   put_u8 B 0, put_u8 B 0] []
     in client_bind (socket_write N (frame_payload p) s) (\<lambda>_. read_one_frame)) [0..<unat iters])"

text \<open>A round of the latency benchmarks: a sell order that rests and a buy order that takes it. The
  sum of the loop index is a \<open>u32\<close>. The result says whether a fill was seen and the time recorded.\<close>

definition bench_round ::
  "(command \<Rightarrow> u64 \<Rightarrow> 's socket \<Rightarrow> (client_err + event list) \<times> 's socket) \<Rightarrow> nat \<Rightarrow> 's socket \<Rightarrow>
   (client_err + bool) \<times> 's socket"
where
  "bench_round send i s =
     (let client_seq = ucast (of_nat i + 100 :: u32);
          oid = ucast (of_nat i + 10000 :: u32)
      in client_bind (send (client_order client_seq oid 1 Sell 50000 1 Gtc False) client_seq s) (\<lambda>_ s.
         client_bind (send (client_order (client_seq + 1) (oid + 100000) 1 Buy 51000 1 Gtc False)
           (client_seq + 1) s) (\<lambda>evs s.
           (Inr (saw_fill (\<lambda>f. fi_taker_order_id f = oid + 100000) evs), s))))"

definition warmup_order :: "price \<Rightarrow> nat \<Rightarrow> command" where
  "warmup_order px i = client_order (of_nat i + 1) (of_nat i + 1000) 1 Buy (px + int i) 1 Gtc False"

text \<open>In the JSON version an answer to a warmup order may fail to come or be an error; only a failing
  write ends the benchmark.\<close>

definition bench_distributed ::
  "'s network \<Rightarrow> json_crate \<Rightarrow> string \<Rightarrow> u32 \<Rightarrow> 's \<Rightarrow> (client_err + bool list) \<times> 's"
where
  "bench_distributed N J addr iters = with_connection N addr (\<lambda>s.
     client_bind (client_for (\<lambda>i s.
         client_bind (write_json_cmd N J (warmup_order 1000 i) s) (\<lambda>_ s.
           case with_timeout (read_until_ack_json J (of_nat i + 1) s) of (_, s) \<Rightarrow> (Inr (), s))) [0..<10] s) (\<lambda>_ s.
     client_for (bench_round (send_json N J)) [0..<unat iters] s))"

definition bench_distributed_binary ::
  "'s network \<Rightarrow> bytes_crate \<Rightarrow> string \<Rightarrow> u32 \<Rightarrow> 's \<Rightarrow> (client_err + bool list) \<times> 's"
where
  "bench_distributed_binary N B addr iters = with_connection N addr (\<lambda>s.
     client_bind (client_for (\<lambda>i. send_binary N B (warmup_order 1000 i) (of_nat i + 1)) [0..<10] s) (\<lambda>_ s.
     client_for (bench_round (send_binary N B)) [0..<unat iters] s))"

text \<open>The throughput benchmarks only write.\<close>

definition throughput_order :: "nat \<Rightarrow> command" where
  "throughput_order i =
     client_order (ucast (of_nat i + 1000 :: u32)) (ucast (of_nat i + 100000 :: u32)) 1
       (if i mod 2 = 0 then Buy else Sell) (50000 + int (i mod 1000)) 1 Gtc False"

definition bench_gateway_throughput ::
  "'s network \<Rightarrow> json_crate \<Rightarrow> string \<Rightarrow> u32 \<Rightarrow> 's \<Rightarrow> (client_err + nat) \<times> 's"
where
  "bench_gateway_throughput N J addr iters = with_connection N addr (\<lambda>s.
     client_bind (client_for (\<lambda>i. write_json_cmd N J (warmup_order 40000 i)) [0..<100] s) (\<lambda>_ s.
     client_bind (client_for (\<lambda>i. write_json_cmd N J (throughput_order i)) [0..<unat iters] s) (\<lambda>sent s.
       (Inr (length sent), s))))"

definition bench_gateway_throughput_binary ::
  "'s network \<Rightarrow> bytes_crate \<Rightarrow> string \<Rightarrow> u32 \<Rightarrow> 's \<Rightarrow> (client_err + nat) \<times> 's"
where
  "bench_gateway_throughput_binary N B addr iters = with_connection N addr (\<lambda>s.
     client_bind (client_for (\<lambda>i. write_binary_cmd N B (warmup_order 40000 i)) [0..<100] s) (\<lambda>_ s.
     client_bind (client_for (\<lambda>i. write_binary_cmd N B (throughput_order i)) [0..<unat iters] s) (\<lambda>sent s.
       (Inr (length sent), s))))"

section \<open>Modes\<close>

record bench_args =
  ba_mode :: string
  ba_bin_addr :: string
  ba_json_addr :: string
  ba_iters :: u32

definition default_bench_args :: bench_args where
  "default_bench_args =
     \<lparr>ba_mode = ''smoke-all'', ba_bin_addr = ''127.0.0.1:9000'', ba_json_addr = ''127.0.0.1:9001'', ba_iters = 1000\<rparr>"

definition no_result :: "(client_err + 'a) \<times> 's \<Rightarrow> (client_err + unit) \<times> 's" where
  "no_result r = client_bind r (\<lambda>_ p. (Inr (), p))"

fun run_scenarios :: "('s \<Rightarrow> (client_err + unit) \<times> 's) list \<Rightarrow> 's \<Rightarrow> (client_err + unit) \<times> 's" where
  "run_scenarios [] p = (Inr (), p)"
| "run_scenarios (f # fs) p = client_bind (f p) (\<lambda>_. run_scenarios fs)"

definition bench_main ::
  "'s network \<Rightarrow> json_crate \<Rightarrow> bytes_crate \<Rightarrow> bench_args \<Rightarrow> 's \<Rightarrow> (client_err + unit) \<times> 's"
where
  "bench_main N J B a p =
     (let mode = ba_mode a; json = ba_json_addr a; bin = ba_bin_addr a; iters = ba_iters a
      in if mode = ''smoke'' then run_scenarios [smoke_json N J json, smoke_bin N B bin] p
         else if mode = ''smoke-match'' then smoke_match_json N J json p
         else if mode = ''smoke-postonly'' then smoke_postonly_json N J json p
         else if mode = ''smoke-ioc'' then smoke_ioc_json N J json p
         else if mode = ''smoke-cancel'' then smoke_cancel_json N J json p
         else if mode = ''smoke-replace'' then smoke_replace_json N J json p
         else if mode = ''smoke-risk'' then smoke_risk_json N J json p
         else if mode = ''smoke-all'' then
           run_scenarios [smoke_match_json N J json, smoke_postonly_json N J json, smoke_ioc_json N J json,
             smoke_cancel_json N J json, smoke_replace_json N J json, smoke_risk_json N J json] p
         else if mode = ''bench-bin'' then no_result (bench_bin N B bin iters p)
         else if mode = ''bench-distributed'' then no_result (bench_distributed_binary N B bin iters p)
         else if mode = ''bench-distributed-json'' then no_result (bench_distributed N J json iters p)
         else if mode = ''bench-gateway-throughput'' then
           no_result (bench_gateway_throughput_binary N B bin iters p)
         else if mode = ''bench-gateway-throughput-json'' then
           no_result (bench_gateway_throughput N J json iters p)
         else if mode = ''smoke-replay'' then smoke_replay_json N J json p
         else (Inl (Bail (''unknown mode: '' @ mode)), p))"

end
