(* ===== verification/Stack.thy ===== *)
theory Stack
  imports Scenarios GatewayMain EngineServer ProtocolWire CodecFacts
begin

text \<open>
  The whole system as the clients see it: one gateway, one engine behind it for symbol 1, and a
  client that is connected while everything else is idle. What a client writes goes through the
  gateway, the engine server and back before the client reads. Every part is the definition of its
  own theory; only the schedule is made here.
\<close>

section \<open>The network of a client\<close>

record 's stack =
  st_gateway :: gw_system
  st_server :: "'s engine_server"
  st_next_conn :: u64
  st_conn :: u64

record stack_crates =
  sc_to_engine :: "gateway_to_engine serde"
  sc_to_gateway :: "engine_to_gateway serde"
  sc_engine :: codecs
  sc_codec_of :: "string \<Rightarrow> client_codec"

definition to_symbol :: "symbol_id \<Rightarrow> gateway \<Rightarrow> u8 list list" where
  "to_symbol symb g = (case map_of (er_senders (gw_router g)) symb of None \<Rightarrow> [] | Some sk \<Rightarrow> sk_sent sk)"

definition to_client :: "u64 \<Rightarrow> (u64 \<times> u8 list) list \<Rightarrow> u8 list list" where
  "to_client conn sent = map snd (filter (\<lambda>x. fst x = conn) sent)"

text \<open>The engine thread works until its queue is empty. The clock stands still.\<close>

fun engine_turns ::
  "('s, order) slab_ops \<Rightarrow> codecs \<Rightarrow> nat \<Rightarrow> 's engine_server \<Rightarrow> 's engine_server option"
where
  "engine_turns S C 0 s = Some s"
| "engine_turns S C (Suc n) s =
     (case server_engine S C 0 0 s of None \<Rightarrow> None | Some s1 \<Rightarrow> engine_turns S C n s1)"

text \<open>The engine server takes frames in, works, and sends what it has to say.\<close>

definition server_handles ::
  "('s, order) slab_ops \<Rightarrow> stack_crates \<Rightarrow> u8 list list \<Rightarrow> 's engine_server \<Rightarrow> 's engine_server option"
where
  "server_handles S X msgs sv =
     (let sv1 = foldl (\<lambda>s b. server_receive S (sc_to_engine X) b s) sv msgs
      in map_option (server_tick (sc_to_gateway X)) (engine_turns S (sc_engine X) (length (sv_queue sv1)) sv1))"

text \<open>One payload of the connected client, and the frames it gets back; \<open>None\<close> is a panic of the engine.\<close>

definition stack_payload ::
  "('s, order) slab_ops \<Rightarrow> stack_crates \<Rightarrow> u8 list \<Rightarrow> 's stack \<Rightarrow> (u8 list list \<times> 's stack) option"
where
  "stack_payload S X payload t =
     (let g0 = sy_gateway (st_gateway t);
          gw1 = gw_act (sc_to_engine X) (Frame (st_conn t) payload) (st_gateway t);
          msgs = drop (length (to_symbol 1 g0)) (to_symbol 1 (sy_gateway gw1))
      in case server_handles S X msgs (st_server t) of
           None \<Rightarrow> None
         | Some sv \<Rightarrow>
             let responses = engine_reader (sc_to_gateway X) (drop (length (sv_frames (st_server t))) (sv_frames sv));
                 gw2 = fold (\<lambda>r. gw_act (sc_to_engine X) (Response r)) responses gw1
             in Some (to_client (st_conn t) (drop (length (gw_sent g0)) (gw_sent (sy_gateway gw2))),
                      t\<lparr>st_gateway := gw2, st_server := sv\<rparr>))"

definition unframe :: "u8 list \<Rightarrow> u8 list option" where
  "unframe bs = (case fst (read_one_frame \<lparr>so_peer = (), so_inbox = bs\<rparr>) of Inl _ \<Rightarrow> None | Inr p \<Rightarrow> Some p)"

definition stack_network :: "('s, order) slab_ops \<Rightarrow> stack_crates \<Rightarrow> 's stack network" where
  "stack_network S X =
     \<lparr>nw_connect = (\<lambda>addr t. Some (t\<lparr>st_next_conn := st_next_conn t + 1, st_conn := st_next_conn t,
        st_gateway := gw_act (sc_to_engine X) (Connect (sc_codec_of X addr) (st_next_conn t)) (st_gateway t)\<rparr>)),
      nw_write = (\<lambda>bs t. case unframe bs of
          None \<Rightarrow> Some ([], t)
        | Some payload \<Rightarrow>
            map_option (map_prod (\<lambda>answers. concat (map frame_payload answers)) id) (stack_payload S X payload t)),
      nw_close = (\<lambda>t. t\<lparr>st_gateway := gw_act (sc_to_engine X) (Disconnect (st_conn t)) (st_gateway t)\<rparr>)\<rparr>"

end
