(* ===== verification/ClientFacts.thy ===== *)
theory ClientFacts
  imports Client CodecFacts Gateway
begin

text \<open>
  Facts about the clients' side of the wire: frames come apart the way they were put together, and the
  reading loops are loops over the list of the frames in the inbox. The locale \<open>client_wire\<close> is what a
  client and the gateway's codec must agree on; it holds for the binary format with what the client
  makes of each event.
\<close>

section \<open>Frames\<close>

lemma from_le_to_le_u32 [simp]: "from_le (to_le (x :: u32)) = x"
  by simp

lemma read_exact_take [simp]:
  "length p = n \<Longrightarrow> read_exact n (s\<lparr>so_inbox := p @ rest\<rparr>) = (Inr p, s\<lparr>so_inbox := rest\<rparr>)"
  by (simp add: read_exact_def)

lemma read_one_frame_payload:
  assumes "length p < 2 ^ 32"
  shows "read_one_frame (s\<lparr>so_inbox := frame_payload p @ rest\<rparr>) = (Inr p, s\<lparr>so_inbox := rest\<rparr>)"
  using assms by (simp add: read_one_frame_def frame_payload_def client_bind_def unat_of_nat take_bit_eq_mod)

lemma read_one_frame_empty: "read_one_frame (s\<lparr>so_inbox := []\<rparr>) = (Inl Waits, s\<lparr>so_inbox := []\<rparr>)"
  by (simp add: read_one_frame_def read_exact_def client_bind_def)

definition framed :: "u8 list list \<Rightarrow> u8 list" where
  "framed ps = concat (map frame_payload ps)"

lemma framed_simps [simp]: "framed [] = []" "framed (p # ps) = frame_payload p @ framed ps"
  "framed (ps @ qs) = framed ps @ framed qs"
  by (simp_all add: framed_def)

abbreviation short_frames :: "u8 list list \<Rightarrow> bool" where
  "short_frames ps \<equiv> \<forall>p \<in> set ps. length p < 2 ^ 32"

lemma socket_eta: "so_inbox s = b \<Longrightarrow> s = s\<lparr>so_inbox := b\<rparr>"
  by simp

section \<open>Reading\<close>

lemma read_event_payload:
  "length p < 2 ^ 32 \<Longrightarrow>
   read_event parse (s\<lparr>so_inbox := frame_payload p @ rest\<rparr>) = (parse p, s\<lparr>so_inbox := rest\<rparr>)"
  by (simp add: read_event_def read_one_frame_payload client_bind_def)

lemma read_event_empty: "read_event parse (s\<lparr>so_inbox := []\<rparr>) = (Inl Waits, s\<lparr>so_inbox := []\<rparr>)"
  by (simp add: read_event_def read_one_frame_empty client_bind_def)

text \<open>Reading up to an acknowledgement, on the list of what the frames parse to.\<close>

fun until_ack :: "u64 \<Rightarrow> (client_err + event) list \<Rightarrow> (client_err + event list) \<times> (client_err + event) list" where
  "until_ack cs [] = (Inl Waits, [])"
| "until_ack cs (Inl e # vs) = (Inl e, vs)"
| "until_ack cs (Inr ev # vs) =
     (if acks cs ev then (Inr [ev], vs) else apfst (map_sum id (Cons ev)) (until_ack cs vs))"

definition frames_left :: "u8 list list \<Rightarrow> 'b list \<Rightarrow> u8 list" where
  "frames_left ps vs = framed (drop (length ps - length vs) ps)"

lemma until_ack_shorter: "length (snd (until_ack cs vs)) \<le> length vs"
  by (induction cs vs rule: until_ack.induct) (auto simp: apfst_def map_prod_def split: prod.split)

lemma read_until_ack_list:
  assumes "short_frames ps" and "so_inbox s = framed ps"
  shows "read_until_ack parse cs s = (case until_ack cs (map parse ps) of (r, vs) \<Rightarrow>
    (r, s\<lparr>so_inbox := frames_left ps vs\<rparr>))"
  using assms
proof (induction ps arbitrary: s)
  case Nil
  then have s: "s = s\<lparr>so_inbox := []\<rparr>" by simp
  show ?case
    by (subst s, subst read_until_ack.simps, subst read_event_empty) (simp add: frames_left_def)
next
  case (Cons p ps)
  then have s: "s = s\<lparr>so_inbox := frame_payload p @ framed ps\<rparr>" by simp
  have r: "read_event parse s = (parse p, s\<lparr>so_inbox := framed ps\<rparr>)"
    using Cons.prems(1) by (subst s, subst read_event_payload) simp_all
  note IH = Cons.IH [of "s\<lparr>so_inbox := framed ps\<rparr>"]
  show ?case
  proof (cases "parse p")
    case (Inl e)
    then show ?thesis by (subst read_until_ack.simps) (simp add: r frames_left_def)
  next
    case (Inr ev)
    obtain r' vs where u: "until_ack cs (map parse ps) = (r', vs)" by force
    have "length vs \<le> length ps" using until_ack_shorter [of cs "map parse ps"] u by simp
    then have left: "frames_left (p # ps) vs = frames_left ps vs"
      by (simp add: frames_left_def Suc_diff_le)
    show ?thesis
      using IH Cons.prems(1) u
      by (subst read_until_ack.simps) (cases r'; simp add: r Inr left; simp add: frames_left_def)
  qed
qed

lemma read_n_events_list:
  assumes "short_frames ps" and "so_inbox s = framed ps" and "n \<le> length ps"
    and "\<And>p. p \<in> set ps \<Longrightarrow> parse_json_event J p = Inr (ev p)"
  shows "read_n_events_json J n s = (Inr (map ev (take n ps)), s\<lparr>so_inbox := framed (drop n ps)\<rparr>)"
  using assms
proof (induction n arbitrary: s ps)
  case (Suc n)
  then obtain p ps' where ps: "ps = p # ps'" by (cases ps) auto
  then have s: "s = s\<lparr>so_inbox := frame_payload p @ framed ps'\<rparr>" using Suc.prems(2) by simp
  have r: "read_json_event J s = (Inr (ev p), s\<lparr>so_inbox := framed ps'\<rparr>)"
    using Suc.prems(1,4) ps by (subst s, unfold read_json_event_def, subst read_event_payload) simp_all
  show ?case
    using Suc.IH [of ps' "s\<lparr>so_inbox := framed ps'\<rparr>"] Suc.prems(1,3,4) ps
    by (simp add: r client_bind_def)
qed simp

text \<open>Waiting for more events than the frames that are there.\<close>

lemma read_n_events_waits:
  assumes "short_frames ps" and "so_inbox s = framed ps" and "length ps < n"
    and "\<And>p. p \<in> set ps \<Longrightarrow> parse_json_event J p = Inr (ev p)"
  shows "read_n_events_json J n s = (Inl Waits, s\<lparr>so_inbox := []\<rparr>)"
  using assms
proof (induction ps arbitrary: s n)
  case Nil
  then obtain n' where n: "n = Suc n'" by (cases n) auto
  from Nil have s: "s = s\<lparr>so_inbox := []\<rparr>" by simp
  show ?case by (subst s) (simp add: n read_json_event_def read_event_empty client_bind_def)
next
  case (Cons p ps)
  then obtain n' where n: "n = Suc n'" by (cases n) auto
  from Cons have s: "s = s\<lparr>so_inbox := frame_payload p @ framed ps\<rparr>" by simp
  have r: "read_json_event J s = (Inr (ev p), s\<lparr>so_inbox := framed ps\<rparr>)"
    using Cons.prems(1,4) by (subst s, unfold read_json_event_def, subst read_event_payload) simp_all
  show ?case
    using Cons.IH [of "s\<lparr>so_inbox := framed ps\<rparr>" n'] Cons.prems(1,3,4) n
    by (simp add: r client_bind_def)
qed

section \<open>Clients and codecs\<close>

locale client_wire =
  fixes K :: client_codec
    and payload :: "command \<Rightarrow> u8 list option"
    and parse :: "u8 list \<Rightarrow> client_err + event"
    and view :: "event \<Rightarrow> client_err + event"
    and sendable :: "command \<Rightarrow> bool"
    and readable :: "event \<Rightarrow> bool"
  assumes sent: "sendable cmd \<Longrightarrow> \<exists>bs. payload cmd = Some bs \<and> length bs < 2 ^ 32 \<and> cc_decode K bs = Inr cmd"
    and received: "readable ev \<Longrightarrow> \<exists>bs. cc_encode K ev = Inr bs \<and> length bs < 2 ^ 32 \<and> parse bs = view ev"
begin

definition encoded :: "event \<Rightarrow> u8 list" where
  "encoded ev = (case cc_encode K ev of Inl _ \<Rightarrow> [] | Inr bs \<Rightarrow> bs)"

lemma encoded_laws:
  assumes "readable ev"
  shows "cc_encode K ev = Inr (encoded ev)" "length (encoded ev) < 2 ^ 32" "parse (encoded ev) = view ev"
  using received [OF assms] by (auto simp: encoded_def)

lemma encoded_list:
  assumes "\<forall>ev \<in> set evs. readable ev"
  shows "short_frames (map encoded evs)" "map parse (map encoded evs) = map view evs"
  using assms encoded_laws by auto

text \<open>What the inbox holds is read as the views of the events sent.\<close>

lemma read_until_ack_events:
  assumes "\<forall>ev \<in> set evs. readable ev" and "so_inbox s = framed (map encoded evs)"
  shows "read_until_ack parse cs s = (case until_ack cs (map view evs) of (r, vs) \<Rightarrow>
    (r, s\<lparr>so_inbox := frames_left (map encoded evs) vs\<rparr>))"
  using read_until_ack_list [OF encoded_list(1) [OF assms(1)] assms(2), of parse cs]
  unfolding encoded_list(2) [OF assms(1)] .

end

section \<open>The binary client\<close>

text \<open>What the binary client makes of an event: acknowledgements and fills are read, a book top is made
  up, anything else ends the conversation.\<close>

fun binary_view :: "event \<Rightarrow> client_err + event" where
  "binary_view (EvAck a) = Inr (EvAck a)"
| "binary_view (EvFill f) = Inr (EvFill f)"
| "binary_view (EvBookTop t) =
     Inr (EvBookTop \<lparr>bt_server_seq = 0, bt_symbol_id = 0, bt_best_bid_px = None, bt_best_bid_qty = None,
       bt_best_ask_px = None, bt_best_ask_qty = None\<rparr>)"
| "binary_view (EvReject r) = Inl (Bail (''unknown event type: '' @ show_nat 102))"
| "binary_view (EvAccountState s) = Inl (Bail (''unknown event type: '' @ show_nat 105))"
| "binary_view (EvAuthSuccess a) = Inl (Bail (''unknown event type: '' @ show_nat 106))"
| "binary_view (EvAuthFailure a) = Inl (Bail (''unknown event type: '' @ show_nat 107))"

lemma take_to_le [simp]:
  "take 2 (to_le (t :: u16) @ r) = to_le t" "drop 2 (to_le (t :: u16) @ r) = r"
  "take 4 (to_le (w :: u32) @ r) = to_le w" "drop 4 (to_le (w :: u32) @ r) = r"
  "take 8 (to_le (u :: u64) @ r) = to_le u" "drop 8 (to_le (u :: u64) @ r) = r"
  "take 8 (i64_bytes x @ r) = i64_bytes x" "drop 8 (i64_bytes x @ r) = r"
  by simp_all

lemma slice_shift: "length a = n \<Longrightarrow> n \<le> i \<Longrightarrow> slice i j (a @ b) = slice (i - n) (j - n) b"
  by (simp add: slice_def)

lemma slice_first: "length a = j \<Longrightarrow> slice 0 j (a @ b) = a" "length a = j \<Longrightarrow> slice 0 j a = a"
  by (simp_all add: slice_def)

lemma i64_from_le_bytes [simp]: "i64_ok x \<Longrightarrow> i64_from_le (i64_bytes x) = x"
  by (simp add: i64_from_le_def i64_bytes_def word_of_int_i64)

lemma parse_binary_tagged:
  "parse_binary_event (to_le (mt :: u16) @ b) =
     (if mt = 101 then
        (if length b < 24 then Inl Panicked
         else Inr (EvAck \<lparr>ak_server_seq = from_le (slice 0 8 b), ak_client_seq = from_le (slice 8 16 b),
                          ak_order_id = from_le (slice 16 24 b)\<rparr>))
      else if mt = 103 then
        (if length b < 52 then Inl Panicked
         else Inr (EvFill \<lparr>fi_server_seq = from_le (slice 0 8 b), fi_client_seq = from_le (slice 8 16 b),
                           fi_symbol_id = from_le (slice 16 20 b), fi_taker_order_id = from_le (slice 20 28 b),
                           fi_maker_order_id = from_le (slice 28 36 b),
                           fi_price = i64_from_le (slice 36 44 b), fi_qty = i64_from_le (slice 44 52 b)\<rparr>))
      else if mt = 104 then
        Inr (EvBookTop \<lparr>bt_server_seq = 0, bt_symbol_id = 0, bt_best_bid_px = None, bt_best_bid_qty = None,
          bt_best_ask_px = None, bt_best_ask_qty = None\<rparr>)
      else Inl (Bail (''unknown event type: '' @ show_nat (unat mt))))"
  by (simp add: parse_binary_event_def Let_def)

lemma parse_binary_view: "event_wf ev \<Longrightarrow> parse_binary_event (event_bytes ev) = binary_view ev"
  by (cases ev) (simp_all add: parse_binary_tagged slice_shift slice_first)

lemma short_event_bytes:
  assumes "\<And>a. ev = EvAuthFailure a \<Longrightarrow> length (fa_reason a) < 2 ^ 31"
  shows "length (event_bytes ev) < 2 ^ 32"
  using assms
  by (cases ev) (auto simp: id_bytes_def opt_bytes_def limits_bytes_def string_field_def string_bytes_def
      split: option.split)

definition readable_event :: "event \<Rightarrow> bool" where
  "readable_event ev \<longleftrightarrow> event_wf ev \<and> (\<forall>a. ev = EvAuthFailure a \<longrightarrow> length (fa_reason a) < 2 ^ 31)"

definition sendable_command :: "command \<Rightarrow> bool" where
  "sendable_command cmd \<longleftrightarrow> command_wf cmd \<and> (\<forall>a. cmd = Authenticate a \<longrightarrow> length (au_api_key a) < 2 ^ 31)"

definition binary_payload :: "bytes_crate \<Rightarrow> command \<Rightarrow> u8 list option" where
  "binary_payload B cmd = (case cmd of NewOrder n \<Rightarrow> Some (new_order_payload B n) | _ \<Rightarrow> None)"

context buf_laws begin

lemma new_order_payload_bytes: "new_order_payload B n = command_bytes (NewOrder n)"
  by (cases "no_side n"; cases "no_tif n")
    (simp_all add: new_order_payload_def puts_def put_laws flag_byte_def)

lemma binary_wire:
  "client_wire (binary_codec B) (binary_payload B) parse_binary_event binary_view
     (\<lambda>cmd. command_wf cmd \<and> (\<exists>n. cmd = NewOrder n)) readable_event"
proof
  fix cmd assume "command_wf cmd \<and> (\<exists>n. cmd = NewOrder n)"
  then show "\<exists>bs. binary_payload B cmd = Some bs \<and> length bs < 2 ^ 32 \<and> cc_decode (binary_codec B) bs = Inr cmd"
    by (auto simp: binary_payload_def new_order_payload_bytes binary_codec_def decode_command_iff
        simp del: command_wf.simps)
next
  fix ev assume "readable_event ev"
  then show "\<exists>bs. cc_encode (binary_codec B) ev = Inr bs \<and> length bs < 2 ^ 32 \<and> parse_binary_event bs = binary_view ev"
    using short_event_bytes [of ev] parse_binary_view [of ev]
    by (simp add: binary_codec_def encode_event_bytes readable_event_def)
qed

end

interpretation binary_client: client_wire "binary_codec le_crate" "binary_payload le_crate" parse_binary_event
  binary_view "\<lambda>cmd. command_wf cmd \<and> (\<exists>n. cmd = NewOrder n)" readable_event
  by (rule le.binary_wire)

end
