(* ===== verification/EngineAgree.thy ===== *)
theory EngineAgree
  imports EngineReplay
begin

text \<open>
  What the events of a command depend on: the book, the accounts and the sequence counter. Engines that
  agree on these emit the same events and agree again.
\<close>

definition agree :: "'s engine \<Rightarrow> 's engine \<Rightarrow> bool" where
  "agree e d \<longleftrightarrow> core e = core d \<and> en_server_seq e = en_server_seq d"

abbreviation agree_on :: "'a \<times> 's engine \<Rightarrow> 'a \<times> 's engine \<Rightarrow> bool" where
  "agree_on \<equiv> rel_prod (=) agree"

lemma agreeD: "agree e d \<Longrightarrow> en_book e = en_book d \<and> en_accounts e = en_accounts d \<and> en_server_seq e = en_server_seq d"
  by (simp add: agree_def core_def)

lemma agree_events:
  assumes "agree e d"
  shows "agree_on (ack_ev cs oid e) (ack_ev cs oid d)"
    and "agree_on (reject_ev cs oid' r e) (reject_ev cs oid' r d)"
    and "agree_on (book_top_event e) (book_top_event d)"
  using agreeD [OF assms]
  by (simp_all add: ack_ev_def reject_ev_def book_top_event_def next_seq_def agree_def core_def Let_def)

lemma agree_event1:
  "agree e d \<Longrightarrow> agree_on (case reject_ev cs oid r e of (ev, e1) \<Rightarrow> ([ev], e1)) (case reject_ev cs oid r d of (ev, e1) \<Rightarrow> ([ev], e1))"
  using agree_events(2) [of e d cs oid r] by (auto simp: rel_prod.simps)

lemma agree_top_ack:
  assumes "agree e d"
  shows "agree_on (case book_top_event e of (t, e1) \<Rightarrow> case ack_ev cs oid e1 of (a, e2) \<Rightarrow> (evs @ [t, a], e2))
    (case book_top_event d of (t, d1) \<Rightarrow> case ack_ev cs oid d1 of (a, d2) \<Rightarrow> (evs @ [t, a], d2))"
proof -
  obtain t e1 d1 where t: "book_top_event e = (t, e1)" "book_top_event d = (t, d1)" "agree e1 d1"
    using agree_events(3) [OF assms] by (auto simp: rel_prod.simps)
  obtain a e2 d2 where "ack_ev cs oid e1 = (a, e2)" "ack_ev cs oid d1 = (a, d2)" "agree e2 d2"
    using agree_events(1) [OF t(3), of cs oid] by (auto simp: rel_prod.simps)
  with t show ?thesis by simp
qed

lemma agree_top_and_ack: "agree e d \<Longrightarrow> agree_on (top_and_ack no evs e) (top_and_ack no evs d)"
  unfolding top_and_ack_def Let_def by (rule agree_top_ack)

lemma agree_book: "agree e d \<Longrightarrow> agree (e\<lparr>en_book := b\<rparr>) (d\<lparr>en_book := b\<rparr>)"
  by (simp add: agree_def core_def)

lemma agree_rest_order: "agree e d \<Longrightarrow> agree (rest_order S no q e) (rest_order S no q d)"
  by (simp add: agree_def core_def rest_order_def)

lemma agree_emit_fill:
  assumes "agree e d"
  shows "rel_option agree_on (emit_fill no f e) (emit_fill no f d)"
proof -
  note b = agreeD [OF assms]
  show ?thesis
  proof (cases "apply_fill (no_account_id no) (no_side no) (mf_price f) (mf_qty f) (en_accounts d)")
    case (Some a1)
    then show ?thesis
      using b by (cases "apply_fill (mf_maker_account_id f) (opposite (no_side no)) (mf_price f) (mf_qty f) a1")
        (simp_all add: emit_fill_def Let_def next_seq_def agree_def core_def)
  qed (use b in \<open>simp add: emit_fill_def Let_def\<close>)
qed

lemma agree_emit_fills:
  "agree e d \<Longrightarrow> rel_option agree_on (emit_fills no fs e) (emit_fills no fs d)"
proof (induction fs arbitrary: e d)
  case (Cons f fs)
  from agree_emit_fill [OF Cons.prems, of no f] show ?case
  proof (cases rule: option.rel_cases)
    case (Some x y)
    then obtain ev e1 d1 where x: "x = (ev, e1)" "y = (ev, d1)" "agree e1 d1" by (auto simp: rel_prod.simps)
    from Cons.IH [OF x(3)] show ?thesis
      using Some x by (cases rule: option.rel_cases) (auto simp: rel_prod.simps)
  qed simp
qed simp

lemma rel_if: "R a c \<Longrightarrow> R b d \<Longrightarrow> R (if P then a else b) (if P then c else d)"
  by simp

lemma rel_sum: "(\<And>x. R (f x) (f' x)) \<Longrightarrow> (\<And>y. R (g y) (g' y)) \<Longrightarrow> R (case_sum f g v) (case_sum f' g' v)"
  by (cases v) simp_all

lemma agree_handle_new:
  assumes "agree e d"
  shows "rel_option agree_on (handle_new S no e) (handle_new S no d)"
proof -
  have b: "en_book e = en_book d" "en_accounts e = en_accounts d" using agreeD [OF assms] by auto
  note ifR = rel_if [where R = "rel_option agree_on"] and sumR = rel_sum [where R = "rel_option agree_on"]
  have rej: "rel_option agree_on (case reject_ev cs oid r e of (ev, e1) \<Rightarrow> Some ([ev], e1))
      (case reject_ev cs oid r d of (ev, e1) \<Rightarrow> Some ([ev], e1))" for cs oid r
    using agree_events(2) [OF assms, of cs oid r] by (auto simp: rel_prod.simps)
  have rest: "agree (if P then rest_order S no q x else x) (if P then rest_order S no q y else y)"
    if "agree x y" for P q and x y :: "'a engine"
    using that by (simp add: agree_rest_order)
  have em: "rel_option agree_on
      (map_option (\<lambda>(evs, e1). top_and_ack no evs (if P then rest_order S no q e1 else e1))
        (emit_fills no fs (e\<lparr>en_book := book\<rparr>)))
      (map_option (\<lambda>(evs, e1). top_and_ack no evs (if P then rest_order S no q e1 else e1))
        (emit_fills no fs (d\<lparr>en_book := book\<rparr>)))" for q P fs book
    using agree_emit_fills [OF agree_book [OF assms], of no fs book]
  proof (cases rule: option.rel_cases)
    case (Some x y)
    then obtain evs e1 d1 where "x = (evs, e1)" "y = (evs, d1)" "agree e1 d1" by (auto simp: rel_prod.simps)
    then show ?thesis using Some(1,2) agree_top_and_ack [OF rest] by simp
  qed simp
  have nc: "rel_option agree_on (Some (top_and_ack no [] (if P then rest_order S no q e else e)))
      (Some (top_and_ack no [] (if P then rest_order S no q d else d)))" for P q
    using agree_top_and_ack [OF rest [OF assms]] by simp
  have em': "rel_option agree_on
      (case m of None \<Rightarrow> None | Some (book, fills) \<Rightarrow>
        map_option (\<lambda>(evs, e1). top_and_ack no evs (if P fills then rest_order S no (q fills) e1 else e1))
          (emit_fills no fills (e\<lparr>en_book := book\<rparr>)))
      (case m of None \<Rightarrow> None | Some (book, fills) \<Rightarrow>
        map_option (\<lambda>(evs, e1). top_and_ack no evs (if P fills then rest_order S no (q fills) e1 else e1))
          (emit_fills no fills (d\<lparr>en_book := book\<rparr>)))" for m P q
    using em by (cases m) (auto split: prod.split)
  show ?thesis
    unfolding handle_new_def Let_def b
    by (rule ifR, rule rej, rule sumR, rule rej, rule ifR, rule rej, rule ifR, rule em', rule nc)
qed

lemma agree_process:
  assumes "agree e d"
  shows "rel_option agree_on (process S cmd e) (process S cmd d)"
proof (cases cmd)
  case (NewOrder no)
  then show ?thesis by (simp add: agree_handle_new assms)
next
  case (Cancel c)
  have b: "en_book e = en_book d" using agreeD [OF assms] by simp
  obtain ok book where c: "cancel S (ca_order_id c) (ca_account_id c) (en_book d) = (ok, book)" by fastforce
  have "agree_on (process_cancel S c e) (process_cancel S c d)"
    using agree_event1 [OF assms] agree_event1 [OF agree_book [OF assms]]
      agree_top_ack [OF agree_book [OF assms, of book], where evs = "[]"]
    by (cases ok) (simp_all add: process_cancel_def b c Let_def)
  then show ?thesis by (simp add: Cancel)
next
  case (Replace r)
  have b: "en_book e = en_book d" using agreeD [OF assms] by simp
  have rej: "rel_option agree_on (case reject_ev cs oid r e of (ev, e1) \<Rightarrow> Some ([ev], e1))
      (case reject_ev cs oid r d of (ev, e1) \<Rightarrow> Some ([ev], e1))" for cs oid r
    using agree_events(2) [OF assms, of cs oid r] by (auto simp: rel_prod.simps)
  show ?thesis
    by (simp add: Replace process_replace_def Let_def b rej agree_handle_new agree_book assms split: option.split)
next
  case (SetRiskLimits s)
  with agreeD [OF assms] show ?thesis
    by (simp add: handle_set_risk_limits_def ack_ev_def next_seq_def agree_def core_def)
next
  case (QueryAccount q)
  with agreeD [OF assms] show ?thesis
    by (simp add: handle_query_account_def next_seq_def agree_def core_def)
next
  case (Authenticate a)
  then show ?thesis using assms by simp
qed

lemma agree_processE:
  assumes "agree e d" and "process S cmd d = Some (evs, d')"
  obtains e' where "process S cmd e = Some (evs, e')" and "agree e' d'"
  using agree_process [OF assms(1), of S cmd] assms(2)
  by (cases rule: option.rel_cases) (auto simp: rel_prod.simps)

section \<open>A turn of the run loop\<close>

lemma agree_updates [simp]:
  "agree (e\<lparr>en_metrics := m\<rparr>) d = agree e d" "agree (journal_step C now cmd e) d = agree e d"
  "agree (count_command e) d = agree e d"
  by (simp_all add: agree_def core_def journal_step_def count_command_def case_prod_beta)

lemma agree_after_command [simp]: "agree (after_command S C now ts e) d = agree e d"
proof -
  have r: "agree (rotate_step C now ts e) d = agree e d" for e :: "'a engine"
    by (simp add: rotate_step_def agree_def core_def split: prod.split)
  have t: "agree (snd (take_snapshot S C e)) d = agree e d" for e :: "'a engine"
    by (simp add: take_snapshot_def agree_def core_def split: option.split prod.split sum.split)
  show ?thesis by (simp add: after_command_def Let_def r t)
qed


lemma agree_shutdown [simp]: "agree (shutdown C now e) d = agree e d"
  by (simp add: shutdown_def agree_def core_def case_prod_beta)

lemma agree_refl [simp]: "agree e e"
  by (simp add: agree_def)

text \<open>What a turn sends is what the channel takes of the command's events, all of them unless it closes.\<close>

lemma agree_run_step:
  assumes "agree e d" and "run_step S C now ts sends inb e = Some (outs, st, e')"
  shows "\<exists>evs d'. process S (in_cmd inb) d = Some (evs, d') \<and> agree e' d' \<and>
    (let all = map (\<lambda>ev. \<lparr>out_conn_id = in_conn_id inb, out_ev = ev\<rparr>) evs;
         n = (case sends of None \<Rightarrow> length evs | Some n \<Rightarrow> n)
     in outs = take n all \<and> (st = Stopped \<longleftrightarrow> n < length evs))"
proof -
  let ?e0 = "journal_step C now (in_cmd inb) (e\<lparr>en_metrics := queue_dec (en_metrics e)\<rparr>)"
  obtain evs e1 where p: "process S (in_cmd inb) ?e0 = Some (evs, e1)"
    using assms(2) by (auto simp: run_step_def split: option.splits)
  have "agree d ?e0" using assms(1) by (auto simp: agree_def core_def journal_step_def case_prod_beta)
  then obtain d' where d': "process S (in_cmd inb) d = Some (evs, d')" "agree d' e1"
    using p by (rule agree_processE)
  then have "agree e1 d'" by (simp add: agree_def)
  then show ?thesis
    using assms(2) p d'(1) by (auto simp: run_step_def Let_def split: if_splits option.splits)
qed

end
