(* ===== verification/Exchange.thy ===== *)
theory Exchange
  imports Stack ClientFacts EngineAgree EngineRecovery
begin

text \<open>
  The system on the level of commands and events: what a command of a client does to the gateway and to
  the engine, and which events go to which connection, without bytes, frames, journals, queues and
  metrics. The stack of gateway and engine server implements it: \<open>stack_refines\<close> is the simulation.
\<close>

section \<open>The exchange\<close>

record 's exchange =
  xc_gateway :: gateway
  xc_local :: local_orders
  xc_engine :: "'s engine"

type_synonym outputs = "(u64 \<times> event) list"

definition x_reject ::
  "u64 \<Rightarrow> u64 \<Rightarrow> order_id option \<Rightarrow> reject_reason \<Rightarrow> gateway \<Rightarrow> outputs \<times> gateway"
where
  "x_reject conn cs oid reason h =
     (case take_seq h of
        (sq, h1) \<Rightarrow> ([(conn, EvReject \<lparr>rj_server_seq = sq, rj_client_seq = cs, rj_order_id = oid,
                                     rj_reason = reason\<rparr>)], h1))"

definition x_query :: "u64 \<Rightarrow> query_account \<Rightarrow> gateway \<Rightarrow> outputs \<times> gateway" where
  "x_query conn q h =
     (case get_account (gw_table h) (qa_account_id q) of
        None \<Rightarrow> x_reject conn (qa_client_seq q) None NotFound h
      | Some a \<Rightarrow>
          (case take_seq h of
             (sq, h1) \<Rightarrow>
               ([(conn, EvAccountState
                   \<lparr>as_server_seq = sq, as_client_seq = qa_client_seq q, as_account_id = qa_account_id q,
                    as_symbol_id = qa_symbol_id q,
                    as_position = get_or default_position (ga_positions a) (qa_symbol_id q),
                    as_risk_limits = get_or default_risk_limits (ga_risk_limits a) (qa_symbol_id q)\<rparr>)], h1)))"

definition x_auth :: "u64 \<Rightarrow> authenticate_cmd \<Rightarrow> gateway \<Rightarrow> outputs \<times> gateway" where
  "x_auth conn a h =
     (case authenticate (gw_auth h) (au_api_key a) of
        Inr acc \<Rightarrow> ([(conn, EvAuthSuccess \<lparr>ok_account_id = acc\<rparr>)], h\<lparr>gw_sessions := register conn acc (gw_sessions h)\<rparr>)
      | Inl err \<Rightarrow> ([(conn, EvAuthFailure \<lparr>fa_reason = ''Authentication failed: '' @ err\<rparr>)], h))"

text \<open>The reservation: granted, or the command is answered with a reject.\<close>

definition x_reserve ::
  "u64 \<Rightarrow> command \<Rightarrow> gateway \<Rightarrow> (outputs + reservation_token) \<times> gateway"
where
  "x_reserve conn cmd h =
     (case cmd of
        Replace r \<Rightarrow>
          (case map_of (gw_pending h) (re_order_id r) of
             None \<Rightarrow> apfst Inl (x_reject conn (re_client_seq r) (Some (re_order_id r)) NotFound h)
           | Some md \<Rightarrow>
               (case on_table (adjust_reservation (md_token md) r) h of
                  (Inr token, h1) \<Rightarrow> (Inr token, h1)
                | (Inl _, h1) \<Rightarrow> apfst Inl (x_reject conn (re_client_seq r) (Some (re_order_id r)) Risk h1)))
      | _ \<Rightarrow>
          (case on_table (check_and_reserve cmd) h of
             (Inr token, h1) \<Rightarrow> (Inr token, h1)
           | (Inl _, h1) \<Rightarrow>
               (case new_order_ids cmd of (cs, oid) \<Rightarrow> apfst Inl (x_reject conn cs oid Risk h1))))"

text \<open>What a command does at the gateway: answers, the command for the engine if there is one, the
  connection's orders and the gateway. Symbol 1 has an engine.\<close>

definition x_order ::
  "u64 \<Rightarrow> command \<Rightarrow> symbol_id \<Rightarrow> local_orders \<Rightarrow> gateway \<Rightarrow>
   outputs \<times> command option \<times> local_orders \<times> gateway"
where
  "x_order conn cmd symb loc h =
     (case x_reserve conn cmd h of
        (Inl outs, h1) \<Rightarrow> (outs, None, loc, h1)
      | (Inr token, h1) \<Rightarrow>
          (case track_order conn cmd (case cmd of NewOrder n \<Rightarrow> no_side n = Buy | _ \<Rightarrow> False) token loc h1 of
             (loc1, h2) \<Rightarrow>
               let h3 = snd (take_seq h2)
               in if symb = 1 then ([], Some cmd, loc1, h3)
                  else
                    (case x_reject conn (fst (reject_ids cmd)) (snd (reject_ids cmd)) Overloaded
                            (h3\<lparr>gw_table := release_reservation token (gw_table h3)\<rparr>) of
                       (outs, h4) \<Rightarrow>
                         (outs, None, (case cmd of NewOrder n \<Rightarrow> AList.delete (no_order_id n) loc1 | _ \<Rightarrow> loc1), h4))))"

definition x_cancel ::
  "u64 \<Rightarrow> cancel_cmd \<Rightarrow> symbol_id \<Rightarrow> local_orders \<Rightarrow> gateway \<Rightarrow>
   outputs \<times> command option \<times> local_orders \<times> gateway"
where
  "x_cancel conn c symb loc h =
     (let loc1 = mark_local CancelPending (ca_order_id c) loc;
          h1 = snd (take_seq (mark_pending CancelPending (ca_order_id c) h))
      in if symb = 1 then ([], Some (Cancel c), loc1, h1)
         else
           (case x_reject conn (ca_client_seq c) (Some (ca_order_id c)) Overloaded
                   (mark_pending Active (ca_order_id c) h1) of
              (outs, h2) \<Rightarrow> (outs, None, mark_local Active (ca_order_id c) loc1, h2)))"

definition x_handle ::
  "u64 \<Rightarrow> command \<Rightarrow> local_orders \<Rightarrow> gateway \<Rightarrow> outputs \<times> command option \<times> local_orders \<times> gateway"
where
  "x_handle conn cmd loc h =
     (case cmd of
        QueryAccount q \<Rightarrow> (case x_query conn q h of (outs, h1) \<Rightarrow> (outs, None, loc, h1))
      | Authenticate a \<Rightarrow> (case x_auth conn a h of (outs, h1) \<Rightarrow> (outs, None, loc, h1))
      | _ \<Rightarrow>
          if \<not> is_authenticated (gw_sessions h) conn then
            (case x_reject conn 0 None Invalid h of (outs, h1) \<Rightarrow> (outs, None, loc, h1))
          else
            (case command_symbol_id cmd of
               None \<Rightarrow> ([], None, loc, h)
             | Some symb \<Rightarrow>
                 (case cmd of
                    Cancel c \<Rightarrow> x_cancel conn c symb loc h
                  | _ \<Rightarrow> x_order conn cmd symb loc h)))"

text \<open>An event of the engine at the gateway.\<close>

definition x_deliver :: "u64 \<Rightarrow> event \<Rightarrow> gateway \<Rightarrow> outputs" where
  "x_deliver conn ev h = (if map_of (gw_clients h) conn = None then [] else [(conn, ev)])"

definition x_response :: "u64 \<Rightarrow> event \<Rightarrow> gateway \<Rightarrow> outputs \<times> gateway" where
  "x_response conn ev h =
     (case ev of
        EvFill f \<Rightarrow>
          (let maker = map_of (gw_pending h) (fi_maker_order_id f);
               taker = map_of (gw_pending h) (fi_taker_order_id f)
           in ((case maker of None \<Rightarrow> [] | Some m \<Rightarrow> x_deliver (md_conn_id m) ev h) @ x_deliver conn ev h,
               settle f (fi_taker_order_id f) taker (settle f (fi_maker_order_id f) maker h)))
      | EvAck a \<Rightarrow> (x_deliver conn ev h, handle_ack a h)
      | EvReject r \<Rightarrow> (x_deliver conn ev h, handle_reject r h)
      | _ \<Rightarrow> (x_deliver conn ev h, h))"

fun x_responses :: "u64 \<Rightarrow> event list \<Rightarrow> gateway \<Rightarrow> outputs \<times> gateway" where
  "x_responses conn [] h = ([], h)"
| "x_responses conn (ev # evs) h =
     (case x_response conn ev h of (outs, h1) \<Rightarrow> apfst ((@) outs) (x_responses conn evs h1))"

text \<open>A command of a client; \<open>None\<close> is a panic of the engine.\<close>

definition x_step ::
  "('s, order) slab_ops \<Rightarrow> u64 \<Rightarrow> command \<Rightarrow> 's exchange \<Rightarrow> (outputs \<times> 's exchange) option"
where
  "x_step S conn cmd x =
     (case x_handle conn cmd (xc_local x) (xc_gateway x) of
        (outs, None, loc, h) \<Rightarrow> Some (outs, x\<lparr>xc_gateway := h, xc_local := loc\<rparr>)
      | (outs, Some c, loc, h) \<Rightarrow>
          (case process S c (xc_engine x) of
             None \<Rightarrow> None
           | Some (evs, e) \<Rightarrow>
               (case x_responses conn evs h of
                  (outs', h') \<Rightarrow> Some (outs @ outs', \<lparr>xc_gateway = h', xc_local = loc, xc_engine = e\<rparr>))))"

definition events_for :: "u64 \<Rightarrow> outputs \<Rightarrow> event list" where
  "events_for conn outs = map snd (filter (\<lambda>x. fst x = conn) outs)"

section \<open>The gateway without its wires\<close>

definition quiet :: "gateway \<Rightarrow> gateway" where
  "quiet g = g\<lparr>gw_router := \<lparr>er_senders = [], er_faults = []\<rparr>, gw_metrics := default_metrics, gw_sent := []\<rparr>"

lemma quiet_sel [simp]:
  "gw_table (quiet g) = gw_table g" "gw_auth (quiet g) = gw_auth g" "gw_sessions (quiet g) = gw_sessions g"
  "gw_pending (quiet g) = gw_pending g" "gw_clients (quiet g) = gw_clients g"
  by (simp_all add: quiet_def)

lemma quiet_updates [simp]:
  "quiet (g\<lparr>gw_metrics := m\<rparr>) = quiet g" "quiet (g\<lparr>gw_sent := s\<rparr>) = quiet g" "quiet (g\<lparr>gw_router := r\<rparr>) = quiet g"
  "(quiet g)\<lparr>gw_table := t\<rparr> = quiet (g\<lparr>gw_table := t\<rparr>)"
  "(quiet g)\<lparr>gw_pending := p\<rparr> = quiet (g\<lparr>gw_pending := p\<rparr>)"
  "(quiet g)\<lparr>gw_sessions := x\<rparr> = quiet (g\<lparr>gw_sessions := x\<rparr>)"
  by (simp_all add: quiet_def)

lemma quiet_take_seq: "take_seq (quiet g) = apsnd quiet (take_seq g)"
  by (simp add: take_seq_def split: prod.split)

lemma quiet_on_table: "on_table f (quiet g) = apsnd quiet (on_table f g)"
  by (simp add: on_table_def split: prod.split)

lemma quiet_track_order: "track_order conn cmd b t loc (quiet g) = apsnd quiet (track_order conn cmd b t loc g)"
  by (simp add: track_order_def split: command.split option.split)

lemma quiet_pending [simp]:
  "mark_pending operation oid (quiet g) = quiet (mark_pending operation oid g)"
  "settle f oid md (quiet g) = quiet (settle f oid md g)"
  "handle_ack a (quiet g) = quiet (handle_ack a g)" "handle_reject r (quiet g) = quiet (handle_reject r g)"
  by (simp_all add: mark_pending_def settle_def handle_ack_def handle_reject_def release_pending_def
      split: option.split pending_operation.split)

end
