(* ===== verification/StackSim.thy ===== *)
theory StackSim
  imports Exchange
begin

text \<open>
  The simulation: gateway, engine server and the wires between them do what the exchange does. A step of
  the gateway implements a step of the exchange when it leaves the same gateway behind, up to the
  router, the metrics and the frames, and the frames it sends are the encodings of the step's outputs.
\<close>

section \<open>The gateway's side\<close>

locale gateway_wire = client_wire +
  fixes P :: "gateway_to_engine serde"
  assumes requests_read: "sd_to P m = Some bs \<Longrightarrow> sd_from P bs = Some m"
    and requests_written: "sd_to P m \<noteq> None"
begin

definition wired :: "gateway \<Rightarrow> bool" where
  "wired g \<longleftrightarrow> er_faults (gw_router g) = [] \<and> (\<exists>sk. er_senders (gw_router g) = [(1, sk)] \<and> sk_fed sk = []) \<and>
     (\<forall>c info. map_of (gw_clients g) c = Some info \<longrightarrow> ci_codec info = K)"

definition frames_of :: "outputs \<Rightarrow> (u64 \<times> u8 list) list" where
  "frames_of outs = map (map_prod id encoded) outs"

abbreviation readables :: "outputs \<Rightarrow> bool" where
  "readables outs \<equiv> \<forall>x \<in> set outs. readable (snd x)"

definition implements :: "gateway \<Rightarrow> outputs \<times> gateway \<Rightarrow> gateway \<Rightarrow> bool" where
  "implements g r g' \<longleftrightarrow> quiet g' = snd r \<and> wired g' \<and> to_symbol 1 g' = to_symbol 1 g \<and>
     (readables (fst r) \<longrightarrow> gw_sent g' = gw_sent g @ frames_of (fst r))"

lemma frames_of_simps [simp]:
  "frames_of [] = []" "frames_of (x # outs) = (fst x, encoded (snd x)) # frames_of outs"
  "frames_of (outs @ outs') = frames_of outs @ frames_of outs'"
  by (simp_all add: frames_of_def map_prod_def split_def)

lemma to_symbol_updates [simp]:
  "to_symbol s (g\<lparr>gw_metrics := m\<rparr>) = to_symbol s g" "to_symbol s (g\<lparr>gw_sent := x\<rparr>) = to_symbol s g"
  "to_symbol s (g\<lparr>gw_table := t\<rparr>) = to_symbol s g" "to_symbol s (g\<lparr>gw_pending := p\<rparr>) = to_symbol s g"
  "to_symbol s (g\<lparr>gw_sessions := y\<rparr>) = to_symbol s g"
  by (simp_all add: to_symbol_def)

lemma wired_updates [simp]:
  "wired (g\<lparr>gw_metrics := m\<rparr>) = wired g" "wired (g\<lparr>gw_sent := x\<rparr>) = wired g" "wired (g\<lparr>gw_table := t\<rparr>) = wired g"
  "wired (g\<lparr>gw_pending := p\<rparr>) = wired g" "wired (g\<lparr>gw_sessions := y\<rparr>) = wired g"
  by (simp_all add: wired_def)

lemma implements_id: "wired g \<Longrightarrow> implements g ([], quiet g) g"
  by (simp add: implements_def)

lemma implements_trans:
  "implements g (outs, h) g1 \<Longrightarrow> implements g1 (outs', h') g2 \<Longrightarrow> implements g (outs @ outs', h') g2"
  by (auto simp: implements_def ball_Un)

lemma implements_silent:
  "implements g ([], h) g1 \<Longrightarrow> implements g1 (outs', h') g2 \<Longrightarrow> implements g (outs', h') g2"
  using implements_trans [of g "[]"] by simp

lemma respond_implements: "wired g \<Longrightarrow> implements g ([(conn, ev)], quiet g) (respond K conn ev g)"
  by (auto simp: implements_def respond_def encoded_laws(1) split: sum.split)

lemma take_seq_implements: "wired g \<Longrightarrow> take_seq g = (sq, g1) \<Longrightarrow> implements g ([], quiet g1) g1"
  by (auto simp: implements_def take_seq_def split: prod.splits)

lemma on_table_implements: "wired g \<Longrightarrow> on_table f g = (r, g1) \<Longrightarrow> implements g ([], quiet g1) g1"
  by (auto simp: implements_def on_table_def split: prod.splits)

lemma reject_implements:
  assumes "wired g"
  shows "implements g (x_reject conn cs oid reason (quiet g)) (reject_client K conn cs oid reason g)"
proof -
  obtain sq g1 where t: "take_seq g = (sq, g1)" by fastforce
  note i = take_seq_implements [OF assms t]
  then have "wired g1" by (simp add: implements_def)
  from implements_silent [OF i respond_implements [OF this]] show ?thesis
    by (simp add: x_reject_def reject_client_def quiet_take_seq t)
qed

lemma query_implements:
  assumes "wired g"
  shows "implements g (x_query conn q (quiet g)) (answer_query K conn q g)"
proof (cases "get_account (gw_table g) (qa_account_id q)")
  case None
  then show ?thesis by (simp add: x_query_def answer_query_def reject_implements assms)
next
  case (Some a)
  obtain sq g1 where t: "take_seq g = (sq, g1)" by fastforce
  note i = take_seq_implements [OF assms t]
  then have "wired g1" by (simp add: implements_def)
  from implements_silent [OF i respond_implements [OF this]] show ?thesis
    by (simp add: x_query_def answer_query_def Some quiet_take_seq t)
qed

lemma auth_implements:
  assumes "wired g"
  shows "implements g (x_auth conn a (quiet g)) (answer_auth K conn a g)"
proof (cases "authenticate (gw_auth g) (au_api_key a)")
  case (Inl err)
  then show ?thesis using respond_implements [OF assms] by (simp add: x_auth_def answer_auth_def)
next
  case (Inr acc)
  let ?g = "g\<lparr>gw_sessions := register conn acc (gw_sessions g)\<rparr>"
  have "implements g ([], quiet ?g) ?g" using assms by (simp add: implements_def)
  from implements_silent [OF this respond_implements] show ?thesis
    using Inr assms by (simp add: x_auth_def answer_auth_def)
qed

lemma reserve_implements:
  assumes "wired g"
  shows "case reserve_for K conn cmd g of
      (None, g1) \<Rightarrow> \<exists>outs. x_reserve conn cmd (quiet g) = (Inl outs, quiet g1) \<and> implements g (outs, quiet g1) g1
    | (Some token, g1) \<Rightarrow> x_reserve conn cmd (quiet g) = (Inr token, quiet g1) \<and> implements g ([], quiet g1) g1"
proof -
  have rej: "\<exists>outs. apfst Inl (x_reject conn cs oid reason (quiet g1)) = (Inl outs, quiet (reject_client K conn cs oid reason g1)) \<and>
      implements g (outs, quiet (reject_client K conn cs oid reason g1)) (reject_client K conn cs oid reason g1)"
    if "implements g ([], quiet g1) g1" for cs oid reason g1
  proof -
    obtain outs h where x: "x_reject conn cs oid reason (quiet g1) = (outs, h)" by fastforce
    have "wired g1" using that by (simp add: implements_def)
    from reject_implements [OF this, of conn cs oid reason] implements_silent [OF that] show ?thesis
      unfolding x by (auto simp: implements_def)
  qed
  have tab: "case (case on_table f g of (Inr token, g1) \<Rightarrow> (Some token, g1)
        | (Inl _, g1) \<Rightarrow> (None, reject_client K conn cs oid Risk g1)) of
      (None, g1) \<Rightarrow> \<exists>outs. (case on_table f (quiet g) of (Inr token, h1) \<Rightarrow> (Inr token, h1)
          | (Inl _, h1) \<Rightarrow> apfst Inl (x_reject conn cs oid Risk h1)) = (Inl outs, quiet g1) \<and> implements g (outs, quiet g1) g1
    | (Some token, g1) \<Rightarrow> (case on_table f (quiet g) of (Inr token, h1) \<Rightarrow> (Inr token, h1)
          | (Inl _, h1) \<Rightarrow> apfst Inl (x_reject conn cs oid Risk h1)) = (Inr token, quiet g1) \<and> implements g ([], quiet g1) g1"
    for f :: "account_table \<Rightarrow> (risk_violation + reservation_token) \<times> account_table" and cs oid
  proof -
    obtain r g1 where t: "on_table f g = (r, g1)" by fastforce
    note i = on_table_implements [OF assms t]
    from rej [OF i, of cs oid Risk] i show ?thesis by (cases r) (auto simp: t quiet_on_table)
  qed
  show ?thesis
  proof (cases "\<exists>r. cmd = Replace r")
    case True
    then obtain r where cmd: "cmd = Replace r" by blast
    show ?thesis
    proof (cases "map_of (gw_pending g) (re_order_id r)")
      case None
      then show ?thesis using rej [OF implements_id [OF assms]] by (simp add: reserve_for_def x_reserve_def cmd)
    next
      case (Some md)
      have "reserve_for K conn cmd g = (case on_table (adjust_reservation (md_token md) r) g of
            (Inr token, g1) \<Rightarrow> (Some token, g1)
          | (Inl _, g1) \<Rightarrow> (None, reject_client K conn (re_client_seq r) (Some (re_order_id r)) Risk g1))"
        and "x_reserve conn cmd (quiet g) = (case on_table (adjust_reservation (md_token md) r) (quiet g) of
            (Inr token, h1) \<Rightarrow> (Inr token, h1)
          | (Inl _, h1) \<Rightarrow> apfst Inl (x_reject conn (re_client_seq r) (Some (re_order_id r)) Risk h1))"
        using Some by (simp_all add: reserve_for_def x_reserve_def cmd)
      then show ?thesis using tab by (simp only:)
    qed
  next
    case False
    obtain cs oid where ids: "new_order_ids cmd = (cs, oid)" by fastforce
    have "reserve_for K conn cmd g = (case on_table (check_and_reserve cmd) g of (Inr token, g1) \<Rightarrow> (Some token, g1)
        | (Inl _, g1) \<Rightarrow> (None, reject_client K conn cs oid Risk g1))"
      using False ids by (cases cmd) (auto simp: reserve_for_def split: prod.split sum.split)
    moreover have "x_reserve conn cmd (quiet g) = (case on_table (check_and_reserve cmd) (quiet g) of
          (Inr token, h1) \<Rightarrow> (Inr token, h1)
        | (Inl _, h1) \<Rightarrow> apfst Inl (x_reject conn cs oid Risk h1))"
      using False ids by (cases cmd) (auto simp: x_reserve_def split: prod.split sum.split)
    ultimately show ?thesis using tab by (simp only:)
  qed
qed

text \<open>Sending to the engine. A routed message is one more frame to symbol 1.\<close>

definition routed :: "u64 \<Rightarrow> command option \<Rightarrow> gateway \<Rightarrow> gateway \<Rightarrow> bool" where
  "routed conn c g g' \<longleftrightarrow>
     (case c of
        None \<Rightarrow> to_symbol 1 g' = to_symbol 1 g
      | Some cmd \<Rightarrow> \<exists>tok bs. sd_to P (execute cmd conn tok) = Some bs \<and> to_symbol 1 g' = to_symbol 1 g @ [bs])"

definition performs :: "u64 \<Rightarrow> gateway \<Rightarrow> outputs \<times> command option \<times> local_orders \<times> gateway \<Rightarrow>
    local_orders \<times> gateway \<Rightarrow> bool" where
  "performs conn g r r' \<longleftrightarrow>
     (case r of (outs, c, loc, h) \<Rightarrow> case r' of (loc', g') \<Rightarrow>
        loc' = loc \<and> quiet g' = h \<and> wired g' \<and> routed conn c g g' \<and>
        (readables outs \<longrightarrow> gw_sent g' = gw_sent g @ frames_of outs))"

lemma performs_answer: "implements g (outs, h) g' \<Longrightarrow> performs conn g (outs, None, loc, h) (loc, g')"
  by (simp add: implements_def performs_def routed_def)

lemma performs_after:
  "implements g ([], h0) g0 \<Longrightarrow> performs conn g0 (outs, c, loc, h) (loc', g') \<Longrightarrow>
   performs conn g (outs, c, loc, h) (loc', g')"
  by (auto simp: implements_def performs_def routed_def split: option.splits)

lemma send_command_wired:
  assumes "wired g" and "send_command P cmd conn acc amount symb g = (r, g')"
  shows "quiet g' = snd (take_seq (quiet g))" "gw_sent g' = gw_sent g" "wired g'"
    and "symb = 1 \<Longrightarrow> r = Inr () \<and> routed conn (Some cmd) g g'"
    and "symb \<noteq> 1 \<Longrightarrow> r = Inl (NoEngine symb) \<and> routed conn None g g'"
proof -
  obtain sq g1 where t: "take_seq g = (sq, g1)" by fastforce
  have g1: "gw_router g1 = gw_router g" "gw_sent g1 = gw_sent g" "gw_clients g1 = gw_clients g"
    using t by (auto simp: take_seq_def split: prod.splits)
  obtain sk where sk: "er_faults (gw_router g) = []" "er_senders (gw_router g) = [(1, sk)]" "sk_fed sk = []"
    using assms(1) by (auto simp: wired_def)
  have cl: "\<forall>c info. map_of (gw_clients g) c = Some info \<longrightarrow> ci_codec info = K"
    using assms(1) by (simp add: wired_def)
  obtain bs where bs: "sd_to P (execute cmd conn \<lparr>rt_account_id = acc, rt_reserved_amount = amount, rt_gateway_seq = sq\<rparr>) = Some bs"
    using requests_written by blast
  show "quiet g' = snd (take_seq (quiet g))" "gw_sent g' = gw_sent g"
    using assms(2) g1 by (auto simp: send_command_def t quiet_take_seq split: prod.splits)
  have r: "if symb = 1 then r = Inr () \<and> gw_router g' = \<lparr>er_senders = [(1, \<lparr>sk_fed = [], sk_sent = sk_sent sk @ [bs]\<rparr>)], er_faults = []\<rparr>
      else r = Inl (NoEngine symb) \<and> gw_router g' = gw_router g"
    using assms(2) g1(1) sk bs
    by (cases "gw_router g") (auto simp: send_command_def t route_to_engine_def net_call_def put_sink_def Let_def split: if_splits)
  have "gw_clients g' = gw_clients g" using assms(2) g1(3) by (auto simp: send_command_def t split: prod.splits)
  then show "wired g'" using r sk cl by (auto simp: wired_def split: if_splits)
  show "r = Inr () \<and> routed conn (Some cmd) g g'" if "symb = 1"
    using r that bs sk by (auto simp: routed_def to_symbol_def)
  show "r = Inl (NoEngine symb) \<and> routed conn None g g'" if "symb \<noteq> 1"
    using r that by (auto simp: routed_def to_symbol_def)
qed

lemma mark_pending_implements: "wired g \<Longrightarrow> implements g ([], quiet (mark_pending operation oid g)) (mark_pending operation oid g)"
  by (simp add: implements_def mark_pending_def split: option.split)

lemma track_order_implements:
  "wired g \<Longrightarrow> track_order conn cmd b t loc g = (loc1, g1) \<Longrightarrow> implements g ([], quiet g1) g1"
  by (auto simp: implements_def track_order_def split: command.splits option.splits)

lemma cancel_performs:
  assumes "wired g"
  shows "performs conn g (x_cancel conn c symb loc (quiet g)) (handle_cancel P K conn c symb loc g)"
proof -
  let ?g1 = "mark_pending CancelPending (ca_order_id c) g"
  note i = mark_pending_implements [OF assms, of CancelPending "ca_order_id c"]
  then have w: "wired ?g1" by (simp add: implements_def)
  obtain r g2 where s: "send_command P (Cancel c) conn (ca_account_id c) 0 symb ?g1 = (r, g2)" by fastforce
  note sc = send_command_wired [OF w s]
  show ?thesis
  proof (cases "symb = 1")
    case True
    have "performs conn ?g1 ([], Some (Cancel c), loc', quiet g2) (loc', g2)" for loc'
      using sc(2,3) sc(4) [OF True] by (simp add: performs_def)
    from performs_after [OF i this] show ?thesis
      using True sc(1) sc(4) [OF True] s by (simp add: x_cancel_def handle_cancel_def Let_def)
  next
    case False
    let ?g3 = "mark_pending Active (ca_order_id c) g2"
    have "implements ?g1 ([], quiet g2) g2"
      using sc(2,3) sc(5) [OF False] by (simp add: implements_def routed_def)
    from implements_silent [OF this mark_pending_implements [OF sc(3)]]
    have "implements ?g1 ([], quiet ?g3) ?g3" .
    moreover from this have "wired ?g3" by (simp add: implements_def)
    ultimately have "implements ?g1 (x_reject conn (ca_client_seq c) (Some (ca_order_id c)) Overloaded (quiet ?g3))
        (reject_client K conn (ca_client_seq c) (Some (ca_order_id c)) Overloaded ?g3)"
      by (metis implements_silent reject_implements surj_pair)
    from implements_silent [OF i] this
    have "implements g (x_reject conn (ca_client_seq c) (Some (ca_order_id c)) Overloaded (quiet ?g3))
        (reject_client K conn (ca_client_seq c) (Some (ca_order_id c)) Overloaded ?g3)"
      by (metis surj_pair)
    then show ?thesis
      using False sc(1) sc(5) [OF False] s
      by (cases "x_reject conn (ca_client_seq c) (Some (ca_order_id c)) Overloaded (quiet ?g3)")
        (simp add: x_cancel_def handle_cancel_def Let_def performs_answer flip: sc(1))
  qed
qed

lemma implements_reject_after:
  assumes "implements g ([], quiet g1) g1"
  shows "implements g (x_reject conn cs oid reason (quiet g1)) (reject_client K conn cs oid reason g1)"
proof -
  obtain outs h where x: "x_reject conn cs oid reason (quiet g1) = (outs, h)" by fastforce
  have "wired g1" using assms by (simp add: implements_def)
  from implements_silent [OF assms reject_implements [OF this, of conn cs oid reason, unfolded x]] show ?thesis
    by (simp add: x)
qed

lemma order_performs:
  assumes "wired g"
  shows "performs conn g (x_order conn cmd symb loc (quiet g)) (handle_order P K conn cmd symb loc g)"
proof -
  obtain t g1 where r: "reserve_for K conn cmd g = (t, g1)" by fastforce
  note res = reserve_implements [OF assms, of conn cmd, unfolded r prod.case]
  show ?thesis
  proof (cases t)
    case None
    then obtain outs where "x_reserve conn cmd (quiet g) = (Inl outs, quiet g1)" "implements g (outs, quiet g1) g1"
      using res by auto
    then show ?thesis using r None by (simp add: x_order_def handle_order_def performs_answer)
  next
    case (Some token)
    then have x: "x_reserve conn cmd (quiet g) = (Inr token, quiet g1)" and i1: "implements g ([], quiet g1) g1"
      using res by auto
    let ?buy = "case cmd of NewOrder n \<Rightarrow> no_side n = Buy | _ \<Rightarrow> False"
    obtain loc1 g2 where tr: "track_order conn cmd ?buy token loc g1 = (loc1, g2)" by fastforce
    have "wired g1" using i1 by (simp add: implements_def)
    from implements_silent [OF i1 track_order_implements [OF this tr]] have i2: "implements g ([], quiet g2) g2" .
    then have w2: "wired g2" by (simp add: implements_def)
    obtain s g3 where sd: "send_command P cmd conn (tk_account_id token) (tk_amount token) symb g2 = (s, g3)" by fastforce
    note sc = send_command_wired [OF w2 sd]
    have q: "quiet (snd (take_seq g2)) = quiet g3" by (simp add: sc(1) quiet_take_seq)
    show ?thesis
    proof (cases "symb = 1")
      case True
      have "performs conn g2 ([], Some cmd, loc1, quiet g3) (loc1, g3)"
        using sc(2,3) sc(4) [OF True] by (simp add: performs_def)
      from performs_after [OF i2 this] show ?thesis
        using True sc(4) [OF True] r Some x tr sd
        by (simp add: x_order_def handle_order_def quiet_track_order quiet_take_seq q)
    next
      case False
      let ?g4 = "g3\<lparr>gw_table := release_reservation token (gw_table g3)\<rparr>"
      have "implements g2 ([], quiet g3) g3"
        using sc(2,3) sc(5) [OF False] by (simp add: implements_def routed_def)
      from implements_silent [OF i2 this] have "implements g ([], quiet ?g4) ?g4"
        by (simp add: implements_def)
      note rej = implements_reject_after [OF this, of conn "fst (reject_ids cmd)" "snd (reject_ids cmd)" Overloaded]
      have q4: "(quiet (snd (take_seq g2)))\<lparr>gw_table := release_reservation token (gw_table (quiet (snd (take_seq g2))))\<rparr> =
          quiet ?g4" unfolding q by simp
      obtain outs h where rx: "x_reject conn (fst (reject_ids cmd)) (snd (reject_ids cmd)) Overloaded (quiet ?g4) = (outs, h)"
        by fastforce
      have "x_order conn cmd symb loc (quiet g) = (outs, None, (case cmd of NewOrder n \<Rightarrow> AList.delete (no_order_id n) loc1 | _ \<Rightarrow> loc1), h)"
        using False x tr q4 rx by (simp add: x_order_def quiet_track_order quiet_take_seq Let_def)
      moreover have "handle_order P K conn cmd symb loc g =
          ((case cmd of NewOrder n \<Rightarrow> AList.delete (no_order_id n) loc1 | _ \<Rightarrow> loc1),
           reject_client K conn (fst (reject_ids cmd)) (snd (reject_ids cmd)) Overloaded ?g4)"
        using sc(5) [OF False] r Some tr sd by (simp add: handle_order_def Let_def unroutable_def split_def)
      ultimately show ?thesis using performs_answer [OF rej [unfolded rx]] by simp
    qed
  qed
qed

lemma handle_performs:
  assumes "wired g"
  shows "performs conn g (x_handle conn cmd loc (quiet g)) (handle_command P K conn cmd loc g)"
proof -
  have one: "performs conn g (case r of (outs, h1) \<Rightarrow> (outs, None, loc, h1)) (loc, g')" if "implements g r g'" for r g'
    using performs_answer that by (cases r) simp
  have nothing: "performs conn g ([], None, loc, quiet g) (loc, g)"
    by (rule performs_answer [OF implements_id [OF assms]])
  note rej = one [OF reject_implements [OF assms, of conn 0 None Invalid]]
  show ?thesis
    using one [OF query_implements [OF assms]] one [OF auth_implements [OF assms]] nothing rej
      order_performs [OF assms] cancel_performs [OF assms]
    by (cases cmd; simp add: x_handle_def handle_command_def)
qed

lemma frame_performs:
  assumes "wired g" and "cc_decode K bs = Inr cmd"
  shows "performs conn g (x_handle conn cmd loc (quiet g)) (client_frame P K conn bs loc g)"
proof -
  let ?g = "g\<lparr>gw_metrics := inc_frames_in (gw_metrics g)\<rparr>"
  have "wired ?g" using assms(1) by simp
  from handle_performs [OF this, of conn cmd loc] have
    "performs conn ?g (x_handle conn cmd loc (quiet g)) (client_frame P K conn bs loc g)"
    by (simp add: client_frame_def assms(2))
  then show ?thesis by (simp add: performs_def routed_def split: prod.splits option.splits)
qed

text \<open>The responses.\<close>

lemma deliver_implements: "wired g \<Longrightarrow> implements g (x_deliver conn ev (quiet g), quiet g) (deliver conn ev g)"
proof (cases "map_of (gw_clients g) conn")
  case (Some info)
  moreover assume "wired g"
  ultimately show ?thesis
    using respond_implements [of g conn ev] by (auto simp: x_deliver_def deliver_def wired_def)
qed (simp add: x_deliver_def deliver_def implements_id)

lemma silent_updates:
  "wired g \<Longrightarrow> implements g ([], quiet (settle f oid md g)) (settle f oid md g)"
  "wired g \<Longrightarrow> implements g ([], quiet (handle_ack a g)) (handle_ack a g)"
  "wired g \<Longrightarrow> implements g ([], quiet (handle_reject r g)) (handle_reject r g)"
  by (simp_all add: implements_def settle_def handle_ack_def handle_reject_def release_pending_def
      split: option.split pending_operation.split)

lemma settle_clients [simp]: "gw_clients (settle f oid md g) = gw_clients g"
  by (simp add: settle_def split: option.split)

lemma ack_reject_clients [simp]:
  "gw_clients (handle_ack a g) = gw_clients g" "gw_clients (handle_reject r g) = gw_clients g"
  by (simp_all add: handle_ack_def handle_reject_def release_pending_def split: option.split pending_operation.split)

lemma deliver_after:
  assumes "implements g ([], quiet g1) g1" and "gw_clients g1 = gw_clients g"
  shows "implements g (x_deliver conn ev (quiet g), quiet g1) (deliver conn ev g1)"
proof -
  have "wired g1" using assms(1) by (simp add: implements_def)
  from implements_silent [OF assms(1) deliver_implements [OF this, of conn ev]] show ?thesis
    using assms(2) by (simp add: x_deliver_def)
qed

lemma delivered: "gw_clients (deliver conn ev g) = gw_clients g" "quiet (deliver conn ev g) = quiet g"
  by (simp_all add: deliver_def respond_def split: option.split sum.split)

lemma fill_implements:
  assumes "wired g"
  shows "implements g (x_response conn (EvFill f) (quiet g)) (handle_fill conn f g)"
proof -
  let ?maker = "map_of (gw_pending g) (fi_maker_order_id f)" and ?taker = "map_of (gw_pending g) (fi_taker_order_id f)"
  let ?g1 = "settle f (fi_maker_order_id f) ?maker g"
  let ?g2 = "settle f (fi_taker_order_id f) ?taker ?g1"
  let ?g3 = "case ?maker of None \<Rightarrow> ?g2 | Some m \<Rightarrow> deliver (md_conn_id m) (EvFill f) ?g2"
  let ?outs = "case ?maker of None \<Rightarrow> [] | Some m \<Rightarrow> x_deliver (md_conn_id m) (EvFill f) (quiet g)"
  note i1 = silent_updates(1) [OF assms, of f "fi_maker_order_id f" ?maker]
  then have "wired ?g1" by (simp add: implements_def)
  from implements_silent [OF i1 silent_updates(1) [OF this]] have i2: "implements g ([], quiet ?g2) ?g2" .
  have i3: "implements g (?outs, quiet ?g2) ?g3"
  proof (cases ?maker)
    case (Some m)
    have "gw_clients ?g2 = gw_clients g" by simp
    from deliver_after [OF i2 this, of "md_conn_id m" "EvFill f"] show ?thesis using Some by simp
  qed (use i2 in simp)
  have cl: "gw_clients ?g3 = gw_clients g" and q3: "quiet ?g3 = quiet ?g2"
    by (simp_all add: delivered split: option.split)
  have "wired ?g3" using i3 by (simp add: implements_def)
  from implements_trans [OF i3 deliver_implements [OF this, of conn "EvFill f"]] show ?thesis
    using cl q3 by (simp add: x_response_def handle_fill_def Let_def x_deliver_def)
qed

lemma response_implements:
  assumes "wired g"
  shows "implements g (x_response conn ev (quiet g)) (engine_response (ClientEvent conn ev tok) g)"
proof -
  have plain: "implements g (x_deliver conn ev (quiet g), quiet g) (deliver conn ev g)"
    by (rule deliver_implements [OF assms])
  show ?thesis
    using plain fill_implements [OF assms] deliver_after [OF silent_updates(2) [OF assms]]
      deliver_after [OF silent_updates(3) [OF assms]]
    by (cases ev) (simp_all add: x_response_def)
qed

lemma responses_implement:
  assumes "wired g"
  shows "implements g (x_responses conn evs (quiet g))
    (fold (\<lambda>ev. engine_response (ClientEvent conn ev None)) evs g)"
  using assms
proof (induction evs arbitrary: g)
  case (Cons ev evs)
  obtain outs h where x: "x_response conn ev (quiet g) = (outs, h)" by fastforce
  let ?g1 = "engine_response (ClientEvent conn ev None) g"
  note i = response_implements [OF Cons.prems, of conn ev None, unfolded x]
  then have "wired ?g1" "h = quiet ?g1" by (simp_all add: implements_def)
  moreover obtain outs' h' where "x_responses conn evs (quiet ?g1) = (outs', h')" by fastforce
  ultimately show ?case using implements_trans [OF i] Cons.IH [of ?g1] x by simp
qed (simp add: implements_id)

end

end
