(* ===== verification/StackRefines.thy ===== *)
theory StackRefines
  imports StackSim
begin

text \<open>
  The engine server's side of the simulation, and the simulation of the whole stack.
\<close>

section \<open>The engine server's side\<close>

lemma server_tick_state [simp]:
  "sv_queue (server_tick Q s) = sv_queue s" "sv_cap (server_tick Q s) = sv_cap s" "sv_outbound (server_tick Q s) = []"
  "agree (sv_engine (server_tick Q s)) d = agree (sv_engine s) d"
proof -
  have f: "sv_queue (send_frame Q m s) = sv_queue s" "sv_cap (send_frame Q m s) = sv_cap s"
    "sv_outbound (send_frame Q m s) = sv_outbound s" "agree (sv_engine (send_frame Q m s)) d = agree (sv_engine s) d"
    for m and s :: "'a engine_server"
    by (simp_all add: send_frame_def on_metrics_def split: option.split)
  have "sv_queue (foldl (\<lambda>s out. send_frame Q (client_event (out_conn_id out) (out_ev out) None) s) s outs) = sv_queue s \<and>
      sv_cap (foldl (\<lambda>s out. send_frame Q (client_event (out_conn_id out) (out_ev out) None) s) s outs) = sv_cap s \<and>
      sv_outbound (foldl (\<lambda>s out. send_frame Q (client_event (out_conn_id out) (out_ev out) None) s) s outs) = sv_outbound s \<and>
      agree (sv_engine (foldl (\<lambda>s out. send_frame Q (client_event (out_conn_id out) (out_ev out) None) s) s outs)) d =
        agree (sv_engine s) d" for s :: "'a engine_server" and outs :: "outbound list"
    by (induction outs arbitrary: s) (simp_all add: f)
  then show "sv_queue (server_tick Q s) = sv_queue s" "sv_cap (server_tick Q s) = sv_cap s"
    "sv_outbound (server_tick Q s) = []" "agree (sv_engine (server_tick Q s)) d = agree (sv_engine s) d"
    by (simp_all add: server_tick_def)
qed

lemma server_tick_frames:
  assumes "\<And>m. sd_to Q m \<noteq> None"
  shows "sv_frames (server_tick Q s) = sv_frames s @
    map (\<lambda>out. the (sd_to Q (client_event (out_conn_id out) (out_ev out) None))) (sv_outbound s)"
proof -
  have f: "sv_frames (send_frame Q m s) = sv_frames s @ [the (sd_to Q m)]" for m and s :: "'a engine_server"
    using assms [of m] by (auto simp: send_frame_def)
  have "sv_frames (foldl (\<lambda>s out. send_frame Q (client_event (out_conn_id out) (out_ev out) None) s) s outs) = sv_frames s @
      map (\<lambda>out. the (sd_to Q (client_event (out_conn_id out) (out_ev out) None))) outs" for s :: "'a engine_server" and outs :: "outbound list"
    by (induction outs arbitrary: s) (simp_all add: f)
  then show ?thesis by (simp add: server_tick_def)
qed

lemma server_idle:
  "sv_outbound s = [] \<Longrightarrow> sv_queue s = [] \<Longrightarrow> server_handles S X [] s = Some s"
  by (simp add: server_handles_def server_tick_def)

lemma server_handles_one:
  assumes rd: "sd_from (sc_to_engine X) bs = Some (Execute ex)"
    and idle: "sv_queue s = []" "sv_outbound s = []" "0 < sv_cap s"
    and e: "agree (sv_engine s) d" and p: "process S (ex_command ex) d = Some (evs, d')"
    and Q: "serde (sc_to_gateway X)" "\<And>m. sd_to (sc_to_gateway X) m \<noteq> None"
  shows "\<exists>s'. server_handles S X [bs] s = Some s' \<and> agree (sv_engine s') d' \<and> sv_queue s' = [] \<and>
    sv_outbound s' = [] \<and> sv_cap s' = sv_cap s \<and>
    engine_reader (sc_to_gateway X) (drop (length (sv_frames s)) (sv_frames s')) =
      map (\<lambda>ev. ClientEvent (ex_conn_id ex) ev None) evs"
proof -
  let ?s = "server_receive S (sc_to_engine X) bs s"
  let ?inb = "\<lparr>in_conn_id = ex_conn_id ex, in_cmd = ex_command ex\<rparr>"
  have r: "sv_queue ?s = [?inb]" "sv_outbound ?s = []" "sv_frames ?s = sv_frames s" "sv_cap ?s = sv_cap s"
    "agree (sv_engine ?s) d"
    using rd idle e by (simp_all add: server_receive_def Let_def on_metrics_def)
  let ?e = "journal_step (sc_engine X) 0 (ex_command ex) ((sv_engine ?s)\<lparr>en_metrics := queue_dec (en_metrics (sv_engine ?s))\<rparr>)"
  have "agree ?e d" using r(5) by simp
  from agree_processE [OF this p] obtain e' where e': "process S (ex_command ex) ?e = Some (evs, e')" "agree e' d'" .
  let ?outs = "map (\<lambda>ev. \<lparr>out_conn_id = ex_conn_id ex, out_ev = ev\<rparr>) evs"
  let ?s1 = "?s\<lparr>sv_engine := after_command S (sc_engine X) 0 0 e', sv_queue := [], sv_outbound := ?outs\<rparr>"
  have "server_engine S (sc_engine X) 0 0 ?s = Some ?s1"
    using r(1,2) e'(1) by (simp add: server_engine_def run_step_def Let_def)
  then have h: "server_handles S X [bs] s = Some (server_tick (sc_to_gateway X) ?s1)"
    using r(1) by (simp add: server_handles_def)
  let ?bss = "map (\<lambda>ev. the (sd_to (sc_to_gateway X) (ClientEvent (ex_conn_id ex) ev None))) evs"
  have "drop (length (sv_frames s)) (sv_frames (server_tick (sc_to_gateway X) ?s1)) = ?bss"
    using r(3) by (simp add: server_tick_frames [OF Q(2)] client_event_def comp_def)
  moreover have "engine_reader (sc_to_gateway X) ?bss = map (\<lambda>ev. ClientEvent (ex_conn_id ex) ev None) evs"
  proof (induction evs)
    case (Cons ev evs)
    obtain b where b: "sd_to (sc_to_gateway X) (ClientEvent (ex_conn_id ex) ev None) = Some b" using Q(2) by blast
    show ?case using Cons.IH b serde.from_to [OF Q(1) b] by (simp add: engine_reader_def List.map_filter_simps)
  qed (simp add: engine_reader_def List.map_filter_simps)
  ultimately show ?thesis using h r(4) e'(2) by (intro exI [of _ "server_tick (sc_to_gateway X) ?s1"]) simp
qed

section \<open>The stack\<close>

definition lawful_crates :: "stack_crates \<Rightarrow> bool" where
  "lawful_crates X \<longleftrightarrow> serde (sc_to_engine X) \<and> (\<forall>m. sd_to (sc_to_engine X) m \<noteq> None) \<and>
     serde (sc_to_gateway X) \<and> (\<forall>m. sd_to (sc_to_gateway X) m \<noteq> None)"

definition one_engine :: "gateway \<Rightarrow> bool" where
  "one_engine g \<longleftrightarrow> er_faults (gw_router g) = [] \<and> (\<exists>sk. er_senders (gw_router g) = [(1, sk)] \<and> sk_fed sk = [])"

definition stack_rel :: "client_codec \<Rightarrow> 's exchange \<Rightarrow> 's stack \<Rightarrow> bool" where
  "stack_rel K x t \<longleftrightarrow>
     xc_gateway x = quiet (sy_gateway (st_gateway t)) \<and> xc_local x = sy_locals (st_gateway t) (st_conn t) \<and>
     agree (sv_engine (st_server t)) (xc_engine x) \<and> one_engine (sy_gateway (st_gateway t)) \<and>
     (\<forall>c info. map_of (gw_clients (sy_gateway (st_gateway t))) c = Some info \<longrightarrow> ci_codec info = K) \<and>
     map_of (gw_clients (sy_gateway (st_gateway t))) (st_conn t) \<noteq> None \<and>
     sv_queue (st_server t) = [] \<and> sv_outbound (st_server t) = [] \<and> 0 < sv_cap (st_server t)"

lemma to_client_frames:
  "to_client conn (map (map_prod id f) outs) = map f (events_for conn outs)"
  by (induction outs) (auto simp: to_client_def events_for_def)

lemma stack_payload_via:
  assumes "gw_act (sc_to_engine X) (Frame (st_conn t) bs) (st_gateway t) = gw1"
    and "server_handles S X (drop (length (to_symbol 1 (sy_gateway (st_gateway t)))) (to_symbol 1 (sy_gateway gw1)))
      (st_server t) = Some sv"
    and "engine_reader (sc_to_gateway X) (drop (length (sv_frames (st_server t))) (sv_frames sv)) = rs"
    and "fold (\<lambda>r. gw_act (sc_to_engine X) (Response r)) rs gw1 = gw2"
  shows "stack_payload S X bs t =
    Some (to_client (st_conn t) (drop (length (gw_sent (sy_gateway (st_gateway t)))) (gw_sent (sy_gateway gw2))),
      t\<lparr>st_gateway := gw2, st_server := sv\<rparr>)"
  using assms by (simp add: stack_payload_def Let_def del: gw_act.simps)

lemma reader_empty: "engine_reader Q [] = []"
  by (simp add: engine_reader_def List.map_filter_simps)

context gateway_wire begin

lemma handle_clients:
  assumes "client_frame P K conn bs loc g = (loc', g')"
  shows "gw_clients g' = gw_clients g"
proof -
  have r: "gw_clients (reject_client K conn cs oid reason h) = gw_clients h" for cs oid reason h
    by (simp add: reject_client_def respond_def take_seq_def split: prod.split sum.split)
  have s: "gw_clients h' = gw_clients h" if "send_command P cmd conn acc amount symb h = (r, h')" for cmd acc amount symb h r h'
    using that by (auto simp: send_command_def take_seq_def split: prod.splits)
  have m: "gw_clients (mark_pending operation oid h) = gw_clients h" for operation oid h
    by (simp add: mark_pending_def split: option.split)
  have q: "gw_clients (answer_query K conn q h) = gw_clients h" "gw_clients (answer_auth K conn a h) = gw_clients h" for q a h
    by (simp_all add: answer_query_def answer_auth_def r respond_def take_seq_def split: option.split prod.split sum.split)
  have c: "gw_clients (snd (handle_cancel P K conn c symb loc h)) = gw_clients h" for c symb h
    by (auto simp: handle_cancel_def Let_def r m dest!: s split: prod.split sum.split)
  have v: "gw_clients h' = gw_clients h" if "reserve_for K conn cmd h = (t, h')" for cmd t h h'
    using that by (auto simp: reserve_for_def on_table_def r split: command.splits option.splits prod.splits sum.splits)
  have t: "gw_clients h' = gw_clients h" if "track_order conn cmd b tok loc h = (l, h')" for cmd b tok l h h'
    using that by (auto simp: track_order_def split: command.splits option.splits)
  have u: "gw_clients (snd (unroutable K conn cmd tok l h)) = gw_clients h" for cmd tok l h
    by (simp add: unroutable_def r split: prod.split)
  have o: "gw_clients (snd (handle_order P K conn cmd symb loc h)) = gw_clients h" for cmd symb h
    by (auto simp: handle_order_def Let_def u dest!: v t s split: prod.split option.split sum.split)
  have hc: "gw_clients (snd (handle_command P K conn cmd loc h)) = gw_clients h" for cmd h
    by (cases cmd) (simp_all add: handle_command_def q r c o)
  show ?thesis
  proof (cases "cc_decode K bs")
    case (Inr cmd)
    with assms hc [of cmd "g\<lparr>gw_metrics := inc_frames_in (gw_metrics g)\<rparr>"] show ?thesis
      by (simp add: client_frame_def Let_def)
  qed (use assms in \<open>auto simp: client_frame_def Let_def\<close>)
qed

lemma response_clients [simp]: "gw_clients (engine_response r g) = gw_clients g"
proof (cases r)
  case (ClientEvent conn ev token)
  then show ?thesis
    by (cases ev) (simp_all add: delivered handle_fill_def Let_def split: option.split)
qed simp_all

lemma fold_gw_act:
  "fold (\<lambda>r. gw_act P' (Response r)) (map (\<lambda>ev. ClientEvent conn ev None) evs) s =
   s\<lparr>sy_gateway := fold (\<lambda>ev. engine_response (ClientEvent conn ev None)) evs (sy_gateway s)\<rparr>"
  by (induction evs arbitrary: s) simp_all

lemma fold_responses_clients [simp]:
  "gw_clients (fold (\<lambda>ev. engine_response (ClientEvent conn ev None)) evs g) = gw_clients g"
  by (induction evs arbitrary: g) (simp_all del: engine_response.simps)

lemma stack_step:
  assumes rel: "stack_rel K x t" and laws: "lawful_crates X" "sc_to_engine X = P"
    and dec: "cc_decode K bs = Inr cmd"
    and step: "x_step S (st_conn t) cmd x = Some (outs, x')" and rd: "readables outs"
  shows "\<exists>t'. stack_payload S X bs t = Some (map encoded (events_for (st_conn t) outs), t') \<and>
    stack_rel K x' t' \<and> st_conn t' = st_conn t"
proof -
  let ?conn = "st_conn t" and ?g = "sy_gateway (st_gateway t)" and ?loc = "sy_locals (st_gateway t) (st_conn t)"
  have Q: "serde (sc_to_gateway X)" "\<And>m. sd_to (sc_to_gateway X) m \<noteq> None"
    using laws by (auto simp: lawful_crates_def)
  have w: "wired ?g" using rel by (simp add: stack_rel_def one_engine_def wired_def)
  obtain info where info: "map_of (gw_clients ?g) ?conn = Some info" "ci_codec info = K"
    using rel by (auto simp: stack_rel_def)
  obtain loc1 g1 where fr: "client_frame P K ?conn bs ?loc ?g = (loc1, g1)" by fastforce
  obtain outs1 c loc h where xh: "x_handle ?conn cmd ?loc (quiet ?g) = (outs1, c, loc, h)" by (metis surj_pair)
  have pf: "loc1 = loc" "quiet g1 = h" "wired g1" "routed ?conn c ?g g1"
    "readables outs1 \<longrightarrow> gw_sent g1 = gw_sent ?g @ frames_of outs1"
    using frame_performs [OF w dec, of ?conn ?loc] by (simp_all add: xh fr performs_def)
  have cl: "gw_clients g1 = gw_clients ?g" by (rule handle_clients [OF fr])
  let ?gw1 = "\<lparr>sy_gateway = g1, sy_locals = (sy_locals (st_gateway t))(?conn := loc)\<rparr>"
  have act: "gw_act P (Frame ?conn bs) (st_gateway t) = ?gw1" using info fr pf(1) by simp
  have idle: "sv_queue (st_server t) = []" "sv_outbound (st_server t) = []" "0 < sv_cap (st_server t)"
    "agree (sv_engine (st_server t)) (xc_engine x)" and xg: "xc_gateway x = quiet ?g" "xc_local x = ?loc"
    using rel by (simp_all add: stack_rel_def)
  show ?thesis
  proof (cases c)
    case None
    then have st: "outs = outs1" "x' = x\<lparr>xc_gateway := h, xc_local := loc\<rparr>"
      using step by (simp_all add: x_step_def xg xh)
    have "to_symbol 1 g1 = to_symbol 1 ?g" using pf(4) None by (simp add: routed_def)
    then have "server_handles S X (drop (length (to_symbol 1 ?g)) (to_symbol 1 (sy_gateway ?gw1))) (st_server t) = Some (st_server t)"
      using server_idle [OF idle(2,1)] by simp
    from stack_payload_via [OF act [folded laws(2)] this refl refl]
    have "stack_payload S X bs t = Some (to_client ?conn (drop (length (gw_sent ?g)) (gw_sent g1)), t\<lparr>st_gateway := ?gw1\<rparr>)"
      by (simp add: reader_empty)
    moreover have "drop (length (gw_sent ?g)) (gw_sent g1) = frames_of outs" using pf(5) rd st(1) by simp
    moreover have "stack_rel K x' (t\<lparr>st_gateway := ?gw1\<rparr>)"
      using rel pf(2,3) cl by (simp add: stack_rel_def st(2) wired_def one_engine_def)
    ultimately show ?thesis by (simp add: frames_of_def to_client_frames)
  next
    case (Some cmd')
    obtain evs e where pr: "process S cmd' (xc_engine x) = Some (evs, e)"
      using step Some by (auto simp: x_step_def xg xh split: option.splits)
    obtain outs2 h2 where xr: "x_responses ?conn evs h = (outs2, h2)" by fastforce
    have st: "outs = outs1 @ outs2" "x' = \<lparr>xc_gateway = h2, xc_local = loc, xc_engine = e\<rparr>"
      using step by (simp_all add: x_step_def xg xh Some pr xr)
    obtain tok m where m: "sd_to P (execute cmd' ?conn tok) = Some m" "to_symbol 1 g1 = to_symbol 1 ?g @ [m]"
      using pf(4) Some by (auto simp: routed_def)
    have rdm: "sd_from (sc_to_engine X) m = Some (Execute \<lparr>ex_command = cmd', ex_conn_id = ?conn, ex_risk_token = tok\<rparr>)"
      using requests_read [OF m(1)] laws(2) by (simp add: execute_def)
    from server_handles_one [OF rdm idle(1-4) _ Q, of S evs e] pr obtain sv where
      sv: "server_handles S X [m] (st_server t) = Some sv" "agree (sv_engine sv) e" "sv_queue sv = []"
        "sv_outbound sv = []" "sv_cap sv = sv_cap (st_server t)"
        "engine_reader (sc_to_gateway X) (drop (length (sv_frames (st_server t))) (sv_frames sv)) =
          map (\<lambda>ev. ClientEvent ?conn ev None) evs" by auto
    let ?g2 = "fold (\<lambda>ev. engine_response (ClientEvent ?conn ev None)) evs g1"
    have "implements g1 (outs2, h2) ?g2" using responses_implement [OF pf(3), of ?conn evs] xr pf(2) by simp
    then have g2: "quiet ?g2 = h2" "wired ?g2" "gw_sent ?g2 = gw_sent ?g @ frames_of outs"
      using pf(5) rd by (simp_all add: implements_def st(1) ball_Un)
    let ?t = "t\<lparr>st_gateway := ?gw1\<lparr>sy_gateway := ?g2\<rparr>, st_server := sv\<rparr>"
    have "server_handles S X (drop (length (to_symbol 1 ?g)) (to_symbol 1 (sy_gateway ?gw1))) (st_server t) = Some sv"
      using sv(1) m(2) by simp
    from stack_payload_via [OF act [folded laws(2)] this sv(6) fold_gw_act]
    have "stack_payload S X bs t = Some (to_client ?conn (drop (length (gw_sent ?g)) (gw_sent ?g2)), ?t)" by simp
    moreover have "stack_rel K x' ?t"
      using rel g2(1,2) cl sv by (simp add: stack_rel_def st(2) wired_def one_engine_def)
    ultimately show ?thesis using g2(3) by (simp add: frames_of_def to_client_frames)
  qed
qed

end

end
