(* ===== verification/StackClient.thy ===== *)
theory StackClient
  imports StackRefines EngineProps
begin

text \<open>
  Clients that talk to the stack: what a client writes and reads, in terms of the steps of the exchange;
  and the stack as it is after a start from empty files, with the ten test accounts.
\<close>

section \<open>Conversations\<close>

fun x_talk ::
  "('s, order) slab_ops \<Rightarrow> u64 \<Rightarrow> command list \<Rightarrow> 's exchange \<Rightarrow> (outputs list \<times> 's exchange) option"
where
  "x_talk S conn [] x = Some ([], x)"
| "x_talk S conn (cmd # cmds) x =
     (case x_step S conn cmd x of
        None \<Rightarrow> None
      | Some (outs, x1) \<Rightarrow> map_option (\<lambda>(oss, x2). (outs # oss, x2)) (x_talk S conn cmds x1))"

lemma x_talk_Cons:
  "map_option fst (x_talk S conn (cmd # cmds) x) = Some (outs # oss) \<longleftrightarrow>
   (\<exists>x1. x_step S conn cmd x = Some (outs, x1) \<and> map_option fst (x_talk S conn cmds x1) = Some oss)"
  by (auto split: option.splits)

lemma x_talk_Nil: "map_option fst (x_talk S conn [] x) = Some []"
  by simp

lemma fst_with_connection:
  "nw_connect N addr p = Some p1 \<Longrightarrow> fst (with_connection N addr body p) = fst (body \<lparr>so_peer = p1, so_inbox = []\<rparr>)"
  by (auto simp: with_connection_def split: prod.split sum.split client_err.split)

lemma unframe_payload: "length bs < 2 ^ 32 \<Longrightarrow> unframe (frame_payload bs) = Some bs"
  using read_one_frame_payload [where p = bs and s = "\<lparr>so_peer = (), so_inbox = []\<rparr>" and rest = "[]"] by (simp add: unframe_def)

context gateway_wire begin

definition talks :: "u64 \<Rightarrow> 's exchange \<Rightarrow> 's stack socket \<Rightarrow> bool" where
  "talks conn x s \<longleftrightarrow> stack_rel K x (so_peer s) \<and> st_conn (so_peer s) = conn \<and> so_inbox s = []"

lemma written:
  assumes "talks conn x s" and laws: "lawful_crates X" "sc_to_engine X = P"
    and cmd: "sendable cmd" "payload cmd = Some bs"
    and step: "x_step S conn cmd x = Some (outs, x')" "readables outs"
  shows "\<exists>t. socket_write (stack_network S X) (frame_payload bs) s =
      (Inr (), s\<lparr>so_peer := t, so_inbox := framed (map encoded (events_for conn outs))\<rparr>) \<and>
    stack_rel K x' t \<and> st_conn t = conn"
proof -
  have bs: "length bs < 2 ^ 32" "cc_decode K bs = Inr cmd" using sent [OF cmd(1)] cmd(2) by auto
  have t: "stack_rel K x (so_peer s)" "st_conn (so_peer s) = conn" "so_inbox s = []"
    using assms(1) by (simp_all add: talks_def)
  from stack_step [OF t(1) laws bs(2), of S outs x'] step obtain t' where
    "stack_payload S X bs (so_peer s) = Some (map encoded (events_for conn outs), t')" "stack_rel K x' t'" "st_conn t' = conn"
    unfolding t(2) by blast
  then show ?thesis
    by (intro exI [of _ t']) (simp add: socket_write_def stack_network_def unframe_payload [OF bs(1)] t(3) framed_def)
qed

lemma events_readable: "readables outs \<Longrightarrow> \<forall>ev \<in> set (events_for conn outs). readable ev"
  by (auto simp: events_for_def)

text \<open>A command followed by reading up to its acknowledgement, up to one event, or up to a number of events.\<close>

lemma said_until_ack:
  assumes "talks conn x s" and "lawful_crates X" and "sc_to_engine X = P" and "sendable cmd" and "payload cmd = Some bs"
    and "x_step S conn cmd x = Some (outs, x')" and "readables outs"
    and u: "until_ack cs (map view (events_for conn outs)) = (r, vs)"
  shows "\<exists>s'. client_bind (socket_write (stack_network S X) (frame_payload bs) s) (\<lambda>_. read_until_ack parse cs) = (r, s') \<and>
    (vs = [] \<longrightarrow> talks conn x' s')"
proof -
  obtain t where w: "socket_write (stack_network S X) (frame_payload bs) s =
      (Inr (), s\<lparr>so_peer := t, so_inbox := framed (map encoded (events_for conn outs))\<rparr>)"
    "stack_rel K x' t" "st_conn t = conn"
    using written [OF assms(1-7)] by blast
  have "read_until_ack parse cs (s\<lparr>so_peer := t, so_inbox := framed (map encoded (events_for conn outs))\<rparr>) =
      (r, s\<lparr>so_peer := t, so_inbox := frames_left (map encoded (events_for conn outs)) vs\<rparr>)"
    using read_until_ack_events [OF events_readable [OF assms(7)],
        of "s\<lparr>so_peer := t, so_inbox := framed (map encoded (events_for conn outs))\<rparr>"] u by simp
  with w show ?thesis by (auto simp: client_bind_def talks_def frames_left_def)
qed

lemma said_one:
  assumes "talks conn x s" and "lawful_crates X" and "sc_to_engine X = P" and "sendable cmd" and "payload cmd = Some bs"
    and "x_step S conn cmd x = Some (outs, x')" and "readables outs" and "events_for conn outs = [ev]"
  shows "\<exists>s1 s'. socket_write (stack_network S X) (frame_payload bs) s = (Inr (), s1) \<and>
    read_event parse s1 = (view ev, s') \<and> read_one_frame s1 = (Inr (encoded ev), s') \<and> talks conn x' s'"
proof -
  obtain t where w: "socket_write (stack_network S X) (frame_payload bs) s =
      (Inr (), s\<lparr>so_peer := t, so_inbox := framed (map encoded (events_for conn outs))\<rparr>)"
    "stack_rel K x' t" "st_conn t = conn"
    using written [OF assms(1-7)] by blast
  have "readable ev" using events_readable [OF assms(7), of conn] assms(8) by simp
  from encoded_laws [OF this] read_one_frame_payload [where p = "encoded ev" and s = "s\<lparr>so_peer := t\<rparr>" and rest = "[]"]
    read_event_payload [where p = "encoded ev" and parse = parse and s = "s\<lparr>so_peer := t\<rparr>" and rest = "[]"] w show ?thesis
    by (intro exI [of _ "s\<lparr>so_peer := t, so_inbox := framed (map encoded (events_for conn outs))\<rparr>"]
        exI [of _ "s\<lparr>so_peer := t, so_inbox := []\<rparr>"]) (simp add: talks_def assms(8))
qed

end

section \<open>The JSON client\<close>

locale json_wire = gateway_wire K "js_to_vec J" "parse_json_event J" Inr sendable_command readable_event P
  for K :: client_codec and J :: json_crate and P :: "gateway_to_engine serde" +
  fixes X :: stack_crates
  assumes crates: "lawful_crates X" "sc_to_engine X = P"
begin

lemma written_payload: "sendable_command cmd \<Longrightarrow> \<exists>bs. js_to_vec J cmd = Some bs"
  using sent by blast

lemma sends:
  assumes "talks conn x s" and "sendable_command cmd" and "x_step S conn cmd x = Some (outs, x')" and "readables outs"
    and "until_ack cs (map Inr (events_for conn outs)) = (r, [])"
  shows "\<exists>s'. send_json (stack_network S X) J cmd cs s = (r, s') \<and> talks conn x' s'"
proof -
  obtain bs where "js_to_vec J cmd = Some bs" using written_payload [OF assms(2)] by blast
  with said_until_ack [OF assms(1) crates assms(2) this assms(3,4,5)] show ?thesis
    by (simp add: send_json_def write_json_cmd_def read_until_ack_json_def)
qed

lemma logs_in:
  assumes "talks conn x s" and "sendable_command (Authenticate \<lparr>au_api_key = key\<rparr>)"
    and "x_step S conn (Authenticate \<lparr>au_api_key = key\<rparr>) x = Some ([(conn, EvAuthSuccess a)], x')"
  shows "\<exists>s'. authenticate_json (stack_network S X) J key s = (Inr (), s') \<and> talks conn x' s'"
proof -
  obtain bs where bs: "js_to_vec J (Authenticate \<lparr>au_api_key = key\<rparr>) = Some bs" using written_payload [OF assms(2)] by blast
  have "readables [(conn, EvAuthSuccess a)]" by (simp add: readable_event_def)
  from said_one [OF assms(1) crates assms(2) bs assms(3) this] bs show ?thesis
    by (auto simp: authenticate_json_def write_json_cmd_def read_json_event_def client_bind_def events_for_def)
qed

lemma counts:
  assumes "talks conn x s" and "sendable_command cmd" and "x_step S conn cmd x = Some (outs, x')" and "readables outs"
  shows "\<exists>s1. write_json_cmd (stack_network S X) J cmd s = (Inr (), s1) \<and>
    fst (read_n_events_json J n s1) =
      (if n \<le> length (events_for conn outs) then Inr (take n (events_for conn outs)) else Inl Waits)"
proof -
  obtain bs where bs: "js_to_vec J cmd = Some bs" using written_payload [OF assms(2)] by blast
  let ?evs = "events_for conn outs" and ?ps = "map encoded (events_for conn outs)"
  obtain t where w: "socket_write (stack_network S X) (frame_payload bs) s = (Inr (), s\<lparr>so_peer := t, so_inbox := framed ?ps\<rparr>)"
    using written [OF assms(1) crates assms(2) bs assms(3,4)] by blast
  let ?s1 = "s\<lparr>so_peer := t, so_inbox := framed ?ps\<rparr>"
  have rd: "\<forall>ev \<in> set ?evs. readable_event ev" by (rule events_readable [OF assms(4)])
  note short = encoded_list(1) [OF rd]
  let ?dec = "\<lambda>p. case parse_json_event J p of Inr ev \<Rightarrow> ev | Inl _ \<Rightarrow> undefined"
  have p: "parse_json_event J p = Inr (?dec p)" if "p \<in> set ?ps" for p
    using that rd encoded_laws(3) by auto
  have d: "map ?dec ?ps = ?evs" using rd encoded_laws(3) by (simp add: map_idI)
  have "fst (read_n_events_json J n ?s1) = (if n \<le> length ?evs then Inr (take n ?evs) else Inl Waits)"
  proof (cases "n \<le> length ?evs")
    case True
    have "take n ?evs = map ?dec (take n ?ps)" by (metis d take_map)
    with True read_n_events_list [OF short _ _ p, of ?s1 n] show ?thesis by simp
  next
    case False
    with read_n_events_waits [OF short _ _ p, of ?s1 n] show ?thesis by simp
  qed
  with w bs show ?thesis by (auto simp: write_json_cmd_def)
qed

end

section \<open>A fresh stack\<close>

definition test_accounts :: "(account_id, gw_account) hashmap" where
  "test_accounts = map (\<lambda>i. (of_nat i, new_gw_account (of_nat i) 1000000)) [1..<11]"

definition fresh_gateway :: "acct_journal option \<Rightarrow> gateway" where
  "fresh_gateway j =
     \<lparr>gw_table = \<lparr>gm_accounts = test_accounts, gm_next_seq = 1, gm_journal = j\<rparr>,
      gw_router = \<lparr>er_senders = [], er_faults = []\<rparr>, gw_auth = register_test_keys new_auth_service,
      gw_sessions = new_session_manager, gw_metrics = default_metrics, gw_pending = [], gw_clients = [],
      gw_sent = []\<rparr>"

definition fresh_stack :: "'s engine \<Rightarrow> 's stack \<Rightarrow> bool" where
  "fresh_stack e t \<longleftrightarrow>
     (\<exists>j. quiet (sy_gateway (st_gateway t)) = fresh_gateway j) \<and> one_engine (sy_gateway (st_gateway t)) \<and>
     agree (sv_engine (st_server t)) e \<and> sv_queue (st_server t) = [] \<and> sv_outbound (st_server t) = [] \<and>
     0 < sv_cap (st_server t) \<and> st_next_conn t = 1"

definition x_start :: "client_codec \<Rightarrow> acct_journal option \<Rightarrow> 's engine \<Rightarrow> 's exchange" where
  "x_start K j e = \<lparr>xc_gateway = quiet (client_connect K 1 (fresh_gateway j)), xc_local = [], xc_engine = e\<rparr>"

lemma quiet_client_connect: "quiet (client_connect K conn g) = quiet (client_connect K conn (quiet g))"
  by (simp add: client_connect_def quiet_def)

lemma fresh_connect:
  assumes "fresh_stack e t" and "sc_codec_of X addr = K"
  shows "\<exists>t1 j. nw_connect (stack_network S X) addr t = Some t1 \<and> stack_rel K (x_start K j e) t1 \<and> st_conn t1 = 1"
proof -
  obtain j where j: "quiet (sy_gateway (st_gateway t)) = fresh_gateway j"
    using assms(1) by (auto simp: fresh_stack_def)
  have "gw_clients (quiet (sy_gateway (st_gateway t))) = []" unfolding j by (simp add: fresh_gateway_def)
  then have cl: "gw_clients (sy_gateway (st_gateway t)) = []" by simp
  let ?t = "t\<lparr>st_next_conn := st_next_conn t + 1, st_conn := 1,
    st_gateway := gw_act (sc_to_engine X) (Connect K 1) (st_gateway t)\<rparr>"
  have "nw_connect (stack_network S X) addr t = Some ?t"
    using assms by (simp add: stack_network_def fresh_stack_def)
  moreover have "stack_rel K (x_start K j e) ?t"
    using assms(1) cl by (simp add: stack_rel_def x_start_def fresh_stack_def one_engine_def client_connect_def flip: j)
      (simp add: quiet_def)
  ultimately show ?thesis by auto
qed

end
