(* ===== verification/Conversations.thy ===== *)
theory Conversations
  imports StackClient
begin

text \<open>
  The conversations of the smoke scenarios with the exchange, evaluated: what each command of a scenario
  is answered with on a fresh stack.
\<close>

section \<open>The conversations\<close>

definition login :: "string \<Rightarrow> command" where
  "login key = Authenticate \<lparr>au_api_key = key\<rparr>"

definition top_ev :: "u64 \<Rightarrow> (price \<times> qty) option \<Rightarrow> (price \<times> qty) option \<Rightarrow> u64 \<times> event" where
  "top_ev sq bid ask =
     (1, EvBookTop \<lparr>bt_server_seq = sq, bt_symbol_id = 1, bt_best_bid_px = map_option fst bid,
        bt_best_bid_qty = map_option snd bid, bt_best_ask_px = map_option fst ask,
        bt_best_ask_qty = map_option snd ask\<rparr>)"

definition ack_of :: "u64 \<Rightarrow> u64 \<Rightarrow> order_id \<Rightarrow> u64 \<times> event" where
  "ack_of sq cs oid = (1, EvAck \<lparr>ak_server_seq = sq, ak_client_seq = cs, ak_order_id = oid\<rparr>)"

definition traded :: "u64 \<Rightarrow> u64 \<Rightarrow> order_id \<Rightarrow> order_id \<Rightarrow> price \<Rightarrow> qty \<Rightarrow> u64 \<times> event" where
  "traded sq cs taker maker px q =
     (1, EvFill \<lparr>fi_server_seq = sq, fi_client_seq = cs, fi_symbol_id = 1, fi_taker_order_id = taker,
        fi_maker_order_id = maker, fi_price = px, fi_qty = q\<rparr>)"

definition logged_in :: "account_id \<Rightarrow> outputs" where
  "logged_in acc = [(1, EvAuthSuccess \<lparr>ok_account_id = acc\<rparr>)]"

definition reject_of :: "u64 \<Rightarrow> u64 \<Rightarrow> order_id option \<Rightarrow> reject_reason \<Rightarrow> u64 \<times> event" where
  "reject_of sq cs oid reason =
     (1, EvReject \<lparr>rj_server_seq = sq, rj_client_seq = cs, rj_order_id = oid, rj_reason = reason\<rparr>)"

definition conversation :: "command list \<Rightarrow> client_codec \<Rightarrow> acct_journal option \<Rightarrow> outputs list option" where
  "conversation cmds K j = map_option fst (x_talk vec_slab 1 cmds (x_start K j ex_engine))"

lemma talk_json:
  "conversation [login ''test-key-7'', client_order 1 1 7 Buy 100 10 Gtc False] K j =
     Some [logged_in 7, [top_ev 1 (Some (100, 10)) None, ack_of 2 1 1]]"
  by code_simp

lemma talk_match:
  "conversation [login ''test-key-7'', client_order 1 101 7 Sell 100 5 Gtc False,
       client_order 2 202 7 Buy 110 3 Gtc False] K j =
     Some [logged_in 7, [top_ev 1 None (Some (100, 5)), ack_of 2 1 101],
       [traded 3 2 202 101 100 3, traded 3 2 202 101 100 3, top_ev 4 None (Some (100, 2)), ack_of 5 2 202]]"
  by code_simp

lemma talk_postonly:
  "conversation [login ''test-key-7'', client_order 1 301 7 Sell 100 5 Gtc False,
       client_order 2 302 7 Buy 110 1 Gtc True] K j =
     Some [logged_in 7, [top_ev 1 None (Some (100, 5)), ack_of 2 1 301],
       [reject_of 3 2 (Some 302) PostOnlyWouldCross]]"
  by code_simp

lemma talk_ioc:
  "conversation [login ''test-key-7'', client_order 1 401 7 Sell 100 5 Gtc False,
       client_order 2 402 7 Buy 110 10 Ioc False] K j =
     Some [logged_in 7, [top_ev 1 None (Some (100, 5)), ack_of 2 1 401],
       [traded 3 2 402 401 100 5, traded 3 2 402 401 100 5, top_ev 4 None None, ack_of 5 2 402]]"
  by code_simp

lemma talk_cancel:
  "conversation [login ''test-key-5'', client_order 1 5001 5 Buy 50000 1 Gtc True,
       Cancel \<lparr>ca_client_seq = 2, ca_order_id = 5001, ca_account_id = 5, ca_symbol_id = 1\<rparr>,
       client_order 3 5002 5 Buy 50000 1 Gtc True] K j =
     Some [logged_in 5, [top_ev 1 (Some (50000, 1)) None, ack_of 2 1 5001], [top_ev 3 None None, ack_of 4 2 5001],
       [top_ev 5 (Some (50000, 1)) None, ack_of 6 3 5002]]"
  by code_simp

definition replace_to :: "u64 \<Rightarrow> order_id \<Rightarrow> account_id \<Rightarrow> price \<Rightarrow> qty \<Rightarrow> command" where
  "replace_to cs oid acc px q =
     Replace \<lparr>re_client_seq = cs, re_order_id = oid, re_account_id = acc, re_symbol_id = 1, re_new_price = px,
       re_new_qty = q\<rparr>"

lemma talk_replace:
  "conversation [login ''test-key-6'', client_order 1 6001 6 Buy 40000 1 Gtc True,
       replace_to 2 6001 6 60000 1, replace_to 3 6001 6 30000 1] K j =
     Some [logged_in 6, [top_ev 1 (Some (40000, 1)) None, ack_of 2 1 6001],
       [top_ev 3 (Some (60000, 1)) None, ack_of 4 2 6001], [top_ev 5 (Some (30000, 1)) None, ack_of 6 3 6001]]"
  by code_simp

lemma talk_risk:
  "conversation [login ''test-key-8'', client_order 1 8001 8 Buy 2000000 1 Gtc False] K j =
     Some [logged_in 8, [reject_of 1 1 (Some 8001) Risk]]"
  by code_simp

lemma talk_stranger:
  "conversation [client_order 1 9001 42 Buy 110 1 Gtc False] K j = Some [[reject_of 1 0 None Invalid]]"
  by code_simp

end
