(* ===== verification/ScenarioProps.thy ===== *)
theory ScenarioProps
  imports Conversations
begin

text \<open>
  The smoke scenarios of the bench client against the stack: what becomes of each of them on a fresh
  stack, from the conversations evaluated in \<open>Conversations\<close>.
\<close>

section \<open>The scenarios\<close>

lemma smoke_keys [simp]: "sendable_command (login ''test-key-5'')" "sendable_command (login ''test-key-6'')"
  "sendable_command (login ''test-key-7'')" "sendable_command (login ''test-key-8'')"
  by (simp_all add: sendable_command_def login_def string_wf_def string_bytes_def)

lemma smoke_orders [simp]:
  "sendable_command (client_order cs oid acc s px q tif po) \<longleftrightarrow> i64_ok px \<and> i64_ok q"
  "sendable_command (replace_to cs oid acc px q) \<longleftrightarrow> i64_ok px \<and> i64_ok q"
  "sendable_command (Cancel c)"
  by (simp_all add: sendable_command_def client_order_def replace_to_def)

lemma smoke_events [simp]:
  "readable_event (snd (top_ev sq bid ask)) \<longleftrightarrow> opt_wf (map_option fst bid) \<and> opt_wf (map_option snd bid) \<and>
     opt_wf (map_option fst ask) \<and> opt_wf (map_option snd ask)"
  "readable_event (snd (ack_of sq cs oid))" "readable_event (snd (traded sq cs taker maker px q)) \<longleftrightarrow> i64_ok px \<and> i64_ok q"
  "readable_event (snd (reject_of sq cs oid' reason))"
  by (simp_all add: readable_event_def top_ev_def ack_of_def traded_def reject_of_def)

lemma events_for_1 [simp]:
  "events_for 1 [] = []" "events_for 1 (top_ev sq bid ask # xs) = snd (top_ev sq bid ask) # events_for 1 xs"
  "events_for 1 (ack_of sq cs oid # xs) = snd (ack_of sq cs oid) # events_for 1 xs"
  "events_for 1 (traded sq cs taker maker px q # xs) = snd (traded sq cs taker maker px q) # events_for 1 xs"
  "events_for 1 (reject_of sq cs oid' reason # xs) = snd (reject_of sq cs oid' reason) # events_for 1 xs"
  by (simp_all add: events_for_def top_ev_def ack_of_def traded_def reject_of_def)

lemma acks_simps [simp]:
  "acks n (snd (ack_of sq cs oid)) \<longleftrightarrow> cs = n" "\<not> acks n (snd (top_ev sq bid ask))"
  "\<not> acks n (snd (traded sq cs taker maker px q))" "\<not> acks n (snd (reject_of sq cs oid' reason))"
  by (auto simp: acks_def top_ev_def ack_of_def traded_def reject_of_def)

lemma talk_Cons:
  "map_option fst (x_talk S conn (cmd # cmds) x) = Some (outs # oss) \<Longrightarrow>
   \<exists>x1. x_step S conn cmd x = Some (outs, x1) \<and> map_option fst (x_talk S conn cmds x1) = Some oss"
  by (simp only: x_talk_Cons)

context json_wire begin

lemma opened:
  assumes "fresh_stack ex_engine t" and "sc_codec_of X addr = K"
    and conv: "\<And>j. conversation (login key # cmds) K j = Some (logged_in acc # oss)"
    and key: "sendable_command (login key)"
  shows "\<exists>t1 s x. nw_connect (stack_network vec_slab X) addr t = Some t1 \<and>
    authenticate_json (stack_network vec_slab X) J key \<lparr>so_peer = t1, so_inbox = []\<rparr> = (Inr (), s) \<and>
    talks 1 x s \<and> map_option fst (x_talk vec_slab 1 cmds x) = Some oss"
proof -
  obtain t1 j where t1: "nw_connect (stack_network vec_slab X) addr t = Some t1" "stack_rel K (x_start K j ex_engine) t1"
    "st_conn t1 = 1" using fresh_connect [OF assms(1,2), of vec_slab] by blast
  then have "talks 1 (x_start K j ex_engine) \<lparr>so_peer = t1, so_inbox = []\<rparr>" by (simp add: talks_def)
  moreover obtain x where x: "x_step vec_slab 1 (login key) (x_start K j ex_engine) = Some (logged_in acc, x)"
    "map_option fst (x_talk vec_slab 1 cmds x) = Some oss"
    using talk_Cons [OF conv [of j, unfolded conversation_def]] by blast
  ultimately show ?thesis
    using logs_in key t1(1) x unfolding login_def logged_in_def by blast
qed

lemma next_order:
  assumes "talks 1 x s" and "map_option fst (x_talk vec_slab 1 (cmd # cmds) x) = Some (outs # oss)"
    and "sendable_command cmd" and "readables outs" and "until_ack cs (map Inr (events_for 1 outs)) = (r, [])"
  shows "\<exists>s' x'. send_json (stack_network vec_slab X) J cmd cs s = (r, s') \<and> talks 1 x' s' \<and>
    map_option fst (x_talk vec_slab 1 cmds x') = Some oss"
  using talk_Cons [OF assms(2)] sends [OF assms(1,3) _ assms(4,5)] by blast

lemma next_count:
  assumes "talks 1 x s" and "map_option fst (x_talk vec_slab 1 (cmd # cmds) x) = Some (outs # oss)"
    and "sendable_command cmd" and "readables outs"
  shows "\<exists>s1. write_json_cmd (stack_network vec_slab X) J cmd s = (Inr (), s1) \<and>
    fst (read_n_events_json J n s1) =
      (if n \<le> length (events_for 1 outs) then Inr (take n (events_for 1 outs)) else Inl Waits)"
  using talk_Cons [OF assms(2)] counts [OF assms(1,3) _ assms(4)] by blast

lemmas scenario_simps = fst_with_connection client_bind_def opt_wf_def i64_ok_def i64_min_def i64_max_def

text \<open>A script of commands, each read up to its acknowledgement.\<close>

fun plays ::
  "(command \<times> u64) list \<Rightarrow> event list list \<Rightarrow> order option list stack socket \<Rightarrow> order option list stack socket \<Rightarrow> bool"
where
  "plays [] [] s s' \<longleftrightarrow> s' = s"
| "plays ((cmd, cs) # script) (evs # evss) s s' \<longleftrightarrow>
     (\<exists>s1. send_json (stack_network vec_slab X) J cmd cs s = (Inr evs, s1) \<and> plays script evss s1 s')"
| "plays _ _ s s' \<longleftrightarrow> False"

abbreviation answered :: "command \<times> u64 \<Rightarrow> outputs \<Rightarrow> bool" where
  "answered c outs \<equiv> sendable_command (fst c) \<and> readables outs \<and>
     until_ack (snd c) (map Inr (events_for 1 outs)) = (Inr (events_for 1 outs), [])"

lemma script_plays:
  assumes "talks 1 x s" and "map_option fst (x_talk vec_slab 1 (map fst script @ cmds) x) = Some (oss @ oss')"
    and "list_all2 answered script oss"
  shows "\<exists>s' x'. plays script (map (events_for 1) oss) s s' \<and> talks 1 x' s' \<and>
    map_option fst (x_talk vec_slab 1 cmds x') = Some oss'"
  using assms
proof (induction script arbitrary: oss x s)
  case Nil
  then show ?case by auto
next
  case (Cons c script)
  obtain cmd cs where c: "c = (cmd, cs)" by fastforce
  from Cons.prems(3) obtain outs rest where o: "oss = outs # rest" "answered c outs" "list_all2 answered script rest"
    by (auto simp: list_all2_Cons1)
  from next_order [OF Cons.prems(1), of cmd "map fst script @ cmds" outs "rest @ oss'" cs "Inr (events_for 1 outs)"]
    Cons.prems(2) o(1,2) c
  obtain s1 x1 where "send_json (stack_network vec_slab X) J cmd cs s = (Inr (events_for 1 outs), s1)" "talks 1 x1 s1"
    "map_option fst (x_talk vec_slab 1 (map fst script @ cmds) x1) = Some (rest @ oss')" by auto
  with Cons.IH [OF this(2,3) o(3)] c o(1) show ?case by auto
qed

lemma scenario_plays:
  assumes "fresh_stack ex_engine t" and "sc_codec_of X addr = K"
    and "\<And>j. conversation (login key # map fst script @ cmds) K j = Some (logged_in acc # oss @ oss')"
    and "sendable_command (login key)" and "list_all2 answered script oss"
  shows "\<exists>t1 s s' x. nw_connect (stack_network vec_slab X) addr t = Some t1 \<and>
    authenticate_json (stack_network vec_slab X) J key \<lparr>so_peer = t1, so_inbox = []\<rparr> = (Inr (), s) \<and>
    plays script (map (events_for 1) oss) s s' \<and> talks 1 x s' \<and> map_option fst (x_talk vec_slab 1 cmds x) = Some oss'"
  using opened [OF assms(1-4)] script_plays [OF _ _ assms(5)] by blast

text \<open>A scenario that ends by counting the events that answer its last command.\<close>

lemma scenario_counts:
  assumes "fresh_stack ex_engine t" and "sc_codec_of X addr = K"
    and "\<And>j. conversation (login key # map fst script @ [cmd]) K j = Some (logged_in acc # oss @ [outs])"
    and "sendable_command (login key)" and "list_all2 answered script oss" and "sendable_command cmd" and "readables outs"
  shows "\<exists>t1 s s' s1 s2. nw_connect (stack_network vec_slab X) addr t = Some t1 \<and>
    authenticate_json (stack_network vec_slab X) J key \<lparr>so_peer = t1, so_inbox = []\<rparr> = (Inr (), s) \<and>
    plays script (map (events_for 1) oss) s s' \<and> write_json_cmd (stack_network vec_slab X) J cmd s' = (Inr (), s1) \<and>
    read_n_events_json J n s1 =
      (if n \<le> length (events_for 1 outs) then Inr (take n (events_for 1 outs)) else Inl Waits, s2)"
proof -
  obtain t1 s s' x where p: "nw_connect (stack_network vec_slab X) addr t = Some t1"
    "authenticate_json (stack_network vec_slab X) J key \<lparr>so_peer = t1, so_inbox = []\<rparr> = (Inr (), s)"
    "plays script (map (events_for 1) oss) s s'" and t: "talks 1 x s'"
    "map_option fst (x_talk vec_slab 1 [cmd] x) = Some [outs]"
    using scenario_plays [OF assms(1-5)] by blast
  obtain s1 where "write_json_cmd (stack_network vec_slab X) J cmd s' = (Inr (), s1)"
    "fst (read_n_events_json J n s1) =
      (if n \<le> length (events_for 1 outs) then Inr (take n (events_for 1 outs)) else Inl Waits)"
    using next_count [OF t assms(6,7), of n] by blast
  with p show ?thesis by (cases "read_n_events_json J n s1") auto
qed

lemmas reading_simps = last_top_def saw_fill_def saw_ack_def saw_reject_def check_that_def filled_qty_def
  List.map_filter_simps top_ev_def ack_of_def traded_def reject_of_def add64_def wrap64_def

lemma whole_script:
  assumes "fresh_stack ex_engine t" and "sc_codec_of X addr = K"
    and "\<And>j. conversation (login key # map fst script) K j = Some (logged_in acc # oss)"
    and "sendable_command (login key)" and "list_all2 answered script oss"
    and that: "\<And>t1 s s'. nw_connect (stack_network vec_slab X) addr t = Some t1 \<Longrightarrow>
      authenticate_json (stack_network vec_slab X) J key \<lparr>so_peer = t1, so_inbox = []\<rparr> = (Inr (), s) \<Longrightarrow>
      plays script (map (events_for 1) oss) s s' \<Longrightarrow> thesis"
  shows thesis
  using scenario_plays [OF assms(1,2) _ assms(4,5), of "[]" acc "[]"] assms(3) that by auto

lemma counted_script:
  assumes "fresh_stack ex_engine t" and "sc_codec_of X addr = K"
    and "\<And>j. conversation (login key # map fst script @ [cmd]) K j = Some (logged_in acc # oss @ [outs])"
    and "sendable_command (login key)" and "list_all2 answered script oss" and "sendable_command cmd" and "readables outs"
    and that: "\<And>t1 s s' s1 s2. nw_connect (stack_network vec_slab X) addr t = Some t1 \<Longrightarrow>
      authenticate_json (stack_network vec_slab X) J key \<lparr>so_peer = t1, so_inbox = []\<rparr> = (Inr (), s) \<Longrightarrow>
      plays script (map (events_for 1) oss) s s' \<Longrightarrow> write_json_cmd (stack_network vec_slab X) J cmd s' = (Inr (), s1) \<Longrightarrow>
      read_n_events_json J n s1 =
        (if n \<le> length (events_for 1 outs) then Inr (take n (events_for 1 outs)) else Inl Waits, s2) \<Longrightarrow> thesis"
  shows thesis
  using scenario_counts [OF assms(1-7), of n] that by blast

lemma json_passes:
  assumes "fresh_stack ex_engine t" and "sc_codec_of X addr = K"
  shows "fst (smoke_json (stack_network vec_slab X) J addr t) = Inr ()"
  by (rule whole_script [OF assms, where key = "''test-key-7''" and acc = 7 and
        script = "[(client_order 1 1 7 Buy 100 10 Gtc False, 1)]" and
        oss = "[[top_ev 1 (Some (100, 10)) None, ack_of 2 1 1]]"])
    (auto simp: talk_json scenario_simps smoke_json_def)

lemma match_passes:
  assumes "fresh_stack ex_engine t" and "sc_codec_of X addr = K"
  shows "fst (smoke_match_json (stack_network vec_slab X) J addr t) = Inr ()"
  by (rule whole_script [OF assms, where key = "''test-key-7''" and acc = 7 and
        script = "[(client_order 1 101 7 Sell 100 5 Gtc False, 1), (client_order 2 202 7 Buy 110 3 Gtc False, 2)]" and
        oss = "[[top_ev 1 None (Some (100, 5)), ack_of 2 1 101],
          [traded 3 2 202 101 100 3, traded 3 2 202 101 100 3, top_ev 4 None (Some (100, 2)), ack_of 5 2 202]]"])
    (auto simp: talk_match scenario_simps smoke_match_json_def; simp add: reading_simps)+

lemma ioc_fails:
  assumes "fresh_stack ex_engine t" and "sc_codec_of X addr = K"
  shows "fst (smoke_ioc_json (stack_network vec_slab X) J addr t) = Inl (Bail ''smoke-ioc failed'')"
  by (rule whole_script [OF assms, where key = "''test-key-7''" and acc = 7 and
        script = "[(client_order 1 401 7 Sell 100 5 Gtc False, 1), (client_order 2 402 7 Buy 110 10 Ioc False, 2)]" and
        oss = "[[top_ev 1 None (Some (100, 5)), ack_of 2 1 401],
          [traded 3 2 402 401 100 5, traded 3 2 402 401 100 5, top_ev 4 None None, ack_of 5 2 402]]"])
    (auto simp: talk_ioc scenario_simps smoke_ioc_json_def; simp add: reading_simps)+

lemma cancel_passes:
  assumes "fresh_stack ex_engine t" and "sc_codec_of X addr = K"
  shows "fst (smoke_cancel_json (stack_network vec_slab X) J addr t) = Inr ()"
  by (rule whole_script [OF assms, where key = "''test-key-5''" and acc = 5 and
        script = "[(client_order 1 5001 5 Buy 50000 1 Gtc True, 1),
          (Cancel \<lparr>ca_client_seq = 2, ca_order_id = 5001, ca_account_id = 5, ca_symbol_id = 1\<rparr>, 2),
          (client_order 3 5002 5 Buy 50000 1 Gtc True, 3)]" and
        oss = "[[top_ev 1 (Some (50000, 1)) None, ack_of 2 1 5001], [top_ev 3 None None, ack_of 4 2 5001],
          [top_ev 5 (Some (50000, 1)) None, ack_of 6 3 5002]]"])
    (auto simp: talk_cancel scenario_simps smoke_cancel_json_def; simp add: reading_simps)+

lemma replace_passes:
  assumes "fresh_stack ex_engine t" and "sc_codec_of X addr = K"
  shows "fst (smoke_replace_json (stack_network vec_slab X) J addr t) = Inr ()"
  by (rule whole_script [OF assms, where key = "''test-key-6''" and acc = 6 and
        script = "[(client_order 1 6001 6 Buy 40000 1 Gtc True, 1), (replace_to 2 6001 6 60000 1, 2), (replace_to 3 6001 6 30000 1, 3)]" and
        oss = "[[top_ev 1 (Some (40000, 1)) None, ack_of 2 1 6001], [top_ev 3 (Some (60000, 1)) None, ack_of 4 2 6001],
          [top_ev 5 (Some (30000, 1)) None, ack_of 6 3 6001]]"])
    (auto simp: talk_replace scenario_simps smoke_replace_json_def [folded replace_to_def]; simp add: reading_simps)+

lemma risk_passes:
  assumes "fresh_stack ex_engine t" and "sc_codec_of X addr = K"
  shows "fst (smoke_risk_json (stack_network vec_slab X) J addr t) = Inr ()"
  by (rule counted_script [OF assms, where key = "''test-key-8''" and acc = 8 and script = "[]" and
        oss = "[]" and n = 1 and
        cmd = "client_order 1 8001 8 Buy 2000000 1 Gtc False" and outs = "[reject_of 1 1 (Some 8001) Risk]"])
    (auto simp: talk_risk scenario_simps smoke_risk_json_def simp del: read_n_events_json.simps One_nat_def; simp add: reading_simps)+

lemma postonly_waits:
  assumes "fresh_stack ex_engine t" and "sc_codec_of X addr = K"
  shows "fst (smoke_postonly_json (stack_network vec_slab X) J addr t) = Inl Waits"
  by (rule counted_script [OF assms, where key = "''test-key-7''" and acc = 7 and script = "[(client_order 1 301 7 Sell 100 5 Gtc False, 1)]" and
        oss = "[[top_ev 1 None (Some (100, 5)), ack_of 2 1 301]]" and n = 2 and
        cmd = "client_order 2 302 7 Buy 110 1 Gtc True" and outs = "[reject_of 3 2 (Some 302) PostOnlyWouldCross]"])
    (auto simp: talk_postonly scenario_simps smoke_postonly_json_def simp del: read_n_events_json.simps One_nat_def; simp add: reading_simps)+

end

end
