(* ===== verification/JsonWire.thy ===== *)
theory JsonWire
  imports StackClient ProtocolWire
begin

text \<open>
  A JSON crate that meets the contract, for concrete runs: values are written in the fixed layout of the
  binary codec, and every event is read back.
\<close>

section \<open>Reading every event\<close>

definition read_opt :: "u8 list \<Rightarrow> i64 option \<times> u8 list" where
  "read_opt b = (if hd b = 0 then (None, tl b) else (Some (i64_from_le (take 8 (tl b))), drop 8 (tl b)))"

definition read_id :: "u8 list \<Rightarrow> u64 option" where
  "read_id b = (if hd b = 0 then None else Some (from_le (take 8 (tl b))))"

definition reason_of_code :: "u8 \<Rightarrow> reject_reason" where
  "reason_of_code c =
     (if c = 1 then Invalid else if c = 2 then Risk else if c = 3 then Overloaded else if c = 4 then NotFound
      else if c = 5 then PostOnlyWouldCross else RateLimitExceeded)"

definition read_reject :: "u8 list \<Rightarrow> event" where
  "read_reject b = EvReject \<lparr>rj_server_seq = from_le (slice 0 8 b), rj_client_seq = from_le (slice 8 16 b),
     rj_order_id = read_id (drop 17 b), rj_reason = reason_of_code (b ! 16)\<rparr>"

definition read_top :: "u8 list \<Rightarrow> event" where
  "read_top b =
     (case read_opt (drop 12 b) of (bpx, b1) \<Rightarrow> case read_opt b1 of (bq, b2) \<Rightarrow>
      case read_opt b2 of (apx, b3) \<Rightarrow> case read_opt b3 of (aq, _) \<Rightarrow>
        EvBookTop \<lparr>bt_server_seq = from_le (slice 0 8 b), bt_symbol_id = from_le (slice 8 12 b),
          bt_best_bid_px = bpx, bt_best_bid_qty = bq, bt_best_ask_px = apx, bt_best_ask_qty = aq\<rparr>)"

definition read_state :: "u8 list \<Rightarrow> event" where
  "read_state b = EvAccountState \<lparr>as_server_seq = from_le (slice 0 8 b), as_client_seq = from_le (slice 8 16 b),
     as_account_id = from_le (slice 16 20 b), as_symbol_id = from_le (slice 20 24 b),
     as_position = \<lparr>net_position = i64_from_le (slice 24 32 b), avg_price = i64_from_le (slice 32 40 b),
       realized_pnl = i64_from_le (slice 40 48 b)\<rparr>,
     as_risk_limits = \<lparr>max_long_position = i64_from_le (slice 48 56 b), max_short_position = i64_from_le (slice 56 64 b),
       max_order_size = i64_from_le (slice 64 72 b)\<rparr>\<rparr>"

definition read_any :: "u8 list \<Rightarrow> event option" where
  "read_any bs =
     (let t = (from_le (take 2 bs) :: u16); b = drop 2 bs
      in if t = 101 \<or> t = 103 then (case parse_binary_event bs of Inl _ \<Rightarrow> None | Inr ev \<Rightarrow> Some ev)
         else if t = 102 then Some (read_reject b)
         else if t = 104 then Some (read_top b)
         else if t = 105 then Some (read_state b)
         else if t = 106 then Some (EvAuthSuccess \<lparr>ok_account_id = from_le (take 4 b)\<rparr>)
         else if t = 107 then Some (EvAuthFailure \<lparr>fa_reason = bytes_string (drop 4 b)\<rparr>)
         else None)"

lemma read_opt_bytes: "opt_wf v \<Longrightarrow> read_opt (opt_bytes v @ r) = (v, r)" "opt_wf v \<Longrightarrow> read_opt (opt_bytes v) = (v, [])"
  by (auto simp: read_opt_def opt_bytes_def opt_wf_def split: option.split)

lemma read_id_bytes: "read_id (id_bytes v) = v"
  by (simp add: read_id_def id_bytes_def split: option.split)

lemma reason_of_code: "reason_of_code (reason_code r) = r"
  by (cases r) (simp_all add: reason_of_code_def)

lemma read_any_event: "event_wf ev \<Longrightarrow> read_any (event_bytes ev) = Some ev"
proof (cases ev)
  case (EvAck a)
  then show ?thesis using parse_binary_view [of ev] by (simp add: read_any_def Let_def)
next
  case (EvFill f)
  moreover assume "event_wf ev"
  ultimately show ?thesis using parse_binary_view [of ev] by (simp add: read_any_def Let_def)
next
  case (EvReject r)
  then show ?thesis
    by (simp add: read_any_def Let_def read_reject_def slice_shift slice_first reason_of_code read_id_bytes nth_append)
next
  case (EvBookTop t)
  moreover assume "event_wf ev"
  ultimately show ?thesis
    by (simp add: read_any_def Let_def read_top_def slice_shift slice_first read_opt_bytes)
next
  case (EvAccountState s)
  moreover assume "event_wf ev"
  ultimately show ?thesis
    by (simp add: read_any_def Let_def read_state_def slice_shift slice_first limits_bytes_def limits_wf_def)
next
  case (EvAuthSuccess a)
  then show ?thesis by (simp add: read_any_def Let_def)
next
  case (EvAuthFailure a)
  then show ?thesis by (simp add: read_any_def Let_def string_field_def string_bytes_inverse)
qed

section \<open>The crate\<close>

definition json_text :: json_crate where
  "json_text = \<lparr>js_to_vec = (\<lambda>cmd. Some (command_bytes cmd)), js_from_slice = read_any\<rparr>"

definition json_text_codec :: client_codec where
  "json_text_codec = json_codec (\<lambda>ev. Some (event_bytes ev))
     (\<lambda>bs. case decode_command le_crate bs of Inl _ \<Rightarrow> None | Inr cmd \<Rightarrow> Some cmd)"

lemma short_command_bytes:
  "sendable_command cmd \<Longrightarrow> length (command_bytes cmd) < 2 ^ 32"
  by (cases cmd) (auto simp: sendable_command_def string_field_def string_bytes_def limits_bytes_def)

definition ex_crates :: stack_crates where
  "ex_crates = \<lparr>sc_to_engine = to_engine_serde, sc_to_gateway = to_gateway_serde, sc_engine = ex_codecs,
    sc_codec_of = (\<lambda>addr. if addr = ''127.0.0.1:9001'' then json_text_codec else binary_codec le_crate)\<rparr>"

lemma ex_crates_sel [simp]:
  "sc_to_engine ex_crates = to_engine_serde" "sc_codec_of ex_crates ''127.0.0.1:9001'' = json_text_codec"
  "sc_codec_of ex_crates ''127.0.0.1:9000'' = binary_codec le_crate"
  by (simp_all add: ex_crates_def)

lemma ex_crates_lawful: "lawful_crates ex_crates"
  by (simp add: lawful_crates_def ex_crates_def to_engine.serde_axioms to_gateway.serde_axioms)

interpretation json_text: json_wire json_text_codec json_text to_engine_serde ex_crates
proof
  fix cmd assume s: "sendable_command cmd"
  then have "decode_command le_crate (command_bytes cmd) = Inr cmd"
    by (simp add: sendable_command_def le.decode_command_iff)
  with short_command_bytes [OF s] show "\<exists>bs. js_to_vec json_text cmd = Some bs \<and> length bs < 2 ^ 32 \<and>
      cc_decode json_text_codec bs = Inr cmd"
    by (simp add: json_text_def json_text_codec_def json_codec_def json_decode_command_def)
next
  fix ev assume r: "readable_event ev"
  then have "event_wf ev" by (simp add: readable_event_def)
  with short_event_bytes [of ev] r show "\<exists>bs. cc_encode json_text_codec ev = Inr bs \<and> length bs < 2 ^ 32 \<and>
      parse_json_event json_text bs = Inr ev"
    by (simp add: json_text_def json_text_codec_def json_codec_def json_encode_event_def parse_json_event_def
        read_any_event readable_event_def)
qed (simp_all add: to_engine.from_to ex_crates_lawful)

end
