(* ===== verification/BenchProps.thy ===== *)
theory BenchProps
  imports ScenarioProps JsonWire
begin

text \<open>
  The benchmarks and the replay scenario do not authenticate: what becomes of a client that only sends
  orders, on a fresh stack.
\<close>

section \<open>Strangers\<close>

definition stranger :: "u64 \<Rightarrow> 's exchange \<Rightarrow> bool" where
  "stranger conn x \<longleftrightarrow> \<not> is_authenticated (gw_sessions (xc_gateway x)) conn"

definition refusal :: "u64 \<Rightarrow> event" where
  "refusal sq = EvReject \<lparr>rj_server_seq = sq, rj_client_seq = 0, rj_order_id = None, rj_reason = Invalid\<rparr>"

lemma stranger_step:
  assumes "stranger conn x"
  shows "\<exists>sq x'. x_step S conn (client_order cs oid acc s px q tif po) x = Some ([(conn, refusal sq)], x') \<and> stranger conn x'"
proof -
  obtain sq h where t: "take_seq (xc_gateway x) = (sq, h)" by fastforce
  then have "gw_sessions h = gw_sessions (xc_gateway x)" by (auto simp: take_seq_def split: prod.splits)
  with assms t show ?thesis
    by (simp add: stranger_def x_step_def x_handle_def client_order_def x_reject_def refusal_def)
qed

lemma stranger_start: "stranger 1 (x_start K j e)"
  by (simp add: stranger_def x_start_def fresh_gateway_def client_connect_def not_authenticated_new)

lemma refusal_simps [simp]:
  "readable_event (refusal sq)" "\<not> acks cs (refusal sq)" "events_for conn [(conn, refusal sq)] = [refusal sq]"
  "binary_view (refusal sq) = Inl (Bail (''unknown event type: '' @ show_nat 102))"
  by (simp_all add: refusal_def readable_event_def acks_def events_for_def)

lemma client_for_inv:
  assumes "I s" and "\<And>i s. i \<in> set js \<Longrightarrow> I s \<Longrightarrow> \<exists>a s'. f i s = (Inr a, s') \<and> I s' \<and> Q a"
  shows "\<exists>as s'. client_for f js s = (Inr as, s') \<and> I s' \<and> length as = length js \<and> (\<forall>a \<in> set as. Q a)"
  using assms
proof (induction js arbitrary: s)
  case (Cons i js)
  obtain a s1 where a: "f i s = (Inr a, s1)" "I s1" "Q a" using Cons.prems(1) Cons.prems(2) [of i s] by auto
  obtain as s2 where "client_for f js s1 = (Inr as, s2)" "I s2" "length as = length js" "\<forall>a \<in> set as. Q a"
    using Cons.IH [OF a(2)] Cons.prems(2) by (metis list.set_intros(2))
  with a show ?case by (auto simp: client_bind_def)
qed (auto)

lemma fresh_talks:
  assumes "gateway_wire K payload parse view sendable readable P" and "fresh_stack e t" and "sc_codec_of X addr = K"
  obtains t1 x where "nw_connect (stack_network S X) addr t = Some t1" and "stranger 1 x"
    and "gateway_wire.talks K 1 x \<lparr>so_peer = t1, so_inbox = []\<rparr>"
  using fresh_connect [OF assms(2,3), of S] stranger_start
  by (metis (no_types) gateway_wire.talks_def [OF assms(1)] socket.select_convs(1,2))

context json_wire begin

lemma stranger_waits:
  assumes "talks conn x s" and "stranger conn x" and "i64_ok px" and "i64_ok q"
  shows "\<exists>s' x'. send_json (stack_network S X) J (client_order cs oid acc sd px q tif po) n s = (Inl Waits, s') \<and>
    talks conn x' s' \<and> stranger conn x'"
proof -
  obtain sq x' where x: "x_step S conn (client_order cs oid acc sd px q tif po) x = Some ([(conn, refusal sq)], x')"
    "stranger conn x'" using stranger_step [OF assms(2)] by blast
  have "sendable_command (client_order cs oid acc sd px q tif po)" using assms by simp
  from sends [OF assms(1) this x(1), of n "Inl Waits"] x(2) show ?thesis by auto
qed

lemma replay_waits:
  assumes "fresh_stack e t" and "sc_codec_of X addr = K"
  shows "fst (smoke_replay_json (stack_network S X) J addr t) = Inl Waits"
proof -
  obtain t1 x where t1: "nw_connect (stack_network S X) addr t = Some t1" "stranger 1 x"
    "talks 1 x \<lparr>so_peer = t1, so_inbox = []\<rparr>" using fresh_talks [OF gateway_wire_axioms assms] .
  have "i64_ok 110" "i64_ok 1" by (simp_all add: i64_ok_def i64_min_def i64_max_def)
  then obtain s' where "send_json (stack_network S X) J (client_order 1 9001 42 Buy 110 1 Gtc False) 1
      \<lparr>so_peer = t1, so_inbox = []\<rparr> = (Inl Waits, s')" using stranger_waits [OF t1(3,2)] by blast
  with t1(1) show ?thesis by (simp add: smoke_replay_json_def fst_with_connection client_bind_def)
qed

text \<open>The warmup runs into its timeouts, the first measured round waits for ever.\<close>

lemma distributed_waits:
  assumes "fresh_stack e t" and "sc_codec_of X addr = K" and "0 < iters"
  shows "fst (bench_distributed (stack_network S X) J addr iters t) = Inl Waits"
proof -
  let ?N = "stack_network S X"
  let ?I = "\<lambda>s. \<exists>x. talks 1 x s \<and> stranger 1 x"
  let ?warm = "\<lambda>i s. client_bind (write_json_cmd ?N J (warmup_order 1000 i) s) (\<lambda>_ s.
    case with_timeout (read_until_ack_json J (of_nat i + 1) s) of (_, s) \<Rightarrow> (Inr (), s))"
  obtain t1 x where t1: "nw_connect ?N addr t = Some t1" "stranger 1 x"
    "talks 1 x \<lparr>so_peer = t1, so_inbox = []\<rparr>" using fresh_talks [OF gateway_wire_axioms assms(1,2)] .
  have warm: "\<exists>a s'. ?warm i s = (Inr a, s') \<and> ?I s' \<and> True" if i: "i \<in> set [0..<10]" and s: "?I s" for i s
  proof -
    obtain x where x: "talks 1 x s" "stranger 1 x" using s by blast
    have ok: "i64_ok (1000 + int i)" "i64_ok 1" using i by (auto simp: i64_ok_def i64_min_def i64_max_def)
    obtain s' x' where s': "send_json ?N J (warmup_order 1000 i) (of_nat i + 1) s = (Inl Waits, s')" "talks 1 x' s'"
      "stranger 1 x'" using stranger_waits [OF x ok] unfolding warmup_order_def by blast
    have "sendable_command (warmup_order 1000 i)" using ok by (simp add: warmup_order_def)
    moreover obtain sq x1 where "x_step S 1 (warmup_order 1000 i) x = Some ([(1, refusal sq)], x1)"
      using stranger_step [OF x(2)] unfolding warmup_order_def by blast
    ultimately obtain s1 where "write_json_cmd ?N J (warmup_order 1000 i) s = (Inr (), s1)"
      using counts [OF x(1)] by force
    with s' show ?thesis by (auto simp: send_json_def client_bind_def with_timeout_def split: prod.splits)
  qed
  obtain us s where "client_for ?warm [0..<10] \<lparr>so_peer = t1, so_inbox = []\<rparr> = (Inr us, s)" "?I s"
    using client_for_inv [where I = ?I and f = ?warm and js = "[0..<10]" and Q = "\<lambda>_. True" and s = "\<lparr>so_peer = t1, so_inbox = []\<rparr>"]
      warm t1(2,3) by blast
  moreover have "fst (client_for (bench_round (send_json ?N J)) [0..<unat iters] s) = Inl Waits"
  proof -
    obtain x where x: "talks 1 x s" "stranger 1 x" using \<open>?I s\<close> by blast
    obtain js where js: "[0..<unat iters] = 0 # js"
      using assms(3) by (metis unat_gt_0 upt_conv_Cons word_neq_0_conv)
    have "i64_ok 50000" "i64_ok 1" by (simp_all add: i64_ok_def i64_min_def i64_max_def)
    then obtain s' where s': "send_json ?N J (client_order (ucast (of_nat 0 + 100 :: u32)) (ucast (of_nat 0 + 10000 :: u32)) 1
        Sell 50000 1 Gtc False) (ucast (of_nat 0 + 100 :: u32)) s = (Inl Waits, s')"
      using stranger_waits [OF x] by blast
    have "bench_round (send_json ?N J) 0 s = (Inl Waits, s')"
      by (simp only: bench_round_def Let_def client_bind_def s' prod.case sum.case)
    then show ?thesis by (simp add: js client_bind_def)
  qed
  ultimately show ?thesis
    using t1(1) by (simp add: bench_distributed_def fst_with_connection client_bind_def split: prod.split sum.split)
qed

end

section \<open>The binary benchmarks\<close>

definition binary_order :: "command \<Rightarrow> bool" where
  "binary_order cmd \<longleftrightarrow> command_wf cmd \<and> (\<exists>n. cmd = NewOrder n)"

lemma binary_order_client [simp]: "binary_order (client_order cs oid acc sd px q tif po) \<longleftrightarrow> i64_ok px \<and> i64_ok q"
  by (simp add: binary_order_def client_order_def)

locale binary_stack = buf_laws B + serde P
  for B :: bytes_crate and P :: "gateway_to_engine serde" +
  fixes X :: stack_crates
  assumes total_requests: "sd_to P m \<noteq> None" and crates: "lawful_crates X" "sc_to_engine X = P"
begin

sublocale gateway_wire "binary_codec B" "binary_payload B" parse_binary_event binary_view binary_order readable_event P
  using binary_wire total_requests from_to
  by (simp add: gateway_wire_def gateway_wire_axioms_def binary_order_def [abs_def])

lemma stranger_bails:
  assumes "talks conn x s" and "stranger conn x" and "i64_ok px" and "i64_ok q"
  shows "fst (send_binary (stack_network S X) B (client_order cs oid acc sd px q tif po) n s) =
    Inl (Bail (''unknown event type: '' @ show_nat 102))"
proof -
  obtain sq x' where x: "x_step S conn (client_order cs oid acc sd px q tif po) x = Some ([(conn, refusal sq)], x')"
    using stranger_step [OF assms(2)] by blast
  have ok: "binary_order (client_order cs oid acc sd px q tif po)" using assms by simp
  obtain bs where bs: "binary_payload B (client_order cs oid acc sd px q tif po) = Some bs"
    by (simp add: binary_payload_def client_order_def)
  from said_until_ack [OF assms(1) crates ok bs x, of n "Inl (Bail (''unknown event type: '' @ show_nat 102))" "[]"]
  obtain s' where "client_bind (socket_write (stack_network S X) (frame_payload bs) s) (\<lambda>_. read_until_ack parse_binary_event n) =
      (Inl (Bail (''unknown event type: '' @ show_nat 102)), s')" by auto
  moreover have "write_binary_cmd (stack_network S X) B (client_order cs oid acc sd px q tif po) s =
      socket_write (stack_network S X) (frame_payload bs) s"
    using bs by (simp add: write_binary_cmd_def binary_payload_def client_order_def)
  ultimately show ?thesis by (simp add: send_binary_def read_until_ack_binary_def)
qed

lemma distributed_bails:
  assumes "fresh_stack e t" and "sc_codec_of X addr = binary_codec B"
  shows "fst (bench_distributed_binary (stack_network S X) B addr iters t) = Inl (Bail (''unknown event type: '' @ show_nat 102))"
proof -
  obtain t1 x where t1: "nw_connect (stack_network S X) addr t = Some t1" "stranger 1 x"
    "talks 1 x \<lparr>so_peer = t1, so_inbox = []\<rparr>" using fresh_talks [OF gateway_wire_axioms assms] .
  have "[0..<10] = 0 # [1..<10]" by (simp add: upt_conv_Cons)
  moreover have "fst (send_binary (stack_network S X) B (warmup_order 1000 0) (of_nat 0 + 1) \<lparr>so_peer = t1, so_inbox = []\<rparr>) =
      Inl (Bail (''unknown event type: '' @ show_nat 102))"
    unfolding warmup_order_def by (rule stranger_bails [OF t1(3,2)]) (simp_all add: i64_ok_def i64_min_def i64_max_def)
  ultimately show ?thesis
    using t1(1) by (auto simp: bench_distributed_binary_def fst_with_connection client_bind_def split: prod.split sum.split)
qed

text \<open>Every order of \<open>bench_bin\<close> is answered, with a refusal.\<close>

lemma bin_refused:
  assumes "fresh_stack e t" and "sc_codec_of X addr = binary_codec B"
  shows "\<exists>frs. fst (bench_bin (stack_network S X) B addr iters t) = Inr frs \<and> length frs = unat iters \<and>
    (\<forall>fr \<in> set frs. \<exists>sq. fr = event_bytes (refusal sq))"
proof -
  let ?N = "stack_network S X"
  let ?I = "\<lambda>s. \<exists>x. talks 1 x s \<and> stranger 1 x"
  let ?order = "\<lambda>i. client_order (of_nat i + 1) (of_nat i + 1000) 7 Buy 100 10 Gtc False"
  let ?p = "\<lambda>i. puts [put_u16_le B 1, put_u64_le B (of_nat i + 1), put_u64_le B (of_nat i + 1000),
    put_u32_le B 7, put_u32_le B 1, put_u8 B 0, put_i64_le B 100, put_i64_le B 10, put_u8 B 0, put_u8 B 0] []"
  let ?f = "\<lambda>i s. client_bind (socket_write ?N (frame_payload (?p i)) s) (\<lambda>_. read_one_frame)"
  obtain t1 x where t1: "nw_connect ?N addr t = Some t1" "stranger 1 x"
    "talks 1 x \<lparr>so_peer = t1, so_inbox = []\<rparr>" using fresh_talks [OF gateway_wire_axioms assms] .
  have "\<exists>a s'. ?f i s = (Inr a, s') \<and> ?I s' \<and> (\<exists>sq. a = event_bytes (refusal sq))" if s: "?I s" for i s
  proof -
    obtain x where x: "talks 1 x s" "stranger 1 x" using s by blast
    obtain sq x' where st: "x_step S 1 (?order i) x = Some ([(1, refusal sq)], x')" "stranger 1 x'"
      using stranger_step [OF x(2)] by blast
    have "binary_order (?order i)" by (simp add: i64_ok_def i64_min_def i64_max_def)
    moreover have "binary_payload B (?order i) = Some (?p i)"
      by (simp add: binary_payload_def client_order_def new_order_payload_def)
    ultimately obtain s1 s' where "socket_write ?N (frame_payload (?p i)) s = (Inr (), s1)"
      "read_one_frame s1 = (Inr (encoded (refusal sq)), s')" "talks 1 x' s'"
      using said_one [OF x(1) crates _ _ st(1), of _ "refusal sq"] by auto
    moreover have "cc_encode (binary_codec B) (refusal sq) = Inr (event_bytes (refusal sq))"
      by (simp add: binary_codec_def encode_event_bytes)
    then have "encoded (refusal sq) = event_bytes (refusal sq)"
      using encoded_laws(1) [of "refusal sq"] by simp
    ultimately show ?thesis using st(2) by (auto simp: client_bind_def)
  qed
  then obtain frs s' where "client_for ?f [0..<unat iters] \<lparr>so_peer = t1, so_inbox = []\<rparr> = (Inr frs, s')"
    "length frs = unat iters" "\<forall>fr \<in> set frs. \<exists>sq. fr = event_bytes (refusal sq)"
    using client_for_inv [where I = ?I and f = ?f and js = "[0..<unat iters]" and
        Q = "\<lambda>a. \<exists>sq. a = event_bytes (refusal sq)" and s = "\<lparr>so_peer = t1, so_inbox = []\<rparr>"] t1(2,3)
    by (metis (no_types, lifting) diff_zero length_upt)
  with t1(1) show ?thesis by (simp add: bench_bin_def Let_def fst_with_connection)
qed

end

interpretation binary_text: binary_stack le_crate to_engine_serde ex_crates
  by unfold_locales (simp_all add: ex_crates_lawful)

end
