(* ===== verification/ClientProps.thy ===== *)
theory ClientProps
  imports BenchProps
begin

text \<open>
  The properties of the whole stack as its clients see it: the simulation by the exchange, what the smoke
  scenarios and the benchmarks of the bench client come to, and the client's reading loop.
\<close>

section \<open>A stack to run on\<close>

definition ex_stack :: "order option list stack" where
  "ex_stack =
     \<lparr>st_gateway = \<lparr>sy_gateway = (fresh_gateway None)
          \<lparr>gw_router := \<lparr>er_senders = [(1, \<lparr>sk_fed = [], sk_sent = []\<rparr>)], er_faults = []\<rparr>\<rparr>, sy_locals = (\<lambda>_. [])\<rparr>,
      st_server = \<lparr>sv_engine = ex_engine, sv_queue = [], sv_cap = 8, sv_outbound = [], sv_responses = [],
        sv_frames = []\<rparr>,
      st_next_conn = 1, st_conn = 0\<rparr>"

lemma ex_stack_fresh: "fresh_stack ex_engine ex_stack"
  by (auto simp: fresh_stack_def ex_stack_def fresh_gateway_def quiet_def one_engine_def agree_refl)

section \<open>The simulation\<close>

text \<open>A client that sends one payload after another, and takes all frames it gets for each.\<close>

fun stack_talk ::
  "('s, order) slab_ops \<Rightarrow> stack_crates \<Rightarrow> u8 list list \<Rightarrow> 's stack \<Rightarrow> (u8 list list list \<times> 's stack) option"
where
  "stack_talk S X [] t = Some ([], t)"
| "stack_talk S X (bs # bss) t =
     (case stack_payload S X bs t of
        None \<Rightarrow> None
      | Some (frs, t1) \<Rightarrow> map_option (apfst (Cons frs)) (stack_talk S X bss t1))"

definition encodes :: "client_codec \<Rightarrow> event \<Rightarrow> u8 list \<Rightarrow> bool" where
  "encodes K ev fr \<longleftrightarrow> cc_encode K ev = Inr fr \<and> length fr < 2 ^ 32"

definition encodable :: "client_codec \<Rightarrow> event \<Rightarrow> bool" where
  "encodable K ev \<longleftrightarrow> (\<exists>fr. encodes K ev fr)"

lemma any_codec:
  assumes "lawful_crates X"
  shows "gateway_wire K (\<lambda>_. None) (\<lambda>_. Inl Waits) (\<lambda>_. Inl Waits) (\<lambda>_. False) (encodable K) (sc_to_engine X)"
  using assms
  by (auto simp: gateway_wire_def gateway_wire_axioms_def client_wire_def lawful_crates_def serde_def encodable_def
      encodes_def)

lemma payload_simulates:
  assumes "lawful_crates X" and "stack_rel K x t" and "st_conn t = conn" and "cc_decode K bs = Inr cmd"
    and "x_step S conn cmd x = Some (outs, x')" and "\<forall>o' \<in> set outs. encodable K (snd o')"
  shows "\<exists>frs t'. stack_payload S X bs t = Some (frs, t') \<and> list_all2 (encodes K) (events_for conn outs) frs \<and>
    stack_rel K x' t' \<and> st_conn t' = conn"
proof -
  note wire = any_codec [OF assms(1), of K]
  let ?enc = "client_wire.encoded K"
  obtain t' where t': "stack_payload S X bs t = Some (map ?enc (events_for conn outs), t')" "stack_rel K x' t'" "st_conn t' = conn"
    using gateway_wire.stack_step [OF wire assms(2,1) refl assms(4)] assms(3,5,6) by blast
  have "\<forall>ev \<in> set (events_for conn outs). encodes K ev (?enc ev)"
    using assms(6) client_wire.encoded_laws [OF gateway_wire.axioms(1) [OF wire]] by (auto simp: events_for_def encodes_def)
  then have "list_all2 (encodes K) (events_for conn outs) (map ?enc (events_for conn outs))"
    by (simp add: list_all2_conv_all_nth)
  with t' show ?thesis by blast
qed

text \<open>C8: the stack of gateway, router, engine server and engine implements the exchange. Whatever decodable
  commands a connected client sends, if the exchange answers them, then so does the stack, with frames that are
  the encodings of exactly the events the exchange has for the connection, in their order, and the two stay
  related: no byte, frame, queue, journal or metric of the real path changes what the client sees.\<close>

theorem stack_refines_exchange:
  assumes "lawful_crates X" and "stack_rel K x t" and "st_conn t = conn"
    and "list_all2 (\<lambda>bs cmd. cc_decode K bs = Inr cmd) bss cmds"
    and "x_talk S conn cmds x = Some (oss, x')" and "\<forall>outs \<in> set oss. \<forall>o' \<in> set outs. encodable K (snd o')"
  shows "\<exists>frss t'. stack_talk S X bss t = Some (frss, t') \<and>
    list_all2 (\<lambda>outs frs. list_all2 (encodes K) (events_for conn outs) frs) oss frss \<and>
    stack_rel K x' t' \<and> st_conn t' = conn"
  using assms(4,2,3,5,6)
proof (induction bss cmds arbitrary: x t oss rule: list_all2_induct)
  case Nil
  then show ?case by simp
next
  case (Cons bs bss cmd cmds)
  obtain outs x1 oss1 where step: "x_step S conn cmd x = Some (outs, x1)" "x_talk S conn cmds x1 = Some (oss1, x')"
    "oss = outs # oss1" using Cons.prems(3) by (auto split: option.splits)
  then have "\<forall>o' \<in> set outs. encodable K (snd o')" using Cons.prems(4) by simp
  from payload_simulates [OF assms(1) Cons.prems(1,2) Cons.hyps(1) step(1) this] obtain frs t1 where
    t1: "stack_payload S X bs t = Some (frs, t1)" "list_all2 (encodes K) (events_for conn outs) frs" "stack_rel K x1 t1"
      "st_conn t1 = conn" by blast
  from Cons.IH [OF t1(3,4) step(2)] Cons.prems(4) step(3) obtain frss t' where
    "stack_talk S X bss t1 = Some (frss, t')" "stack_rel K x' t'" "st_conn t' = conn"
    "list_all2 (\<lambda>outs frs. list_all2 (encodes K) (events_for conn outs) frs) oss1 frss" by auto
  with t1 step(3) show ?case by simp
qed

text \<open>A login and two crossing orders of one account: the exchange's answers go through the wires.\<close>

lemma json_text_command: "command_wf cmd \<Longrightarrow> cc_decode json_text_codec (command_bytes cmd) = Inr cmd"
proof -
  assume "command_wf cmd"
  then have "decode_command le_crate (command_bytes cmd) = Inr cmd" by (simp add: le.decode_command_iff)
  then show ?thesis by (simp add: json_text_codec_def json_codec_def json_decode_command_def)
qed

lemma json_text_encodable: "readable_event ev \<Longrightarrow> encodable json_text_codec ev"
  using json_text.received by (auto simp: encodable_def encodes_def)

theorem stack_refines_exchange_witness:
  "\<exists>t frss t'. nw_connect (stack_network vec_slab ex_crates) ''127.0.0.1:9001'' ex_stack = Some t \<and>
     stack_talk vec_slab ex_crates (map command_bytes [login ''test-key-7'', client_order 1 101 7 Sell 100 5 Gtc False,
       client_order 2 202 7 Buy 110 3 Gtc False]) t = Some (frss, t') \<and> map length frss = [1, 2, 4]"
proof -
  let ?cmds = "[login ''test-key-7'', client_order 1 101 7 Sell 100 5 Gtc False, client_order 2 202 7 Buy 110 3 Gtc False]"
  obtain t j where t: "nw_connect (stack_network vec_slab ex_crates) ''127.0.0.1:9001'' ex_stack = Some t"
    "stack_rel json_text_codec (x_start json_text_codec j ex_engine) t" "st_conn t = 1"
    using fresh_connect [OF ex_stack_fresh] ex_crates_sel(2) by metis
  obtain x' where talk: "x_talk vec_slab 1 ?cmds (x_start json_text_codec j ex_engine) = Some ([logged_in 7,
      [top_ev 1 None (Some (100, 5)), ack_of 2 1 101],
      [traded 3 2 202 101 100 3, traded 3 2 202 101 100 3, top_ev 4 None (Some (100, 2)), ack_of 5 2 202]], x')"
    using talk_match [of json_text_codec j] by (auto simp: conversation_def simp del: x_talk.simps)
  have "command_wf cmd" if "cmd \<in> set ?cmds" for cmd
    using that by (auto simp: login_def client_order_def string_wf_def string_bytes_def i64_ok_def i64_min_def i64_max_def)
  then have dec: "list_all2 (\<lambda>bs cmd. cc_decode json_text_codec bs = Inr cmd) (map command_bytes ?cmds) ?cmds"
    by (simp only: list_all2_map1) (simp add: json_text_command list_all2_same)
  have "\<forall>outs \<in> set [logged_in 7, [top_ev 1 None (Some (100, 5)), ack_of 2 1 101], [traded 3 2 202 101 100 3,
      traded 3 2 202 101 100 3, top_ev 4 None (Some (100, 2)), ack_of 5 2 202]].
      \<forall>o' \<in> set outs. encodable json_text_codec (snd o')"
    by (auto intro!: json_text_encodable simp: logged_in_def opt_wf_def i64_ok_def i64_min_def i64_max_def)
      (simp add: readable_event_def)
  from stack_refines_exchange [OF ex_crates_lawful t(2,3) dec talk this] t(1) show ?thesis
    by (auto simp: list_all2_Cons1 logged_in_def events_for_def top_ev_def ack_of_def traded_def)
qed

section \<open>The bench client\<close>

text \<open>C30: against a fresh stack of one gateway with its ten test accounts and one empty engine, the scenarios
  \<open>smoke-json\<close>, \<open>smoke-match-json\<close>, \<open>smoke-cancel-json\<close>, \<open>smoke-replace-json\<close> and
  \<open>smoke-risk-json\<close> succeed, whatever the JSON crate, as long as gateway and client read back what the
  other writes. (\<open>PROJECT_CONTEXT.md\<close> says that the JSON scenarios hang because responses are not routed;
  at this commit they are routed, for both codecs by the same code.)\<close>

theorem smoke_scenarios_pass:
  assumes "json_wire K J P X" and "fresh_stack ex_engine t" and "sc_codec_of X addr = K"
  shows "fst (smoke_json (stack_network vec_slab X) J addr t) = Inr () \<and>
    fst (smoke_match_json (stack_network vec_slab X) J addr t) = Inr () \<and>
    fst (smoke_cancel_json (stack_network vec_slab X) J addr t) = Inr () \<and>
    fst (smoke_replace_json (stack_network vec_slab X) J addr t) = Inr () \<and>
    fst (smoke_risk_json (stack_network vec_slab X) J addr t) = Inr ()"
  using json_wire.json_passes [OF assms] json_wire.match_passes [OF assms] json_wire.cancel_passes [OF assms]
    json_wire.replace_passes [OF assms] json_wire.risk_passes [OF assms] by simp

theorem smoke_scenarios_pass_witness:
  "fst (smoke_cancel_json (stack_network vec_slab ex_crates) json_text ''127.0.0.1:9001'' ex_stack) = Inr ()"
  using smoke_scenarios_pass [OF json_text.json_wire_axioms ex_stack_fresh ex_crates_sel(2)] by blast

text \<open>C31: the other scenarios cannot succeed. \<open>smoke-ioc-json\<close> trades with itself and is told of its fill
  twice, as the maker's connection and as the taker's, so it counts ten where it expects five;
  \<open>smoke-postonly-json\<close> waits for a second event after the one reject there is; \<open>smoke-replay-json\<close> sends its
  orders without a login and waits for an acknowledgement that never comes.\<close>

theorem smoke_scenarios_fail:
  assumes "json_wire K J P X" and "fresh_stack ex_engine t" and "sc_codec_of X addr = K"
  shows "fst (smoke_ioc_json (stack_network vec_slab X) J addr t) = Inl (Bail ''smoke-ioc failed'') \<and>
    fst (smoke_postonly_json (stack_network vec_slab X) J addr t) = Inl Waits \<and>
    fst (smoke_replay_json (stack_network vec_slab X) J addr t) = Inl Waits"
  using json_wire.ioc_fails [OF assms] json_wire.postonly_waits [OF assms] json_wire.replay_waits [OF assms] by simp

theorem smoke_scenarios_fail_witness:
  "fst (smoke_ioc_json (stack_network vec_slab ex_crates) json_text ''127.0.0.1:9001'' ex_stack) =
     Inl (Bail ''smoke-ioc failed'')"
  using smoke_scenarios_fail [OF json_text.json_wire_axioms ex_stack_fresh ex_crates_sel(2)] by blast

text \<open>no benchmark logs in, so none measures an order. With any engine behind the gateway, every frame
  \<open>bench_bin\<close> times is a refusal; the binary distributed benchmark stops at the first refusal, whose tag its
  reader does not know; the JSON version runs into its warmup timeouts and then waits for ever.\<close>

theorem benchmarks_refused:
  assumes "json_wire K J P X" and "buf_laws B" and "sc_codec_of X addr = K" and "sc_codec_of X baddr = binary_codec B"
    and "fresh_stack e t" and "0 < iters"
  shows "(\<exists>frs. fst (bench_bin (stack_network S X) B baddr iters t) = Inr frs \<and> length frs = unat iters \<and>
      (\<forall>fr \<in> set frs. \<exists>sq. fr = event_bytes (EvReject \<lparr>rj_server_seq = sq, rj_client_seq = 0, rj_order_id = None,
         rj_reason = Invalid\<rparr>))) \<and>
    fst (bench_distributed_binary (stack_network S X) B baddr iters t) = Inl (Bail ''unknown event type: 102'') \<and>
    fst (bench_distributed (stack_network S X) J addr iters t) = Inl Waits"
proof -
  have w: "gateway_wire K (js_to_vec J) (parse_json_event J) Inr sendable_command readable_event P"
    and c: "lawful_crates X" "sc_to_engine X = P"
    using assms(1) by (simp_all add: json_wire_def json_wire_axioms_def)
  then have b: "binary_stack B P X"
    using assms(2) by (auto simp: binary_stack_def binary_stack_axioms_def lawful_crates_def)
  have s: "show_nat 102 = ''102''" by code_simp
  show ?thesis
    using binary_stack.bin_refused [OF b assms(5,4), of S iters] binary_stack.distributed_bails [OF b assms(5,4), of S iters]
      json_wire.distributed_waits [OF assms(1,5,3,6), of S]
    by (simp add: refusal_def s)
qed

theorem benchmarks_refused_witness:
  "fst (bench_distributed_binary (stack_network vec_slab ex_crates) le_crate ''127.0.0.1:9000'' 1000 ex_stack) =
     Inl (Bail ''unknown event type: 102'')"
  using benchmarks_refused [OF json_text.json_wire_axioms le.buf_laws_axioms ex_crates_sel(2,3) ex_stack_fresh, of 1000]
  by simp

section \<open>The client's side of the wire\<close>

text \<open>C32: a binary client reads back what the gateway sends only in part: acknowledgements and fills exactly, but
  every book top as an empty one of sequence 0 and symbol 0, and every other event, rejects included, ends the
  conversation with an error. What it writes for an order is what the gateway's decoder reads as that order.\<close>

theorem binary_client_reads:
  assumes "buf_laws B" and "command_wf (NewOrder n)" and "event_wf ev"
  shows "decode_command B (new_order_payload B n) = Inr (NewOrder n) \<and>
    parse_binary_event (encode_event B ev []) =
      (case ev of
         EvAck _ \<Rightarrow> Inr ev
       | EvFill _ \<Rightarrow> Inr ev
       | EvBookTop _ \<Rightarrow> Inr (EvBookTop \<lparr>bt_server_seq = 0, bt_symbol_id = 0, bt_best_bid_px = None, bt_best_bid_qty = None,
           bt_best_ask_px = None, bt_best_ask_qty = None\<rparr>)
       | EvReject _ \<Rightarrow> Inl (Bail ''unknown event type: 102'')
       | EvAccountState _ \<Rightarrow> Inl (Bail ''unknown event type: 105'')
       | EvAuthSuccess _ \<Rightarrow> Inl (Bail ''unknown event type: 106'')
       | EvAuthFailure _ \<Rightarrow> Inl (Bail ''unknown event type: 107''))"
proof -
  have s: "show_nat 102 = ''102''" "show_nat 105 = ''105''" "show_nat 106 = ''106''" "show_nat 107 = ''107''"
    by code_simp+
  have "decode_command B (new_order_payload B n) = Inr (NewOrder n)"
    unfolding buf_laws.new_order_payload_bytes [OF assms(1)] buf_laws.decode_command_iff [OF assms(1)]
    using assms(2) by simp
  moreover have "parse_binary_event (encode_event B ev []) = binary_view ev"
    unfolding buf_laws.encode_event_bytes [OF assms(1)] using parse_binary_view [OF assms(3)] by simp
  ultimately show ?thesis by (cases ev) (simp_all add: s)
qed

theorem binary_client_reads_witness:
  "parse_binary_event (encode_event le_crate (EvReject \<lparr>rj_server_seq = 1, rj_client_seq = 2, rj_order_id = Some 3,
      rj_reason = Risk\<rparr>) []) = Inl (Bail ''unknown event type: 102'')"
  using binary_client_reads [OF le.buf_laws_axioms, of "ex_new 1 10 Sell 100 5"
      "EvReject \<lparr>rj_server_seq = 1, rj_client_seq = 2, rj_order_id = Some 3, rj_reason = Risk\<rparr>"]
  by (simp add: i64_ok_def i64_min_def i64_max_def)

text \<open>C33: reading up to an acknowledgement always comes to an end on what the inbox holds. If the frames before an
  acknowledgement all parse, it returns the events up to and including it and leaves the rest in the inbox; if a
  frame does not parse, that is its error; if there is neither, it has taken everything and waits.\<close>

theorem read_until_ack_exact:
  fixes ps :: "u8 list list"
  assumes "so_inbox s = concat (map frame_payload ps)" and "\<forall>p \<in> set ps. length p < 2 ^ 32"
  shows "read_until_ack parse cs s =
    (let goes_on = (\<lambda>p. case parse p of Inl _ \<Rightarrow> False | Inr ev \<Rightarrow> \<not> acks cs ev)
     in case dropWhile goes_on ps of
          [] \<Rightarrow> (Inl Waits, s\<lparr>so_inbox := []\<rparr>)
        | p # rest \<Rightarrow>
            (map_sum id (\<lambda>ev. map (projr \<circ> parse) (takeWhile goes_on ps) @ [ev]) (parse p),
             s\<lparr>so_inbox := concat (map frame_payload rest)\<rparr>))"
proof -
  let ?go = "\<lambda>p. case parse p of Inl _ \<Rightarrow> False | Inr ev \<Rightarrow> \<not> acks cs ev"
  have u: "until_ack cs (map parse ps) = (case dropWhile ?go ps of [] \<Rightarrow> (Inl Waits, [])
     | p # rest \<Rightarrow> (map_sum id (\<lambda>ev. map (projr \<circ> parse) (takeWhile ?go ps) @ [ev]) (parse p), map parse rest))"
  proof (induction ps)
    case (Cons p ps)
    then show ?case
      by (cases "parse p"; cases "dropWhile ?go ps"; cases "parse (hd (dropWhile ?go ps))")
        (simp_all del: dropWhile_eq_Nil_conv)
  qed simp
  have "drop (length ps - length rest) ps = rest" if "dropWhile ?go ps = p # rest" for p rest
    using that by (metis append_assoc append_eq_conv_conj append_Cons append_Nil length_append add_diff_cancel_right' takeWhile_dropWhile_id)
  with u read_until_ack_list [of ps s parse cs] assms show ?thesis
    by (cases "dropWhile ?go ps") (simp_all add: framed_def frames_left_def Let_def del: dropWhile_eq_Nil_conv)
qed

text \<open>An acknowledgement between two fills of other orders, in the binary format.\<close>

definition ex_inbox :: "u8 list list" where
  "ex_inbox = map event_bytes [snd (traded 1 0 5 6 100 2), snd (ack_of 2 9 5), snd (traded 3 0 7 6 100 2)]"

theorem read_until_ack_exact_witness:
  "read_until_ack parse_binary_event 9 \<lparr>so_peer = (), so_inbox = concat (map frame_payload ex_inbox)\<rparr> =
     (Inr [snd (traded 1 0 5 6 100 2), snd (ack_of 2 9 5)],
      \<lparr>so_peer = (), so_inbox = frame_payload (event_bytes (snd (traded 3 0 7 6 100 2)))\<rparr>)"
proof -
  have wf: "event_wf (snd (traded sq 0 t mk 100 2))" "event_wf (snd (ack_of sq cs oid))" for sq t mk cs oid
    by (simp_all add: traded_def ack_of_def i64_ok_def i64_min_def i64_max_def)
  have "binary_view (snd (traded sq cs t mk px q)) = Inr (snd (traded sq cs t mk px q))"
    "binary_view (snd (ack_of sq cs oid)) = Inr (snd (ack_of sq cs oid))" for sq cs t mk px q oid
    by (simp_all add: traded_def ack_of_def)
  note parse = parse_binary_view [OF wf(1), unfolded this(1)] parse_binary_view [OF wf(2), unfolded this(2)]
  have "\<forall>p \<in> set ex_inbox. length p < 2 ^ 32"
    by (simp add: ex_inbox_def traded_def ack_of_def)
  from read_until_ack_exact [OF _ this, of "\<lparr>so_peer = (), so_inbox = concat (map frame_payload ex_inbox)\<rparr>"
      parse_binary_event 9] show ?thesis
    by (simp add: ex_inbox_def parse)
qed

end
