(* ===== verification/TestClient.thy ===== *)
theory TestClient
  imports Codec Decimal
begin

text \<open>
  \<open>crates/test_client\<close>: \<open>main.rs\<close>, which queries an account before and after two orders that should
  trade, and \<open>bin/auth_test.rs\<close>, which tries the authentication.

  The framed connection (\<open>tokio_util\<close>'s length-delimited codec over TCP) is a parameter: sending a frame
  can fail, which is a panic of \<open>unwrap\<close>, and the next frame may not come within the timeout. A read
  behind the end of a frame is a panic too; a panic ends the program and is \<open>None\<close>. Sleeps are left
  out, and of the printed lines those are kept that tell what came back.
\<close>

record 't framed =
  fd_connect :: "string \<Rightarrow> 't \<Rightarrow> 't option"
  fd_send :: "u8 list \<Rightarrow> 't \<Rightarrow> 't option"
  fd_next :: "'t \<Rightarrow> u8 list option \<times> 't"
  fd_close :: "'t \<Rightarrow> 't"

section \<open>What both programs send\<close>

definition send_order ::
  "bytes_crate \<Rightarrow> 't framed \<Rightarrow> u64 \<Rightarrow> order_id \<Rightarrow> u8 \<Rightarrow> price \<Rightarrow> qty \<Rightarrow> 't \<Rightarrow> 't option"
where
  "send_order B F client_seq oid s px q =
     fd_send F (puts [put_u16_le B 1, put_u64_le B client_seq, put_u64_le B oid, put_u32_le B 1, put_u32_le B 1,
       put_u8 B s, put_i64_le B px, put_i64_le B q, put_u8 B 0, put_u8 B 0] [])"

definition send_query_account ::
  "bytes_crate \<Rightarrow> 't framed \<Rightarrow> u64 \<Rightarrow> account_id \<Rightarrow> symbol_id \<Rightarrow> 't \<Rightarrow> 't option"
where
  "send_query_account B F client_seq acc symb =
     fd_send F (puts [put_u16_le B 5, put_u64_le B client_seq, put_u32_le B acc, put_u32_le B symb] [])"

definition send_authenticate :: "bytes_crate \<Rightarrow> 't framed \<Rightarrow> string \<Rightarrow> 't \<Rightarrow> 't option" where
  "send_authenticate B F api_key =
     fd_send F (puts [put_u16_le B 6, put_u32_le B (of_nat (length (string_bytes api_key))),
       put_slice B (string_bytes api_key)] [])"

section \<open>What they read\<close>

text \<open>The reads of the \<open>bytes\<close> crate, with their panic as an error.\<close>

definition get_u16 :: "bytes_crate \<Rightarrow> u16 read" where
  "get_u16 B b = (if length b < 2 then Inl underrun else Inr (get_u16_le B b))"

definition unwrapped :: "proto_error + 'a \<times> u8 list \<Rightarrow> 'a option" where
  "unwrapped r = (case r of Inl _ \<Rightarrow> None | Inr (a, _) \<Rightarrow> Some a)"

definition on_next :: "'t framed \<Rightarrow> 'a \<Rightarrow> (u8 list \<Rightarrow> 'a option) \<Rightarrow> 't \<Rightarrow> ('a \<times> 't) option" where
  "on_next F dflt body t =
     (case fd_next F t of
        (None, t1) \<Rightarrow> Some (dflt, t1)
      | (Some fr, t1) \<Rightarrow> map_option (\<lambda>a. (a, t1)) (body fr))"

datatype shown =
    NoResponse
  | OtherType u16
  | ShownState u64 account_id symbol_id position risk_limits

definition account_state_of :: "bytes_crate \<Rightarrow> shown read" where
  "account_state_of B b =
     rd_bind (get_u64 B b) (\<lambda>_ b.
     rd_bind (get_u64 B b) (\<lambda>client_seq b.
     rd_bind (get_u32 B b) (\<lambda>acc b.
     rd_bind (get_u32 B b) (\<lambda>symb b.
     rd_bind (get_i64 B b) (\<lambda>net b.
     rd_bind (get_i64 B b) (\<lambda>avg b.
     rd_bind (get_i64 B b) (\<lambda>pnl b.
     rd_bind (get_i64 B b) (\<lambda>max_long b.
     rd_bind (get_i64 B b) (\<lambda>max_short b.
     rd_bind (get_i64 B b) (\<lambda>max_size b.
       Inr (ShownState client_seq acc symb \<lparr>net_position = net, avg_price = avg, realized_pnl = pnl\<rparr>
         \<lparr>max_long_position = max_long, max_short_position = max_short, max_order_size = max_size\<rparr>, b)))))))))))"

definition read_and_display_account_state :: "bytes_crate \<Rightarrow> 't framed \<Rightarrow> 't \<Rightarrow> (shown \<times> 't) option" where
  "read_and_display_account_state B F =
     on_next F NoResponse (\<lambda>fr. unwrapped (rd_bind (get_u16 B fr) (\<lambda>mt b.
       if mt = 105 then account_state_of B b else Inr (OtherType mt, b))))"

definition response_text :: "u16 \<Rightarrow> string" where
  "response_text mt =
     (if mt = 103 then ''Got FILL'' else if mt = 104 then ''Got BOOK_TOP'' else if mt = 101 then ''Got ACK''
      else ''Got message type '' @ show_nat (unat mt))"

text \<open>What does not come in time is not printed.\<close>

fun drain_responses :: "bytes_crate \<Rightarrow> 't framed \<Rightarrow> nat \<Rightarrow> 't \<Rightarrow> (string list \<times> 't) option" where
  "drain_responses B F 0 t = Some ([], t)"
| "drain_responses B F (Suc n) t =
     Option.bind (on_next F [] (\<lambda>fr. unwrapped (rd_bind (get_u16 B fr) (\<lambda>mt b. Inr ([response_text mt], b)))) t)
       (\<lambda>(lines, t1). map_option (apfst ((@) lines)) (drain_responses B F n t1))"

definition read_auth_response :: "bytes_crate \<Rightarrow> 't framed \<Rightarrow> 't \<Rightarrow> ((bool \<times> account_id option) option \<times> 't) option" where
  "read_auth_response B F =
     on_next F None (\<lambda>fr. unwrapped (rd_bind (get_u16 B fr) (\<lambda>mt b.
       if mt = 106 then rd_bind (get_u32 B b) (\<lambda>acc b. Inr (Some (True, Some acc), b))
       else if mt = 107 then
         rd_bind (get_u32 B b) (\<lambda>len b. if length b < unat len then Inl underrun else Inr (Some (False, None), b))
       else Inr (None, b))))"

definition read_order_response :: "bytes_crate \<Rightarrow> 't framed \<Rightarrow> 't \<Rightarrow> (bool option \<times> 't) option" where
  "read_order_response B F =
     on_next F None (\<lambda>fr. unwrapped (rd_bind (get_u16 B fr) (\<lambda>mt b.
       Inr (if mt = 101 then Some True else if mt = 102 then Some False else None, b))))"

section \<open>The programs\<close>

record test_report =
  tr_before :: shown
  tr_buy :: "string list"
  tr_sell :: "string list"
  tr_after :: shown

definition test_client_main :: "bytes_crate \<Rightarrow> 't framed \<Rightarrow> 't \<Rightarrow> (test_report \<times> 't) option" where
  "test_client_main B F t =
     Option.bind (fd_connect F ''127.0.0.1:9000'' t) (\<lambda>t.
     Option.bind (send_query_account B F 1 1 1 t) (\<lambda>t.
     Option.bind (read_and_display_account_state B F t) (\<lambda>(before_state, t).
     Option.bind (send_order B F 10 5001 0 10000 1 t) (\<lambda>t.
     Option.bind (drain_responses B F 1 t) (\<lambda>(buy, t).
     Option.bind (send_order B F 11 5002 1 10000 1 t) (\<lambda>t.
     Option.bind (drain_responses B F 3 t) (\<lambda>(sell, t).
     Option.bind (send_query_account B F 20 1 1 t) (\<lambda>t.
     Option.bind (read_and_display_account_state B F t) (\<lambda>(after_state, t).
       Some (\<lparr>tr_before = before_state, tr_buy = buy, tr_sell = sell, tr_after = after_state\<rparr>, fd_close F t))))))))))"

text \<open>A line printed with a check mark or with a cross.\<close>

datatype verdict = Passed string | Failed string

definition auth_verdict :: "(bool \<times> account_id option) option \<Rightarrow> verdict" where
  "auth_verdict r =
     (case r of
        Some (True, Some acc) \<Rightarrow> Passed (''Successfully authenticated as account_id='' @ show_nat (unat acc))
      | Some (False, None) \<Rightarrow> Failed ''Authentication failed (unexpected)''
      | _ \<Rightarrow> Failed ''No response or invalid response'')"

definition order_verdict :: "bool option \<Rightarrow> verdict" where
  "order_verdict r =
     (case r of
        Some True \<Rightarrow> Passed ''Order accepted (Ack received)''
      | Some False \<Rightarrow> Failed ''Order rejected (unexpected)''
      | None \<Rightarrow> Failed ''No response'')"

definition wrong_key_verdict :: "(bool \<times> account_id option) option \<Rightarrow> verdict" where
  "wrong_key_verdict r =
     (case r of
        Some (False, None) \<Rightarrow> Passed ''Authentication rejected as expected''
      | Some (True, _) \<Rightarrow> Failed ''Authentication succeeded (unexpected)''
      | _ \<Rightarrow> Failed ''No response or invalid response'')"

definition no_login_verdict :: "bool option \<Rightarrow> verdict" where
  "no_login_verdict r =
     (case r of
        Some False \<Rightarrow> Passed ''Order rejected as expected (not authenticated)''
      | Some True \<Rightarrow> Failed ''Order accepted (unexpected - security violation!)''
      | None \<Rightarrow> Failed ''No response'')"

fun is_passed :: "verdict \<Rightarrow> bool" where
  "is_passed (Passed _) = True"
| "is_passed (Failed _) = False"

text \<open>An authentication that does not come out as it should ends the program.\<close>

definition auth_test_main :: "bytes_crate \<Rightarrow> 't framed \<Rightarrow> 't \<Rightarrow> (verdict list \<times> 't) option" where
  "auth_test_main B F t =
     Option.bind (fd_connect F ''127.0.0.1:9000'' t) (\<lambda>t.
     Option.bind (send_authenticate B F ''test-key-1'' t) (\<lambda>t.
     Option.bind (read_auth_response B F t) (\<lambda>(r, t).
       let v1 = auth_verdict r
       in if \<not> is_passed v1 then Some ([v1], fd_close F t)
          else
     Option.bind (send_order B F 100 1000 0 50000 1 t) (\<lambda>t.
     Option.bind (read_order_response B F t) (\<lambda>(r, t).
       let v2 = order_verdict r
       in
     Option.bind (fd_connect F ''127.0.0.1:9000'' (fd_close F t)) (\<lambda>t.
     Option.bind (send_authenticate B F ''wrong-key'' t) (\<lambda>t.
     Option.bind (read_auth_response B F t) (\<lambda>(r, t).
       let v3 = wrong_key_verdict r
       in if \<not> is_passed v3 then Some ([v1, v2, v3], fd_close F t)
          else
     Option.bind (fd_connect F ''127.0.0.1:9000'' (fd_close F t)) (\<lambda>t.
     Option.bind (send_order B F 200 2000 0 50000 1 t) (\<lambda>t.
     Option.bind (read_order_response B F t) (\<lambda>(r, t).
       Some ([v1, v2, v3, no_login_verdict r], fd_close F t))))))))))))"

end
