(* ===== verification/TestClientProps.thy ===== *)
theory TestClientProps
  imports TestClient ClientProps
begin

text \<open>
  The test client against the stack: what it is answered on a fresh stack, over one connection or over
  several, one after the other.
\<close>

section \<open>What the programs make of an event\<close>

context buf_laws begin

lemma get_simps [simp]:
  "get_u16 B (to_le w16 @ r) = Inr (w16, r)"
  "get_u32 B (to_le w32 @ r) = Inr (w32, r)" "get_u32 B (to_le w32) = Inr (w32, [])"
  "get_u64 B (to_le w64 @ r) = Inr (w64, r)" "i64_ok x \<Longrightarrow> get_i64 B (i64_bytes x @ r) = Inr (x, r)"
  "i64_ok x \<Longrightarrow> get_i64 B (i64_bytes x) = Inr (x, [])"
  using get_i64_law [of x "[]"] get_u32_law [of w32 "[]"]
  by (simp_all add: get_u16_def get_u32_def get_u64_def get_i64_def get_u16_law get_u32_law get_u64_law get_i64_law)

lemma payloads:
  "puts [put_u16_le B 1, put_u64_le B cs, put_u64_le B oid, put_u32_le B 1, put_u32_le B 1,
     put_u8 B (if s = Buy then 0 else 1), put_i64_le B px, put_i64_le B q, put_u8 B 0, put_u8 B 0] [] =
   command_bytes (client_order cs oid 1 s px q Gtc False)"
  "puts [put_u16_le B 5, put_u64_le B cs, put_u32_le B acc, put_u32_le B symb] [] =
   command_bytes (QueryAccount \<lparr>qa_client_seq = cs, qa_account_id = acc, qa_symbol_id = symb\<rparr>)"
  "puts [put_u16_le B 6, put_u32_le B (of_nat (length (string_bytes key))), put_slice B (string_bytes key)] [] =
   command_bytes (login key)"
  by (cases s; simp add: puts_def put_laws client_order_def flag_byte_def)
    (simp_all add: puts_def put_laws login_def string_field_def)

lemma state_read:
  assumes "event_wf (EvAccountState st)"
  shows "unwrapped (rd_bind (get_u16 B (event_bytes (EvAccountState st))) (\<lambda>mt b.
      if mt = 105 then account_state_of B b else Inr (OtherType mt, b))) =
    Some (ShownState (as_client_seq st) (as_account_id st) (as_symbol_id st) (as_position st) (as_risk_limits st))"
  using assms by (simp add: rd_bind_def unwrapped_def account_state_of_def limits_bytes_def limits_wf_def)

end

section \<open>The framed connection to the stack\<close>

definition stack_frames :: "('s, order) slab_ops \<Rightarrow> stack_crates \<Rightarrow> ('s stack \<times> u8 list list) framed" where
  "stack_frames S X =
     \<lparr>fd_connect = (\<lambda>addr (t, _). map_option (\<lambda>t1. (t1, [])) (nw_connect (stack_network S X) addr t)),
      fd_send = (\<lambda>bs (t, frs). Some (case stack_payload S X bs t of
         None \<Rightarrow> (t, frs)
       | Some (answers, t1) \<Rightarrow> (t1, frs @ answers))),
      fd_next = (\<lambda>(t, frs). case frs of [] \<Rightarrow> (None, (t, [])) | fr # frs1 \<Rightarrow> (Some fr, (t, frs1))),
      fd_close = (\<lambda>(t, _). (nw_close (stack_network S X) t, []))\<rparr>"

definition linked :: "bytes_crate \<Rightarrow> u64 \<Rightarrow> 's exchange \<Rightarrow> 's stack \<Rightarrow> bool" where
  "linked B conn x t \<longleftrightarrow> stack_rel (binary_codec B) x t \<and> st_conn t = conn \<and> st_next_conn t = conn + 1"

lemma stack_payload_ids: "stack_payload S X bs t = Some (frs, t1) \<Longrightarrow> st_next_conn t1 = st_next_conn t"
  by (auto simp: stack_payload_def Let_def split: option.splits)

lemma encodes_binary: "buf_laws B \<Longrightarrow> encodes (binary_codec B) ev fr \<Longrightarrow> fr = event_bytes ev"
  by (auto simp: encodes_def binary_codec_def buf_laws.encode_event_bytes)

lemma readable_encodable: "buf_laws B \<Longrightarrow> readable_event ev \<Longrightarrow> encodable (binary_codec B) ev"
  using client_wire.received [OF buf_laws.binary_wire] by (auto simp: encodable_def encodes_def)

text \<open>A command is sent, and the events the exchange has for it come as frames.\<close>

lemma send_frames:
  assumes "buf_laws B" and "lawful_crates X" and "linked B conn x t" and "command_wf cmd"
    and "x_step S conn cmd x = Some (outs, x')" and "\<forall>o' \<in> set outs. readable_event (snd o')"
  shows "\<exists>t'. fd_send (stack_frames S X) (command_bytes cmd) (t, frs) = Some (t', frs @ map event_bytes (events_for conn outs)) \<and>
    linked B conn x' t'"
proof -
  have dec: "cc_decode (binary_codec B) (command_bytes cmd) = Inr cmd"
    using assms(4) buf_laws.decode_command_iff [OF assms(1), of "command_bytes cmd" cmd] by (simp add: binary_codec_def)
  have "\<forall>o' \<in> set outs. encodable (binary_codec B) (snd o')" using assms(1,6) readable_encodable by blast
  moreover have "stack_rel (binary_codec B) x t" "st_conn t = conn" using assms(3) by (simp_all add: linked_def)
  ultimately obtain answers t' where
    t': "stack_payload S X (command_bytes cmd) t = Some (answers, t')" "stack_rel (binary_codec B) x' t'" "st_conn t' = conn"
      "list_all2 (encodes (binary_codec B)) (events_for conn outs) answers"
    using payload_simulates [OF assms(2) _ _ dec assms(5)] by blast
  from t'(4) have "answers = map event_bytes (events_for conn outs)"
    by (induction rule: list_all2_induct) (auto dest: encodes_binary [OF assms(1)])
  with t' assms(3) stack_payload_ids [OF t'(1)] show ?thesis
    by (auto simp: stack_frames_def linked_def)
qed

text \<open>A connection is closed and the next one opened.\<close>

definition x_reconnect :: "client_codec \<Rightarrow> u64 \<Rightarrow> 's exchange \<Rightarrow> 's exchange" where
  "x_reconnect K conn x =
     x\<lparr>xc_gateway := quiet (client_connect K (conn + 1) (client_disconnect conn (xc_gateway x))), xc_local := []\<rparr>"

lemma quiet_connection:
  "quiet (client_connect K c (client_disconnect d g)) = quiet (client_connect K c (client_disconnect d (quiet g)))"
  by (simp add: client_connect_def client_disconnect_def quiet_def)

lemma reconnect:
  assumes "linked B conn x t" and "sc_codec_of X addr = binary_codec B"
  shows "\<exists>t'. fd_connect (stack_frames S X) addr (fd_close (stack_frames S X) (t, frs)) = Some (t', []) \<and>
    linked B (conn + 1) (x_reconnect (binary_codec B) conn x) t'"
proof -
  let ?P = "sc_to_engine X"
  let ?t1 = "nw_close (stack_network S X) t"
  let ?t2 = "?t1\<lparr>st_next_conn := conn + 1 + 1, st_conn := conn + 1,
    st_gateway := gw_act ?P (Connect (binary_codec B) (conn + 1)) (st_gateway ?t1)\<rparr>"
  have n: "st_next_conn t = conn + 1" "st_conn t = conn" using assms(1) by (simp_all add: linked_def)
  have "fd_connect (stack_frames S X) addr (fd_close (stack_frames S X) (t, frs)) = Some (?t2, [])"
    using n assms(2) by (simp add: stack_frames_def stack_network_def)
  moreover have "linked B (conn + 1) (x_reconnect (binary_codec B) conn x) ?t2"
    using assms(1) n
    by (auto simp: linked_def stack_rel_def x_reconnect_def stack_network_def one_engine_def client_connect_def
        client_disconnect_def quiet_def AList.delete_conv split: if_splits)
  ultimately show ?thesis by blast
qed

section \<open>The dialogs\<close>

text \<open>Several connections, one after the other, each with its commands.\<close>

fun x_dialog ::
  "('s, order) slab_ops \<Rightarrow> client_codec \<Rightarrow> u64 \<Rightarrow> command list list \<Rightarrow> 's exchange \<Rightarrow> outputs list list option"
where
  "x_dialog S K conn [] x = Some []"
| "x_dialog S K conn (cmds # rest) x =
     (case x_talk S conn cmds x of
        None \<Rightarrow> None
      | Some (oss, x1) \<Rightarrow> map_option (Cons oss) (x_dialog S K (conn + 1) rest (x_reconnect K conn x1)))"

definition auth_dialog :: "command list list" where
  "auth_dialog =
     [[login ''test-key-1'', client_order 100 1000 1 Buy 50000 1 Gtc False], [login ''wrong-key''],
      [client_order 200 2000 1 Buy 50000 1 Gtc False]]"

lemma dialog_auth:
  "x_dialog vec_slab K 1 auth_dialog (x_start K j ex_engine) =
     Some [[logged_in 1, [top_ev 1 (Some (50000, 1)) None, ack_of 2 100 1000]],
       [[(2, EvAuthFailure \<lparr>fa_reason = ''Authentication failed: Invalid API key''\<rparr>)]],
       [[(3, EvReject \<lparr>rj_server_seq = 2, rj_client_seq = 0, rj_order_id = None, rj_reason = Invalid\<rparr>)]]]"
  by code_simp

definition state_of :: "u64 \<Rightarrow> u64 \<Rightarrow> u64 \<times> event" where
  "state_of sq cs =
     (1, EvAccountState \<lparr>as_server_seq = sq, as_client_seq = cs, as_account_id = 1, as_symbol_id = 1,
        as_position = default_position, as_risk_limits = default_risk_limits\<rparr>)"

definition ask_state :: "u64 \<Rightarrow> command" where
  "ask_state cs = QueryAccount \<lparr>qa_client_seq = cs, qa_account_id = 1, qa_symbol_id = 1\<rparr>"

lemma dialog_query:
  "x_dialog vec_slab K 1 [[ask_state 1, client_order 10 5001 1 Buy 10000 1 Gtc False,
       client_order 11 5002 1 Sell 10000 1 Gtc False, ask_state 20]] (x_start K j ex_engine) =
     Some [[[state_of 1 1], [reject_of 2 0 None Invalid], [reject_of 3 0 None Invalid], [state_of 4 20]]]"
  by code_simp

lemma x_dialog_Cons:
  "x_dialog S K conn (cmds # rest) x = Some (oss # ooss) \<longleftrightarrow>
   (\<exists>x1. x_talk S conn cmds x = Some (oss, x1) \<and> x_dialog S K (conn + 1) rest (x_reconnect K conn x1) = Some ooss)"
  by (auto split: option.splits)

lemma x_talk_step:
  "x_talk S conn (cmd # cmds) x = Some (outs # oss, x') \<longleftrightarrow>
   (\<exists>x1. x_step S conn cmd x = Some (outs, x1) \<and> x_talk S conn cmds x1 = Some (oss, x'))"
  by (auto split: option.splits)

lemma next_frames [simp]:
  "fd_next (stack_frames S X) (t, []) = (None, (t, []))"
  "fd_next (stack_frames S X) (t, fr # frs) = (Some fr, (t, frs))"
  by (simp_all add: stack_frames_def)

context buf_laws begin

lemma sends_order:
  "fd_send F (command_bytes (client_order cs oid 1 Buy px q Gtc False)) t = send_order B F cs oid 0 px q t"
  "fd_send F (command_bytes (client_order cs oid 1 Sell px q Gtc False)) t = send_order B F cs oid 1 px q t"
  using payloads(1) [where s = Buy] payloads(1) [where s = Sell] by (simp_all add: send_order_def)

lemma sends_others:
  "fd_send F (command_bytes (login key)) t = send_authenticate B F key t"
  "fd_send F (command_bytes (ask_state cs)) t = send_query_account B F cs 1 1 t"
  by (simp_all only: send_authenticate_def send_query_account_def payloads ask_state_def)

lemma frames_read:
  "read_auth_response B (stack_frames S X) (t, event_bytes (EvAuthSuccess \<lparr>ok_account_id = acc\<rparr>) # frs) =
     Some (Some (True, Some acc), (t, frs))"
  "length reason < 2 ^ 32 \<Longrightarrow>
     read_auth_response B (stack_frames S X) (t, event_bytes (EvAuthFailure \<lparr>fa_reason = reason\<rparr>) # frs) =
       Some (Some (False, None), (t, frs))"
  "read_order_response B (stack_frames S X) (t, event_bytes (snd (top_ev sq bid ask)) # frs) = Some (None, (t, frs))"
  "read_order_response B (stack_frames S X) (t, event_bytes (EvReject r) # frs) = Some (Some False, (t, frs))"
  "read_and_display_account_state B (stack_frames S X) (t, event_bytes (snd (state_of sq cs)) # frs) =
     Some (ShownState cs 1 1 default_position default_risk_limits, (t, frs))"
  "drain_responses B (stack_frames S X) (Suc n) (t, event_bytes (snd (reject_of sq cs oid' why)) # frs) =
     map_option (apfst (Cons ''Got message type 102'')) (drain_responses B (stack_frames S X) n (t, frs))"
  "drain_responses B (stack_frames S X) n (t, []) = Some ([], (t, []))"
proof -
  have n: "show_nat 102 = ''102''" by code_simp
  show "read_auth_response B (stack_frames S X) (t, event_bytes (EvAuthSuccess \<lparr>ok_account_id = acc\<rparr>) # frs) =
     Some (Some (True, Some acc), (t, frs))"
    by (simp add: read_auth_response_def on_next_def rd_bind_def unwrapped_def)
  show "read_auth_response B (stack_frames S X) (t, event_bytes (EvAuthFailure \<lparr>fa_reason = reason\<rparr>) # frs) =
       Some (Some (False, None), (t, frs))" if "length reason < 2 ^ 32"
    using that by (simp add: read_auth_response_def on_next_def rd_bind_def unwrapped_def string_field_def unat_of_nat take_bit_eq_mod)
  show "read_order_response B (stack_frames S X) (t, event_bytes (snd (top_ev sq bid ask)) # frs) = Some (None, (t, frs))"
    "read_order_response B (stack_frames S X) (t, event_bytes (EvReject r) # frs) = Some (Some False, (t, frs))"
    by (simp_all add: read_order_response_def on_next_def rd_bind_def unwrapped_def top_ev_def)
  have "event_wf (snd (state_of sq cs))"
    by (simp add: state_of_def default_position_def default_risk_limits_def limits_wf_def i64_ok_def i64_min_def i64_max_def)
  then show "read_and_display_account_state B (stack_frames S X) (t, event_bytes (snd (state_of sq cs)) # frs) =
     Some (ShownState cs 1 1 default_position default_risk_limits, (t, frs))"
    using state_read by (simp add: read_and_display_account_state_def on_next_def state_of_def del: event_bytes.simps event_wf.simps)
  show "drain_responses B (stack_frames S X) (Suc n) (t, event_bytes (snd (reject_of sq cs oid' why)) # frs) =
     map_option (apfst (Cons ''Got message type 102'')) (drain_responses B (stack_frames S X) n (t, frs))"
    by (cases "drain_responses B (stack_frames S X) n (t, frs)")
      (simp_all add: on_next_def rd_bind_def unwrapped_def reject_of_def response_text_def n apfst_def map_prod_def split_def)
  show "drain_responses B (stack_frames S X) n (t, []) = Some ([], (t, []))"
    by (induction n) (simp_all add: on_next_def)
qed

end

section \<open>The programs\<close>

lemma opens:
  assumes "fresh_stack e t" and "sc_codec_of X addr = binary_codec B"
  shows "\<exists>t1 j. fd_connect (stack_frames S X) addr (t, []) = Some (t1, []) \<and>
    linked B 1 (x_start (binary_codec B) j e) t1"
proof -
  obtain t1 j where t1: "nw_connect (stack_network S X) addr t = Some t1" "stack_rel (binary_codec B) (x_start (binary_codec B) j e) t1"
    "st_conn t1 = 1" using fresh_connect [OF assms] by blast
  moreover have "st_next_conn t1 = 2" using t1(1) assms(1) by (auto simp: stack_network_def fresh_stack_def)
  ultimately show ?thesis by (auto simp: stack_frames_def linked_def)
qed

lemma dialog_events [simp]:
  "readable_event (EvReject r)" "readable_event (snd (state_of sq cs))" "readable_event (EvAuthSuccess a)"
  "length why < 2 ^ 31 \<Longrightarrow> readable_event (EvAuthFailure \<lparr>fa_reason = why\<rparr>)"
  "events_for c [(c, ev)] = [ev]" "events_for 1 [state_of sq cs] = [snd (state_of sq cs)]"
  by (simp_all add: readable_event_def events_for_def state_of_def default_position_def default_risk_limits_def limits_wf_def
      i64_ok_def i64_min_def i64_max_def)

lemma dialog_commands [simp]:
  "command_wf (client_order cs oid acc s px q tif po) \<longleftrightarrow> i64_ok px \<and> i64_ok q" "command_wf (ask_state cs)"
  "command_wf (login ''test-key-1'')" "command_wf (login ''wrong-key'')"
  by (simp_all add: client_order_def ask_state_def login_def string_wf_def string_bytes_def)

text \<open>C35: \<open>auth_test\<close> against a fresh stack: the login with a registered key succeeds, the wrong key is refused and
  so is the order without a login, as the program expects. But the order after the login, which the engine
  accepts, is reported as a failure, because the program takes the first frame for the answer and that is the
  book top.\<close>

theorem auth_test_verdicts:
  assumes "buf_laws B" and "lawful_crates X" and "fresh_stack ex_engine t"
    and "sc_codec_of X ''127.0.0.1:9000'' = binary_codec B"
  shows "map_option fst (auth_test_main B (stack_frames vec_slab X) (t, [])) =
    Some [Passed ''Successfully authenticated as account_id=1'', Failed ''No response'',
      Passed ''Authentication rejected as expected'', Passed ''Order rejected as expected (not authenticated)'']"
proof -
  let ?F = "stack_frames vec_slab X" and ?K = "binary_codec B" and ?addr = "''127.0.0.1:9000''"
  note snd_simps = buf_laws.sends_order [OF assms(1), where F = ?F] buf_laws.sends_others [OF assms(1), where F = ?F]
  note read = buf_laws.frames_read [OF assms(1)]
  note send = send_frames [OF assms(1,2)]
  have px: "i64_ok 50000" "i64_ok 1" by (simp_all add: i64_ok_def i64_min_def i64_max_def)
  obtain t1 j where t1: "fd_connect ?F ?addr (t, []) = Some (t1, [])" "linked B 1 (x_start ?K j ex_engine) t1"
    using opens [OF assms(3,4)] by blast
  obtain x1 x2 y1 z1 where x:
    "x_step vec_slab 1 (login ''test-key-1'') (x_start ?K j ex_engine) = Some (logged_in 1, x1)"
    "x_step vec_slab 1 (client_order 100 1000 1 Buy 50000 1 Gtc False) x1 =
       Some ([top_ev 1 (Some (50000, 1)) None, ack_of 2 100 1000], x2)"
    "x_step vec_slab 2 (login ''wrong-key'') (x_reconnect ?K 1 x2) =
       Some ([(2, EvAuthFailure \<lparr>fa_reason = ''Authentication failed: Invalid API key''\<rparr>)], y1)"
    "x_step vec_slab 3 (client_order 200 2000 1 Buy 50000 1 Gtc False) (x_reconnect ?K 2 y1) =
       Some ([(3, EvReject \<lparr>rj_server_seq = 2, rj_client_seq = 0, rj_order_id = None, rj_reason = Invalid\<rparr>)], z1)"
    using dialog_auth [of ?K j] unfolding auth_dialog_def x_dialog_Cons x_talk_step by auto
  obtain t2 where t2: "send_authenticate B ?F ''test-key-1'' (t1, []) =
      Some (t2, [event_bytes (EvAuthSuccess \<lparr>ok_account_id = 1\<rparr>)])" "linked B 1 x1 t2"
    using send [OF t1(2) _ x(1), of "[]"] by (auto simp: snd_simps logged_in_def)
  obtain t3 frs where t3: "send_order B ?F 100 1000 0 50000 1 (t2, []) =
      Some (t3, event_bytes (snd (top_ev 1 (Some (50000, 1)) None)) # frs)" "linked B 1 x2 t3"
    using send [OF t2(2) _ x(2), of "[]"] px by (auto simp: snd_simps opt_wf_def)
  obtain t4 where t4: "fd_connect ?F ?addr (fd_close ?F (t3, frs)) = Some (t4, [])" "linked B 2 (x_reconnect ?K 1 x2) t4"
    using reconnect [OF t3(2) assms(4), of vec_slab frs] by auto
  obtain t5 where t5: "send_authenticate B ?F ''wrong-key'' (t4, []) =
      Some (t5, [event_bytes (EvAuthFailure \<lparr>fa_reason = ''Authentication failed: Invalid API key''\<rparr>)])" "linked B 2 y1 t5"
    using send [OF t4(2) _ x(3), of "[]"] by (auto simp: snd_simps)
  obtain t6 where t6: "fd_connect ?F ?addr (fd_close ?F (t5, [])) = Some (t6, [])" "linked B 3 (x_reconnect ?K 2 y1) t6"
    using reconnect [OF t5(2) assms(4), of vec_slab "[]"] by auto
  obtain t7 where t7: "send_order B ?F 200 2000 0 50000 1 (t6, []) = Some (t7, [event_bytes (EvReject
      \<lparr>rj_server_seq = 2, rj_client_seq = 0, rj_order_id = None, rj_reason = Invalid\<rparr>)])"
    using send [OF t6(2) _ x(4), of "[]"] px by (auto simp: snd_simps)
  have "show_nat 1 = ''1'' \<and> True" by code_simp
  then have n: "show_nat (Suc 0) = ''1''" by simp
  show ?thesis
    by (simp add: auth_test_main_def t1(1) t2(1) t3(1) t4(1) t5(1) t6(1) t7 read auth_verdict_def order_verdict_def
        wrong_key_verdict_def no_login_verdict_def n del: event_bytes.simps)
qed

theorem auth_test_verdicts_witness:
  "\<exists>r s. auth_test_main le_crate (stack_frames vec_slab ex_crates) (ex_stack, []) = Some (r, s) \<and> \<not> list_all is_passed r"
  using auth_test_verdicts [OF le.buf_laws_axioms ex_crates_lawful ex_stack_fresh ex_crates_sel(3)] by auto

text \<open>\<open>test_client\<close> against a fresh stack never trades: it does not log in, so both of its orders are refused and
  the account it shows at the end is the one it shows at the start. Its queries need no login.\<close>

theorem test_client_never_trades:
  assumes "buf_laws B" and "lawful_crates X" and "fresh_stack ex_engine t"
    and "sc_codec_of X ''127.0.0.1:9000'' = binary_codec B"
  shows "map_option fst (test_client_main B (stack_frames vec_slab X) (t, [])) =
    Some \<lparr>tr_before = ShownState 1 1 1 default_position default_risk_limits, tr_buy = [''Got message type 102''],
      tr_sell = [''Got message type 102''], tr_after = ShownState 20 1 1 default_position default_risk_limits\<rparr>"
proof -
  let ?F = "stack_frames vec_slab X" and ?K = "binary_codec B"
  note snd_simps = buf_laws.sends_order [OF assms(1), where F = ?F] buf_laws.sends_others [OF assms(1), where F = ?F]
  note read = buf_laws.frames_read [OF assms(1)]
  note send = send_frames [OF assms(1,2)]
  have px: "i64_ok 10000" "i64_ok 1" by (simp_all add: i64_ok_def i64_min_def i64_max_def)
  obtain t1 j where t1: "fd_connect ?F ''127.0.0.1:9000'' (t, []) = Some (t1, [])" "linked B 1 (x_start ?K j ex_engine) t1"
    using opens [OF assms(3,4)] by blast
  obtain x1 x2 x3 x4 where x:
    "x_step vec_slab 1 (ask_state 1) (x_start ?K j ex_engine) = Some ([state_of 1 1], x1)"
    "x_step vec_slab 1 (client_order 10 5001 1 Buy 10000 1 Gtc False) x1 = Some ([reject_of 2 0 None Invalid], x2)"
    "x_step vec_slab 1 (client_order 11 5002 1 Sell 10000 1 Gtc False) x2 = Some ([reject_of 3 0 None Invalid], x3)"
    "x_step vec_slab 1 (ask_state 20) x3 = Some ([state_of 4 20], x4)"
    using dialog_query [of ?K j] unfolding x_dialog_Cons x_talk_step by auto
  obtain t2 where t2: "send_query_account B ?F 1 1 1 (t1, []) = Some (t2, [event_bytes (snd (state_of 1 1))])" "linked B 1 x1 t2"
    using send [OF t1(2) _ x(1), of "[]"] by (auto simp: snd_simps)
  obtain t3 where t3: "send_order B ?F 10 5001 0 10000 1 (t2, []) = Some (t3, [event_bytes (snd (reject_of 2 0 None Invalid))])"
    "linked B 1 x2 t3" using send [OF t2(2) _ x(2), of "[]"] px by (auto simp: snd_simps)
  obtain t4 where t4: "send_order B ?F 11 5002 1 10000 1 (t3, []) = Some (t4, [event_bytes (snd (reject_of 3 0 None Invalid))])"
    "linked B 1 x3 t4" using send [OF t3(2) _ x(3), of "[]"] px by (auto simp: snd_simps)
  obtain t5 where t5: "send_query_account B ?F 20 1 1 (t4, []) = Some (t5, [event_bytes (snd (state_of 4 20))])"
    using send [OF t4(2) _ x(4), of "[]"] by (auto simp: snd_simps)
  show ?thesis
    by (simp add: test_client_main_def t1(1) t2(1) t3(1) t4(1) t5 read numeral_3_eq_3 del: event_bytes.simps drain_responses.simps)
qed

theorem test_client_never_trades_witness:
  "\<exists>r s. test_client_main le_crate (stack_frames vec_slab ex_crates) (ex_stack, []) = Some (r, s) \<and>
     tr_after r = ShownState 20 1 1 default_position default_risk_limits"
  using test_client_never_trades [OF le.buf_laws_axioms ex_crates_lawful ex_stack_fresh ex_crates_sel(3)] by auto

end
