(* ===== verification/EngineTests.thy ===== *)
theory EngineTests
  imports EngineProps EngineAgree
begin

text \<open>
  The unit tests of the engine crate, translated with their assertions: \<open>order_book.rs\<close>, \<open>account_manager.rs\<close>
  and \<open>engine_tests.rs\<close>. A panic of the code under test is \<open>None\<close> and fails the test. They run on the model
  in the kernel, which checks the definitions against what the authors of the code expect of it.
\<close>

definition passes :: "bool option \<Rightarrow> bool" where
  "passes r \<longleftrightarrow> r = Some True"

lemma passes_bind: "passes (Option.bind m f) \<longleftrightarrow> (\<exists>a. m = Some a \<and> passes (f a))"
  by (cases m) (simp_all add: passes_def)

section \<open>The order book\<close>

definition test_order :: "order_id \<Rightarrow> account_id \<Rightarrow> side \<Rightarrow> price \<Rightarrow> qty \<Rightarrow> order" where
  "test_order oid acc s px q =
     \<lparr>o_id = oid, o_account = acc, o_symbol = 1, o_side = s, o_price = px, o_qty_rem = q, o_tif = Gtc,
      o_flags = \<lparr>post_only = False\<rparr>\<rparr>"

definition resting_orders_set_top :: "('s, order) slab_ops \<Rightarrow> bool" where
  "resting_orders_set_top S \<longleftrightarrow>
     (let b = insert_resting S (test_order 2 11 Sell 101 7) (insert_resting S (test_order 1 10 Buy 99 5) (new_book S 1))
      in best_bid b = Some (99, 5) \<and> best_ask b = Some (101, 7) \<and> \<not> would_cross b Buy 100 \<and> would_cross b Buy 101)"

definition match_buy_takes_best_ask_fifo :: "('s, order) slab_ops \<Rightarrow> bool" where
  "match_buy_takes_best_ask_fifo S \<longleftrightarrow>
     (let b = insert_resting S (test_order 11 1 Sell 100 4) (insert_resting S (test_order 10 1 Sell 100 3) (new_book S 1))
      in passes (Option.bind (match_taker S 200 Buy 100 5 b) (\<lambda>(b, fills). Some (
           map (\<lambda>f. (mf_maker_order_id f, mf_qty f)) fills = [(10, 3), (11, 2)] \<and>
           best_ask b = Some (100, 2)))))"

definition cancel_removes_qty_from_top :: "('s, order) slab_ops \<Rightarrow> bool" where
  "cancel_removes_qty_from_top S \<longleftrightarrow>
     (let b = insert_resting S (test_order 11 2 Sell 100 4) (insert_resting S (test_order 10 1 Sell 100 3) (new_book S 1));
          (r1, b1) = cancel S 10 1 b;
          (r2, b2) = cancel S 11 99 b1
      in best_ask b = Some (100, 7) \<and> r1 \<and> best_ask b1 = Some (100, 4) \<and> \<not> r2 \<and> best_ask b2 = Some (100, 4))"

definition match_sell_takes_best_bid :: "('s, order) slab_ops \<Rightarrow> bool" where
  "match_sell_takes_best_bid S \<longleftrightarrow>
     (let b = insert_resting S (test_order 2 1 Buy 100 10) (insert_resting S (test_order 1 1 Buy 101 2) (new_book S 1))
      in passes (Option.bind (match_taker S 9 Sell 100 3 b) (\<lambda>(b, fills). Some (
           map (\<lambda>f. (mf_price f, mf_qty f)) fills = [(101, 2), (100, 1)] \<and> best_bid b = Some (100, 9)))))"

definition order_book_tests :: "('s, order) slab_ops \<Rightarrow> bool" where
  "order_book_tests S \<longleftrightarrow> resting_orders_set_top S \<and> match_buy_takes_best_ask_fifo S \<and>
     cancel_removes_qty_from_top S \<and> match_sell_takes_best_bid S"

section \<open>The engine's accounts\<close>

definition test_limits :: risk_limits where
  "test_limits = \<lparr>max_long_position = 100, max_short_position = 100, max_order_size = 50\<rparr>"

definition test_risk_check_order_size :: bool where
  "test_risk_check_order_size \<longleftrightarrow>
     (let m = new_account_manager test_limits
      in check_risk m 1 Buy 50 = Inr () \<and> check_risk m 1 Buy 51 = Inl Risk)"

definition test_risk_check_position_limit :: bool where
  "test_risk_check_position_limit \<longleftrightarrow>
     (let m = new_account_manager test_limits
      in check_risk m 1 Buy 50 = Inr () \<and>
         passes (Option.bind (apply_fill 1 Buy 100 50 m) (\<lambda>m1.
                 Option.bind (apply_fill 1 Buy 100 40 m1) (\<lambda>m2.
                   Some (check_risk m1 1 Buy 40 = Inr () \<and> check_risk m2 1 Buy 20 = Inl Risk)))))"

definition test_position_tracking_long :: bool where
  "test_position_tracking_long \<longleftrightarrow>
     passes (Option.bind (apply_fill 1 Buy 100 10 (new_account_manager test_limits)) (\<lambda>m1.
             Option.bind (apply_fill 1 Buy 110 10 m1) (\<lambda>m2.
               Some (get_position m1 1 = \<lparr>net_position = 10, avg_price = 100, realized_pnl = 0\<rparr> \<and>
                     net_position (get_position m2 1) = 20 \<and> avg_price (get_position m2 1) = 105))))"

definition test_position_tracking_close_long :: bool where
  "test_position_tracking_close_long \<longleftrightarrow>
     passes (Option.bind (apply_fill 1 Buy 100 10 (new_account_manager test_limits)) (\<lambda>m1.
             Option.bind (apply_fill 1 Sell 110 5 m1) (\<lambda>m2.
               Some (net_position (get_position m2 1) = 5 \<and> realized_pnl (get_position m2 1) = 50))))"

definition test_position_tracking_reverse :: bool where
  "test_position_tracking_reverse \<longleftrightarrow>
     passes (Option.bind (apply_fill 1 Buy 100 10 (new_account_manager test_limits)) (\<lambda>m1.
             Option.bind (apply_fill 1 Sell 110 15 m1) (\<lambda>m2.
               Some (get_position m2 1 = \<lparr>net_position = - 5, avg_price = 110, realized_pnl = 100\<rparr>))))"

definition test_custom_limits :: bool where
  "test_custom_limits \<longleftrightarrow>
     (let m = set_limits 1 \<lparr>max_long_position = 10, max_short_position = 10, max_order_size = 5\<rparr>
                (new_account_manager test_limits)
      in check_risk m 1 Buy 6 = Inl Risk \<and> check_risk m 2 Buy 50 = Inr ())"

definition engine_account_tests :: bool where
  "engine_account_tests \<longleftrightarrow> test_risk_check_order_size \<and> test_risk_check_position_limit \<and>
     test_position_tracking_long \<and> test_position_tracking_close_long \<and> test_position_tracking_reverse \<and>
     test_custom_limits"

section \<open>The engine\<close>

text \<open>The engine of the tests writes its journal to the default path.\<close>

definition mk_engine :: "('s, order) slab_ops \<Rightarrow> 's engine option" where
  "mk_engine S = new_engine S 0 default_metrics default_engine_config empty_disk empty_disk"

definition test_new :: "u64 \<Rightarrow> order_id \<Rightarrow> account_id \<Rightarrow> side \<Rightarrow> price \<Rightarrow> qty \<Rightarrow> time_in_force \<Rightarrow> bool \<Rightarrow> command" where
  "test_new cs oid acc s px q tif po =
     NewOrder \<lparr>no_client_seq = cs, no_order_id = oid, no_account_id = acc, no_symbol_id = 1, no_side = s,
       no_price = px, no_qty = q, no_tif = tif, no_flags = \<lparr>post_only = po\<rparr>\<rparr>"

text \<open>The events of each of some commands.\<close>

fun replies :: "('s, order) slab_ops \<Rightarrow> command list \<Rightarrow> 's engine \<Rightarrow> event list list option" where
  "replies S [] e = Some []"
| "replies S (cmd # cmds) e =
     (case process S cmd e of
        None \<Rightarrow> None
      | Some (evs, e1) \<Rightarrow> map_option (Cons evs) (replies S cmds e1))"

definition test_replies :: "('s, order) slab_ops \<Rightarrow> command list \<Rightarrow> event list list option" where
  "test_replies S cmds = Option.bind (mk_engine S) (replies S cmds)"

definition post_only_cross_rejects :: "('s, order) slab_ops \<Rightarrow> bool" where
  "post_only_cross_rejects S \<longleftrightarrow>
     (case test_replies S [test_new 1 101 1 Sell 100 5 Gtc False, test_new 2 202 2 Buy 110 1 Gtc True] of
        Some [evs1, evs2] \<Rightarrow>
          list_ex (\<lambda>ev. case ev of EvAck _ \<Rightarrow> True | _ \<Rightarrow> False) evs1 \<and>
          list_ex (\<lambda>ev. case ev of EvReject r \<Rightarrow> rj_reason r = PostOnlyWouldCross | _ \<Rightarrow> False) evs2
      | _ \<Rightarrow> False)"

text \<open>The first book top must be there.\<close>

definition ioc_does_not_rest_remainder :: "('s, order) slab_ops \<Rightarrow> bool" where
  "ioc_does_not_rest_remainder S \<longleftrightarrow>
     (case test_replies S [test_new 1 101 1 Sell 100 5 Gtc False, test_new 2 202 2 Buy 110 10 Ioc False] of
        Some [_, evs] \<Rightarrow>
          foldl add64 0 (List.map_filter (\<lambda>ev. case ev of EvFill f \<Rightarrow> Some (fi_qty f) | _ \<Rightarrow> None) evs) = 5 \<and>
          (case List.map_filter (\<lambda>ev. case ev of EvBookTop t \<Rightarrow> Some t | _ \<Rightarrow> None) evs of
             [] \<Rightarrow> False
           | t # _ \<Rightarrow> bt_best_ask_px t = None \<and> bt_best_bid_px t = None)
      | _ \<Rightarrow> False)"

definition replace_can_cross_and_fill :: "('s, order) slab_ops \<Rightarrow> bool" where
  "replace_can_cross_and_fill S \<longleftrightarrow>
     (case test_replies S [test_new 1 101 1 Sell 100 5 Gtc False, test_new 2 202 2 Buy 90 5 Gtc False,
             Replace \<lparr>re_client_seq = 3, re_order_id = 202, re_account_id = 2, re_symbol_id = 1, re_new_price = 110,
               re_new_qty = 5\<rparr>] of
        Some [_, _, evs] \<Rightarrow>
          list_ex (\<lambda>ev. case ev of
             EvFill f \<Rightarrow> fi_price f = 100 \<and> fi_qty f = 5 \<and> fi_maker_order_id f = 101 \<and> fi_taker_order_id f = 202
           | _ \<Rightarrow> False) evs
      | _ \<Rightarrow> False)"

definition engine_tests :: "('s, order) slab_ops \<Rightarrow> bool" where
  "engine_tests S \<longleftrightarrow> post_only_cross_rejects S \<and> ioc_does_not_rest_remainder S \<and> replace_can_cross_and_fill S"

section \<open>The tests pass\<close>

lemma order_book_tests_pass: "order_book_tests vec_slab"
  by code_simp

lemma engine_account_tests_pass: "engine_account_tests"
  by code_simp

text \<open>The events do not depend on the journal, so the tests may run on the engine of the witnesses.\<close>

lemma agree_replies: "agree e d \<Longrightarrow> replies S cmds e = replies S cmds d"
proof (induction cmds arbitrary: e d)
  case (Cons cmd cmds)
  from agree_process [OF Cons.prems, of S cmd] show ?case
    by (cases rule: option.rel_cases) (auto simp: rel_prod.simps dest: Cons.IH)
qed simp

lemma test_replies_eq: "test_replies vec_slab cmds = replies vec_slab cmds ex_engine"
proof -
  obtain e where e: "mk_engine vec_slab = Some e" "agree e ex_engine"
    by (simp add: mk_engine_def new_engine_def open_with_config_def open_create_def io_bind_def os_unit_def os_call_def
        default_engine_config_def empty_disk_def agree_def core_def ex_engine_def)
  then show ?thesis by (simp add: test_replies_def agree_replies)
qed

lemma engine_tests_run: "engine_tests vec_slab"
  unfolding engine_tests_def post_only_cross_rejects_def ioc_does_not_rest_remainder_def replace_can_cross_and_fill_def
    test_replies_eq
  by code_simp

end
