(* ===== verification/GatewayTests.thy ===== *)
theory GatewayTests
  imports GatewayProps EngineTests
begin

text \<open>
  The unit tests of the gateway crate and of the persistence crate, translated with their assertions:
  \<open>account_manager.rs\<close>, \<open>session.rs\<close>, \<open>auth.rs\<close> and \<open>persistence/src/lib.rs\<close>. Serialization and checksum
  are parameters of the tests that write files. The test of the TOML parser and the one of a routing table
  that the crate does not use are left out.
\<close>

section \<open>Accounts\<close>

definition make_test_order :: "account_id \<Rightarrow> symbol_id \<Rightarrow> side \<Rightarrow> i64 \<Rightarrow> i64 \<Rightarrow> new_order" where
  "make_test_order acc symb s px q =
     \<lparr>no_client_seq = 1, no_order_id = 1, no_account_id = acc, no_symbol_id = symb, no_side = s, no_price = px,
      no_qty = q, no_tif = Gtc, no_flags = \<lparr>post_only = False\<rparr>\<rparr>"

definition make_test_replace :: "account_id \<Rightarrow> symbol_id \<Rightarrow> order_id \<Rightarrow> i64 \<Rightarrow> i64 \<Rightarrow> replace_cmd" where
  "make_test_replace acc symb oid px q =
     \<lparr>re_client_seq = 2, re_order_id = oid, re_account_id = acc, re_symbol_id = symb, re_new_price = px, re_new_qty = q\<rparr>"

text \<open>A manager without a journal and with one account, and a buy order of it; \<open>unwrap\<close> is a panic on an error.\<close>

definition funded :: "account_id \<Rightarrow> i64 \<Rightarrow> account_table" where
  "funded acc bp = fst (create_account update_serde (\<lambda>_. 0) 0 acc bp new_account_table empty_disk)"

definition buys :: "i64 \<Rightarrow> account_table \<Rightarrow> (risk_violation + reservation_token) \<times> account_table" where
  "buys px = check_and_reserve (NewOrder (make_test_order 100 1 Buy px 1))"

definition unwrap_ok :: "('e + 'a) \<times> 'b \<Rightarrow> ('a \<times> 'b) option" where
  "unwrap_ok r = (case r of (Inl _, _) \<Rightarrow> None | (Inr a, m) \<Rightarrow> Some (a, m))"

fun is_ok :: "'e + 'a \<Rightarrow> bool" where
  "is_ok (Inr _) = True"
| "is_ok (Inl _) = False"

definition reserved_is :: "account_table \<Rightarrow> i64 \<Rightarrow> bool" where
  "reserved_is m x \<longleftrightarrow> map_option ga_tentative_reserved (get_account m 100) = Some x"

definition test_create_account :: bool where
  "test_create_account \<longleftrightarrow>
     map_option (\<lambda>a. (ga_buying_power a, ga_tentative_reserved a)) (get_account (funded 100 50000) 100) = Some (50000, 0)"

definition test_check_and_reserve_sufficient_funds :: bool where
  "test_check_and_reserve_sufficient_funds \<longleftrightarrow>
     (case buys 50000 (funded 100 100000) of
        (Inr token, m) \<Rightarrow> tk_amount token = 50000 \<and> reserved_is m 50000
      | _ \<Rightarrow> False)"

definition test_check_and_reserve_insufficient_funds :: bool where
  "test_check_and_reserve_insufficient_funds \<longleftrightarrow> fst (buys 50000 (funded 100 30000)) = Inl InsufficientFunds"

definition test_double_spend_prevention :: bool where
  "test_double_spend_prevention \<longleftrightarrow>
     (case buys 60000 (funded 100 100000) of
        (r1, m) \<Rightarrow> is_ok r1 \<and> fst (buys 60000 m) = Inl InsufficientFunds)"

definition test_release_reservation :: bool where
  "test_release_reservation \<longleftrightarrow>
     (case buys 50000 (funded 100 100000) of
        (Inr token, m) \<Rightarrow> is_ok (fst (buys 50000 (release_reservation token m)))
      | _ \<Rightarrow> False)"

definition test_sell_order_no_reservation :: bool where
  "test_sell_order_no_reservation \<longleftrightarrow>
     (case fst (check_and_reserve (NewOrder (make_test_order 100 1 Sell 50000 1)) (funded 100 0)) of
        Inr token \<Rightarrow> tk_amount token = 0
      | _ \<Rightarrow> False)"

definition test_account_not_found :: bool where
  "test_account_not_found \<longleftrightarrow>
     fst (check_and_reserve (NewOrder (make_test_order 999 1 Buy 50000 1)) new_account_table) = Inl AccountNotFound"

definition test_cancel_releases_reservation :: bool where
  "test_cancel_releases_reservation \<longleftrightarrow>
     (case buys 50000 (funded 100 100000) of
        (Inr token, m) \<Rightarrow> reserved_is m 50000 \<and> reserved_is (release_reservation token m) 0
      | _ \<Rightarrow> False)"

definition replaces :: "i64 \<Rightarrow> i64 \<Rightarrow> i64 \<Rightarrow> (account_table \<times> (risk_violation + reservation_token) \<times> account_table) option" where
  "replaces bp px px' =
     (case buys px (funded 100 bp) of
        (Inr token, m) \<Rightarrow> Some (m, adjust_reservation token (make_test_replace 100 1 1 px' 1) m)
      | _ \<Rightarrow> None)"

definition test_replace_adjust_reservation :: bool where
  "test_replace_adjust_reservation \<longleftrightarrow>
     (case replaces 100000 50000 60000 of
        Some (m, Inr token, m') \<Rightarrow>
          reserved_is m 50000 \<and> map_option ga_buying_power (get_account m 100) = Some 100000 \<and>
          reserved_is m' 60000 \<and> tk_amount token = 60000
      | _ \<Rightarrow> False)"

definition test_replace_insufficient_funds :: bool where
  "test_replace_insufficient_funds \<longleftrightarrow>
     (case replaces 60000 50000 100000 of
        Some (_, Inl err, m') \<Rightarrow> err = InsufficientFunds \<and> reserved_is m' 50000
      | _ \<Rightarrow> False)"

definition test_replace_decrease_price :: bool where
  "test_replace_decrease_price \<longleftrightarrow>
     (case replaces 100000 60000 40000 of
        Some (m, Inr token, m') \<Rightarrow> reserved_is m 60000 \<and> reserved_is m' 40000 \<and> tk_amount token = 40000
      | _ \<Rightarrow> False)"

text \<open>Several orders: two are placed, the first is cancelled, a third is placed, both left are cancelled.\<close>

definition numbered_order :: "order_id \<Rightarrow> command" where
  "numbered_order oid = NewOrder ((make_test_order 100 1 Buy 30000 1)\<lparr>no_order_id := oid\<rparr>)"

definition test_multiple_orders_with_cancel :: bool where
  "test_multiple_orders_with_cancel \<longleftrightarrow>
     (case check_and_reserve (numbered_order 1) (funded 100 100000) of
        (Inr t1, m1) \<Rightarrow>
          (case check_and_reserve (numbered_order 2) m1 of
             (Inr t2, m2) \<Rightarrow>
               reserved_is m2 60000 \<and> reserved_is (release_reservation t1 m2) 30000 \<and>
               (case check_and_reserve (numbered_order 3) (release_reservation t1 m2) of
                  (Inr t3, m3) \<Rightarrow>
                    reserved_is m3 60000 \<and> reserved_is (release_reservation t3 (release_reservation t2 m3)) 0
                | _ \<Rightarrow> False)
           | _ \<Rightarrow> False)
      | _ \<Rightarrow> False)"

definition gateway_account_tests :: bool where
  "gateway_account_tests \<longleftrightarrow> test_create_account \<and> test_check_and_reserve_sufficient_funds \<and>
     test_check_and_reserve_insufficient_funds \<and> test_double_spend_prevention \<and> test_release_reservation \<and>
     test_sell_order_no_reservation \<and> test_account_not_found \<and> test_cancel_releases_reservation \<and>
     test_replace_adjust_reservation \<and> test_replace_insufficient_funds \<and> test_replace_decrease_price \<and>
     test_multiple_orders_with_cancel"

section \<open>Sessions and keys\<close>

definition sessions_of :: "(u64 \<times> account_id) list \<Rightarrow> session_manager" where
  "sessions_of ps = foldl (\<lambda>s (c, a). register c a s) new_session_manager ps"

definition test_register_and_get :: bool where
  "test_register_and_get \<longleftrightarrow>
     \<not> is_authenticated new_session_manager 1 \<and> get_account_id new_session_manager 1 = None \<and>
     is_authenticated (sessions_of [(1, 100)]) 1 \<and> get_account_id (sessions_of [(1, 100)]) 1 = Some 100"

definition test_unregister :: bool where
  "test_unregister \<longleftrightarrow>
     (let s = sessions_of [(1, 100)]; (acc, s1) = unregister 1 s
      in is_authenticated s 1 \<and> acc = Some 100 \<and> \<not> is_authenticated s1 1 \<and> get_account_id s1 1 = None \<and>
         fst (unregister 1 s1) = None)"

definition test_session_count :: bool where
  "test_session_count \<longleftrightarrow>
     (let s = sessions_of [(1, 100), (2, 200), (3, 300)]
      in session_count new_session_manager = 0 \<and> session_count s = 3 \<and> session_count (snd (unregister 2 s)) = 2)"

definition test_get_all_sessions :: bool where
  "test_get_all_sessions \<longleftrightarrow>
     (let ss = get_all_sessions (sessions_of [(1, 100), (2, 200), (3, 300)])
      in length ss = 3 \<and> map_of ss 1 = Some 100 \<and> map_of ss 2 = Some 200 \<and> map_of ss 3 = Some 300)"

definition test_multiple_sessions_same_account :: bool where
  "test_multiple_sessions_same_account \<longleftrightarrow>
     (let s = sessions_of [(1, 100), (2, 100), (3, 100)]
      in get_account_id s 1 = Some 100 \<and> get_account_id s 2 = Some 100 \<and> get_account_id s 3 = Some 100 \<and>
         session_count s = 3)"

definition keys_of :: "(string \<times> account_id) list \<Rightarrow> auth_service" where
  "keys_of ps = foldl (\<lambda>a (k, c). register_api_key k c a) new_auth_service ps"

definition test_register_and_authenticate :: bool where
  "test_register_and_authenticate \<longleftrightarrow>
     (let a = keys_of [(''test-key-123'', 42)]
      in authenticate a ''test-key-123'' = Inr 42 \<and> \<not> is_ok (authenticate a ''invalid-key''))"

definition test_has_api_key :: bool where
  "test_has_api_key \<longleftrightarrow> (let a = keys_of [(''key1'', 1)] in has_api_key a ''key1'' \<and> \<not> has_api_key a ''key2'')"

definition test_revoke_api_key :: bool where
  "test_revoke_api_key \<longleftrightarrow>
     (let a = keys_of [(''key1'', 1)]; (r1, a1) = revoke_api_key ''key1'' a; (r2, _) = revoke_api_key ''key1'' a1
      in has_api_key a ''key1'' \<and> r1 \<and> \<not> has_api_key a1 ''key1'' \<and> \<not> r2)"

definition test_key_count :: bool where
  "test_key_count \<longleftrightarrow>
     (let a = keys_of [(''key1'', 1), (''key2'', 2)]
      in key_count new_auth_service = 0 \<and> key_count a = 2 \<and> key_count (snd (revoke_api_key ''key1'' a)) = 1)"

definition test_multiple_accounts :: bool where
  "test_multiple_accounts \<longleftrightarrow>
     (let a = keys_of [(''alice-key'', 100), (''bob-key'', 200), (''charlie-key'', 300)]
      in authenticate a ''alice-key'' = Inr 100 \<and> authenticate a ''bob-key'' = Inr 200 \<and>
         authenticate a ''charlie-key'' = Inr 300)"

definition session_and_key_tests :: bool where
  "session_and_key_tests \<longleftrightarrow> test_register_and_get \<and> test_unregister \<and> test_session_count \<and> test_get_all_sessions \<and>
     test_multiple_sessions_same_account \<and> test_register_and_authenticate \<and> test_has_api_key \<and> test_revoke_api_key \<and>
     test_key_count \<and> test_multiple_accounts"

lemma session_and_key_tests_run: "session_and_key_tests"
  by code_simp

lemma funded_eq: "funded acc bp = \<lparr>gm_accounts = [(acc, new_gw_account acc bp)], gm_next_seq = 1, gm_journal = None\<rparr>"
  by (simp add: funded_def create_account_def log_update_def put_account_def new_account_table_def)

lemma gateway_account_tests_run: "gateway_account_tests"
  unfolding gateway_account_tests_def test_create_account_def test_check_and_reserve_sufficient_funds_def
    test_check_and_reserve_insufficient_funds_def test_double_spend_prevention_def test_release_reservation_def
    test_sell_order_no_reservation_def test_account_not_found_def test_cancel_releases_reservation_def
    test_replace_adjust_reservation_def test_replace_insufficient_funds_def test_replace_decrease_price_def
    replaces_def test_multiple_orders_with_cancel_def funded_eq
  by code_simp

section \<open>Files\<close>

text \<open>The tests of the persistence crate: a journal of one command, and a snapshot.\<close>

definition journal_test_cmd :: command where
  "journal_test_cmd = NewOrder \<lparr>no_client_seq = 1, no_order_id = 100, no_account_id = 42, no_symbol_id = 1, no_side = Buy,
     no_price = 100, no_qty = 10, no_tif = Gtc, no_flags = \<lparr>post_only = False\<rparr>\<rparr>"

definition test_journal_roundtrip :: "command serde \<Rightarrow> (u8 list \<Rightarrow> u32) \<Rightarrow> nat \<Rightarrow> bool" where
  "test_journal_roundtrip P crc now \<longleftrightarrow>
     (case open_journal now ''test.journal'' empty_disk of
        (Inr j, d) \<Rightarrow>
          (case append_cmd P crc now journal_test_cmd j d of
             (Inr _, j, d) \<Rightarrow>
               (case flush P crc now j d of
                  (Inr _, j, d) \<Rightarrow> (case read_all P crc j d of (Inr cmds, _) \<Rightarrow> length cmds = 1 | _ \<Rightarrow> False)
                | _ \<Rightarrow> False)
           | _ \<Rightarrow> False)
      | _ \<Rightarrow> False)"

definition test_snapshot_roundtrip :: "(u8 list \<Rightarrow> u32) \<Rightarrow> bool" where
  "test_snapshot_roundtrip crc \<longleftrightarrow>
     (case save_snapshot crc \<lparr>sn_sequence = 1234, sn_data = [1, 2, 3, 4, 5]\<rparr> empty_disk of
        (Inr _, d) \<Rightarrow>
          (case load_latest crc d of
             (Inr (Some sn), _) \<Rightarrow> sn_sequence sn = 1234 \<and> sn_data sn = [1, 2, 3, 4, 5]
           | _ \<Rightarrow> False)
      | _ \<Rightarrow> False)"

text \<open>The gateway's: accounts created through a journal, read back by another one and replayed; accounts saved in a
  snapshot, loaded and restored.\<close>

definition journaled :: "account_update serde \<Rightarrow> (u8 list \<Rightarrow> u32) \<Rightarrow> nat \<Rightarrow> (account_id \<times> i64) list \<Rightarrow> account_update list option" where
  "journaled P crc now accounts =
     (case acct_open now ''test_journal.bin'' empty_disk of
        (Inr j, d) \<Rightarrow>
          (case create_accounts P crc now accounts (with_journal j) d of (m, d) \<Rightarrow>
             (case flush_journal P crc now m d of
                (Inr _, m, d) \<Rightarrow>
                  (case acct_open now ''test_journal.bin'' d of
                     (Inr j2, d) \<Rightarrow> (case acct_read_all P crc j2 d of (Inr us, _) \<Rightarrow> Some us | _ \<Rightarrow> None)
                   | _ \<Rightarrow> None)
              | _ \<Rightarrow> None))
      | _ \<Rightarrow> None)"

definition buying_power_is :: "account_table \<Rightarrow> account_id \<Rightarrow> i64 \<Rightarrow> bool" where
  "buying_power_is m acc x \<longleftrightarrow> map_option ga_buying_power (get_account m acc) = Some x"

definition test_persistence_journal_roundtrip :: "account_update serde \<Rightarrow> (u8 list \<Rightarrow> u32) \<Rightarrow> nat \<Rightarrow> bool" where
  "test_persistence_journal_roundtrip P crc now \<longleftrightarrow>
     (case journaled P crc now [(1, 100000), (2, 200000)] of
        Some us \<Rightarrow>
          length us = 2 \<and> buying_power_is (replay_journal us new_account_table) 1 100000 \<and>
          buying_power_is (replay_journal us new_account_table) 2 200000
      | None \<Rightarrow> False)"

definition test_persistence_fill_replay :: "account_update serde \<Rightarrow> (u8 list \<Rightarrow> u32) \<Rightarrow> nat \<Rightarrow> bool" where
  "test_persistence_fill_replay P crc now \<longleftrightarrow>
     (case journaled P crc now [(1, 100000)] of
        Some us \<Rightarrow> buying_power_is (replay_journal us new_account_table) 1 100000
      | None \<Rightarrow> False)"

definition two_accounts :: account_table where
  "two_accounts = fst (create_account update_serde (\<lambda>_. 0) 0 2 200000 (funded 1 100000) empty_disk)"

definition test_persistence_snapshot_roundtrip :: "acct_snapshot serde \<Rightarrow> (u8 list \<Rightarrow> u32) \<Rightarrow> bool" where
  "test_persistence_snapshot_roundtrip Q crc \<longleftrightarrow>
     (let sn = create_snapshot 42 two_accounts
      in sp_sequence sn = 42 \<and> length (sp_accounts sn) = 2 \<and>
         (case save_acct_snapshot Q crc sn empty_disk of
            (Inr _, d) \<Rightarrow>
              (case load_latest_acct Q crc d of
                 (Inr (Some loaded), _) \<Rightarrow>
                   sp_sequence loaded = 42 \<and> length (sp_accounts loaded) = 2 \<and>
                   buying_power_is (restore_accounts loaded new_account_table) 1 100000 \<and>
                   buying_power_is (restore_accounts loaded new_account_table) 2 200000
               | _ \<Rightarrow> False)
          | _ \<Rightarrow> False))"

lemma journal_test_run:
  assumes "journal_codec P" and "framable P journal_test_cmd"
  shows "test_journal_roundtrip P crc now"
proof -
  obtain j d where o': "open_journal now ''test.journal'' empty_disk = (Inr j, d)" "dk_faults d = []"
    "journal_inv P crc j d []"
    by (simp add: open_journal_def open_with_config_def open_create_def io_bind_def os_unit_def os_call_def empty_disk_def
        journal_inv_def)
  obtain j1 d1 where a: "append_cmd P crc now journal_test_cmd j d = (Inr (), j1, d1)" "dk_faults d1 = []"
    "journal_inv P crc j1 d1 [journal_test_cmd]" using append_ok [OF o'(3,2) assms(2), of now] by auto
  obtain j2 d2 where f: "flush P crc now j1 d1 = (Inr (), j2, d2)" "dk_faults d2 = []" "jr_handle j2 = jr_handle j1"
    "map_of (dk_files d2) (jr_handle j1) = Some (frames P crc [journal_test_cmd])"
    using flush_ok [OF a(3,2), of now] by auto
  have "read_frames P crc (frames P crc [journal_test_cmd]) = Inr [journal_test_cmd]"
    by (rule journal_codec.read_frames_all [OF assms(1)]) (simp add: assms(2))
  then show ?thesis
    by (simp add: test_journal_roundtrip_def o'(1) a(1) f(1) read_all_def io_bind_def os_unit_ok f(2,3) file_bytes_Some [OF f(4)])
qed

lemma snapshot_test_run: "test_snapshot_roundtrip crc"
proof -
  let ?sn = "\<lparr>sn_sequence = 1234, sn_data = [1, 2, 3, 4, 5]\<rparr> :: snapshot"
  have "save_snapshot crc ?sn empty_disk = (Inr (snapshot_name 1234), snd (save_snapshot crc ?sn empty_disk))"
    by (simp add: save_snapshot_def Let_def io_bind_def os_unit_def os_call_def create_file_def write_all_def empty_disk_def)
  moreover from this have "load_latest crc (snd (save_snapshot crc ?sn empty_disk)) =
      (Inr (Some ?sn), snd (save_snapshot crc ?sn empty_disk))"
    by (intro load_latest_ok [of empty_disk ?sn crc]) (simp_all add: empty_disk_def snapshots_below_def snapshot_entries_def)
  ultimately show ?thesis
    unfolding test_snapshot_roundtrip_def
    by (cases "save_snapshot crc ?sn empty_disk") simp
qed

lemma create_keeps_buffer:
  assumes "gm_journal m = Some j"
  shows "\<exists>j'. gm_journal (fst (create_accounts P crc now accounts m d)) = Some j' \<and> aj_batch_buffer j' = aj_batch_buffer j"
  using assms
proof (induction accounts arbitrary: m j d)
  case (Cons x xs)
  obtain r j1 d1 where a: "acct_append P crc now (CreateAccount (fst x) (snd x)) j d = (r, j1, d1)"
    by (cases "acct_append P crc now (CreateAccount (fst x) (snd x)) j d") auto
  then have "aj_batch_buffer j1 = aj_batch_buffer j"
    by (auto simp: acct_append_def Let_def split: prod.splits sum.splits)
  moreover obtain m1 where "create_account P crc now (fst x) (snd x) m d = (m1, d1)" "gm_journal m1 = Some j1"
    using Cons.prems a by (simp add: create_account_def log_update_def put_account_def)
  ultimately show ?case using Cons.IH [of m1 j1 d1] by (simp add: create_accounts_def split_beta)
qed (simp add: create_accounts_def)

lemma journaled_run:
  assumes "serde P" and "\<forall>x \<in> set accounts. framable P (CreateAccount (fst x) (snd x))"
  shows "journaled P crc now accounts = Some (map (\<lambda>x. CreateAccount (fst x) (snd x)) accounts)"
proof -
  let ?us = "map (\<lambda>x. CreateAccount (fst x) (snd x)) accounts"
  obtain j d where o': "acct_open now ''test_journal.bin'' empty_disk = (Inr j, d)" "aj_batch_buffer j = []"
    "aj_path j = ''test_journal.bin''" "acct_logged P crc j d []"
    by (simp add: acct_open_def acct_open_with_config_def open_create_def io_bind_def os_unit_def os_call_def empty_disk_def
        acct_logged_def)
  have j: "gm_journal (with_journal j) = Some j" by (simp add: with_journal_def)
  from create_accounts_ok [OF this o'(4) assms(2), of now] obtain m j1 d1 where
    c: "create_accounts P crc now accounts (with_journal j) d = (m, d1)" "gm_journal m = Some j1"
      "acct_logged P crc j1 d1 ?us" "aj_path j1 = aj_path j" by auto
  have "aj_batch_buffer j1 = []"
    using create_keeps_buffer [OF j, of P crc now accounts d] c(1,2) o'(2) by simp
  then have f: "flush_journal P crc now m d1 = (Inr (), m\<lparr>gm_journal := Some j1\<rparr>, d1)"
    by (simp add: flush_journal_def c(2) acct_flush_def)
  have held: "map_of (dk_files d1) ''test_journal.bin'' = Some (frames P crc ?us)" "dk_faults d1 = []"
    "\<forall>u \<in> set ?us. framable P u"
    using c(3,4) o'(3) by (simp_all add: acct_logged_def)
  obtain j2 where j2: "acct_open now ''test_journal.bin'' d1 = (Inr j2, d1)" "aj_path j2 = ''test_journal.bin''"
    using held(1,2)
    by (simp add: acct_open_def acct_open_with_config_def open_create_def io_bind_def os_unit_def os_call_def)
  then have "acct_logged P crc j2 d1 ?us" using held by (simp add: acct_logged_def)
  from acct_read_all_ok [OF assms(1) this] obtain d2 where "acct_read_all P crc j2 d1 = (Inr ?us, d2)" by blast
  then show ?thesis by (simp add: journaled_def o'(1) c(1) f j2(1))
qed

lemma account_journal_tests_run:
  assumes "serde P" and "framable P (CreateAccount 1 100000)" and "framable P (CreateAccount 2 200000)"
  shows "test_persistence_journal_roundtrip P crc now" and "test_persistence_fill_replay P crc now"
  using assms
  by (simp_all add: test_persistence_journal_roundtrip_def test_persistence_fill_replay_def journaled_run replay_journal_def
      buying_power_is_def get_account_def put_account_def new_account_table_def new_gw_account_def)

lemma account_snapshot_test_run:
  assumes "serde Q" and "sd_to Q (create_snapshot 42 two_accounts) = Some c" and "length c < 2 ^ 32"
  shows "test_persistence_snapshot_roundtrip Q crc"
proof -
  let ?sn = "create_snapshot 42 two_accounts" and ?name = "acct_snapshot_name 42"
  have sn: "?sn = \<lparr>sp_sequence = 42, sp_accounts =
      [\<lparr>ss_account_id = 1, ss_buying_power = 100000, ss_positions = [], ss_risk_limits = []\<rparr>,
       \<lparr>ss_account_id = 2, ss_buying_power = 200000, ss_positions = [], ss_risk_limits = []\<rparr>]\<rparr>"
    by (simp add: create_snapshot_def two_accounts_def funded_eq create_account_def log_update_def put_account_def new_gw_account_def)
  have n: "sp_sequence ?sn = 42" by (simp add: sn)
  have e: "dk_faults empty_disk = []" by (simp add: empty_disk_def)
  obtain d where d: "save_acct_snapshot Q crc ?sn empty_disk = (Inr ?name, d)" "dk_faults d = []"
    "dk_files d = [(?name, to_le (42 :: u64) @ to_le (of_nat (length c) :: u32) @ c @ to_le (crc c))]"
    using save_acct_snapshot_ok [OF e assms(2), of crc] by (auto simp: n empty_disk_def)
  have "parse_acct_snapshot Q crc (to_le (42 :: u64) @ to_le (of_nat (length c) :: u32) @ c @ to_le (crc c)) = Inr ?sn"
    using parse_acct_snapshot_ok [OF assms(1,2,3), of crc] by (simp add: n)
  moreover have "is_acct_snapshot_name ?name" by (simp add: is_acct_snapshot_name_def acct_snapshot_name_def)
  ultimately have "load_latest_acct Q crc d = (Inr (Some ?sn), d)"
    by (simp add: load_latest_acct_def d(2,3) io_bind_def os_unit_ok acct_snapshot_entries_def load_acct_from_file_def)
  then show ?thesis
    unfolding test_persistence_snapshot_roundtrip_def Let_def
    by (simp add: d(1) [unfolded sn] sn restore_accounts_def restore_account_def put_account_def buying_power_is_def get_account_def
        new_account_table_def new_gw_account_def)
qed

text \<open>The unit tests of the engine, gateway and persistence crates, with every assertion they make, hold of the
  model, less the two of \<open>engine_router.rs\<close>; those that write journals and snapshots with any serialization that reads back what it writes, any checksum
  and any time.\<close>

theorem unit_tests_pass:
  assumes "journal_codec C" and "framable C journal_test_cmd"
    and "serde P" and "framable P (CreateAccount 1 100000)" and "framable P (CreateAccount 2 200000)"
    and "serde Q" and "sd_to Q (create_snapshot 42 two_accounts) = Some c" and "length c < 2 ^ 32"
  shows "order_book_tests vec_slab \<and> engine_account_tests \<and> engine_tests vec_slab \<and>
    gateway_account_tests \<and> session_and_key_tests \<and> test_journal_roundtrip C crc now \<and> test_snapshot_roundtrip crc \<and>
    test_persistence_journal_roundtrip P crc now \<and> test_persistence_fill_replay P crc now \<and>
    test_persistence_snapshot_roundtrip Q crc"
  using order_book_tests_pass engine_account_tests_pass engine_tests_run
    gateway_account_tests_run session_and_key_tests_run journal_test_run [OF assms(1,2)] snapshot_test_run
    account_journal_tests_run [OF assms(3-5)] account_snapshot_test_run [OF assms(6-8)] by blast

lemma test_updates_framable: "framable update_serde (CreateAccount 1 100000)" "framable update_serde (CreateAccount 2 200000)"
  by (simp_all add: framable_def update_serde_def serde_of_def w_account_update_def w_map_def w_pair_def
        w_word_def w_int_def w_nat_def max_frame_def zigzag_def varint.simps)

lemma test_snapshot_bytes: "\<exists>c. sd_to acct_snapshot_serde (create_snapshot 42 two_accounts) = Some c \<and> length c < 2 ^ 32"
  by (simp add: create_snapshot_def two_accounts_def funded_eq create_account_def log_update_def put_account_def
      new_gw_account_def acct_snapshot_serde_def serde_of_def w_acct_snapshot_def w_state_snapshot_def w_map_def w_pair_def
      w_word_def w_int_def w_nat_def w_list_def zigzag_def varint.simps)

lemma test_cmd_framable: "framable command_serde journal_test_cmd"
  by (simp add: framable_def journal_test_cmd_def max_frame_def command_serde_def serde_of_def w_command_def w_map_def w_sum_def
      w_new_order_def w_pair_def w_word_def w_int_def w_nat_def w_side_def w_tif_def w_flags_def w_bool_def zigzag_def varint.simps)

theorem unit_tests_pass_witness:
  "test_journal_roundtrip command_serde sum_check 0 \<and> test_persistence_journal_roundtrip update_serde sum_check 0 \<and>
   test_persistence_snapshot_roundtrip acct_snapshot_serde sum_check"
proof -
  obtain c where c: "sd_to acct_snapshot_serde (create_snapshot 42 two_accounts) = Some c" "length c < 2 ^ 32"
    using test_snapshot_bytes by blast
  show ?thesis
    using unit_tests_pass [OF wire_journal.journal_codec_axioms test_cmd_framable update_serde.serde_axioms
        test_updates_framable acct_snapshot_serde.serde_axioms c] by blast
qed

end
