(* ===== verification/GatewayServe.thy ===== *)
theory GatewayServe
  imports GatewayMain GatewaySystem
begin

text \<open>
  \<open>gateway_server/src/config.rs\<close> and the listeners of \<open>main.rs\<close>: the arguments with their defaults, the
  start from them, and the two listeners, which number the connections they accept from one counter.
\<close>

section \<open>Arguments\<close>

record gateway_args =
  gr_client_binary_addr :: string
  gr_client_json_addr :: string
  gr_admin_addr :: string
  gr_journal_path :: string
  gr_snapshot_dir :: string
  gr_journal_batch_size :: nat
  gr_snapshot_interval :: u64
  gr_ingress_cap :: nat
  gr_max_frame :: nat
  gr_engines_config :: string

definition default_gateway_args :: gateway_args where
  "default_gateway_args =
     \<lparr>gr_client_binary_addr = ''0.0.0.0:9000'', gr_client_json_addr = ''0.0.0.0:9001'', gr_admin_addr = ''0.0.0.0:8080'',
      gr_journal_path = ''journal/gateway_journal.bin'', gr_snapshot_dir = ''journal/gateway_snapshots'',
      gr_journal_batch_size = 100, gr_snapshot_interval = 100000, gr_ingress_cap = 100000,
      gr_max_frame = 10 * 1024 * 1024, gr_engines_config = ''engines.toml''\<rparr>"

definition acct_config_of :: "gateway_args \<Rightarrow> acct_journal_config" where
  "acct_config_of a = \<lparr>ac_batch_size = gr_journal_batch_size a, ac_sync_interval = 100 * 1000000\<rparr>"

text \<open>\<open>main\<close> up to the listeners. The log output, the admin address, the channel capacity and the frame limit are
  not used by the model.\<close>

definition gateway_main ::
  "account_update serde \<Rightarrow> acct_snapshot serde \<Rightarrow> gateway_to_engine serde \<Rightarrow> (u8 list \<Rightarrow> u32) \<Rightarrow> nat \<Rightarrow>
   (u8 list \<Rightarrow> engines_config option) \<Rightarrow> (string \<Rightarrow> bool) \<Rightarrow> bool list \<Rightarrow> arrival list \<Rightarrow> gateway_args \<Rightarrow>
   disk \<Rightarrow> disk \<Rightarrow> (start_err + gateway) \<times> disk \<times> disk"
where
  "gateway_main P Q G crc now toml reach faults arrivals a d snaps =
     start_gateway P Q G crc now (gr_journal_path a) (acct_config_of a) toml (gr_engines_config a) reach faults arrivals d snaps"

section \<open>Listeners\<close>

text \<open>\<open>NEXT_CONN_ID\<close> and the gateway behind it.\<close>

record listening =
  li_next_conn_id :: u64
  li_system :: gw_system

datatype client_door = BinaryDoor | JsonDoor

fun door_codec :: "bytes_crate \<Rightarrow> (event \<Rightarrow> u8 list option) \<Rightarrow> (u8 list \<Rightarrow> command option) \<Rightarrow> client_door \<Rightarrow> client_codec" where
  "door_codec B to_vec from_slice BinaryDoor = binary_codec B"
| "door_codec B to_vec from_slice JsonDoor = json_codec to_vec from_slice"

text \<open>A turn of \<open>run_listener\<close>: the connection is numbered and handed to its task.\<close>

definition accept_client ::
  "gateway_to_engine serde \<Rightarrow> (client_door \<Rightarrow> client_codec) \<Rightarrow> client_door \<Rightarrow> listening \<Rightarrow> u64 \<times> listening"
where
  "accept_client P codecs door l =
     (let conn = li_next_conn_id l
      in (conn, \<lparr>li_next_conn_id = conn + 1, li_system = gw_act P (Connect (codecs door) conn) (li_system l)\<rparr>))"

text \<open>What happens to a gateway that serves: clients come and go and send frames, engines answer.\<close>

datatype serve_action =
    Accept client_door
  | Receive u64 "u8 list"
  | Answer engine_to_gateway
  | Hangup u64

fun serve :: "gateway_to_engine serde \<Rightarrow> (client_door \<Rightarrow> client_codec) \<Rightarrow> serve_action \<Rightarrow> listening \<Rightarrow> listening" where
  "serve P codecs (Accept door) l = snd (accept_client P codecs door l)"
| "serve P codecs (Receive conn bytes) l = l\<lparr>li_system := gw_act P (Frame conn bytes) (li_system l)\<rparr>"
| "serve P codecs (Answer ev) l = l\<lparr>li_system := gw_act P (Response ev) (li_system l)\<rparr>"
| "serve P codecs (Hangup conn) l = l\<lparr>li_system := gw_act P (Disconnect conn) (li_system l)\<rparr>"

fun accepts_of :: "serve_action list \<Rightarrow> nat" where
  "accepts_of [] = 0"
| "accepts_of (Accept door # as) = Suc (accepts_of as)"
| "accepts_of (_ # as) = accepts_of as"

section \<open>The connections the gateway knows\<close>

text \<open>A connection is in use when it is registered, has a session, or a pending order came from it.\<close>

definition uses :: "gateway \<Rightarrow> u64 \<Rightarrow> bool" where
  "uses g c \<longleftrightarrow> map_of (gw_clients g) c \<noteq> None \<or> is_authenticated (gw_sessions g) c \<or>
     (\<exists>oid md. map_of (gw_pending g) oid = Some md \<and> md_conn_id md = c)"

lemma uses_cong:
  "gw_clients g = gw_clients g' \<Longrightarrow> gw_sessions g = gw_sessions g' \<Longrightarrow> gw_pending g = gw_pending g' \<Longrightarrow> uses g = uses g'"
  by (simp add: uses_def fun_eq_iff)

lemma uses_updates [simp]:
  "uses (g\<lparr>gw_metrics := m\<rparr>) = uses g" "uses (g\<lparr>gw_router := r\<rparr>) = uses g" "uses (g\<lparr>gw_sent := t\<rparr>) = uses g"
  "uses (g\<lparr>gw_table := x\<rparr>) = uses g"
  by (simp_all add: uses_def fun_eq_iff)

lemma uses_take_seq: "take_seq g = (sq, g') \<Longrightarrow> uses g' = uses g"
  by (auto simp: take_seq_def split: prod.splits)

lemma uses_respond [simp]: "uses (respond codec conn ev g) = uses g"
  by (simp add: respond_def split: sum.split)

lemma uses_reject [simp]: "uses (reject_client codec conn cs oid reason g) = uses g"
  by (simp add: reject_client_def uses_take_seq split: prod.split)

lemma uses_deliver [simp]: "uses (deliver conn ev g) = uses g"
  by (simp add: deliver_def split: option.split)

lemma uses_send: "send_command P cmd conn acc amount symb g = (r, g') \<Longrightarrow> uses g' = uses g"
  by (auto simp: send_command_def uses_take_seq split: prod.splits)

lemma uses_pending_update:
  "uses (g\<lparr>gw_pending := AList.update oid md (gw_pending g)\<rparr>) c \<Longrightarrow> uses g c \<or> c = md_conn_id md"
  by (auto simp: uses_def update_conv' split: if_splits)

lemma uses_pending_delete: "uses (g\<lparr>gw_pending := AList.delete oid (gw_pending g)\<rparr>) c \<Longrightarrow> uses g c"
  by (auto simp: uses_def delete_conv' split: if_splits)

lemma uses_mark: "uses (mark_pending operation oid g) c \<Longrightarrow> uses g c"
proof (cases "map_of (gw_pending g) oid")
  case (Some md)
  assume "uses (mark_pending operation oid g) c"
  then have "uses g c \<or> c = md_conn_id md"
    using uses_pending_update [of oid "md\<lparr>md_operation := operation\<rparr>" g c] Some by (simp add: mark_pending_def)
  with Some show ?thesis by (auto simp: uses_def)
qed (simp add: mark_pending_def)

lemma uses_on_table: "on_table f g = (r, g') \<Longrightarrow> uses g' = uses g"
  by (auto simp: on_table_def split: prod.splits)

lemma uses_reserve: "reserve_for codec conn cmd g = (r, g') \<Longrightarrow> uses g' = uses g"
  by (auto simp: reserve_for_def uses_on_table split: command.splits option.splits prod.splits sum.splits)

lemma uses_track: "track_order conn cmd b t loc g = (l, g') \<Longrightarrow> uses g' c \<Longrightarrow> uses g c \<or> c = conn"
  by (auto simp: track_order_def split: command.splits option.splits dest!: uses_pending_update)

lemma uses_cancel: "uses (snd (handle_cancel P codec conn k symb loc g)) c \<Longrightarrow> uses g c"
  by (auto simp: handle_cancel_def Let_def uses_send split: prod.splits sum.splits dest!: uses_mark)

lemma uses_order: "uses (snd (handle_order P codec conn cmd symb loc g)) c \<Longrightarrow> uses g c \<or> c = conn"
  by (auto simp: handle_order_def Let_def unroutable_def uses_send uses_reserve
      split: prod.splits sum.splits option.splits dest!: uses_track)

lemma uses_register: "uses (g\<lparr>gw_sessions := register conn acc (gw_sessions g)\<rparr>) c \<Longrightarrow> uses g c \<or> c = conn"
  by (auto simp: uses_def is_authenticated_def register_def update_conv' split: if_splits)

lemma uses_command: "uses (snd (handle_command P codec conn cmd loc g)) c \<Longrightarrow> uses g c \<or> c = conn"
proof -
  have q: "uses (answer_query codec conn q g) = uses g" for q
    by (simp add: answer_query_def uses_take_seq split: option.split prod.split)
  have a: "uses (answer_auth codec conn a g) c \<Longrightarrow> uses g c \<or> c = conn" for a
    by (auto simp: answer_auth_def split: sum.splits dest: uses_register)
  show "uses (snd (handle_command P codec conn cmd loc g)) c \<Longrightarrow> uses g c \<or> c = conn"
    by (cases cmd) (auto simp: handle_command_def q split: if_splits dest: a uses_cancel uses_order)
qed

lemma uses_settle: "uses (settle f oid md g) c \<Longrightarrow> uses g c"
  by (auto simp: settle_def uses_def delete_conv' split: option.splits if_splits)

lemma uses_release: "uses (release_pending oid g) c \<Longrightarrow> uses g c"
  by (auto simp: release_pending_def uses_def delete_conv' split: option.splits if_splits)

lemma uses_fill: "uses (handle_fill conn f g) c \<Longrightarrow> uses g c"
  by (auto simp: handle_fill_def Let_def split: option.splits dest!: uses_settle)

lemma uses_response: "uses (engine_response ev g) c \<Longrightarrow> uses g c"
proof (cases ev)
  case (ClientEvent conn e token)
  then show "uses (engine_response ev g) c \<Longrightarrow> uses g c"
    by (cases e) (auto simp: handle_ack_def handle_reject_def split: option.splits pending_operation.splits
        dest: uses_fill uses_release)
qed simp_all

lemma uses_disconnect: "uses (client_disconnect conn g) c \<Longrightarrow> uses g c"
  by (auto simp: uses_def client_disconnect_def is_authenticated_def unregister_def delete_conv' split: if_splits)

lemma uses_connect: "uses (client_connect codec conn g) c \<Longrightarrow> uses g c \<or> c = conn"
  by (auto simp: uses_def client_connect_def update_conv' split: if_splits)

lemma uses_action:
  assumes "uses (sy_gateway (gw_act P a s)) c"
  shows "uses (sy_gateway s) c \<or> (\<exists>codec. a = Connect codec c)"
proof (cases a)
  case (Frame conn bytes)
  show ?thesis
  proof (cases "map_of (gw_clients (sy_gateway s)) conn")
    case (Some info)
    then have conn: "uses (sy_gateway s) conn" by (simp add: uses_def)
    let ?g = "(sy_gateway s)\<lparr>gw_metrics := inc_frames_in (gw_metrics (sy_gateway s))\<rparr>"
    have "uses (snd (client_frame P (ci_codec info) conn bytes (sy_locals s conn) (sy_gateway s))) c"
      using assms Some by (simp add: Frame split: prod.splits)
    then have "uses (sy_gateway s) c \<or> c = conn"
      using uses_command [of P "ci_codec info" conn _ "sy_locals s conn" ?g c]
      by (auto simp: client_frame_def Let_def split: sum.splits)
    with conn show ?thesis by blast
  qed (use assms Frame in simp)
qed (use assms in \<open>auto dest: uses_connect uses_response uses_disconnect\<close>)

section \<open>Connections are numbered apart\<close>

definition served_below :: "nat \<Rightarrow> listening \<Rightarrow> bool" where
  "served_below n l \<longleftrightarrow> unat (li_next_conn_id l) = n \<and> (\<forall>c. uses (sy_gateway (li_system l)) c \<longrightarrow> unat c < n)"

lemma served_action:
  assumes "served_below n l" and "\<forall>codec c. a \<noteq> Connect codec c"
  shows "served_below n (l\<lparr>li_system := gw_act P a (li_system l)\<rparr>)"
proof -
  have "unat c < n" if "uses (sy_gateway (gw_act P a (li_system l))) c" for c
    using uses_action [OF that] assms by (auto simp: served_below_def)
  then show ?thesis using assms(1) by (simp add: served_below_def)
qed

lemma serve_below:
  assumes "served_below n l" and "n + accepts_of [a] < 2 ^ 64"
  shows "served_below (n + accepts_of [a]) (serve P codecs a l)"
proof (cases a)
  case (Accept door)
  let ?a = "Connect (codecs door) (li_next_conn_id l)"
  have n: "unat (li_next_conn_id l) = n" using assms(1) by (simp add: served_below_def)
  then have "unat (li_next_conn_id l + 1) = n + 1"
    using assms(2) Accept by (simp add: unat_add_lem [THEN iffD1])
  moreover have "unat c < n + 1" if "uses (sy_gateway (gw_act P ?a (li_system l))) c" for c
    using uses_action [OF that] assms(1) n by (auto simp: served_below_def intro: less_SucI)
  ultimately show ?thesis by (simp add: Accept served_below_def accept_client_def Let_def del: gw_act.simps)
next
  case (Receive conn bytes)
  then show ?thesis using served_action [OF assms(1), of "Frame conn bytes" P] by (simp del: gw_act.simps)
next
  case (Answer ev)
  then show ?thesis using served_action [OF assms(1), of "Response ev" P] by (simp del: gw_act.simps)
next
  case (Hangup conn)
  then show ?thesis using served_action [OF assms(1), of "Disconnect conn" P] by (simp del: gw_act.simps)
qed

lemma serves_below:
  assumes "served_below n l" and "n + accepts_of as < 2 ^ 64"
  shows "served_below (n + accepts_of as) (fold (serve P codecs) as l)"
  using assms
proof (induction as arbitrary: l n)
  case (Cons a as)
  have n: "accepts_of (a # as) = accepts_of [a] + accepts_of as" by (cases a) simp_all
  with Cons.prems(2) have "n + accepts_of [a] < 2 ^ 64" by simp
  from Cons.IH [OF serve_below [OF Cons.prems(1) this]] show ?case
    using n Cons.prems(2) by (simp add: add.assoc)
qed simp

definition listens :: "gateway \<Rightarrow> listening" where
  "listens g = \<lparr>li_next_conn_id = 1, li_system = \<lparr>sy_gateway = g, sy_locals = (\<lambda>_. [])\<rparr>\<rparr>"

end
