(* ===== verification/ServeProps.thy ===== *)
theory ServeProps
  imports GatewayServe GatewayProps ClientProps
begin

text \<open>
  A gateway from its start on: what it serves before anything happens, and that no connection it accepts
  inherits anything from an earlier one.
\<close>

section \<open>The start from empty files\<close>

definition one_engine_config :: "string \<Rightarrow> engines_config" where
  "one_engine_config addr = \<lparr>ns_engines = [\<lparr>nc_symbol_id = 1, nc_symbol_name = ''BTC/USD'', nc_address = addr\<rparr>]\<rparr>"

text \<open>Writing accounts to the journal leaves the other files alone.\<close>

lemma acct_append_elsewhere:
  assumes "dk_faults d = []" and "acct_append P crc now u j d = (r, j', d')" and "name \<noteq> aj_path j"
  shows "dk_faults d' = [] \<and> map_of (dk_files d') name = map_of (dk_files d) name \<and> aj_path j' = aj_path j"
  using assms
  by (auto simp: acct_append_def acct_write_frame_def io_bind_def write_all_def os_unit_def os_call_def Let_def update_conv'
      split: option.splits prod.splits sum.splits)

lemma create_accounts_elsewhere:
  assumes "dk_faults d = []" and "gm_journal m = Some j" and "name \<noteq> aj_path j"
    and "create_accounts P crc now xs m d = (m', d')"
  shows "dk_faults d' = [] \<and> map_of (dk_files d') name = map_of (dk_files d) name \<and>
    gm_accounts m' = fold (\<lambda>(acc, bp). AList.update acc (new_gw_account acc bp)) xs (gm_accounts m) \<and>
    gm_next_seq m' = gm_next_seq m \<and> (\<exists>j'. gm_journal m' = Some j')"
  using assms
proof (induction xs arbitrary: m d j)
  case (Cons x xs)
  let ?u = "CreateAccount (fst x) (snd x)"
  obtain r j1 d1 where a: "acct_append P crc now ?u j d = (r, j1, d1)"
    by (cases "acct_append P crc now ?u j d") auto
  from acct_append_elsewhere [OF Cons.prems(1) this Cons.prems(3)]
  have d1: "dk_faults d1 = []" "map_of (dk_files d1) name = map_of (dk_files d) name" "name \<noteq> aj_path j1"
    using Cons.prems(3) by simp_all
  let ?m1 = "(put_account (fst x) (new_gw_account (fst x) (snd x)) m)\<lparr>gm_journal := Some j1\<rparr>"
  have c: "create_account P crc now (fst x) (snd x) m d = (?m1, d1)"
    using Cons.prems(2) a by (simp add: create_account_def log_update_def put_account_def)
  have "create_accounts P crc now xs ?m1 d1 = (m', d')"
    using Cons.prems(4) c by (simp add: create_accounts_def split_beta)
  from Cons.IH [OF d1(1) _ d1(3) this] d1(2) show ?case by (simp add: put_account_def split_beta)
qed (simp add: create_accounts_def)

lemma test_accounts_created:
  "create_test_accounts P crc now m d = create_accounts P crc now (map (\<lambda>i. (of_nat i, 1000000)) [1..<11]) m d"
  by (simp add: create_test_accounts_def create_accounts_def fold_map comp_def del: upt_Suc)

lemma test_accounts_list:
  "fold (\<lambda>(acc, bp). AList.update acc (new_gw_account acc bp)) (map (\<lambda>i. (of_nat i, 1000000)) [1..<11]) [] = test_accounts"
proof -
  have "[1..<11] = [1, 2, 3, 4, 5, 6, 7, 8, 9, 10 :: nat]" by (simp add: upt_conv_Cons)
  then show ?thesis unfolding test_accounts_def by simp
qed

lemma seed_accounts_fresh:
  assumes "dk_faults d = []" and "name \<noteq> path"
    and "seed_accounts P crc now ((with_journal j)\<lparr>gm_accounts := []\<rparr>) a d = (m, auth, d1)" and "aj_path j = path"
  shows "gm_accounts m = test_accounts \<and> gm_next_seq m = 1 \<and> (\<exists>j'. gm_journal m = Some j') \<and>
    auth = register_test_keys a \<and> dk_faults d1 = [] \<and> map_of (dk_files d1) name = map_of (dk_files d) name"
proof -
  let ?m = "(with_journal j)\<lparr>gm_accounts := []\<rparr>"
  obtain m1 d2 where c: "create_accounts P crc now (map (\<lambda>i. (of_nat i, 1000000)) [1..<11]) ?m d = (m1, d2)" by fastforce
  have "sp_accounts (create_snapshot 0 ?m) = []" by (simp add: create_snapshot_def)
  then have "m = m1" "auth = register_test_keys a" "d1 = d2"
    using assms(3) c by (simp_all add: seed_accounts_def test_accounts_created)
  moreover have "gm_journal ?m = Some j" by (simp add: with_journal_def)
  ultimately show ?thesis
    using create_accounts_elsewhere [OF assms(1) _ _ c, of j name] assms(2,4) test_accounts_list
    by (simp add: with_journal_def)
qed

text \<open>A gateway that starts from empty files and finds one engine without orders is a fresh gateway: the
  scenarios' stack is what the two servers make of empty directories.\<close>

lemma start_on_empty_files:
  assumes "dk_faults d = []" and "map_of (dk_files d) path = None" and "map_of (dk_files d) engines_path = Some text"
    and "path \<noteq> engines_path" and "utf8_valid text" and "toml text = Some (one_engine_config addr)" and "reach addr"
    and "dk_files snaps = []" and "sd_to G QueryAllOrders = Some query"
  shows "\<exists>g j d1. start_gateway P Q G crc now path config toml engines_path reach [] [Arrived (AllOrders [])] d snaps =
      (Inr g, d1, snaps) \<and> quiet g = fresh_gateway (Some j) \<and> one_engine g"
proof -
  obtain j d0 where o': "acct_open_with_config now path config d = (Inr j, d0)" "aj_path j = path" "dk_faults d0 = []"
    "map_of (dk_files d0) path = Some []" "map_of (dk_files d0) engines_path = Some text"
    using assms(1-4) by (simp add: acct_open_with_config_def open_create_def io_bind_def os_unit_def os_call_def update_conv')
  have "read_frames P crc [] = Inr []" by (simp add: read_frames.simps)
  then have "acct_read_all P crc j d0 = (Inr [], d0)"
    using o' by (simp add: acct_read_all_def io_bind_def os_unit_ok file_bytes_Some)
  then have r: "recover_accounts P Q crc now path config d snaps = (Inr ((with_journal j)\<lparr>gm_accounts := []\<rparr>), d0, snaps)"
    using assms(8) by (simp add: recover_accounts_def o'(1) load_latest_acct_def replay_journal_def with_journal_def)
  obtain m auth d1 where seed: "seed_accounts P crc now ((with_journal j)\<lparr>gm_accounts := []\<rparr>) new_auth_service d0 = (m, auth, d1)"
    by (metis prod_cases3)
  from seed_accounts_fresh [OF o'(3) assms(4) [symmetric] seed o'(2)] o'(5) obtain j' where
    m: "m = \<lparr>gm_accounts = test_accounts, gm_next_seq = 1, gm_journal = Some j'\<rparr>" and
    a: "auth = register_test_keys new_auth_service" "dk_faults d1 = []" "map_of (dk_files d1) engines_path = Some text"
    by (cases m) auto
  have e: "engines_from_file toml engines_path d1 = (Inr (one_engine_config addr), d1)"
    using a(2,3) assms(5,6) by (simp add: engines_from_file_def os_unit_ok)
  have n: "new_router reach [] (ns_engines (one_engine_config addr)) = Inr \<lparr>er_senders = [(1, \<lparr>sk_fed = [], sk_sent = []\<rparr>)], er_faults = []\<rparr>"
    using assms(7) by (simp add: new_router_def connect_to_engine_def one_engine_config_def put_sink_def)
  have b: "rebuild_reservations G [Arrived (AllOrders [])] m \<lparr>er_senders = [(1, \<lparr>sk_fed = [], sk_sent = []\<rparr>)], er_faults = []\<rparr> =
      (Inr (), m, \<lparr>er_senders = [(1, \<lparr>sk_fed = [], sk_sent = [query]\<rparr>)], er_faults = []\<rparr>)"
    using assms(9) by (simp add: rebuild_reservations_def query_all_engines_for_orders_def route_to_engine_def net_call_def
        put_sink_def Let_def set_reservations_def reservations_by_account_def)
  show ?thesis
    unfolding start_gateway_def r prod.case sum.case seed e n b
    by (auto simp: m a(1) quiet_def fresh_gateway_def one_engine_def)
qed

section \<open>Accepted connections\<close>

text \<open>C34: a gateway numbers the connections of both listeners apart: whatever clients and engines have done since
  the start, a connection that is accepted is not registered yet, is not authenticated, has no orders of its own, and
  no pending order names it, so nothing of an earlier connection can reach it. (The counter is a \<open>u64\<close>; it does not
  wrap.)\<close>

theorem accepted_connections_start_clean:
  assumes "start_gateway P Q G crc now path config toml engines_path reach faults arrivals d snaps = (Inr g, d1, snaps1)"
    and "1 + accepts_of as < 2 ^ 64"
    and "fold (serve G codecs) as (listens g) = l" and "accept_client G codecs door l = (conn, l')"
  shows "map_of (gw_clients (sy_gateway (li_system l))) conn = None \<and>
    map_of (gw_clients (sy_gateway (li_system l'))) conn = Some \<lparr>ci_codec = codecs door\<rparr> \<and>
    \<not> is_authenticated (gw_sessions (sy_gateway (li_system l'))) conn \<and>
    (\<forall>oid md. map_of (gw_pending (sy_gateway (li_system l'))) oid = Some md \<longrightarrow> md_conn_id md \<noteq> conn) \<and>
    sy_locals (li_system l') conn = []"
proof -
  have "\<not> uses g c" for c using start_gateway_fresh [OF assms(1), of c] by (simp add: uses_def)
  then have "served_below 1 (listens g)" by (simp add: served_below_def listens_def)
  from serves_below [OF this assms(2), of G codecs] have
    below: "\<forall>c. uses (sy_gateway (li_system l)) c \<longrightarrow> unat c < unat (li_next_conn_id l)"
    by (simp add: served_below_def assms(3))
  have conn: "conn = li_next_conn_id l" and l': "li_system l' = gw_act G (Connect (codecs door) conn) (li_system l)"
    using assms(4) by (auto simp: accept_client_def Let_def)
  have "\<not> uses (sy_gateway (li_system l)) conn" using below by (auto simp: conn)
  then show ?thesis by (auto simp: l' uses_def client_connect_def)
qed

definition ex_start_disk :: disk where
  "ex_start_disk = \<lparr>dk_files = [(''engines.toml'', [])], dk_faults = []\<rparr>"

text \<open>A client connects, logs in with a test key and goes; the next one is not logged in.\<close>

theorem accepted_connections_start_clean_witness:
  "\<exists>g j conn l'. quiet g = fresh_gateway (Some j) \<and>
     accept_client to_engine_serde (\<lambda>_. json_text_codec) JsonDoor
       (fold (serve to_engine_serde (\<lambda>_. json_text_codec)) [Accept JsonDoor, Receive 1 (command_bytes (login ''test-key-1'')), Hangup 1]
         (listens g)) = (conn, l') \<and>
     \<not> is_authenticated (gw_sessions (sy_gateway (li_system l'))) conn"
proof -
  have utf: "utf8_valid []" by simp
  obtain query where q: "sd_to to_engine_serde QueryAllOrders = Some query" using to_engine_bytes by blast
  obtain g j d1 where g: "start_gateway update_serde acct_snapshot_serde to_engine_serde (\<lambda>_. 0) 0 ''accounts.bin''
      default_acct_journal_config (\<lambda>_. Some (one_engine_config ''e'')) ''engines.toml'' (\<lambda>_. True) []
      [Arrived (AllOrders [])] ex_start_disk \<lparr>dk_files = [], dk_faults = []\<rparr> = (Inr g, d1, \<lparr>dk_files = [], dk_faults = []\<rparr>)"
    "quiet g = fresh_gateway (Some j)"
    using start_on_empty_files [of ex_start_disk "''accounts.bin''" "''engines.toml''" "[]" "\<lambda>_. Some (one_engine_config ''e'')" "''e''"
        "\<lambda>_. True" "\<lparr>dk_files = [], dk_faults = []\<rparr>" to_engine_serde query update_serde acct_snapshot_serde "\<lambda>_. 0" 0
        default_acct_journal_config] q utf by (auto simp: ex_start_disk_def)
  let ?as = "[Accept JsonDoor, Receive 1 (command_bytes (login ''test-key-1'')), Hangup 1]"
  obtain conn l' where "accept_client to_engine_serde (\<lambda>_. json_text_codec) JsonDoor
      (fold (serve to_engine_serde (\<lambda>_. json_text_codec)) ?as (listens g)) = (conn, l')" by fastforce
  with g(2) accepted_connections_start_clean [OF g(1) _ refl this] show ?thesis by auto
qed

end
