(* ===== verification/AdminServer.thy ===== *)
theory AdminServer
  imports Metrics
begin

text \<open>
  \<open>engine_server/src/admin_server.rs\<close>: the two routes of the admin server. The HTTP server is not modelled;
  a response is its status, its headers and its body, and a path that is not routed is \<open>None\<close>.
\<close>

record http_response =
  hp_status :: nat
  hp_headers :: "(string \<times> string) list"
  hp_body :: string

definition health :: http_response where
  "health = \<lparr>hp_status = 200, hp_headers = [], hp_body = ''ok'' @ [CHR 0x0A]\<rparr>"

definition metrics_handler :: "metrics \<Rightarrow> http_response" where
  "metrics_handler m =
     \<lparr>hp_status = 200, hp_headers = [(''content-type'', ''text/plain; version=0.0.4; charset=utf-8'')],
      hp_body = render_prom_text m\<rparr>"

definition admin_route :: "metrics \<Rightarrow> string \<Rightarrow> http_response option" where
  "admin_route m path =
     (if path = ''/health'' then Some health
      else if path = ''/metrics'' then Some (metrics_handler m)
      else None)"

end
