(* ===== verification/EngineLink.thy ===== *)
theory EngineLink
  imports EngineServer
begin

text \<open>
  \<open>engine_server/src/gateway_connection.rs\<close> and the end of \<open>main.rs\<close>: the three parts of an engine
  process - the read loop, the engine thread, the write loop - with the connection to the gateway, which
  may break at any point. \<open>EngineServer\<close> has what the parts do when nothing goes wrong; here they take their
  turns in any order, each await of the code is a step of its own, and a part that ends takes its ends of the
  channels with it.

  The write half is a buffer that \<open>feed\<close> appends to and \<open>flush\<close> hands over; each of the calls takes the next
  outcome of \<open>lk_faults\<close>, as in \<open>EngineRouter\<close>. What has been handed over is \<open>sv_frames\<close>. A panic of the
  engine thread is not followed: \<open>engine_turn\<close> is \<open>None\<close> then.
\<close>

section \<open>State\<close>

datatype write_state = Selecting | Draining | WriteEnded

datatype read_err = ReadFrameFailed

datatype read_state = Reading | AwaitingOrders | ReadDone "read_err + unit"

datatype thread_state = Serving | Returned

record 's engine_link =
  lk_server :: "'s engine_server"
  lk_fed :: "u8 list list"
  lk_faults :: "bool list"
  lk_writer :: write_state
  lk_reader :: read_state
  lk_thread :: thread_state

text \<open>The gateway has connected to a server that has started.\<close>

definition link_of :: "bool list \<Rightarrow> 's engine_server \<Rightarrow> 's engine_link" where
  "link_of faults s =
     \<lparr>lk_server = s, lk_fed = [], lk_faults = faults, lk_writer = Selecting, lk_reader = Reading, lk_thread = Serving\<rparr>"

definition on_server :: "('s engine_server \<Rightarrow> 's engine_server) \<Rightarrow> 's engine_link \<Rightarrow> 's engine_link" where
  "on_server f l = l\<lparr>lk_server := f (lk_server l)\<rparr>"

definition write_call :: "'s engine_link \<Rightarrow> bool \<times> 's engine_link" where
  "write_call l = (case lk_faults l of [] \<Rightarrow> (True, l) | f # fs \<Rightarrow> (\<not> f, l\<lparr>lk_faults := fs\<rparr>))"

section \<open>The read loop\<close>

text \<open>A frame. When the engine thread has returned its ends of the channels are gone: a command is dropped as
  if the queue were full, a query is given up at once.\<close>

definition read_frame :: "gateway_to_engine serde \<Rightarrow> u8 list \<Rightarrow> 's engine_link \<Rightarrow> inbound list \<times> 's engine_link" where
  "read_frame P bs l =
     (let l1 = on_server (on_metrics inc_frames_in) l
      in case sd_from P bs of
           None \<Rightarrow> ([], l1)
         | Some msg \<Rightarrow>
             (case msg of
                Execute ex \<Rightarrow>
                  let inb = \<lparr>in_conn_id = ex_conn_id ex, in_cmd = ex_command ex\<rparr>
                  in if lk_thread l1 = Serving \<and> length (sv_queue (lk_server l1)) < sv_cap (lk_server l1)
                     then ([inb], on_server (\<lambda>s. on_metrics queue_inc (s\<lparr>sv_queue := sv_queue s @ [inb]\<rparr>)) l1)
                     else ([], l1)
              | Ping \<Rightarrow> ([], l1)
              | QueryAllOrders \<Rightarrow>
                  ([], if lk_thread l1 = Serving then l1\<lparr>lk_reader := AwaitingOrders\<rparr> else l1)))"

text \<open>The stream ends, or gives an error.\<close>

definition read_ends :: "read_err + unit \<Rightarrow> 's engine_link \<Rightarrow> 's engine_link" where
  "read_ends r l = l\<lparr>lk_reader := ReadDone r\<rparr>"

section \<open>The engine thread\<close>

text \<open>A turn on the queue. The outbound channel is open as long as the write loop, which owns its receiver,
  runs; when the send fails the thread returns, and what is left in its queue goes with it.\<close>

definition engine_turn ::
  "('s, order) slab_ops \<Rightarrow> codecs \<Rightarrow> nat \<Rightarrow> nat \<Rightarrow> 's engine_link \<Rightarrow> (inbound \<times> outbound list \<times> 's engine_link) option"
where
  "engine_turn S C now ts l =
     (let s = lk_server l
      in case sv_queue s of
           [] \<Rightarrow> None
         | inb # queue \<Rightarrow>
             (case run_step S C now ts (if lk_writer l = WriteEnded then Some 0 else None) inb (sv_engine s) of
                None \<Rightarrow> None
              | Some (outs, Running, e) \<Rightarrow>
                  Some (inb, outs, l\<lparr>lk_server := s\<lparr>sv_engine := e, sv_queue := queue, sv_outbound := sv_outbound s @ outs\<rparr>\<rparr>)
              | Some (outs, Stopped, e) \<Rightarrow>
                  Some (inb, outs, l\<lparr>lk_server := s\<lparr>sv_engine := e, sv_queue := [], sv_outbound := sv_outbound s @ outs\<rparr>,
                                     lk_thread := Returned\<rparr>)))"

text \<open>The thread answers the query the read loop waits for. The loop passes the answer on, or ends when the
  write loop has ended.\<close>

definition answer_query :: "('s, order) slab_ops \<Rightarrow> 's engine_link \<Rightarrow> 's engine_link" where
  "answer_query S l =
     (if lk_writer l = WriteEnded then l\<lparr>lk_reader := ReadDone (Inr ())\<rparr>
      else on_server (\<lambda>s. s\<lparr>sv_responses := sv_responses s @ [AllOrders (query_all_orders S (sv_engine s))]\<rparr>)
             (l\<lparr>lk_reader := Reading\<rparr>))"

text \<open>The queue is empty and its senders are gone: the loop breaks and flushes the journal.\<close>

definition channel_closed :: "codecs \<Rightarrow> nat \<Rightarrow> 's engine_link \<Rightarrow> 's engine_link" where
  "channel_closed C now l = (on_server (\<lambda>s. s\<lparr>sv_engine := shutdown C now (sv_engine s)\<rparr>) l)\<lparr>lk_thread := Returned\<rparr>"

section \<open>The write loop\<close>

definition end_writer :: "'s engine_link \<Rightarrow> 's engine_link" where
  "end_writer l = l\<lparr>lk_writer := WriteEnded\<rparr>"

text \<open>One round of the loop over the waiting events, and the flush when none is left. An event that does not
  serialize is skipped; one whose feed fails is gone.\<close>

definition drain_event :: "engine_to_gateway serde \<Rightarrow> 's engine_link \<Rightarrow> 's engine_link" where
  "drain_event Q l =
     (case sv_outbound (lk_server l) of
        [] \<Rightarrow>
          (case write_call l of
             (False, l1) \<Rightarrow> end_writer l1
           | (True, l1) \<Rightarrow>
               on_server (\<lambda>s. s\<lparr>sv_frames := sv_frames s @ lk_fed l1\<rparr>) (l1\<lparr>lk_fed := [], lk_writer := Selecting\<rparr>))
      | out # rest \<Rightarrow>
          let l1 = on_server (\<lambda>s. s\<lparr>sv_outbound := rest\<rparr>) l
          in case sd_to Q (client_event (out_conn_id out) (out_ev out) None) of
               None \<Rightarrow> l1
             | Some bytes \<Rightarrow>
                 (case write_call l1 of
                    (False, l2) \<Rightarrow> end_writer l2
                  | (True, l2) \<Rightarrow> on_server (on_metrics inc_frames_out) (l2\<lparr>lk_fed := lk_fed l2 @ [bytes]\<rparr>)))"

definition send_response :: "engine_to_gateway serde \<Rightarrow> 's engine_link \<Rightarrow> 's engine_link" where
  "send_response Q l =
     (case sv_responses (lk_server l) of
        [] \<Rightarrow> l
      | resp # rest \<Rightarrow>
          let l1 = on_server (\<lambda>s. s\<lparr>sv_responses := rest\<rparr>) l
          in case sd_to Q resp of
               None \<Rightarrow> l1
             | Some bytes \<Rightarrow>
                 (case write_call l1 of
                    (False, l2) \<Rightarrow> end_writer l2
                  | (True, l2) \<Rightarrow>
                      (case write_call (l2\<lparr>lk_fed := lk_fed l2 @ [bytes]\<rparr>) of
                         (False, l3) \<Rightarrow> end_writer l3
                       | (True, l3) \<Rightarrow>
                           on_server (\<lambda>s. on_metrics inc_frames_out (s\<lparr>sv_frames := sv_frames s @ lk_fed l3\<rparr>))
                             (l3\<lparr>lk_fed := []\<rparr>))))"

text \<open>The framed stream may hand over what is fed before it is flushed.\<close>

definition spill :: "nat \<Rightarrow> 's engine_link \<Rightarrow> 's engine_link" where
  "spill n l =
     on_server (\<lambda>s. s\<lparr>sv_frames := sv_frames s @ take n (lk_fed l)\<rparr>) (l\<lparr>lk_fed := drop n (lk_fed l)\<rparr>)"

section \<open>Steps\<close>

text \<open>What is seen of a step: the commands that enter the queue, and those the engine executes with the events
  it sends.\<close>

datatype link_event = Accepted inbound | Executed nat nat inbound "outbound list"

inductive link_step ::
  "('s, order) slab_ops \<Rightarrow> codecs \<Rightarrow> gateway_to_engine serde \<Rightarrow> engine_to_gateway serde \<Rightarrow>
   's engine_link \<Rightarrow> link_event list \<Rightarrow> 's engine_link \<Rightarrow> bool"
  for S :: "('s, order) slab_ops" and C :: codecs and P :: "gateway_to_engine serde" and Q :: "engine_to_gateway serde"
where
  Read: "link_step S C P Q l (map Accepted inbs) l'"
    if "lk_reader l = Reading" "read_frame P bs l = (inbs, l')"
| ReadEnds: "link_step S C P Q l [] (read_ends r l)" if "lk_reader l = Reading"
| Turn: "link_step S C P Q l [Executed now ts inb outs] l'"
    if "lk_thread l = Serving" "engine_turn S C now ts l = Some (inb, outs, l')"
| Answer: "link_step S C P Q l [] (answer_query S l)"
    if "lk_thread l = Serving" "lk_reader l = AwaitingOrders"
| GiveUp: "link_step S C P Q l [] (l\<lparr>lk_reader := Reading\<rparr>)"
    if "lk_thread l = Returned" "lk_reader l = AwaitingOrders"
| Closed: "link_step S C P Q l [] (channel_closed C now l)"
    if "lk_thread l = Serving" "lk_reader l = ReadDone r" "sv_queue (lk_server l) = []"
| Tick: "link_step S C P Q l [] (l\<lparr>lk_writer := Draining\<rparr>)" if "lk_writer l = Selecting"
| Drain: "link_step S C P Q l [] (drain_event Q l)" if "lk_writer l = Draining"
| Respond: "link_step S C P Q l [] (send_response Q l)"
    if "lk_writer l = Selecting" "sv_responses (lk_server l) \<noteq> []"
| Spill: "link_step S C P Q l [] (spill n l)"
| Abort: "link_step S C P Q l [] (end_writer l)" if "lk_reader l = ReadDone r"

inductive link_run ::
  "('s, order) slab_ops \<Rightarrow> codecs \<Rightarrow> gateway_to_engine serde \<Rightarrow> engine_to_gateway serde \<Rightarrow>
   's engine_link \<Rightarrow> link_event list \<Rightarrow> 's engine_link \<Rightarrow> bool"
  for S :: "('s, order) slab_ops" and C :: codecs and P :: "gateway_to_engine serde" and Q :: "engine_to_gateway serde"
    and l0 :: "'s engine_link"
where
  Start: "link_run S C P Q l0 [] l0"
| Step: "link_run S C P Q l0 (tr @ evs) l'" if "link_run S C P Q l0 tr l" "link_step S C P Q l evs l'"

fun accepted :: "link_event list \<Rightarrow> inbound list" where
  "accepted [] = []"
| "accepted (Accepted inb # tr) = inb # accepted tr"
| "accepted (_ # tr) = accepted tr"

fun executed :: "link_event list \<Rightarrow> (nat \<times> nat \<times> inbound) list" where
  "executed [] = []"
| "executed (Executed now ts inb _ # tr) = (now, ts, inb) # executed tr"
| "executed (_ # tr) = executed tr"

fun produced :: "link_event list \<Rightarrow> outbound list" where
  "produced [] = []"
| "produced (Executed _ _ _ outs # tr) = outs @ produced tr"
| "produced (_ # tr) = produced tr"

end
