(* ===== verification/EngineLinkFacts.thy ===== *)
theory EngineLinkFacts
  imports EngineLink EngineAgree "HOL-Library.Sublist"
begin

text \<open>
  The engine process over all interleavings of its parts. The specification executes commands one after the
  other on an engine; a run of the process keeps three promises towards it: commands are executed in the
  order in which they were accepted, their events are the specification's, and the gateway reads a prefix of
  these events - all that have been sent, while the write half works.
\<close>

section \<open>The sequential specification\<close>

fun serve_in_order ::
  "('s, order) slab_ops \<Rightarrow> inbound list \<Rightarrow> 's engine \<Rightarrow> (outbound list \<times> 's engine) option"
where
  "serve_in_order S [] e = Some ([], e)"
| "serve_in_order S (inb # inbs) e =
     (case process S (in_cmd inb) e of
        None \<Rightarrow> None
      | Some (evs, e1) \<Rightarrow>
          map_option (apfst ((@) (map (\<lambda>ev. \<lparr>out_conn_id = in_conn_id inb, out_ev = ev\<rparr>) evs)))
            (serve_in_order S inbs e1))"

lemma serve_snoc:
  assumes "serve_in_order S inbs e = Some (outs, d)" and "process S (in_cmd inb) d = Some (evs, d')"
  shows "serve_in_order S (inbs @ [inb]) e =
    Some (outs @ map (\<lambda>ev. \<lparr>out_conn_id = in_conn_id inb, out_ev = ev\<rparr>) evs, d')"
  using assms by (induction inbs arbitrary: e outs) (auto split: option.splits)

text \<open>It is \<open>process_all\<close> with addresses.\<close>

lemma serve_process_all:
  "process_all S (map in_cmd inbs) e = map_option (apfst (map out_ev)) (serve_in_order S inbs e)"
proof (induction inbs arbitrary: e)
  case (Cons inb inbs)
  then show ?case
    by (simp add: option.map_comp comp_def apfst_def map_prod_def case_prod_beta split: option.split)
qed simp

section \<open>What the gateway reads\<close>

fun client_events :: "engine_to_gateway list \<Rightarrow> outbound list" where
  "client_events [] = []"
| "client_events (ClientEvent conn ev tok # msgs) = \<lparr>out_conn_id = conn, out_ev = ev\<rparr> # client_events msgs"
| "client_events (_ # msgs) = client_events msgs"

lemma client_events_append [simp]: "client_events (xs @ ys) = client_events xs @ client_events ys"
  by (induction xs rule: client_events.induct) simp_all

lemma accepted_append [simp]: "accepted (xs @ ys) = accepted xs @ accepted ys"
  by (induction xs rule: accepted.induct) simp_all

lemma executed_append [simp]: "executed (xs @ ys) = executed xs @ executed ys"
  by (induction xs rule: executed.induct) simp_all

lemma produced_append [simp]: "produced (xs @ ys) = produced xs @ produced ys"
  by (induction xs rule: produced.induct) simp_all

lemma trace_accepted [simp]:
  "accepted (map Accepted inbs) = inbs" "executed (map Accepted inbs) = []" "produced (map Accepted inbs) = []"
  by (induction inbs) simp_all

definition on_wire :: "engine_to_gateway serde \<Rightarrow> 's engine_link \<Rightarrow> outbound list" where
  "on_wire Q l = client_events (engine_reader Q (sv_frames (lk_server l) @ lk_fed l))"

abbreviation executed_cmds :: "link_event list \<Rightarrow> inbound list" where
  "executed_cmds tr \<equiv> map (snd \<circ> snd) (executed tr)"

section \<open>The parts of a step\<close>

lemma on_server_simps [simp]:
  "lk_server (on_server f l) = f (lk_server l)" "lk_fed (on_server f l) = lk_fed l"
  "lk_faults (on_server f l) = lk_faults l" "lk_writer (on_server f l) = lk_writer l"
  "lk_reader (on_server f l) = lk_reader l" "lk_thread (on_server f l) = lk_thread l"
  by (simp_all add: on_server_def)

lemma end_writer_simps [simp]:
  "lk_server (end_writer l) = lk_server l" "lk_fed (end_writer l) = lk_fed l"
  "lk_reader (end_writer l) = lk_reader l" "lk_thread (end_writer l) = lk_thread l"
  "lk_writer (end_writer l) = WriteEnded"
  by (simp_all add: end_writer_def)

lemma write_call_state:
  assumes "write_call l = (ok, l')"
  shows "lk_server l' = lk_server l \<and> lk_fed l' = lk_fed l \<and> lk_writer l' = lk_writer l \<and>
    lk_reader l' = lk_reader l \<and> lk_thread l' = lk_thread l"
  using assms by (auto simp: write_call_def split: list.splits)

lemma on_metrics_agree [simp]: "agree (sv_engine (on_metrics f s)) d = agree (sv_engine s) d"
  by (simp add: on_metrics_def)

text \<open>What each part leaves alone.\<close>

abbreviation chan_state :: "'s engine_link \<Rightarrow> inbound list \<times> nat \<times> thread_state" where
  "chan_state l \<equiv> (sv_queue (lk_server l), sv_cap (lk_server l), lk_thread l)"

abbreviation wire_state :: "'s engine_link \<Rightarrow> u8 list list \<times> u8 list list \<times> outbound list \<times> write_state" where
  "wire_state l \<equiv> (sv_frames (lk_server l), lk_fed l, sv_outbound (lk_server l), lk_writer l)"

lemma read_frame_keeps:
  assumes "read_frame P bs l = (inbs, l')"
  shows "wire_state l' = wire_state l \<and> (\<forall>d. agree (sv_engine (lk_server l')) d = agree (sv_engine (lk_server l)) d)"
  using assms by (auto simp: read_frame_def Let_def split: option.splits gateway_to_engine.splits if_splits)

lemma read_frame_chan:
  assumes "read_frame P bs l = (inbs, l')"
  shows "lk_thread l' = lk_thread l \<and> sv_cap (lk_server l') = sv_cap (lk_server l) \<and>
    sv_queue (lk_server l') = sv_queue (lk_server l) @ inbs \<and>
    (inbs \<noteq> [] \<longrightarrow> lk_thread l = Serving \<and> length (sv_queue (lk_server l) @ inbs) \<le> sv_cap (lk_server l))"
  using assms by (auto simp: read_frame_def Let_def split: option.splits gateway_to_engine.splits if_splits)

lemma drain_event_keeps:
  "chan_state (drain_event Q l) = chan_state l"
  "agree (sv_engine (lk_server (drain_event Q l))) d = agree (sv_engine (lk_server l)) d"
  using write_call_state
  by (auto simp: drain_event_def Let_def split: list.splits option.splits prod.splits bool.splits; fastforce)+

lemma send_response_keeps:
  "chan_state (send_response Q l) = chan_state l"
  "agree (sv_engine (lk_server (send_response Q l))) d = agree (sv_engine (lk_server l)) d"
  by (auto simp: send_response_def Let_def split: list.splits option.splits prod.splits bool.splits
      dest!: write_call_state)

text \<open>What the engine thread does in a turn.\<close>

lemma engine_turnE:
  assumes "engine_turn S C now ts l = Some (inb, outs, l')"
  obtains queue e st where "sv_queue (lk_server l) = inb # queue"
    and "run_step S C now ts (if lk_writer l = WriteEnded then Some 0 else None) inb (sv_engine (lk_server l)) = Some (outs, st, e)"
    and "lk_thread l' = (case st of Running \<Rightarrow> lk_thread l | Stopped \<Rightarrow> Returned)"
    and "lk_server l' = (lk_server l)\<lparr>sv_engine := e, sv_queue := (case st of Running \<Rightarrow> queue | Stopped \<Rightarrow> []),
        sv_outbound := sv_outbound (lk_server l) @ outs\<rparr>"
    and "lk_fed l' = lk_fed l" and "lk_writer l' = lk_writer l" and "lk_reader l' = lk_reader l"
  using assms that by (auto simp: engine_turn_def Let_def split: list.splits option.splits prod.splits run_status.splits)

section \<open>The queue\<close>

text \<open>Commands are executed in the order in which they were accepted, and none is lost while the engine thread
  runs.\<close>

definition queue_inv :: "link_event list \<Rightarrow> 's engine_link \<Rightarrow> bool" where
  "queue_inv tr l \<longleftrightarrow>
     length (sv_queue (lk_server l)) \<le> sv_cap (lk_server l) \<and>
     (case lk_thread l of
        Serving \<Rightarrow> accepted tr = executed_cmds tr @ sv_queue (lk_server l)
      | Returned \<Rightarrow> prefix (executed_cmds tr) (accepted tr) \<and> sv_queue (lk_server l) = [])"

lemma queue_inv_same: "chan_state l' = chan_state l \<Longrightarrow> queue_inv tr l' = queue_inv tr l"
  by (simp add: queue_inv_def split: thread_state.split)

lemma queue_inv_step:
  assumes "link_step S C P Q l evs l'" and "queue_inv tr l"
  shows "queue_inv (tr @ evs) l'"
  using assms
proof (cases rule: link_step.cases)
  case (Read inbs bs)
  with assms(2) read_frame_chan [OF Read(3)] show ?thesis
    by (cases "inbs = []") (auto simp: queue_inv_def split: thread_state.splits)
next
  case (Turn now ts inb outs)
  from Turn(3) show ?thesis
    by (rule engine_turnE) (use assms(2) Turn(1,2) in \<open>auto simp: queue_inv_def split: run_status.splits\<close>)
next
  case (Closed r now)
  with assms(2) show ?thesis by (simp add: queue_inv_def channel_closed_def)
next
  case Drain
  with assms(2) show ?thesis by (simp add: queue_inv_same [OF drain_event_keeps(1)])
next
  case Respond
  with assms(2) show ?thesis by (simp add: queue_inv_same [OF send_response_keeps(1)])
qed (use assms(2) in \<open>auto simp: queue_inv_def read_ends_def answer_query_def spill_def split: thread_state.splits\<close>)

section \<open>The engine\<close>

text \<open>The engine is where the specification is, and while the write half works it has sent all events.\<close>

definition engine_inv :: "('s, order) slab_ops \<Rightarrow> 's engine \<Rightarrow> link_event list \<Rightarrow> 's engine_link \<Rightarrow> bool" where
  "engine_inv S e0 tr l \<longleftrightarrow>
     (\<exists>outs d. serve_in_order S (executed_cmds tr) e0 = Some (outs, d) \<and> agree (sv_engine (lk_server l)) d \<and>
        prefix (produced tr) outs \<and> (lk_writer l \<noteq> WriteEnded \<longrightarrow> produced tr = outs))"

lemma engine_inv_same:
  assumes "engine_inv S e0 tr l" and "\<forall>d. agree (sv_engine (lk_server l')) d = agree (sv_engine (lk_server l)) d"
    and "lk_writer l = WriteEnded \<longrightarrow> lk_writer l' = WriteEnded"
    and "executed evs = []" and "produced evs = []"
  shows "engine_inv S e0 (tr @ evs) l'"
  using assms by (auto simp: engine_inv_def)

lemma engine_inv_turn:
  assumes "engine_turn S C now ts l = Some (inb, outs, l')" and inv: "engine_inv S e0 tr l"
  shows "engine_inv S e0 (tr @ [Executed now ts inb outs]) l'"
proof -
  from inv obtain outs0 d where d: "serve_in_order S (executed_cmds tr) e0 = Some (outs0, d)"
    "agree (sv_engine (lk_server l)) d" "prefix (produced tr) outs0" "lk_writer l \<noteq> WriteEnded \<longrightarrow> produced tr = outs0"
    by (auto simp: engine_inv_def)
  from assms(1) show ?thesis
  proof (rule engine_turnE)
    fix queue e st
    assume run: "run_step S C now ts (if lk_writer l = WriteEnded then Some 0 else None) inb (sv_engine (lk_server l)) = Some (outs, st, e)"
      and l': "lk_server l' = (lk_server l)\<lparr>sv_engine := e, sv_queue := (case st of Running \<Rightarrow> queue | Stopped \<Rightarrow> []),
        sv_outbound := sv_outbound (lk_server l) @ outs\<rparr>" "lk_writer l' = lk_writer l"
    obtain evs d' where p: "process S (in_cmd inb) d = Some (evs, d')" "agree e d'"
      and o: "outs = take (case if lk_writer l = WriteEnded then Some 0 else None of None \<Rightarrow> length evs | Some n \<Rightarrow> n)
          (map (\<lambda>ev. \<lparr>out_conn_id = in_conn_id inb, out_ev = ev\<rparr>) evs)"
      using agree_run_step [OF d(2) run] by (auto simp: Let_def)
    show ?thesis
      using serve_snoc [OF d(1) p(1)] p(2) d(3,4) o l' by (auto simp: engine_inv_def prefix_def)
  qed
qed

lemma engine_inv_step:
  assumes "link_step S C P Q l evs l'" and "engine_inv S e0 tr l"
  shows "engine_inv S e0 (tr @ evs) l'"
  using assms
proof (cases rule: link_step.cases)
  case (Read inbs bs)
  with read_frame_keeps [OF Read(3)] show ?thesis by (intro engine_inv_same [OF assms(2)]) auto
next
  case (Turn now ts inb outs)
  with engine_inv_turn [OF Turn(3) assms(2)] show ?thesis by simp
next
  case Drain
  show ?thesis
    unfolding Drain by (rule engine_inv_same [OF assms(2)]) (use Drain in \<open>auto simp: drain_event_keeps\<close>)
next
  case Respond
  show ?thesis
    unfolding Respond by (rule engine_inv_same [OF assms(2)]) (use Respond in \<open>auto simp: send_response_keeps\<close>)
qed (intro engine_inv_same [OF assms(2)]; auto simp: read_ends_def answer_query_def spill_def channel_closed_def)+

section \<open>The wire\<close>

text \<open>What is on the wire is a prefix of what the engine sent, and the rest waits as long as the write half
  works.\<close>

definition wire_inv :: "engine_to_gateway serde \<Rightarrow> link_event list \<Rightarrow> 's engine_link \<Rightarrow> bool" where
  "wire_inv Q tr l \<longleftrightarrow> prefix (on_wire Q l) (produced tr) \<and>
     (lk_writer l \<noteq> WriteEnded \<longrightarrow> produced tr = on_wire Q l @ sv_outbound (lk_server l))"

lemma wire_inv_same:
  "wire_state l' = wire_state l \<Longrightarrow> wire_inv Q tr l' = wire_inv Q tr l"
  by (simp add: wire_inv_def on_wire_def)

text \<open>The steps of the writer, when every message serializes and is read back.\<close>

locale total_serde = serde Q for Q :: "engine_to_gateway serde" +
  assumes total: "sd_to Q m \<noteq> None"
begin

lemma read_back: "sd_to Q m = Some b \<Longrightarrow> engine_reader Q [b] = [m]"
  by (rule engine_reader_sent [OF serde_axioms])

lemma wire_inv_drain:
  assumes "wire_inv Q tr l" and "lk_writer l = Draining"
  shows "wire_inv Q tr (drain_event Q l)"
proof (cases "sv_outbound (lk_server l)")
  case Nil
  obtain ok l1 where w: "write_call l = (ok, l1)" by fastforce
  with assms Nil write_call_state [OF w] show ?thesis
    by (cases ok) (simp_all add: drain_event_def wire_inv_def on_wire_def)
next
  case (Cons out rest)
  let ?l = "on_server (\<lambda>s. s\<lparr>sv_outbound := rest\<rparr>) l"
  obtain bytes where b: "sd_to Q (client_event (out_conn_id out) (out_ev out) None) = Some bytes" using total by blast
  obtain ok l1 where w: "write_call ?l = (ok, l1)" by fastforce
  have "client_events (engine_reader Q [bytes]) = [out]"
    using read_back [OF b] by (simp add: client_event_def)
  with assms Cons b write_call_state [OF w] show ?thesis
    by (cases ok) (auto simp: drain_event_def wire_inv_def on_wire_def w prefix_def)
qed

lemma wire_inv_respond:
  assumes "wire_inv Q tr l" and "\<forall>m \<in> set (sv_responses (lk_server l)). client_events [m] = []"
  shows "wire_inv Q tr (send_response Q l)"
proof (cases "sv_responses (lk_server l)")
  case Nil
  with assms show ?thesis by (simp add: send_response_def)
next
  case (Cons resp rest)
  let ?l = "on_server (\<lambda>s. s\<lparr>sv_responses := rest\<rparr>) l"
  obtain bytes where b: "sd_to Q resp = Some bytes" using total by blast
  obtain ok l1 where w: "write_call ?l = (ok, l1)" by fastforce
  obtain ok' l2 where w': "write_call (l1\<lparr>lk_fed := lk_fed l @ [bytes]\<rparr>) = (ok', l2)" by fastforce
  have "client_events (engine_reader Q [bytes]) = []"
    using read_back [OF b] assms(2) Cons by simp
  with assms(1) Cons b write_call_state [OF w] write_call_state [OF w'] show ?thesis
    by (cases ok; cases ok') (auto simp: send_response_def wire_inv_def on_wire_def w w')
qed

lemma wire_inv_spill: "wire_inv Q tr (spill n l) = wire_inv Q tr l"
  by (simp add: wire_inv_def on_wire_def spill_def flip: append.assoc engine_reader_append)

text \<open>Every waiting response is an answer with orders.\<close>

definition answers_inv :: "'s engine_link \<Rightarrow> bool" where
  "answers_inv l \<longleftrightarrow> (\<forall>m \<in> set (sv_responses (lk_server l)). \<exists>orders. m = AllOrders orders)"

lemma answers_inv_step:
  assumes "link_step S C P Q' l evs l'" and "answers_inv l"
  shows "answers_inv l'"
  using assms
proof (cases rule: link_step.cases)
  case (Read inbs bs)
  with assms(2) show ?thesis
    by (auto simp: answers_inv_def read_frame_def Let_def split: option.splits gateway_to_engine.splits if_splits)
next
  case (Turn now ts inb outs)
  from Turn(3) show ?thesis by (rule engine_turnE) (use assms(2) in \<open>simp add: answers_inv_def\<close>)
next
  case Drain
  with assms(2) show ?thesis
    by (auto simp: answers_inv_def drain_event_def Let_def split: list.splits option.splits prod.splits bool.splits
        dest!: write_call_state)
next
  case Respond
  with assms(2) show ?thesis
    by (auto simp: answers_inv_def send_response_def Let_def split: list.splits option.splits prod.splits bool.splits
        dest!: write_call_state)
qed (use assms(2) in \<open>auto simp: answers_inv_def read_ends_def answer_query_def spill_def channel_closed_def\<close>)

lemma wire_inv_step:
  assumes "link_step S C P Q l evs l'" and "wire_inv Q tr l" and "answers_inv l"
  shows "wire_inv Q (tr @ evs) l'"
  using assms
proof (cases rule: link_step.cases)
  case (Read inbs bs)
  with read_frame_keeps [OF Read(3)] have "wire_state l' = wire_state l" by blast
  then show ?thesis using Read assms(2) by (simp add: wire_inv_def on_wire_def)
next
  case (Turn now ts inb outs)
  from Turn(3) show ?thesis
    by (rule engine_turnE) (use Turn(1) assms(2) in \<open>auto simp: wire_inv_def on_wire_def prefix_def\<close>)
next
  case Drain
  then show ?thesis using assms(2) by (simp add: wire_inv_drain)
next
  case Respond
  then show ?thesis using assms(2,3) by (auto simp: answers_inv_def intro!: wire_inv_respond)
next
  case (Spill n)
  then show ?thesis using assms(2) by (simp add: wire_inv_spill)
qed (use assms(2) in \<open>auto simp: wire_inv_def on_wire_def read_ends_def answer_query_def channel_closed_def\<close>)

end

section \<open>Runs\<close>

text \<open>A server that has started and has said nothing yet.\<close>

definition fresh_link :: "'s engine \<Rightarrow> 's engine_link \<Rightarrow> bool" where
  "fresh_link e l \<longleftrightarrow> (\<exists>cap faults. l = link_of faults
     \<lparr>sv_engine = e, sv_queue = [], sv_cap = cap, sv_outbound = [], sv_responses = [], sv_frames = []\<rparr>)"

lemma server_start_fresh:
  assumes "server_start S C now m config d snaps cap = Some s"
  shows "fresh_link (sv_engine s) (link_of faults s)"
proof -
  obtain e where "s = \<lparr>sv_engine = e, sv_queue = [], sv_cap = cap, sv_outbound = [], sv_responses = [], sv_frames = []\<rparr>"
    using assms by (auto simp: server_start_def split: option.splits prod.splits)
  then show ?thesis by (simp add: fresh_link_def) blast
qed

lemma link_run_queue:
  assumes "link_run S C P Q l0 tr l" and "fresh_link e l0"
  shows "queue_inv tr l"
  using assms
proof (induction rule: link_run.induct)
  case Start
  then show ?case by (auto simp: fresh_link_def link_of_def queue_inv_def)
qed (blast intro: queue_inv_step)

lemma link_run_engine:
  assumes "link_run S C P Q l0 tr l" and "fresh_link e l0"
  shows "engine_inv S e tr l"
  using assms
proof (induction rule: link_run.induct)
  case Start
  then show ?case by (auto simp: fresh_link_def link_of_def engine_inv_def)
qed (blast intro: engine_inv_step)

context total_serde begin

lemma link_run_wire:
  assumes "link_run S C P Q l0 tr l" and "fresh_link e l0"
  shows "wire_inv Q tr l \<and> answers_inv l"
  using assms
proof (induction rule: link_run.induct)
  case Start
  then show ?case
    by (auto simp: fresh_link_def link_of_def wire_inv_def answers_inv_def on_wire_def engine_reader_def List.map_filter_def)
qed (blast intro: wire_inv_step answers_inv_step)

end

end
