(* ===== verification/EngineReader.thy ===== *)
theory EngineReader
  imports EngineRouter "HOL-Library.Sublist"
begin

text \<open>
  \<open>engine_reader_task\<close> of \<open>gateway_server/src/engine_router.rs\<close> with its ends: an error of the stream, the end
  of the stream (of the list of items), and a channel of events that closes after some sends (\<open>None\<close> for one
  that stays open). \<open>engine_reader\<close> is what it does on a stream of frames.
\<close>

datatype stream_item = FrameOk "u8 list" | FrameErr

fun engine_reader_task ::
  "engine_to_gateway serde \<Rightarrow> nat option \<Rightarrow> stream_item list \<Rightarrow> engine_to_gateway list"
where
  "engine_reader_task P sends [] = []"
| "engine_reader_task P sends (FrameErr # items) = []"
| "engine_reader_task P sends (FrameOk bs # items) =
     (case sd_from P bs of
        None \<Rightarrow> engine_reader_task P sends items
      | Some ev \<Rightarrow>
          (case sends of
             None \<Rightarrow> ev # engine_reader_task P None items
           | Some 0 \<Rightarrow> []
           | Some (Suc n) \<Rightarrow> ev # engine_reader_task P (Some n) items))"

text \<open>The frames that arrive before the stream ends.\<close>

fun received :: "stream_item list \<Rightarrow> u8 list list" where
  "received (FrameOk bs # items) = bs # received items"
| "received _ = []"

lemma engine_reader_Nil [simp]: "engine_reader P [] = []"
  by (simp add: engine_reader_def List.map_filter_def)

lemma engine_reader_Cons:
  "engine_reader P (bs # bss) = (case sd_from P bs of None \<Rightarrow> engine_reader P bss | Some ev \<Rightarrow> ev # engine_reader P bss)"
  by (simp add: engine_reader_def List.map_filter_def split: option.split)

lemma reader_task_open: "engine_reader_task P None items = engine_reader P (received items)"
  by (induction items rule: received.induct) (simp_all add: engine_reader_Cons split: option.split)

lemma received_frames [simp]: "received (map FrameOk bss) = bss"
  by (induction bss) simp_all

lemma reader_task_prefix: "prefix (engine_reader_task P sends items) (engine_reader P (received items))"
  by (induction P sends items rule: engine_reader_task.induct)
    (auto simp: engine_reader_Cons split: option.split nat.split)

text \<open>On a stream that broke, the task forwards a prefix of what it would have forwarded.\<close>

lemma reader_task_cut:
  assumes "prefix (received items) bss"
  shows "prefix (engine_reader_task P sends items) (engine_reader P bss)"
proof -
  obtain rest where "bss = received items @ rest" using assms by (auto simp: prefix_def)
  then have "prefix (engine_reader P (received items)) (engine_reader P bss)"
    by (simp add: engine_reader_def List.map_filter_def)
  with reader_task_prefix show ?thesis by (rule prefix_order.trans)
qed

end
