(* ===== verification/EngineLinkProps.thy ===== *)
theory EngineLinkProps
  imports EngineLinkFacts EngineReader EngineProps ProtocolWire
begin

text \<open>
  The properties of an engine process and its connection, for every interleaving of its read loop, engine
  thread and write loop: order and completeness of what the gateway reads, the sequential view of
  \<open>EngineServer\<close>, the end of the write half, delivery, and what a restart finds after the process has ended.
\<close>

interpretation to_gateway_total: total_serde to_gateway_serde
  by unfold_locales simp

section \<open>A concrete process\<close>

definition ex_sell :: inbound where
  "ex_sell = \<lparr>in_conn_id = 1, in_cmd = NewOrder (ex_new 1 10 Sell 100 5)\<rparr>"

definition ex_started :: "order option list engine_server" where
  "ex_started = \<lparr>sv_engine = ex_engine, sv_queue = [], sv_cap = 8, sv_outbound = [], sv_responses = [], sv_frames = []\<rparr>"

lemma ex_server_start:
  "server_start vec_slab ex_codecs 0 default_metrics ex_config empty_disk empty_disk 8 = Some ex_started"
proof -
  have "restore_from_persistence vec_slab ex_codecs ex_engine = Some (Inr (), ex_engine)"
    by (subst restore_from_journal(1) [OF ex_journal_codec, where cmds = "[]"])
      (simp_all add: ex_engine_def ex_journal_def empty_disk_def)
  then show ?thesis by (simp add: server_start_def ex_engine_new ex_started_def)
qed

text \<open>The gateway sends a command, the read loop queues it, and the engine thread can take its turn.\<close>

lemma order_read:
  assumes "0 < sv_cap s" and "sv_queue s = []"
  obtains l where "link_step S C to_engine_serde Q (link_of faults s) [Accepted inb] l"
    and "l = on_server (\<lambda>s. on_metrics queue_inc (on_metrics inc_frames_in (s\<lparr>sv_queue := [inb]\<rparr>))) (link_of faults s)"
proof -
  define ex where
    "ex = \<lparr>ex_command = in_cmd inb, ex_conn_id = in_conn_id inb,
       ex_risk_token = \<lparr>rt_account_id = 10, rt_reserved_amount = 0, rt_gateway_seq = 1\<rparr>\<rparr>"
  have ex: "\<lparr>in_conn_id = ex_conn_id ex, in_cmd = ex_command ex\<rparr> = inb" by (simp add: ex_def)
  have rd: "sd_from to_engine_serde (w_enc w_to_engine (Execute ex)) = Some (Execute ex)"
    by (rule to_engine.from_to [OF to_engine_bytes])
  have "read_frame to_engine_serde (w_enc w_to_engine (Execute ex)) (link_of faults s) =
     ([inb], on_server (\<lambda>s. on_metrics queue_inc (on_metrics inc_frames_in (s\<lparr>sv_queue := [inb]\<rparr>))) (link_of faults s))"
    using assms by (simp add: read_frame_def rd ex Let_def link_of_def on_server_def on_metrics_def)
  from link_step.Read [OF _ this, of S C Q] that show ?thesis by (simp add: link_of_def)
qed

lemma order_turn:
  assumes "sv_queue (lk_server l) = [inb]" and "core (sv_engine (lk_server l)) = core e"
    and "order_slab S" and "reachable S C e" and "admissible_cmd S (in_cmd inb) e"
  obtains outs l' where "engine_turn S C 5 5 l = Some (inb, outs, l')"
proof -
  let ?e = "sv_engine (lk_server l)"
  have "engine_ok S ?e" "admissible_cmd S (in_cmd inb) ?e"
    using reachable_inv [OF assms(3,4)] assms(5) engine_ok_core [OF assms(2)] admissible_cmd_core [OF assms(2)] by simp_all
  then obtain outs st e' where
    "run_step S C 5 5 (if lk_writer l = WriteEnded then Some 0 else None) inb ?e = Some (outs, st, e')"
    using run_step_ok [OF assms(3)] by meson
  with assms(1) that show ?thesis by (cases st) (simp_all add: engine_turn_def Let_def)
qed

section \<open>Order and completeness\<close>

lemma client_events_prefix: "prefix ms ms' \<Longrightarrow> prefix (client_events ms) (client_events ms')"
  by (auto simp: prefix_def)

lemma on_wire_split:
  "on_wire Q l = client_events (engine_reader Q (sv_frames (lk_server l))) @ client_events (engine_reader Q (lk_fed l))"
  by (simp add: on_wire_def)

lemma link_run_serves:
  assumes "serde Q" and "\<forall>m. sd_to Q m \<noteq> None"
    and start: "server_start S C now m config d snaps cap = Some s"
    and run: "link_run S C P Q (link_of faults s) tr l"
  shows "\<exists>outs e. serve_in_order S (executed_cmds tr) (sv_engine s) = Some (outs, e) \<and>
    agree (sv_engine (lk_server l)) e \<and>
    prefix (executed_cmds tr) (accepted tr) \<and> length (sv_queue (lk_server l)) \<le> sv_cap (lk_server l) \<and>
    (\<forall>items sends. prefix (received items) (sv_frames (lk_server l)) \<longrightarrow>
      prefix (client_events (engine_reader_task Q sends items)) outs) \<and>
    (lk_writer l \<noteq> WriteEnded \<longrightarrow>
      outs = client_events (engine_reader Q (sv_frames (lk_server l) @ lk_fed l)) @ sv_outbound (lk_server l))"
proof -
  have total: "total_serde Q" using assms(1,2) by (simp add: total_serde_def total_serde_axioms_def)
  note fresh = server_start_fresh [OF start, of faults]
  from link_run_engine [OF run fresh] obtain outs e where
    e: "serve_in_order S (executed_cmds tr) (sv_engine s) = Some (outs, e)" "agree (sv_engine (lk_server l)) e"
      "prefix (produced tr) outs" "lk_writer l \<noteq> WriteEnded \<longrightarrow> produced tr = outs"
    by (auto simp: engine_inv_def)
  have q: "prefix (executed_cmds tr) (accepted tr)" "length (sv_queue (lk_server l)) \<le> sv_cap (lk_server l)"
    using link_run_queue [OF run fresh] by (auto simp: queue_inv_def prefix_def split: thread_state.splits)
  have w: "wire_inv Q tr l" using total_serde.link_run_wire [OF total run fresh] by simp
  then have "prefix (on_wire Q l) outs" using e(3) by (auto simp: wire_inv_def intro: prefix_order.trans)
  then have "prefix (client_events (engine_reader Q (sv_frames (lk_server l)))) outs"
    by (auto simp: on_wire_split intro: append_prefixD)
  then have "\<forall>items sends. prefix (received items) (sv_frames (lk_server l)) \<longrightarrow>
      prefix (client_events (engine_reader_task Q sends items)) outs"
    using client_events_prefix [OF reader_task_cut] by (blast intro: prefix_order.trans)
  with e q w show ?thesis by (auto simp: wire_inv_def on_wire_def)
qed

text \<open>C9: however the parts of an engine process interleave and wherever the connection breaks, commands are
  executed in the order in which they were accepted, one after the other as if there were no concurrency; the
  queue stays within its capacity; and the events the gateway's reader task forwards, wherever its end of the
  stream breaks, are a prefix of theirs. While the write half works nothing is missing: what has not been sent
  yet is in the buffer or in the channel.\<close>

theorem link_serves_in_order:
  assumes "serde Q" and "\<forall>m. sd_to Q m \<noteq> None"
    and start: "server_start S C now m config d snaps cap = Some s"
    and run: "link_run S C P Q (link_of faults s) tr l"
  shows "\<exists>outs e. serve_in_order S (executed_cmds tr) (sv_engine s) = Some (outs, e) \<and>
    agree (sv_engine (lk_server l)) e \<and>
    prefix (executed_cmds tr) (accepted tr) \<and> length (sv_queue (lk_server l)) \<le> sv_cap (lk_server l) \<and>
    (\<forall>items sends. prefix (received items) (sv_frames (lk_server l)) \<longrightarrow>
      prefix (client_events (engine_reader_task Q sends items)) outs) \<and>
    (lk_writer l \<noteq> WriteEnded \<longrightarrow>
      outs = client_events (engine_reader Q (sv_frames (lk_server l) @ lk_fed l)) @ sv_outbound (lk_server l))"
  by (rule link_run_serves [OF assms])

text \<open>On a connection on which nothing is going on a turn of the thread is one of the server.\<close>

definition calm :: "'s engine_link \<Rightarrow> bool" where
  "calm l \<longleftrightarrow> lk_fed l = [] \<and> lk_faults l = [] \<and> lk_writer l = Selecting \<and> lk_reader l = Reading \<and> lk_thread l = Serving"

lemma calm_turn:
  assumes "calm l" and "engine_turn S C now ts l = Some (inb, outs, l')"
  shows "calm l' \<and> l' = l\<lparr>lk_server := lk_server l'\<rparr> \<and> server_engine S C now ts (lk_server l) = Some (lk_server l')"
  using assms
  by (auto simp: engine_turn_def server_engine_def calm_def run_step_def Let_def split: list.splits option.splits prod.splits)

section \<open>The end of the write half\<close>

fun is_auth :: "command \<Rightarrow> bool" where
  "is_auth (Authenticate a) = True"
| "is_auth _ = False"

lemma process_silent:
  assumes "process S cmd e = Some ([], e')"
  shows "is_auth cmd"
proof (cases cmd)
  case (NewOrder no)
  with assms show ?thesis
    by (auto simp: handle_new_def Let_def top_and_ack_def split: if_splits option.splits sum.splits prod.splits)
next
  case (Replace r)
  with assms show ?thesis
    by (auto simp: process_replace_def handle_new_def Let_def top_and_ack_def split: if_splits option.splits sum.splits prod.splits)
qed (use assms in \<open>auto simp: process_cancel_def handle_set_risk_limits_def handle_query_account_def Let_def
    split: if_splits prod.splits bool.splits\<close>)

lemma run_step_unsent:
  assumes "run_step S C now ts (Some 0) inb e = Some (outs, st, e')"
  shows "outs = [] \<and> (st = Running \<longrightarrow> is_auth (in_cmd inb))"
  using assms process_silent by (fastforce simp: run_step_def Let_def split: option.splits prod.splits if_splits)

definition mute_inv :: "'s engine_link \<Rightarrow> link_event list \<Rightarrow> 's engine_link \<Rightarrow> bool" where
  "mute_inv l0 tr l \<longleftrightarrow> lk_writer l = WriteEnded \<and> produced tr = [] \<and>
     sv_frames (lk_server l) @ lk_fed l = sv_frames (lk_server l0) @ lk_fed l0 \<and>
     length (filter (\<lambda>inb. \<not> is_auth (in_cmd inb)) (executed_cmds tr)) \<le> (case lk_thread l of Serving \<Rightarrow> 0 | Returned \<Rightarrow> 1)"

lemma mute_inv_quiet:
  assumes "mute_inv l0 tr l" and "wire_state l' = wire_state l" and "executed evs = []" and "produced evs = []"
    and "lk_thread l = Returned \<longrightarrow> lk_thread l' = Returned"
  shows "mute_inv l0 (tr @ evs) l'"
  using assms by (auto simp: mute_inv_def split: thread_state.splits)

lemma mute_inv_step:
  assumes "link_step S C P Q l evs l'" and inv: "mute_inv l0 tr l"
  shows "mute_inv l0 (tr @ evs) l'"
  using assms(1)
proof (cases rule: link_step.cases)
  case (Read inbs bs)
  with read_frame_keeps [OF Read(3)] read_frame_chan [OF Read(3)] show ?thesis by (intro mute_inv_quiet [OF inv]) auto
next
  case (Turn now ts inb outs)
  have "lk_writer l = WriteEnded" using inv by (simp add: mute_inv_def)
  from Turn(3) show ?thesis
  proof (rule engine_turnE)
    fix queue e st
    assume st: "run_step S C now ts (if lk_writer l = WriteEnded then Some 0 else None) inb (sv_engine (lk_server l)) = Some (outs, st, e)"
    assume "lk_thread l' = (case st of Running \<Rightarrow> lk_thread l | Stopped \<Rightarrow> Returned)"
      "lk_fed l' = lk_fed l" "lk_writer l' = lk_writer l"
      "lk_server l' = (lk_server l)\<lparr>sv_engine := e, sv_queue := (case st of Running \<Rightarrow> queue | Stopped \<Rightarrow> []),
        sv_outbound := sv_outbound (lk_server l) @ outs\<rparr>"
    then show ?thesis
      using inv run_step_unsent [OF st [unfolded \<open>lk_writer l = WriteEnded\<close>, simplified]] Turn(1,2)
      by (cases st) (auto simp: mute_inv_def)
  qed
next
  case (Spill n)
  with inv show ?thesis by (simp add: mute_inv_def spill_def)
qed (intro mute_inv_quiet [OF inv];
    use inv in \<open>auto simp: mute_inv_def read_ends_def answer_query_def channel_closed_def end_writer_def\<close>)+

lemma returned_step:
  assumes "link_step S C P Q l evs l'" and "lk_thread l = Returned"
  shows "lk_thread l' = Returned \<and> accepted evs = [] \<and> executed evs = []"
  using assms
proof (cases rule: link_step.cases)
  case (Read inbs bs)
  with read_frame_chan [OF Read(3)] assms(2) show ?thesis by auto
next
  case Drain
  with drain_event_keeps(1) [of Q l] assms(2) show ?thesis by simp
next
  case Respond
  with send_response_keeps(1) [of Q l] assms(2) show ?thesis by simp
qed (use assms(2) in \<open>auto simp: read_ends_def spill_def end_writer_def\<close>)

lemma link_run_returned:
  assumes "link_run S C P Q l0 tr l" and "lk_thread l0 = Returned"
  shows "lk_thread l = Returned \<and> accepted tr = [] \<and> executed tr = []"
  using assms by (induction rule: link_run.induct) (auto dest: returned_step)

lemma link_run_mute:
  assumes "link_run S C P Q l0 tr l" and "lk_writer l0 = WriteEnded"
  shows "mute_inv l0 tr l"
  using assms
proof (induction rule: link_run.induct)
  case Start
  then show ?case by (simp add: mute_inv_def split: thread_state.split)
qed (blast intro: mute_inv_step)

text \<open>C36: when the write half of the connection has broken, the engine goes deaf after one more command. Whatever
  the gateway sends from then on, at most one command that has an answer is executed, no event is sent, and
  once the engine thread has returned no command is accepted any more; the read loop takes the frames and drops
  them without a reject.\<close>

theorem broken_writer_stops_engine:
  assumes "link_run S C P Q l0 tr l" and "lk_writer l0 = WriteEnded"
  shows "lk_writer l = WriteEnded \<and> produced tr = [] \<and>
    sv_frames (lk_server l) @ lk_fed l = sv_frames (lk_server l0) @ lk_fed l0 \<and>
    length (filter (\<lambda>inb. \<not> is_auth (in_cmd inb)) (executed_cmds tr)) \<le> 1 \<and>
    (lk_thread l0 = Returned \<longrightarrow> accepted tr = [] \<and> executed tr = [])"
proof -
  have "mute_inv l0 tr l" using link_run_mute [OF assms] .
  moreover have "lk_thread l0 = Returned \<longrightarrow> accepted tr = [] \<and> executed tr = []"
    using link_run_returned [OF assms(1)] by blast
  ultimately show ?thesis by (auto simp: mute_inv_def split: thread_state.splits)
qed

section \<open>The sequential view\<close>

lemma link_run_trans:
  assumes "link_run S C P Q l1 tr2 l2" and "link_run S C P Q l0 tr1 l1"
  shows "link_run S C P Q l0 (tr1 @ tr2) l2"
  using assms
proof (induction rule: link_run.induct)
  case (Step tr l evs l')
  then show ?case using link_run.Step [of S C P Q l0 "tr1 @ tr" l evs l'] by simp
qed simp

lemma link_run_one: "link_step S C P Q l evs l' \<Longrightarrow> link_run S C P Q l evs l'"
  using link_run.Step [OF link_run.Start] by simp

lemma receive_runs:
  assumes "calm l"
  shows "\<exists>tr. link_run S C P Q l tr (l\<lparr>lk_server := server_receive S P bs (lk_server l)\<rparr>)"
proof -
  obtain inbs l1 where rf: "read_frame P bs l = (inbs, l1)" by fastforce
  have reading: "lk_reader l = Reading" using assms by (simp add: calm_def)
  note first = link_run_one [OF link_step.Read [OF reading rf]]
  show ?thesis
  proof (cases "sd_from P bs = Some QueryAllOrders")
    case True
    with rf assms have l1: "inbs = []" "l1 = (on_server (on_metrics inc_frames_in) l)\<lparr>lk_reader := AwaitingOrders\<rparr>"
      by (auto simp: read_frame_def calm_def Let_def)
    have "link_step S C P Q l1 [] (answer_query S l1)"
      using assms l1 by (intro link_step.Answer) (auto simp: calm_def)
    moreover have "answer_query S l1 = l\<lparr>lk_server := server_receive S P bs (lk_server l)\<rparr>"
      using assms True l1 by (simp add: answer_query_def server_receive_def on_server_def calm_def Let_def)
    ultimately show ?thesis using link_run.Step [OF first] by metis
  next
    case False
    with rf assms have "l1 = l\<lparr>lk_server := server_receive S P bs (lk_server l)\<rparr>"
      by (auto simp: read_frame_def server_receive_def on_server_def calm_def Let_def
          split: option.splits gateway_to_engine.splits if_splits)
    with first show ?thesis by blast
  qed
qed

lemma engine_runs:
  assumes "calm l" and "server_engine S C now ts (lk_server l) = Some s'"
  shows "\<exists>tr. link_run S C P Q l tr (l\<lparr>lk_server := s'\<rparr>)"
proof (cases "sv_queue (lk_server l)")
  case Nil
  with assms(2) have "l\<lparr>lk_server := s'\<rparr> = l" by (simp add: server_engine_def)
  then show ?thesis using link_run.Start [of S C P Q l] by metis
next
  case (Cons inb queue)
  then obtain outs st e where r: "run_step S C now ts None inb (sv_engine (lk_server l)) = Some (outs, st, e)"
    and s': "s' = (lk_server l)\<lparr>sv_engine := e, sv_queue := queue, sv_outbound := sv_outbound (lk_server l) @ outs\<rparr>"
    using assms(2) by (auto simp: server_engine_def)
  have "st = Running" using r by (auto simp: run_step_def Let_def split: option.splits prod.splits)
  then have "engine_turn S C now ts l = Some (inb, outs, l\<lparr>lk_server := s'\<rparr>)"
    using assms(1) Cons r s' by (simp add: engine_turn_def calm_def Let_def)
  with assms(1) have "link_step S C P Q l [Executed now ts inb outs] (l\<lparr>lk_server := s'\<rparr>)"
    by (intro link_step.Turn) (simp_all add: calm_def)
  then show ?thesis using link_run_one by blast
qed

text \<open>The server's frames, as if what is fed had been handed over.\<close>

definition handed_over :: "'s engine_link \<Rightarrow> 's engine_server" where
  "handed_over l = (lk_server l)\<lparr>sv_frames := sv_frames (lk_server l) @ lk_fed l\<rparr>"

lemma drain_runs:
  assumes "lk_writer l = Draining" and "lk_faults l = []" and "sv_outbound (lk_server l) = outs"
  shows "link_run S C P Q l [] (l\<lparr>lk_writer := Selecting, lk_fed := [], lk_server :=
    foldl (\<lambda>s out. send_frame Q (client_event (out_conn_id out) (out_ev out) None) s)
      ((handed_over l)\<lparr>sv_outbound := []\<rparr>) outs\<rparr>)"
  using assms
proof (induction outs arbitrary: l)
  case Nil
  then have "drain_event Q l = l\<lparr>lk_writer := Selecting, lk_fed := [], lk_server := (handed_over l)\<lparr>sv_outbound := []\<rparr>\<rparr>"
    by (simp add: drain_event_def write_call_def on_server_def handed_over_def)
  then show ?case using link_run_one [OF link_step.Drain [OF Nil(1)]] by (metis foldl_Nil)
next
  case (Cons out outs)
  let ?m = "client_event (out_conn_id out) (out_ev out) None"
  let ?l = "drain_event Q l"
  have l: "lk_writer ?l = Draining" "lk_faults ?l = []" "sv_outbound (lk_server ?l) = outs"
    "handed_over ?l\<lparr>sv_outbound := []\<rparr> = send_frame Q ?m (handed_over l\<lparr>sv_outbound := []\<rparr>)"
    "?l\<lparr>lk_writer := w, lk_fed := f, lk_server := s\<rparr> = l\<lparr>lk_writer := w, lk_fed := f, lk_server := s\<rparr>" for w f s
    using Cons.prems
    by (simp_all add: drain_event_def write_call_def on_server_def handed_over_def send_frame_def on_metrics_def
        Let_def split: option.split)
  from link_run_trans [OF Cons.IH [OF l(1-3)] link_run_one [OF link_step.Drain [OF Cons.prems(1)]]]
  show ?case by (simp add: l(4,5))
qed

lemma tick_runs:
  assumes "calm l"
  shows "link_run S C P Q l [] (l\<lparr>lk_server := server_tick Q (lk_server l)\<rparr>)"
proof -
  have "lk_writer l = Selecting" using assms by (simp add: calm_def)
  note first = link_run_one [OF link_step.Tick [OF this]]
  let ?l = "l\<lparr>lk_writer := Draining\<rparr>"
  have d: "lk_writer ?l = Draining" "lk_faults ?l = []" using assms by (simp_all add: calm_def)
  have "handed_over ?l = lk_server l" using assms by (simp add: handed_over_def calm_def)
  moreover have "l\<lparr>lk_writer := Selecting, lk_fed := [], lk_server := s\<rparr> = l\<lparr>lk_server := s\<rparr>" for s
    using assms by (simp add: calm_def)
  ultimately show ?thesis
    using link_run_trans [OF drain_runs [OF d refl, of S C P Q] first] by (simp add: server_tick_def)
qed

lemma respond_runs:
  assumes "calm l"
  shows "link_run S C P Q l [] (l\<lparr>lk_server := server_respond Q (lk_server l)\<rparr>)"
proof (cases "sv_responses (lk_server l)")
  case Nil
  then have "l\<lparr>lk_server := server_respond Q (lk_server l)\<rparr> = l" by (simp add: server_respond_def)
  then show ?thesis using link_run.Start [of S C P Q l] by metis
next
  case (Cons resp rest)
  have "send_response Q l = l\<lparr>lk_server := server_respond Q (lk_server l)\<rparr>"
    using assms Cons
    by (simp add: send_response_def server_respond_def write_call_def on_server_def send_frame_def on_metrics_def
        calm_def Let_def split: option.split)
  moreover have "link_step S C P Q l [] (send_response Q l)"
    using assms Cons by (intro link_step.Respond) (simp_all add: calm_def)
  ultimately show ?thesis using link_run_one by metis
qed

text \<open>On a connection without faults the three parts can do, step by step, what the server's operations do at
  once: taking in a frame, query and answer included, a turn of the engine, a tick that sends all waiting events, and
  the sending of an answer. So what is shown for the sequential server is a behaviour of the concurrent one.\<close>

lemma link_implements_server:
  assumes "calm l" and "server_engine S C now ts (lk_server l) = Some s'"
  shows "(\<exists>tr. link_run S C P Q l tr (l\<lparr>lk_server := server_receive S P bs (lk_server l)\<rparr>)) \<and>
    (\<exists>tr. link_run S C P Q l tr (l\<lparr>lk_server := s'\<rparr>)) \<and>
    link_run S C P Q l [] (l\<lparr>lk_server := server_tick Q (lk_server l)\<rparr>) \<and>
    link_run S C P Q l [] (l\<lparr>lk_server := server_respond Q (lk_server l)\<rparr>)"
  using receive_runs [OF assms(1)] engine_runs [OF assms] tick_runs [OF assms(1)] respond_runs [OF assms(1)] by blast

section \<open>Delivery\<close>

text \<open>The engine thread can empty its queue.\<close>

lemma serve_append:
  "serve_in_order S (xs @ ys) e =
     (case serve_in_order S xs e of
        None \<Rightarrow> None
      | Some (outs, d) \<Rightarrow> map_option (apfst ((@) outs)) (serve_in_order S ys d))"
proof (induction xs arbitrary: e)
  case Nil
  have "apfst ((@) []) = (\<lambda>x :: outbound list \<times> 'a engine. x)" by (rule ext) (simp add: apfst_def map_prod_def case_prod_beta)
  then show ?case by (simp add: option.map_ident)
next
  case (Cons x xs)
  then show ?case by (simp add: option.map_comp comp_def apfst_def map_prod_def case_prod_beta split: option.split)
qed

lemma queue_runs:
  assumes "lk_thread l = Serving" and "lk_writer l \<noteq> WriteEnded" and "agree (sv_engine (lk_server l)) d"
    and "serve_in_order S (sv_queue (lk_server l)) d = Some (outs, e)"
  shows "\<exists>tr l'. link_run S C P Q l tr l' \<and> accepted tr = [] \<and> executed_cmds tr = sv_queue (lk_server l) \<and>
    lk_writer l' = lk_writer l \<and> lk_faults l' = lk_faults l \<and> sv_queue (lk_server l') = []"
  using assms
proof (induction "sv_queue (lk_server l)" arbitrary: l d outs)
  case Nil
  with link_run.Start [of S C P Q l] show ?case by (intro exI [of _ "[]"] exI [of _ l]) simp
next
  case (Cons inb queue)
  let ?e = "sv_engine (lk_server l)"
  have q: "sv_queue (lk_server l) = inb # queue" using Cons.hyps(2) by simp
  obtain evs d1 outs' where p: "process S (in_cmd inb) d = Some (evs, d1)" and rest: "serve_in_order S queue d1 = Some (outs', e)"
    using Cons.prems(4) q by (auto split: option.splits)
  have "agree (journal_step C 0 (in_cmd inb) (?e\<lparr>en_metrics := queue_dec (en_metrics ?e)\<rparr>)) d" using Cons.prems(3) by simp
  from agree_processE [OF this p] obtain e1 where
    e1: "process S (in_cmd inb) (journal_step C 0 (in_cmd inb) (?e\<lparr>en_metrics := queue_dec (en_metrics ?e)\<rparr>)) = Some (evs, e1)"
      "agree e1 d1" by blast
  then obtain outs1 where run: "run_step S C 0 0 None inb ?e = Some (outs1, Running, after_command S C 0 0 e1)"
    by (simp add: run_step_def Let_def)
  define l1 where "l1 = l\<lparr>lk_server := (lk_server l)\<lparr>sv_engine := after_command S C 0 0 e1, sv_queue := queue,
    sv_outbound := sv_outbound (lk_server l) @ outs1\<rparr>\<rparr>"
  have "engine_turn S C 0 0 l = Some (inb, outs1, l1)"
    using q run Cons.prems(2) by (simp add: engine_turn_def Let_def l1_def)
  note first = link_run_one [OF link_step.Turn [OF Cons.prems(1) this]]
  have "queue = sv_queue (lk_server l1)" "lk_thread l1 = Serving" "lk_writer l1 \<noteq> WriteEnded"
    "agree (sv_engine (lk_server l1)) d1" "serve_in_order S (sv_queue (lk_server l1)) d1 = Some (outs', e)"
    using Cons.prems e1(2) rest by (simp_all add: l1_def)
  from Cons.hyps(1) [OF this] obtain tr l' where
    "link_run S C P Q l1 tr l'" "accepted tr = []" "executed_cmds tr = queue" "lk_writer l' = lk_writer l"
    "lk_faults l' = lk_faults l" "sv_queue (lk_server l') = []"
    by (auto simp: l1_def)
  with link_run_trans [OF this(1) first] q show ?case
    by (intro exI [of _ "[Executed 0 0 inb outs1] @ tr"] exI [of _ l']) simp
qed

text \<open>The write loop can send all that waits.\<close>

lemma send_frames_keep:
  fixes s :: "'s engine_server" and Q :: "engine_to_gateway serde"
  defines "s' outs \<equiv> foldl (\<lambda>s out. send_frame Q (client_event (out_conn_id out) (out_ev out) None) s) s outs"
  shows "sv_outbound (s' outs) = sv_outbound s" and "sv_queue (s' outs) = sv_queue s"
    and "persistent (sv_engine (s' outs)) = persistent (sv_engine s)"
proof -
  have f: "sv_outbound (send_frame Q m s) = sv_outbound s" "sv_queue (send_frame Q m s) = sv_queue s"
    "persistent (sv_engine (send_frame Q m s)) = persistent (sv_engine s)"
    for m and s :: "'s engine_server"
    by (simp_all add: send_frame_def on_metrics_def split: option.split)
  show "sv_outbound (s' outs) = sv_outbound s" "sv_queue (s' outs) = sv_queue s"
    "persistent (sv_engine (s' outs)) = persistent (sv_engine s)"
    unfolding s'_def by (induction outs arbitrary: s) (simp_all add: f)
qed

lemma writer_runs:
  assumes "lk_writer l \<noteq> WriteEnded" and "lk_faults l = []"
  shows "\<exists>l'. link_run S C P Q l [] l' \<and> lk_writer l' = Selecting \<and> lk_fed l' = [] \<and> sv_outbound (lk_server l') = [] \<and>
    sv_queue (lk_server l') = sv_queue (lk_server l)"
proof -
  let ?l = "l\<lparr>lk_writer := Draining\<rparr>"
  have first: "link_run S C P Q l [] ?l"
  proof (cases "lk_writer l")
    case Selecting
    then show ?thesis by (rule link_run_one [OF link_step.Tick])
  next
    case Draining
    then have "?l = l" by simp
    then show ?thesis using link_run.Start [of S C P Q l] by metis
  qed (use assms in simp)
  have "lk_writer ?l = Draining" "lk_faults ?l = []" using assms by simp_all
  from link_run_trans [OF drain_runs [OF this refl, of S C P Q] first] show ?thesis
    by (intro exI, intro conjI, simp) (simp_all add: send_frames_keep handed_over_def)
qed

text \<open>C37: nothing the engine has accepted gets stuck. However the parts have interleaved so far, as long as the
  engine thread runs and the write half works, and executing the accepted commands in order does not panic, the
  process can go on, without anything more from the gateway, so
  that every accepted command is executed and exactly the events of all of them, in order, have reached the
  gateway, flushed.\<close>

theorem link_delivers:
  assumes "serde Q" and "\<forall>m. sd_to Q m \<noteq> None"
    and start: "server_start S C now m config d snaps cap = Some s"
    and run: "link_run S C P Q (link_of faults s) tr l"
    and up: "lk_thread l = Serving" "lk_writer l \<noteq> WriteEnded" "lk_faults l = []"
    and returns: "serve_in_order S (accepted tr) (sv_engine s) = Some (outs, e)"
  shows "\<exists>tr' l'. link_run S C P Q l tr' l' \<and> accepted tr' = [] \<and> executed_cmds (tr @ tr') = accepted tr \<and>
    sv_queue (lk_server l') = [] \<and> client_events (engine_reader Q (sv_frames (lk_server l'))) = outs"
proof -
  note fresh = server_start_fresh [OF start, of faults]
  have acc: "accepted tr = executed_cmds tr @ sv_queue (lk_server l)"
    using link_run_queue [OF run fresh] up(1) by (simp add: queue_inv_def)
  obtain outs0 d0 where d0: "serve_in_order S (executed_cmds tr) (sv_engine s) = Some (outs0, d0)"
    "agree (sv_engine (lk_server l)) d0" using link_run_engine [OF run fresh] by (auto simp: engine_inv_def)
  obtain outs1 where "serve_in_order S (sv_queue (lk_server l)) d0 = Some (outs1, e)"
    using returns by (auto simp: acc serve_append d0(1))
  from queue_runs [OF up(1,2) d0(2) this, of C P Q] obtain tr' l1 where
    l1: "link_run S C P Q l tr' l1" "accepted tr' = []" "executed_cmds tr' = sv_queue (lk_server l)"
      "lk_writer l1 \<noteq> WriteEnded" "lk_faults l1 = []" "sv_queue (lk_server l1) = []" using up by auto
  from writer_runs [OF l1(4,5), of S C P Q] obtain l' where
    l': "link_run S C P Q l1 [] l'" "lk_writer l' = Selecting" "lk_fed l' = []" "sv_outbound (lk_server l') = []"
      "sv_queue (lk_server l') = []" using l1(6) by auto
  have run': "link_run S C P Q l tr' l'" using link_run_trans [OF l'(1) l1(1)] by simp
  have ex: "executed_cmds (tr @ tr') = accepted tr" using acc l1(3) by simp
  from link_run_serves [OF assms(1,2) start link_run_trans [OF run' run]] returns l'(2-4) ex
  have "client_events (engine_reader Q (sv_frames (lk_server l'))) = outs" by simp
  with run' l1(2) l'(5) ex show ?thesis by blast
qed

section \<open>After the process has ended\<close>

text \<open>What the log of an engine still holds back.\<close>

definition buffered :: "'s engine \<Rightarrow> nat" where
  "buffered e = length (jr_batch_buffer (en_journal e))"

text \<open>A process that starts with \<open>hist\<close> in its journal and executes at most \<open>n\<close> commands: at every point the
  journal holds all commands, the last of them, fewer than a batch, in the buffer.\<close>

definition log_inv :: "codecs \<Rightarrow> engine_config \<Rightarrow> command list \<Rightarrow> nat \<Rightarrow> link_event list \<Rightarrow> 's engine_link \<Rightarrow> bool" where
  "log_inv C config hist n tr l \<longleftrightarrow>
     (let e = sv_engine (lk_server l); k = length (executed tr)
      in logging C (n - k) e (hist @ map in_cmd (executed_cmds tr)) \<and> buffered e \<le> k \<and>
         buffered e < max 1 (jc_batch_size (ec_journal_config config)) \<and>
         jr_path (en_journal e) = ec_journal_path config \<and>
         jr_batch_size (en_journal e) = jc_batch_size (ec_journal_config config))"

lemma log_inv_same:
  assumes "log_inv C config hist n tr l" and "persistent (sv_engine (lk_server l')) = persistent (sv_engine (lk_server l))"
    and "executed evs = []"
  shows "log_inv C config hist n (tr @ evs) l'"
  using assms logging_persistent [OF assms(2)]
  by (simp add: log_inv_def buffered_def persistent_def Let_def)

lemma on_metrics_persistent [simp]: "persistent (sv_engine (on_metrics f s)) = persistent (sv_engine s)"
  by (simp add: on_metrics_def)

lemma shutdown_logging:
  assumes "logging C k e history"
  shows "logging C k (shutdown C now e) history \<and> buffered (shutdown C now e) = 0 \<and>
    jr_path (en_journal (shutdown C now e)) = jr_path (en_journal e) \<and>
    jr_batch_size (en_journal (shutdown C now e)) = jr_batch_size (en_journal e)"
proof -
  have inv: "journal_inv (cd_command C) (cd_crc C) (en_journal e) (en_disk e) history"
    and faults: "dk_faults (en_disk e) = []" using assms by (simp_all add: logging_def)
  obtain j' d' where f: "flush (cd_command C) (cd_crc C) now (en_journal e) (en_disk e) = (Inr (), j', d')"
    "dk_faults d' = []" "jr_batch_buffer j' = []" "jr_handle j' = jr_handle (en_journal e)"
    "map_of (dk_files d') = (map_of (dk_files (en_disk e)))
      (jr_handle (en_journal e) \<mapsto> frames (cd_command C) (cd_crc C) history)"
    using flush_ok [OF inv faults, of now] by blast
  with flush_fields [OF f(1)] inv assms show ?thesis
    by (auto simp: shutdown_def logging_def buffered_def journal_inv_def undisturbed_def)
qed

lemma journal_step_buffered:
  assumes "logging C k e history" and "framable (cd_command C) cmd"
  shows "buffered (journal_step C now cmd e) < max 1 (jr_batch_size (en_journal e))"
    and "buffered (journal_step C now cmd e) \<le> Suc (buffered e)"
proof -
  have inv: "journal_inv (cd_command C) (cd_crc C) (en_journal e) (en_disk e) history"
    and faults: "dk_faults (en_disk e) = []" using assms by (simp_all add: logging_def)
  obtain j' d' where a: "append_cmd (cd_command C) (cd_crc C) now cmd (en_journal e) (en_disk e) = (Inr (), j', d')"
    "jr_batch_buffer j' = [] \<or> length (jr_batch_buffer j') < jr_batch_size j'"
    using append_ok [OF inv faults assms(2), of now] by auto
  with append_fields [OF a(1)] show "buffered (journal_step C now cmd e) < max 1 (jr_batch_size (en_journal e))"
    "buffered (journal_step C now cmd e) \<le> Suc (buffered e)"
    by (auto simp: journal_step_def buffered_def)
qed

text \<open>What a turn leaves of the journal.\<close>

lemma turn_logging:
  assumes turn: "engine_turn S C now ts l = Some (inb, outs, l')" and log: "logging C (Suc k) (sv_engine (lk_server l)) h"
    and fr: "framable (cd_command C) (in_cmd inb)"
  shows "logging C k (sv_engine (lk_server l')) (h @ [in_cmd inb])"
    and "en_journal (sv_engine (lk_server l')) = en_journal (journal_step C now (in_cmd inb) (sv_engine (lk_server l)))"
    and "jr_path (en_journal (sv_engine (lk_server l'))) = jr_path (en_journal (sv_engine (lk_server l)))"
    and "jr_batch_size (en_journal (sv_engine (lk_server l'))) = jr_batch_size (en_journal (sv_engine (lk_server l)))"
proof -
  let ?e = "sv_engine (lk_server l)"
  let ?start = "?e\<lparr>en_metrics := queue_dec (en_metrics ?e)\<rparr>"
  from turn obtain st e where run: "run_step S C now ts (if lk_writer l = WriteEnded then Some 0 else None) inb ?e = Some (outs, st, e)"
    and l': "sv_engine (lk_server l') = e"
    by (elim engine_turnE) simp
  note r = run_step_logging [OF log fr run]
  obtain evs e1 where p: "process S (in_cmd inb) (journal_step C now (in_cmd inb) ?start) = Some (evs, e1)"
    and j: "en_journal e = en_journal e1" using r(2) by blast
  have "en_journal e = en_journal (journal_step C now (in_cmd inb) ?start)"
    using process_persistent [OF p] j by (simp add: persistent_def)
  moreover have "en_journal (journal_step C now (in_cmd inb) ?start) = en_journal (journal_step C now (in_cmd inb) ?e)"
    by (simp add: journal_step_def case_prod_beta)
  ultimately show "en_journal (sv_engine (lk_server l')) = en_journal (journal_step C now (in_cmd inb) ?e)" using l' by simp
  show "logging C k (sv_engine (lk_server l')) (h @ [in_cmd inb])" using r(1) l' by simp
  show "jr_path (en_journal (sv_engine (lk_server l'))) = jr_path (en_journal ?e)"
    "jr_batch_size (en_journal (sv_engine (lk_server l'))) = jr_batch_size (en_journal ?e)" using r(3) l' by simp_all
qed

lemma log_inv_turn:
  assumes turn: "engine_turn S C now ts l = Some (inb, outs, l')" and inv: "log_inv C config hist n tr l"
    and fr: "framable (cd_command C) (in_cmd inb)" and short: "length (executed tr) < n"
  shows "log_inv C config hist n (tr @ [Executed now ts inb outs]) l'"
proof -
  let ?e = "sv_engine (lk_server l)" and ?h = "hist @ map in_cmd (executed_cmds tr)"
  have log: "logging C (Suc (n - Suc (length (executed tr)))) ?e ?h" using inv short by (simp add: log_inv_def Let_def Suc_diff_Suc)
  note t = turn_logging [OF turn log fr]
  note b = journal_step_buffered [OF log fr, of now]
  show ?thesis using inv t b by (simp add: log_inv_def Let_def buffered_def)
qed

lemma drain_event_persistent [simp]:
  "persistent (sv_engine (lk_server (drain_event Q l))) = persistent (sv_engine (lk_server l))"
  by (auto simp: drain_event_def Let_def split: list.splits option.splits prod.splits bool.splits
      dest!: write_call_state)

lemma send_response_persistent [simp]:
  "persistent (sv_engine (lk_server (send_response Q l))) = persistent (sv_engine (lk_server l))"
  by (auto simp: send_response_def Let_def split: list.splits option.splits prod.splits bool.splits
      dest!: write_call_state)

lemma log_inv_step:
  assumes "link_step S C P Q l evs l'" and inv: "log_inv C config hist n tr l"
    and "\<forall>inb \<in> set (executed_cmds evs). framable (cd_command C) (in_cmd inb)" and "length (executed (tr @ evs)) \<le> n"
  shows "log_inv C config hist n (tr @ evs) l'"
  using assms(1)
proof (cases rule: link_step.cases)
  case (Read inbs bs)
  then show ?thesis
    by (intro log_inv_same [OF inv])
      (auto simp: read_frame_def Let_def split: option.splits gateway_to_engine.splits if_splits)
next
  case (Turn now ts inb outs)
  with log_inv_turn [OF Turn(3) inv] assms(3,4) show ?thesis by simp
next
  case (Closed r now)
  have "logging C (n - length (executed tr)) (sv_engine (lk_server l)) (hist @ map in_cmd (executed_cmds tr))"
    using inv by (simp only: log_inv_def Let_def)
  from shutdown_logging [OF this, of now] inv Closed show ?thesis
    by (simp add: log_inv_def channel_closed_def Let_def)
qed (intro log_inv_same [OF inv]; auto simp: read_ends_def answer_query_def spill_def)+

lemma link_run_log:
  assumes "link_run S C P Q l0 tr l" and "log_inv C config hist n [] l0"
    and "\<forall>inb \<in> set (executed_cmds tr). framable (cd_command C) (in_cmd inb)" and "length (executed tr) \<le> n"
  shows "log_inv C config hist n tr l"
  using assms
proof (induction rule: link_run.induct)
  case (Step tr l evs l')
  then show ?case by (intro log_inv_step [OF Step(2)]) auto
qed simp

text \<open>The process starts that way.\<close>

lemma server_start_log:
  assumes codec: "journal_codec (cd_command C)" and fr: "\<forall>cmd \<in> set hist. framable (cd_command C) cmd"
    and own: "\<forall>cmd \<in> set hist. own_cancel 1 cmd"
    and disk: "dk_faults dk = []" "dk_files snaps = []"
      "file_bytes dk (ec_journal_path config) = frames (cd_command C) (cd_crc C) hist"
    and short: "short_run config (length hist) n"
    and start: "server_start S C now m config dk snaps cap = Some s"
  obtains f where "core f = (new_book S 1, new_account_manager default_risk_limits)"
    and "map_option (core \<circ> snd) (process_all S hist f) = Some (core (sv_engine s))"
    and "\<And>faults. log_inv C config hist n [] (link_of faults s)"
    and "jr_batch_buffer (en_journal (sv_engine s)) = []"
proof -
  obtain f r e where f: "new_engine S now m config dk snaps = Some f" "restore_from_persistence S C f = Some (r, e)"
    and s: "sv_engine s = e" using start by (auto simp: server_start_def split: option.splits)
  from started_logging [OF codec fr own disk short f] that [of f] s show thesis
    by (simp add: log_inv_def link_of_def buffered_def)
qed

text \<open>A process that is started on a journal of commands has executed them.\<close>

lemma server_restarts:
  assumes "journal_codec (cd_command C)" and "\<forall>cmd \<in> set cmds. framable (cd_command C) cmd"
    and "\<forall>cmd \<in> set cmds. own_cancel 1 cmd"
    and "dk_faults dk = []" "dk_files snaps = []"
      "file_bytes dk (ec_journal_path config) = frames (cd_command C) (cd_crc C) cmds"
    and "core f = (new_book S 1, new_account_manager default_risk_limits)"
    and "map_option (core \<circ> snd) (process_all S cmds f) = Some c"
  shows "\<exists>s. server_start S C now m config dk snaps cap = Some s \<and> core (sv_engine s) = c"
  using restart_replays [OF assms, of now m] by (auto simp: server_start_def)

lemma process_all_prefix:
  "process_all S (xs @ ys) e = Some r \<Longrightarrow> \<exists>evs d. process_all S xs e = Some (evs, d)"
  by (induction xs arbitrary: e r) (fastforce split: option.splits)+

text \<open>C10: the process ends when the gateway disconnects; nothing waits for the engine thread, so it may end
  anywhere. Wherever it ends, a process that is started, with the same configuration, on the files it leaves has
  exactly the effect of the commands executed, in their order, less those that the journal still buffered: fewer
  than a batch, but executed, and answered when the writer got that far. (The process may itself have been
  started on a journal of earlier commands. No faults of the disk, no snapshot so far, the first snapshot and the
  first rotation are not due yet, and no cancel names another symbol than the engine's.)\<close>

theorem restart_after_exit:
  assumes codec: "journal_codec (cd_command C)"
    and disk: "dk_faults dk = []" "dk_files snaps = []"
      "file_bytes dk (ec_journal_path config) = frames (cd_command C) (cd_crc C) hist"
    and start: "server_start S C t0 m0 config dk snaps cap = Some s"
    and run: "link_run S C P Q (link_of faults s) tr l"
    and cmds: "\<forall>cmd \<in> set (hist @ map in_cmd (executed_cmds tr)). framable (cd_command C) cmd \<and> own_cancel 1 cmd"
    and short: "short_run config (length hist) (length (executed_cmds tr))"
    and e: "e = sv_engine (lk_server l)"
  shows "\<exists>evs e1 s'.
    process_all S (map in_cmd (take (length (executed_cmds tr) - buffered e) (executed_cmds tr))) (sv_engine s) = Some (evs, e1) \<and>
    server_start S C t1 m1 config (en_disk e) (en_snapshots e) cap = Some s' \<and> core (sv_engine s') = core e1 \<and>
    buffered e < max 1 (jc_batch_size (ec_journal_config config))"
proof -
  let ?ex = "executed_cmds tr"
  let ?n = "length ?ex - buffered e"
  have hist: "\<forall>cmd \<in> set hist. framable (cd_command C) cmd" "\<forall>cmd \<in> set hist. own_cancel 1 cmd" using cmds by auto
  obtain f where f: "core f = (new_book S 1, new_account_manager default_risk_limits)"
    and h: "map_option (core \<circ> snd) (process_all S hist f) = Some (core (sv_engine s))"
    and log0: "log_inv C config hist (length ?ex) [] (link_of faults s)"
    using server_start_log [OF codec hist disk short start] by metis
  have "log_inv C config hist (length ?ex) tr l" by (rule link_run_log [OF run log0]) (use cmds in auto)
  then have log: "logging C 0 e (hist @ map in_cmd ?ex)" "buffered e \<le> length ?ex"
    and b: "buffered e < max 1 (jc_batch_size (ec_journal_config config))"
    and path: "jr_path (en_journal e) = ec_journal_path config" by (simp_all add: log_inv_def e Let_def)
  obtain written where w: "hist @ map in_cmd ?ex = written @ jr_batch_buffer (en_journal e)"
      "map_of (dk_files (en_disk e)) (jr_handle (en_journal e)) = Some (frames (cd_command C) (cd_crc C) written)"
    and left: "dk_faults (en_disk e) = []" "dk_files (en_snapshots e) = []" "jr_handle (en_journal e) = jr_path (en_journal e)"
    using log(1) by (auto simp: logging_def journal_inv_def)
  have "written = take (length (hist @ map in_cmd ?ex) - buffered e) (hist @ map in_cmd ?ex)"
    unfolding w(1) by (simp add: buffered_def)
  then have written: "written = hist @ map in_cmd (take ?n ?ex)" using log(2) by (simp add: take_map)
  from link_run_engine [OF run server_start_fresh [OF start]] obtain outs d1 where
    "serve_in_order S ?ex (sv_engine s) = Some (outs, d1)" by (auto simp: engine_inv_def)
  then have "process_all S (map in_cmd (take ?n ?ex @ drop ?n ?ex)) (sv_engine s) = Some (map out_ev outs, d1)"
    by (simp only: append_take_drop_id serve_process_all option.map apfst_conv)
  then obtain evs e1 where p: "process_all S (map in_cmd (take ?n ?ex)) (sv_engine s) = Some (evs, e1)"
    using process_all_prefix unfolding map_append by blast
  then have live: "map_option (core \<circ> snd) (process_all S (map in_cmd (take ?n ?ex)) (sv_engine s)) = Some (core e1)" by simp
  have "set written \<subseteq> set (hist @ map in_cmd ?ex)" unfolding w(1) by simp
  then have fr: "\<forall>cmd \<in> set written. framable (cd_command C) cmd" "\<forall>cmd \<in> set written. own_cancel 1 cmd"
    using cmds by blast+
  have "file_bytes (en_disk e) (ec_journal_path config) = frames (cd_command C) (cd_crc C) written"
    using w(2) left(3) path by (simp add: file_bytes_Some)
  from server_restarts [OF codec fr left(1,2) this f] process_all_core_append [OF h live] written p b
  show ?thesis by metis
qed

section \<open>Concrete runs\<close>

text \<open>A command is read and executed on an idle connection, and its events are sent.\<close>

lemma order_served:
  assumes "order_slab S" and "reachable S C (sv_engine s)" and "admissible_cmd S (in_cmd inb) (sv_engine s)"
    and "0 < sv_cap s" and "sv_queue s = []"
  obtains l1 outs l2 where
    "link_step S C to_engine_serde Q (link_of [] s) [Accepted inb] l1"
    "engine_turn S C 5 5 l1 = Some (inb, outs, l2)" "calm l1" "calm l2"
    "core (sv_engine (lk_server l1)) = core (sv_engine s)" "sv_queue (lk_server l1) = [inb]"
    "persistent (sv_engine (lk_server l1)) = persistent (sv_engine s)"
    "link_run S C to_engine_serde Q (link_of [] s) [Accepted inb, Executed 5 5 inb outs]
      (l2\<lparr>lk_server := server_tick Q (lk_server l2)\<rparr>)"
proof -
  obtain l1 where read: "link_step S C to_engine_serde Q (link_of [] s) [Accepted inb] l1"
    and l1: "l1 = on_server (\<lambda>s. on_metrics queue_inc (on_metrics inc_frames_in (s\<lparr>sv_queue := [inb]\<rparr>))) (link_of [] s)"
    by (rule order_read [OF assms(4,5)])
  have c: "calm l1" "sv_queue (lk_server l1) = [inb]" "core (sv_engine (lk_server l1)) = core (sv_engine s)"
    "persistent (sv_engine (lk_server l1)) = persistent (sv_engine s)"
    by (simp_all add: l1 calm_def link_of_def on_server_def on_metrics_def)
  obtain outs l2 where turn: "engine_turn S C 5 5 l1 = Some (inb, outs, l2)"
    by (rule order_turn [OF c(2,3) assms(1-3)])
  have l2: "calm l2" using calm_turn [OF c(1) turn] by simp
  have "link_step S C to_engine_serde Q l1 [Executed 5 5 inb outs] l2"
    using turn c(1) by (intro link_step.Turn) (simp_all add: calm_def)
  from link_run.Step [OF link_run_one [OF read] this]
  have "link_run S C to_engine_serde Q (link_of [] s) [Accepted inb, Executed 5 5 inb outs] l2" by simp
  from that [OF read turn c(1) l2 c(3,2,4)] link_run_trans [OF tick_runs [OF l2] this] show ?thesis by simp
qed

lemma ex_sell_served:
  "order_slab vec_slab" "reachable vec_slab ex_codecs (sv_engine ex_started)"
  "admissible_cmd vec_slab (in_cmd ex_sell) (sv_engine ex_started)" "0 < sv_cap ex_started" "sv_queue ex_started = []"
  using vec_orders.order_slab_axioms reachable.start [OF ex_engine_new, of ex_codecs] ex_engine_admissible
  by (simp_all add: ex_started_def ex_sell_def)

lemma server_tick_keeps:
  "sv_outbound (server_tick Q s) = []" "persistent (sv_engine (server_tick Q s)) = persistent (sv_engine s)"
  by (simp_all add: server_tick_def send_frames_keep)

theorem link_serves_in_order_witness:
  "\<exists>l outs e. link_run vec_slab ex_codecs to_engine_serde to_gateway_serde (link_of [] ex_started)
      [Accepted ex_sell, Executed 5 5 ex_sell outs] l \<and>
    serve_in_order vec_slab [ex_sell] ex_engine = Some (client_events (engine_reader to_gateway_serde (sv_frames (lk_server l))), e)"
proof -
  obtain l2 outs where l2: "calm l2" and run: "link_run vec_slab ex_codecs to_engine_serde to_gateway_serde (link_of [] ex_started)
       [Accepted ex_sell, Executed 5 5 ex_sell outs] (l2\<lparr>lk_server := server_tick to_gateway_serde (lk_server l2)\<rparr>)"
    using order_served [OF ex_sell_served] by metis
  have "\<forall>m. sd_to to_gateway_serde m \<noteq> None" by simp
  from link_serves_in_order [OF to_gateway.serde_axioms this ex_server_start run] l2
  have "\<exists>e. serve_in_order vec_slab [ex_sell] ex_engine =
      Some (client_events (engine_reader to_gateway_serde (sv_frames (server_tick to_gateway_serde (lk_server l2)))), e)"
    by (simp add: calm_def ex_started_def server_tick_keeps del: serve_in_order.simps) blast
  with run show ?thesis by fastforce
qed

text \<open>A command waits in the queue; what the gateway will read of it.\<close>

lemma ex_sell_events:
  "map_option (\<lambda>r. map out_conn_id (fst r)) (serve_in_order vec_slab [ex_sell] ex_engine) = Some [1, 1]"
  by code_simp

theorem link_delivers_witness:
  "\<exists>l tr' l'. link_run vec_slab ex_codecs to_engine_serde to_gateway_serde (link_of [] ex_started) [Accepted ex_sell] l \<and>
    link_run vec_slab ex_codecs to_engine_serde to_gateway_serde l tr' l' \<and> executed_cmds tr' = [ex_sell] \<and>
    map out_conn_id (client_events (engine_reader to_gateway_serde (sv_frames (lk_server l')))) = [1, 1]"
proof -
  obtain l where l: "link_step vec_slab ex_codecs to_engine_serde to_gateway_serde (link_of [] ex_started) [Accepted ex_sell] l" "calm l"
    using order_served [OF ex_sell_served] by metis
  obtain outs e where o: "serve_in_order vec_slab (accepted [Accepted ex_sell]) (sv_engine ex_started) = Some (outs, e)"
    and ids: "map out_conn_id outs = [1, 1]"
    using ex_sell_events by (auto simp: ex_started_def simp del: serve_in_order.simps)
  have "\<forall>m. sd_to to_gateway_serde m \<noteq> None" by simp
  from link_delivers [OF to_gateway.serde_axioms this ex_server_start link_run_one [OF l(1)] _ _ _ o] l(2)
  obtain tr' l' where "link_run vec_slab ex_codecs to_engine_serde to_gateway_serde l tr' l'" "executed_cmds tr' = [ex_sell]"
    "client_events (engine_reader to_gateway_serde (sv_frames (lk_server l'))) = outs"
    by (auto simp: calm_def simp del: serve_in_order.simps)
  with ids link_run_one [OF l(1)] show ?thesis by metis
qed

theorem broken_writer_stops_engine_witness:
  "\<exists>l0 l outs. lk_writer l0 = WriteEnded \<and> sv_queue (lk_server l0) = [ex_sell] \<and>
    link_run vec_slab ex_codecs to_engine_serde to_gateway_serde l0 [Executed 5 5 ex_sell outs] l \<and> outs = []"
proof -
  obtain l1 where
    l: "calm l1" "core (sv_engine (lk_server l1)) = core (sv_engine ex_started)" "sv_queue (lk_server l1) = [ex_sell]"
    using order_served [OF ex_sell_served, of to_gateway_serde] by metis
  let ?l0 = "end_writer l1"
  have q: "sv_queue (lk_server ?l0) = [ex_sell]" "core (sv_engine (lk_server ?l0)) = core (sv_engine ex_started)" using l by simp_all
  obtain outs' l' where "engine_turn vec_slab ex_codecs 5 5 ?l0 = Some (ex_sell, outs', l')"
    by (rule order_turn [OF q ex_sell_served(1-3)])
  moreover have "lk_thread ?l0 = Serving" using l(1) by (simp add: calm_def)
  ultimately have run: "link_run vec_slab ex_codecs to_engine_serde to_gateway_serde ?l0 [Executed 5 5 ex_sell outs'] l'"
    by (intro link_run_one link_step.Turn)
  have "lk_writer ?l0 = WriteEnded" by simp
  from broken_writer_stops_engine [OF run this] run this q(1) show ?thesis by fastforce
qed

text \<open>An engine with its default arguments, on a journal that holds a resting order. An order that takes from it
  is executed and its events are sent, but the process ends before the batch is written: the engine that is
  started next has the resting order as it was.\<close>

definition ex_args :: server_args where
  "ex_args =
     \<lparr>sa_symbol_id = 1, sa_symbol_name = ''BTC/USD'', sa_journal_path = None, sa_snapshot_dir = None,
      sa_journal_batch_size = 100, sa_snapshot_interval = 100000, sa_ingress_cap = 100000\<rparr>"

abbreviation ex_server_disk :: disk where
  "ex_server_disk \<equiv> ex_log (engine_config_of ex_args)"

lemma ex_args_config:
  "jc_batch_size (ec_journal_config (engine_config_of ex_args)) = 100"
  "jc_sync_interval (ec_journal_config (engine_config_of ex_args)) = 100 * 1000000"
  "short_run (engine_config_of ex_args) (Suc 0) n \<longleftrightarrow> n < 99999"
  by (auto simp: short_run_def engine_config_of_def ex_args_def default_journal_config_def)

theorem restart_after_exit_witness:
  "\<exists>s l outs s'. server_main vec_slab ex_codecs 0 ex_args ex_server_disk empty_disk = Some s \<and>
    link_run vec_slab ex_codecs to_engine_serde to_gateway_serde (link_of [] s)
      [Accepted \<lparr>in_conn_id = 1, in_cmd = ex_take\<rparr>, Executed 5 5 \<lparr>in_conn_id = 1, in_cmd = ex_take\<rparr> outs] l \<and>
    server_main vec_slab ex_codecs 9 ex_args (en_disk (sv_engine (lk_server l))) (en_snapshots (sv_engine (lk_server l))) = Some s' \<and>
    sides_of vec_slab (sv_engine s') Sell = [ex_order 1 10 Sell 100 5]"
proof -
  let ?config = "engine_config_of ex_args" and ?inb = "\<lparr>in_conn_id = 1, in_cmd = ex_take\<rparr>"
  obtain f e where f: "new_engine vec_slab 0 default_metrics ?config ex_server_disk empty_disk = Some f"
    "restore_from_persistence vec_slab ex_codecs f = Some (Inr (), e)"
    and e: "reachable vec_slab ex_codecs e" "admissible_cmd vec_slab ex_take e"
    and core: "map_option (core \<circ> snd) (process_all vec_slab [ex_rest] ex_engine) = Some (core e)"
    by (rule ex_restored)
  define s where "s = \<lparr>sv_engine = e, sv_queue = [], sv_cap = 100000, sv_outbound = [], sv_responses = [], sv_frames = []\<rparr>"
  have start: "server_start vec_slab ex_codecs 0 default_metrics ?config ex_server_disk empty_disk 100000 = Some s"
    by (simp add: server_start_def f s_def)
  have s: "reachable vec_slab ex_codecs (sv_engine s)" "admissible_cmd vec_slab (in_cmd ?inb) (sv_engine s)" "0 < sv_cap s" "sv_queue s = []"
    using e by (simp_all add: s_def)
  obtain l1 outs l2 where turn: "engine_turn vec_slab ex_codecs 5 5 l1 = Some (?inb, outs, l2)"
    and p: "persistent (sv_engine (lk_server l1)) = persistent (sv_engine s)"
    and run: "link_run vec_slab ex_codecs to_engine_serde to_gateway_serde (link_of [] s) [Accepted ?inb, Executed 5 5 ?inb outs]
      (l2\<lparr>lk_server := server_tick to_gateway_serde (lk_server l2)\<rparr>)"
    using order_served [OF ex_sell_served(1) s] by metis
  let ?l = "l2\<lparr>lk_server := server_tick to_gateway_serde (lk_server l2)\<rparr>"
  have cmds: "\<forall>cmd \<in> set ([ex_rest] @ map in_cmd (executed_cmds [Accepted ?inb, Executed 5 5 ?inb outs])).
      framable (cd_command ex_codecs) cmd \<and> own_cancel 1 cmd" using ex_framable_cmds by simp
  have short: "short_run ?config (length [ex_rest]) (length (executed_cmds [Accepted ?inb, Executed 5 5 ?inb outs]))"
    by (simp add: ex_args_config)
  have hist: "\<forall>cmd \<in> set [ex_rest]. framable (cd_command ex_codecs) cmd" "\<forall>cmd \<in> set [ex_rest]. own_cancel 1 cmd"
    using ex_framable_cmds by simp_all
  note disk = ex_log_sel(1,2) ex_log_sel(3) [of ?config]
  have "log_inv ex_codecs ?config [ex_rest] 1 [] (link_of [] s)"
    using server_start_log [OF ex_journal_codec hist disk _ start, of 1] by (simp add: ex_args_config) metis
  then have log: "logging ex_codecs (Suc 0) (sv_engine (lk_server l1)) [ex_rest]"
    using logging_persistent [OF p] by (simp add: log_inv_def link_of_def Let_def)
  have "en_journal e = en_journal f" by (rule restore_journal [OF f(2)])
  also have "jr_batch_buffer (en_journal f) = [] \<and> jr_batch_size (en_journal f) = 100 \<and> jr_last_sync (en_journal f) = 0 \<and>
      jr_sync_interval (en_journal f) = 100 * 1000000"
    using f(1) by (auto simp: new_engine_def open_with_config_def ex_args_config io_bind_def split: prod.splits sum.splits)
  finally have "jr_batch_buffer (en_journal (journal_step ex_codecs 5 ex_take (sv_engine (lk_server l1)))) = [ex_take]"
    using p by (simp add: s_def persistent_def journal_step_def append_cmd_def Let_def)
  moreover have "framable (cd_command ex_codecs) (in_cmd ?inb)" using ex_framable_cmds by simp
  ultimately have "buffered (sv_engine (lk_server ?l)) = 1"
    using turn_logging(2) [OF turn log] server_tick_keeps(2) [of to_gateway_serde "lk_server l2"]
    by (simp add: buffered_def persistent_def)
  with restart_after_exit [OF ex_journal_codec disk start run cmds short refl, of 9 default_metrics] obtain s' where
    s': "server_start vec_slab ex_codecs 9 default_metrics ?config (en_disk (sv_engine (lk_server ?l)))
      (en_snapshots (sv_engine (lk_server ?l))) 100000 = Some s'" "core (sv_engine s') = core e"
    by (auto simp: s_def)
  have "sides_of vec_slab e Sell = [ex_order 1 10 Sell 100 5]" using ex_processed(1) core by (auto simp: core_def)
  with s'(2) have "sides_of vec_slab (sv_engine s') Sell = [ex_order 1 10 Sell 100 5]" by (simp add: core_def)
  with start run s'(1) show ?thesis unfolding server_main_def by (auto simp: ex_args_def)
qed

end
