(* ===== verification/Benches.thy ===== *)
theory Benches
  imports EngineProps CodecFacts
begin

text \<open>
  The criterion benchmarks: \<open>engine/benches/engine_step.rs\<close> and \<open>codecs/benches/binary_codec.rs\<close>. What they time
  is a function called over and over; how often, and the clock, is criterion's. The results show what is timed.
\<close>

section \<open>The engine\<close>

definition timed_order :: command where
  "timed_order =
     NewOrder \<lparr>no_client_seq = 1, no_order_id = 42, no_account_id = 7, no_symbol_id = 1, no_side = Buy,
       no_price = 100, no_qty = 10, no_tif = Gtc, no_flags = \<lparr>post_only = False\<rparr>\<rparr>"

text \<open>The engine is built once; every iteration processes a clone of the same command on it.\<close>

fun timed_iterations ::
  "('s, order) slab_ops \<Rightarrow> nat \<Rightarrow> 's engine \<Rightarrow> (event list list \<times> 's engine) option"
where
  "timed_iterations S 0 e = Some ([], e)"
| "timed_iterations S (Suc n) e =
     (case process S timed_order e of
        None \<Rightarrow> None
      | Some (evs, e1) \<Rightarrow> map_option (apfst (Cons evs)) (timed_iterations S n e1))"

definition bench_engine_process ::
  "('s, order) slab_ops \<Rightarrow> nat \<Rightarrow> nat \<Rightarrow> disk \<Rightarrow> disk \<Rightarrow> (event list list \<times> 's engine) option"
where
  "bench_engine_process S now n d snaps =
     Option.bind (new_engine S now default_metrics default_engine_config d snaps) (timed_iterations S n)"

text \<open>After \<open>k\<close> iterations the book holds \<open>k\<close> orders of the same number at one price.\<close>

definition piled_book :: "nat \<Rightarrow> 's order_book \<Rightarrow> bool" where
  "piled_book k b \<longleftrightarrow> bk_symbol b = 1 \<and> bk_asks b = [] \<and>
     (\<exists>q. length q = k \<and> bk_bids b = (if k = 0 then [] else [(100, \<lparr>lv_queue = q, lv_total = 10 * int k\<rparr>)])) \<and>
     map fst (bk_index b) = (if k = 0 then [] else [42])"

definition piled :: "nat \<Rightarrow> 's engine \<Rightarrow> bool" where
  "piled k e \<longleftrightarrow> piled_book k (en_book e) \<and> en_accounts e = new_account_manager default_risk_limits \<and>
     en_server_seq e = 1 + 2 * of_nat k"

definition iteration_events :: "nat \<Rightarrow> event list" where
  "iteration_events k =
     [EvBookTop \<lparr>bt_server_seq = 1 + 2 * of_nat k, bt_symbol_id = 1, bt_best_bid_px = Some 100,
        bt_best_bid_qty = Some (10 * (int k + 1)), bt_best_ask_px = None, bt_best_ask_qty = None\<rparr>,
      EvAck \<lparr>ak_server_seq = 2 + 2 * of_nat k, ak_client_seq = 1, ak_order_id = 42\<rparr>]"

lemma piled_insert:
  assumes "piled_book k b" and "10 * (int k + 1) \<le> i64_max"
    and "o_id ord = 42" "o_side ord = Buy" "o_price ord = 100" "o_qty_rem ord = 10"
  shows "piled_book (Suc k) (insert_resting S ord b)"
proof -
  obtain key slab where s: "sl_insert S ord (bk_orders b) = (key, slab)" by fastforce
  have sum: "add64 (10 * int k) 10 = 10 * (int k + 1)"
    using assms(2) by (simp add: add64_id i64_ok_def i64_min_def)
  from assms(1) obtain q where q: "length q = k"
    "bk_bids b = (if k = 0 then [] else [(100, \<lparr>lv_queue = q, lv_total = 10 * int k\<rparr>)])"
    by (auto simp: piled_book_def)
  have ix: "map fst (AList.update 42 key (bk_index b)) = [42]"
    using assms(1) by (cases "bk_index b") (auto simp: piled_book_def split: if_splits)
  show ?thesis
    using assms(1,3-) q ix sum
    by (cases "k = 0") (auto simp: insert_resting_def s piled_book_def new_level_def get_or_def intro: exI [of _ "q @ [key]"])
qed

lemma piled_top:
  assumes "piled_book (Suc k) b"
  shows "best_bid b = Some (100, 10 * (int k + 1)) \<and> best_ask b = None \<and> bk_symbol b = 1"
  using assms by (auto simp: piled_book_def best_bid_def best_ask_def bt_last_def bt_first_def)

lemma piled_step:
  assumes "piled k e" and "10 * (int k + 1) \<le> i64_max"
  shows "\<exists>e'. process S timed_order e = Some (iteration_events k, e') \<and> piled (Suc k) e'"
proof -
  define no where "no = (case timed_order of NewOrder n \<Rightarrow> n)"
  have no: "timed_order = NewOrder no" "no_client_seq no = 1" "no_order_id no = 42" "no_account_id no = 7"
    "no_symbol_id no = 1" "no_side no = Buy" "no_price no = 100" "no_qty no = 10" "no_tif no = Gtc" "\<not> post_only (no_flags no)"
    by (simp_all add: no_def timed_order_def)
  have b: "bk_symbol (en_book e) = 1" "best_ask (en_book e) = None" "en_accounts e = new_account_manager default_risk_limits"
    using assms(1) by (simp_all add: piled_def piled_book_def best_ask_def bt_first_def)
  have risk: "check_risk (new_account_manager default_risk_limits) 7 Buy 10 = Inr ()"
    by (simp add: check_risk_def get_limits_def get_position_def new_account_manager_def default_risk_limits_def get_or_def
        default_position_def add64_def neg64_def wrap64_def Let_def)
  let ?e = "rest_order S no 10 e"
  have new: "process S timed_order e = Some (top_and_ack no [] ?e)"
    by (simp add: no b risk handle_new_def Let_def)
  have p: "piled_book (Suc k) (en_book ?e)"
    using assms piled_insert [of k "en_book e" "order_of no 10" S] no by (simp add: piled_def rest_order_def order_of_def)
  have "top_and_ack no [] ?e = (iteration_events k, ?e\<lparr>en_server_seq := 1 + 2 * of_nat (Suc k)\<rparr>)"
    using assms(1) piled_top [OF p] no
    by (simp add: top_and_ack_def book_top_event_def ack_ev_def next_seq_def iteration_events_def piled_def rest_order_def Let_def)
  with new p b(3) show ?thesis by (simp add: piled_def rest_order_def)
qed

lemma piled_iterations:
  assumes "piled k e" and "10 * (int k + int n) \<le> i64_max"
  shows "\<exists>e'. timed_iterations S n e = Some (map iteration_events [k..<k + n], e') \<and> piled (k + n) e'"
  using assms
proof (induction n arbitrary: k e)
  case (Suc n)
  from piled_step [OF Suc.prems(1)] Suc.prems(2) obtain e1 where
    e1: "process S timed_order e = Some (iteration_events k, e1)" "piled (Suc k) e1" by fastforce
  from Suc.IH [OF this(2)] Suc.prems(2) e1(1) show ?case
    by (auto simp: upt_conv_Cons simp del: upt_Suc)
qed simp

text \<open>the engine benchmark measures what its name says, the acceptance of an order, with the events of a resting
  order in every iteration and never a fill or a reject. But the iterations are not alike: each leaves one more
  order in the book, all under one number, of which the index knows only the last.\<close>

theorem engine_bench_piles_up:
  assumes "new_engine S now default_metrics default_engine_config d snaps = Some e0" and "10 * int n \<le> i64_max"
  shows "\<exists>e. bench_engine_process S now n d snaps = Some (map iteration_events [0..<n], e) \<and>
    (0 < n \<longrightarrow> (\<exists>q. bk_bids (en_book e) = [(100, \<lparr>lv_queue = q, lv_total = 10 * int n\<rparr>)] \<and> length q = n) \<and>
      map fst (bk_index (en_book e)) = [42])"
proof -
  have "piled 0 e0"
    using new_engine_core [OF assms(1)] assms(1)
    by (auto simp: piled_def piled_book_def core_def new_book_def new_engine_def split: prod.splits sum.splits)
  from piled_iterations [OF this, of n S] assms show ?thesis
    by (auto simp: bench_engine_process_def piled_def piled_book_def)
qed

section \<open>The codec\<close>

definition timed_payload :: "u8 list" where
  "timed_payload =
     to_le (1 :: u16) @ to_le (1 :: u64) @ to_le (123 :: u64) @ to_le (7 :: u32) @ to_le (1 :: u32) @ [0] @
     to_le (100 :: u64) @ to_le (10 :: u64) @ [0] @ [0]"

definition bench_decode_new_order :: "bytes_crate \<Rightarrow> proto_error + command" where
  "bench_decode_new_order B = decode_command B timed_payload"

lemma decode_bench_succeeds:
  assumes "buf_laws B"
  shows "bench_decode_new_order B =
    Inr (NewOrder \<lparr>no_client_seq = 1, no_order_id = 123, no_account_id = 7, no_symbol_id = 1, no_side = Buy,
      no_price = 100, no_qty = 10, no_tif = Gtc, no_flags = \<lparr>post_only = False\<rparr>\<rparr>)" (is "_ = Inr ?cmd")
proof -
  have "timed_payload = command_bytes ?cmd @ []" "command_wf ?cmd"
    by (simp_all add: timed_payload_def i64_bytes_def flag_byte_def i64_ok_def i64_min_def i64_max_def)
  then show ?thesis
    unfolding bench_decode_new_order_def using buf_laws.decode_command_iff [OF assms] by blast
qed

theorem engine_bench_piles_up_witness:
  "\<exists>e q. bench_engine_process vec_slab 0 3 empty_disk empty_disk = Some (map iteration_events [0..<3], e) \<and>
    bk_bids (en_book e) = [(100, \<lparr>lv_queue = q, lv_total = 30\<rparr>)] \<and> length q = 3"
proof -
  obtain e0 where "new_engine vec_slab 0 default_metrics default_engine_config empty_disk empty_disk = Some e0"
    by (simp add: new_engine_def open_with_config_def open_create_def io_bind_def os_unit_def os_call_def empty_disk_def)
  from engine_bench_piles_up [OF this, of 3] show ?thesis by (auto simp: i64_max_def)
qed

end
