(* ===== verification/Spec2Isabelle.thy ===== *)
theory Spec2Isabelle
  imports BookProps EngineProps JournalProps CodecProps GatewayProps ReconcileProps EngineServer ClientProps
    TestClientProps GatewayTests ServeProps AdminServer EngineLinkProps Benches
begin

text \<open>
  A verification library for the trading system: a gateway that checks and routes the orders of its
  clients, and one engine process per symbol that matches them.

  \<^bold>\<open>The program.\<close> A client sends frames to \<open>gateway_server\<close>. The read loop of its connection
  (\<open>client_handler.rs\<close>) decodes a command (\<open>codecs\<close>), answers queries and authentication itself,
  reserves buying power for an order (\<open>account_manager.rs\<close>), remembers the order with its token and
  routes the command (\<open>engine_router.rs\<close>) to the \<open>engine_server\<close> of its symbol. There the read loop
  puts it into the engine's bounded queue; the engine thread (\<open>engine.rs\<close>) journals it
  (\<open>persistence\<close>), executes it on its order book (\<open>order_book.rs\<close>) and its positions
  (\<open>account_manager.rs\<close> of the engine), and emits events, which travel back and settle or release the
  gateway's reservations. Both processes recover from a snapshot and a journal when they start, and the
  gateway then asks the engines for their live orders (\<open>reconciliation.rs\<close>).

  \<^bold>\<open>Theories and code.\<close> Each theory's header names the file it models; definitions keep the code's
  names, with a prefix where two crates use the same one (\<open>gw_\<close>, \<open>acct_\<close>).
  \<^item> \<open>Prelude\<close>, \<open>Decimal\<close>: \<open>i64\<close> as integers with an explicit wrap (\<open>add64\<close>, \<open>mul64\<close>), ordered and
    hashed maps as association lists, decimal text of \<open>format!\<close>.
  \<^item> \<open>CommonTypes\<close>, \<open>Metrics\<close>: \<open>crates/common\<close>.
  \<^item> \<open>SlabSpec\<close>, \<open>OrderBook\<close>: \<open>engine/src/order_book.rs\<close>; the slab crate is the parameter \<open>S\<close> under the
    laws of \<open>order_slab\<close>. \<open>BookInv\<close> states the well-formedness of a book, \<open>BookSpec\<close> the abstract book (two
    lists in priority order) and price-time matching on it, \<open>BookOps\<close>, \<open>BookMatch\<close>, \<open>BookFacts\<close> relate
    the two, \<open>BookProps\<close> holds the properties.
  \<^item> \<open>EngineAccounts\<close>, \<open>Engine\<close>: \<open>engine/src/account_manager.rs\<close>, \<open>engine.rs\<close>, \<open>types.rs\<close>.
    \<open>EngineSpec\<close>, \<open>EngineInv\<close>, \<open>EngineCommands\<close>: the abstract exchange and the refinement of every
    command; \<open>EngineReplay\<close>, \<open>EngineRecovery\<close>, \<open>EngineWire\<close>: replay, restart from the journal, and a
    concrete serialization; \<open>EngineProps\<close> the properties.
  \<^item> \<open>Bytes\<close>, \<open>Journal\<close>, \<open>Snapshots\<close>, \<open>JournalFacts\<close>, \<open>JournalProps\<close>: \<open>persistence/src/lib.rs\<close> on a disk
    with a schedule of faults.
  \<^item> \<open>Codec\<close>, \<open>CodecFacts\<close>, \<open>CodecProps\<close>: \<open>crates/codecs\<close>; \<open>ProtocolWire\<close>: the messages between gateway
    and engine as bytes.
  \<^item> \<open>GatewayAccounts\<close>, \<open>GatewayPersistence\<close>, \<open>GatewaySessions\<close>, \<open>EngineRouter\<close>, \<open>Gateway\<close>,
    \<open>GatewayMain\<close>: the files of \<open>gateway_server/src\<close>; \<open>GatewayLedger\<close> the contract of the reservations,
    \<open>GatewaySystem\<close> the interleaved steps of connections and of the response task, \<open>GatewayProps\<close> and
    \<open>ReconcileProps\<close> the properties.
    \<open>GatewayServe\<close>, \<open>ServeProps\<close>: \<open>config.rs\<close>, the start and the listeners of \<open>main.rs\<close>.
    \<open>EngineReader\<close> is the reader task of a router's connection with its ends.
  \<^item> \<open>EngineServer\<close>, \<open>AdminServer\<close>: \<open>engine_server/src\<close>. \<open>EngineLink\<close> has the same process with its three
    parts interleaved and a connection that may break; \<open>EngineLinkFacts\<close> its invariants towards a sequential
    server, \<open>EngineLinkProps\<close> the properties.
  \<^item> \<open>Stack\<close>: gateway, router, engine server and engine as one function from a client's frame to the frames
    sent back. \<open>Exchange\<close> states what the stack promises on commands and events, without bytes, queues and
    routing; \<open>EngineAgree\<close>, \<open>StackSim\<close>, \<open>StackRefines\<close>, \<open>StackClient\<close> prove the simulation.
  \<^item> \<open>Client\<close>, \<open>Scenarios\<close>: \<open>bench/src/main.rs\<close>, the wire of its clients and its scenarios and benchmarks;
    \<open>ClientFacts\<close>, \<open>Conversations\<close>, \<open>JsonWire\<close>, \<open>ScenarioProps\<close>, \<open>BenchProps\<close>, \<open>ClientProps\<close> run them against
    the stack, through the exchange it refines.
  \<^item> \<open>TestClient\<close>, \<open>TestClientProps\<close>: \<open>test_client/src\<close> and its runs against the stack.
  \<^item> \<open>EngineTests\<close>, \<open>GatewayTests\<close>: the unit tests of the crates as statements over the model.
  \<^item> \<open>Benches\<close>: what the criterion benchmarks time.

  \<^bold>\<open>What is shown.\<close> The order book refines price-time priority matching for every operation; the
  engine refines the abstract exchange; received, restored and replayed, it keeps an uncrossed book and never
  panics as long as commands are admissible; it numbers its events consecutively and conserves positions; a
  restart on the journal of a run on fault-free disks that ends before its first snapshot and its first rotation
  (100000 and 1000000 commands by default) is exact, but for cancels that name another symbol, which replay
  treats differently; journal and snapshots lose nothing on a disk without faults and a cut journal reads as a
  prefix or an error; the decoder accepts exactly the encodings; the gateway's accounts hold back
  exactly the tokens of their pending orders in orderly steps, a burst of orders cannot spend more
  than the account has, only registered keys authenticate, and reconciliation restores the sums the
  engines report. This theory composes the parts: what the gateway reserves covers what the engine
  trades, and a routed command comes back as the events of its execution. The whole stack refines the exchange, so
  what the smoke scenarios, the benchmarks and the test client get from a fresh stack is computed and
  proved, the unit tests hold of the model, and an accepted connection inherits nothing. For the engine
  process every interleaving of its tasks is covered: commands are executed in order, the gateway reads a
  prefix of their events, what was accepted can always be executed and delivered while the connection works, a
  broken write half stops the engine, and a restart recovers all but the batch that was not written. Behaviour that is not what
  the code means is stated and proved as well, in the property or lemma that shows it.

  \<^bold>\<open>Bounds.\<close> Loops are recursion on data or on quantities that decrease: the matching loop ends by a
  measure on the queued orders and the quantity left, without an assumption. \<open>u64\<close> counters and
  identifiers are words; \<open>i64\<close> arithmetic wraps as in a release build, and a division that
  panics gives \<open>None\<close>. Where a theorem needs that values fit (\<open>admissible\<close>, \<open>sane_order\<close>), it says so.
  \<open>admissible\<close> also asks for an order id that is not live, which the engine does not check:
  \<open>EngineProps.duplicate_id_lost\<close> shows what happens otherwise.

  \<^bold>\<open>Parameters.\<close> The slab crate (\<open>order_slab\<close>), serde with postcard and JSON (\<open>serde\<close>, \<open>wire\<close>), the bytes
  crate (\<open>buf_laws\<close>) and the checksum are arguments of the model; each contract has a concrete
  instance (\<open>vec_slab\<close>, the wires, \<open>le_crate\<close>) on which the witnesses run.

  \<^bold>\<open>Not modelled.\<close> TCP, HTTP and the schedulers (tokio, axum). The engine process is modelled at the grain
  of its awaits; in the gateway a step handles one frame or one message without interruption, frames arrive
  whole and have no size limit; a client's peer is a function from what it writes to what it then finds in its
  inbox. The parsing of arguments (clap) and of the text of the engines file (toml). Of the unit tests,
  \<open>test_engines_config_parse\<close> (the TOML parser) and \<open>test_routing_table\<close> (a map of its own) of
  \<open>engine_router.rs\<close>. Log output, measured times, most printed lines,
  and the criterion harness. Time is an argument. Integer overflow checks of debug builds. What a panic of the
  engine thread leaves behind: the model stops there.
\<close>

section \<open>The gateway's reservation covers the engine's trades\<close>

fun spent :: "event list \<Rightarrow> int" where
  "spent [] = 0"
| "spent (EvFill f # evs) = fi_price f * fi_qty f + spent evs"
| "spent (_ # evs) = spent evs"

lemma spent_append [simp]: "spent (xs @ ys) = spent xs + spent ys"
  by (induction xs rule: spent.induct) simp_all

lemma spent_fill_events:
  "spent (fill_events no symb sq fs) = (\<Sum>f \<leftarrow> fs. mf_price f * mf_qty f)"
  by (induction fs arbitrary: sq) simp_all

lemma spent_le:
  assumes "\<forall>f \<in> set fs. 0 < mf_qty f \<and> mf_price f \<le> px"
  shows "(\<Sum>f \<leftarrow> fs. mf_price f * mf_qty f) \<le> px * filled fs"
  using assms
proof (induction fs)
  case (Cons f fs)
  then have "mf_price f * mf_qty f \<le> px * mf_qty f" by (intro mult_right_mono) auto
  moreover have "(\<Sum>f \<leftarrow> fs. mf_price f * mf_qty f) \<le> px * filled fs" using Cons by simp
  ultimately show ?case by (simp only: list.map sum_list.Cons filled_simps distrib_left add_mono)
qed simp

lemma spec_new_trades:
  "snd (spec_new no B) = snd (spec_match (no_order_id no) (no_side no) (no_price no) (no_qty no) (B (opposite (no_side no))))"
  by (simp add: spec_new_def Let_def case_prod_beta)

text \<open>C6: what the gateway reserves for a buy order is enough for all the engine trades on it at once:
  the fills the engine reports cost no more than the token.\<close>

theorem fills_covered_by_reservation:
  assumes "check_and_reserve_order no m = (Inr tok, m')" and "no_side no = Buy" and "sane_order no"
    and slab: "order_slab S" and ok: "engine_ok S e" and adm: "admissible S no e"
    and run: "process S (NewOrder no) e = Some (evs, e')"
  shows "spent evs \<le> tk_amount tok"
proof -
  have amount: "tk_amount tok = no_price no * no_qty no" "0 \<le> no_price no" "0 \<le> no_qty no"
    using check_order_cases(2) [OF assms(1)] assms(2,3) by (auto simp: sane_order_def mul64_id)
  from order_slab.handle_new_ok [OF slab ok adm] run
  have res: "case admission S no e of
      Some r \<Rightarrow> evs = [reject_event (en_server_seq e) (no_client_seq no) (no_order_id no) r] \<and> e' = rejected e
    | None \<Rightarrow> accepts S no e evs e'" by auto
  show ?thesis
  proof (cases "admission S no e")
    case None
    let ?ms = "sides_of S e Sell"
    let ?fs = "snd (spec_match (no_order_id no) Buy (no_price no) (no_qty no) ?ms)"
    have pos: "\<forall>m \<in> set ?ms. 0 < o_qty_rem m"
      using ok side_orders_pos by (auto simp: engine_ok_def)
    have "spent evs = (\<Sum>f \<leftarrow> ?fs. mf_price f * mf_qty f)"
      using res None assms(2)
      by (simp add: accepts_def Let_def spec_new_trades spent_fill_events top_event_def ack_event_def)
    also have "\<dots> \<le> no_price no * filled ?fs"
      using spec_match_fills [OF pos, of "no_order_id no" Buy "no_price no" "no_qty no"]
      by (intro spent_le) (auto simp: not_less)
    also have "\<dots> \<le> no_price no * no_qty no"
      using spec_match_bounds [OF pos amount(3)] amount(2) by (intro mult_left_mono) auto
    finally show ?thesis using amount(1) by simp
  next
    case (Some r)
    with res amount show ?thesis by (simp add: reject_event_def)
  qed
qed

definition ex_funded :: account_table where
  "ex_funded = \<lparr>gm_accounts = [(20, new_gw_account 20 1000)], gm_next_seq = 1, gm_journal = None\<rparr>"

lemma ex_funded_reserved:
  "\<exists>tok m'. check_and_reserve_order (ex_new 9 20 Buy 100 6) ex_funded = (Inr tok, m') \<and> tk_amount tok = 600"
  by (simp add: check_and_reserve_order_def ex_funded_def new_gw_account_def ga_get_risk_limits_def get_or_def
      default_risk_limits_def abs64_def ga_get_position_def default_position_def add64_id mul64_id sub64_id
      neg64_id i64_ok_def i64_min_def i64_max_def Let_def)

theorem fills_covered_by_reservation_witness:
  "\<exists>evs e'. process vec_slab (NewOrder (ex_new 9 20 Buy 100 6)) ex_trading = Some (evs, e') \<and> spent evs \<le> 600"
proof -
  obtain tok m' where tok: "check_and_reserve_order (ex_new 9 20 Buy 100 6) ex_funded = (Inr tok, m')"
    "tk_amount tok = 600" using ex_funded_reserved by blast
  have sane: "sane_order (ex_new 9 20 Buy 100 6)"
    by (simp add: sane_order_def i64_ok_def i64_min_def i64_max_def)
  obtain evs e' where run: "process vec_slab (NewOrder (ex_new 9 20 Buy 100 6)) ex_trading = Some (evs, e')"
    using order_slab.handle_new_ok [OF vec_orders.order_slab_axioms ex_trading_ok ex_admissible] by auto
  from fills_covered_by_reservation [OF tok(1) _ sane vec_orders.order_slab_axioms ex_trading_ok ex_admissible run]
  show ?thesis using tok(2) run by auto
qed

section \<open>A command's way to the engine and back\<close>

lemma routed_frame:
  assumes "er_faults r = []" and "map_of (er_senders r) symb = Some sk" and "sk_fed sk = []"
    and "sd_to P msg = Some bytes"
  shows "\<exists>r' sk'. route_to_engine P msg symb r = (Inr (), r') \<and>
    map_of (er_senders r') symb = Some sk' \<and> sk_fed sk' = [] \<and> sk_sent sk' = sk_sent sk @ [bytes]"
  using assms by (simp add: route_to_engine_def net_call_def put_sink_def Let_def)

lemma server_engine_one:
  assumes "sv_queue s = [inb]" and "order_slab S" and "engine_ok S (sv_engine s)"
    and "admissible_cmd S (in_cmd inb) (sv_engine s)"
  shows "\<exists>d d' evs s'. core d = core (sv_engine s) \<and> en_server_seq d = en_server_seq (sv_engine s) \<and>
    process S (in_cmd inb) d = Some (evs, d') \<and> server_engine S C now ts s = Some s' \<and>
    core (sv_engine s') = core d' \<and> sv_queue s' = [] \<and> sv_frames s' = sv_frames s \<and>
    sv_outbound s' = sv_outbound s @ map (\<lambda>ev. \<lparr>out_conn_id = in_conn_id inb, out_ev = ev\<rparr>) evs"
proof -
  let ?d = "journal_step C now (in_cmd inb) ((sv_engine s)\<lparr>en_metrics := queue_dec (en_metrics (sv_engine s))\<rparr>)"
  have c: "core ?d = core (sv_engine s)" by simp
  have "engine_ok S ?d" "admissible_cmd S (in_cmd inb) ?d"
    using assms(3,4) engine_ok_core [OF c] admissible_cmd_core [OF c] by simp_all
  from order_slab.process_ok [OF assms(2) this] obtain evs d' where p: "process S (in_cmd inb) ?d = Some (evs, d')"
    by blast
  have sq: "en_server_seq ?d = en_server_seq (sv_engine s)" by (simp add: journal_step_def case_prod_beta)
  show ?thesis
    by (intro exI [of _ ?d] exI [of _ d'] exI [of _ evs])
      (use c sq p assms(1) in \<open>simp add: server_engine_def run_step_def Let_def after_command_core\<close>)
qed

text \<open>C7: a command the gateway routes reaches the engine as it was sent, is executed on the engine's
  state, and its events, all of them, numbered consecutively and addressed to the connection the
  command came from, are what the gateway's reader gets back.\<close>

theorem command_round_trip:
  assumes slab: "order_slab S" and ok: "engine_ok S (sv_engine s)" and adm: "admissible_cmd S cmd (sv_engine s)"
    and idle: "sv_queue s = []" "0 < sv_cap s" "sv_outbound s = []"
    and net: "er_faults r = []" "map_of (er_senders r) symb = Some sk" "sk_fed sk = []"
  shows "\<exists>r' sk' bytes d d' evs s'.
    route_to_engine to_engine_serde (execute cmd conn tok) symb r = (Inr (), r') \<and>
    map_of (er_senders r') symb = Some sk' \<and> sk_sent sk' = sk_sent sk @ [bytes] \<and>
    core d = core (sv_engine s) \<and> process S cmd d = Some (evs, d') \<and>
    numbered (en_server_seq (sv_engine s)) evs \<and>
    server_engine S C now ts (server_receive S to_engine_serde bytes s) = Some s' \<and>
    core (sv_engine s') = core d' \<and>
    engine_reader to_gateway_serde (sv_frames (server_tick to_gateway_serde s')) =
      engine_reader to_gateway_serde (sv_frames s) @ map (\<lambda>ev. ClientEvent conn ev None) evs"
proof -
  let ?ex = "\<lparr>ex_command = cmd, ex_conn_id = conn, ex_risk_token = tok\<rparr>"
  let ?msg = "execute cmd conn tok"
  obtain bytes where b: "sd_to to_engine_serde ?msg = Some bytes" using to_engine_bytes by blast
  have rd_msg: "sd_from to_engine_serde bytes = Some (Execute ?ex)"
    using to_engine.from_to [OF b] by (simp add: execute_def)
  let ?s = "server_receive S to_engine_serde bytes s"
  have cap: "length (sv_queue s) < sv_cap s" using idle by simp
  note rx = receive_execute [OF rd_msg cap, of S]
  have c: "core (sv_engine ?s) = core (sv_engine s)" using rx by (simp add: core_def)
  have q: "sv_queue ?s = [\<lparr>in_conn_id = conn, in_cmd = cmd\<rparr>]" using rx(1) idle(1) by simp
  have "engine_ok S (sv_engine ?s)" "admissible_cmd S (in_cmd \<lparr>in_conn_id = conn, in_cmd = cmd\<rparr>) (sv_engine ?s)"
    using ok adm engine_ok_core [OF c] admissible_cmd_core [OF c] by simp_all
  from server_engine_one [OF q slab this, of C now ts] obtain d d' evs s' where
    d: "core d = core (sv_engine ?s)" "en_server_seq d = en_server_seq (sv_engine ?s)"
      "process S cmd d = Some (evs, d')"
    and s': "server_engine S C now ts ?s = Some s'" "core (sv_engine s') = core d'"
      "sv_frames s' = sv_frames s"
      "sv_outbound s' = map (\<lambda>ev. \<lparr>out_conn_id = conn, out_ev = ev\<rparr>) evs"
    using rx(2,3) idle(3) by auto
  have num: "numbered (en_server_seq (sv_engine s)) evs"
    using process_numbers [OF d(3)] d(2) rx(6) by (simp add: numbers_def)
  have rd: "engine_reader to_gateway_serde (sv_frames (server_tick to_gateway_serde s')) =
      engine_reader to_gateway_serde (sv_frames s) @ map (\<lambda>ev. ClientEvent conn ev None) evs"
    using server_tick_reader [OF to_gateway.serde_axioms protocol_serdes_total(2), of s'] s'(3,4)
    by (simp add: comp_def)
  obtain r' sk' where "route_to_engine to_engine_serde ?msg symb r = (Inr (), r')"
    "map_of (er_senders r') symb = Some sk'" "sk_sent sk' = sk_sent sk @ [bytes]"
    using routed_frame [OF net b] by blast
  with d(1,3) c num s'(1,2) rd show ?thesis by metis
qed

definition ex_server :: "order option list engine_server" where
  "ex_server = \<lparr>sv_engine = ex_trading, sv_queue = [], sv_cap = 8, sv_outbound = [], sv_responses = [],
     sv_frames = []\<rparr>"

definition ex_router :: engine_router where
  "ex_router = \<lparr>er_senders = [(1, \<lparr>sk_fed = [], sk_sent = []\<rparr>)], er_faults = []\<rparr>"

definition ex_risk_token :: risk_token where
  "ex_risk_token = \<lparr>rt_account_id = 20, rt_reserved_amount = 600, rt_gateway_seq = 1\<rparr>"

theorem command_round_trip_witness:
  "\<exists>r' sk' bytes evs s'.
    route_to_engine to_engine_serde (execute (NewOrder (ex_new 9 20 Buy 100 6)) 7 ex_risk_token) 1 ex_router =
      (Inr (), r') \<and>
    map_of (er_senders r') 1 = Some sk' \<and> sk_sent sk' = [bytes] \<and> numbered 1 evs \<and>
    server_engine vec_slab ex_codecs 5 5 (server_receive vec_slab to_engine_serde bytes ex_server) = Some s' \<and>
    engine_reader to_gateway_serde (sv_frames (server_tick to_gateway_serde s')) =
      map (\<lambda>ev. ClientEvent 7 ev None) evs"
proof -
  have "engine_ok vec_slab (sv_engine ex_server)"
    "admissible_cmd vec_slab (NewOrder (ex_new 9 20 Buy 100 6)) (sv_engine ex_server)"
    using ex_trading_ok ex_admissible by (simp_all add: ex_server_def)
  moreover have "sv_queue ex_server = []" "0 < sv_cap ex_server" "sv_outbound ex_server = []"
    "er_faults ex_router = []" "map_of (er_senders ex_router) 1 = Some \<lparr>sk_fed = [], sk_sent = []\<rparr>"
    "en_server_seq (sv_engine ex_server) = 1" "engine_reader to_gateway_serde (sv_frames ex_server) = []"
    by (simp_all add: ex_server_def ex_router_def engine_reader_def List.map_filter_simps)
  ultimately show ?thesis
    using command_round_trip [OF vec_orders.order_slab_axioms, of ex_server
        "NewOrder (ex_new 9 20 Buy 100 6)" ex_router 1 "\<lparr>sk_fed = [], sk_sent = []\<rparr>" 7 ex_risk_token
        ex_codecs 5 5]
    by fastforce
qed

end
